(* ===== verification/Prelude.thy ===== *)
theory Prelude
  imports Main "HOL-Library.Finite_Map" "HOL-Library.Word" "HOL-Library.List_Lexorder"
    "HOL-Library.Char_ord"
begin

text \<open>
  Shared vocabulary of the development: the ordered and hashed containers of Qt as finite
  maps with a key listing, unique identifiers, decimal printing as \<^verbatim>\<open>QString::arg\<close> does it,
  and the generic lemmas on them. Collections: \<open>qmap_simps\<close> rewrites look-ups and key lists,
  \<open>vein_defs\<close> collects the definitions of one-line accessors and setters, \<open>inv_intros\<close>
  the preservation lemmas of the components' invariants.
\<close>

named_theorems qmap_simps \<open>look-up and key-list rules of the container model\<close>
named_theorems vein_defs \<open>definitions of accessors, setters and constructors\<close>
named_theorems inv_intros \<open>preservation of the component invariants\<close>

section \<open>Containers\<close>

text \<open>
  \<^verbatim>\<open>QMap\<close> and \<^verbatim>\<open>QHash\<close> are finite maps. \<open>qkeys\<close> lists the keys in increasing order, which is
  \<^verbatim>\<open>QMap::keys\<close>. For \<^verbatim>\<open>QHash\<close> Qt leaves the order open; the model takes the same order, and
  no property of the development depends on it.
\<close>

type_synonym ('k, 'v) qmap = "('k, 'v) fmap"

definition qkeys :: "('k::linorder, 'v) qmap \<Rightarrow> 'k list" where
  "qkeys m = sorted_list_of_fset (fmdom m)"

text \<open>\<^verbatim>\<open>value(key, defaultValue)\<close>.\<close>

definition qvalue :: "('k, 'v) qmap \<Rightarrow> 'k \<Rightarrow> 'v \<Rightarrow> 'v" where
  "qvalue m k d = (case fmlookup m k of None \<Rightarrow> d | Some v \<Rightarrow> v)"

definition qcontains :: "('k, 'v) qmap \<Rightarrow> 'k \<Rightarrow> bool" where
  "qcontains m k = (fmlookup m k \<noteq> None)"

definition qvalues :: "('k::linorder, 'v) qmap \<Rightarrow> 'v list" where
  "qvalues m = List.map_filter (fmlookup m) (qkeys m)"

lemma set_qkeys [simp]: "set (qkeys m) = fset (fmdom m)"
  by (simp add: qkeys_def)

lemma distinct_qkeys [simp]: "distinct (qkeys m)"
  by (simp add: qkeys_def sorted_list_of_fset.rep_eq)

lemma sorted_qkeys [simp]: "sorted (qkeys m)"
  by (simp add: qkeys_def sorted_list_of_fset.rep_eq)

lemma qkeys_fmempty [simp, qmap_simps]: "qkeys fmempty = []"
  by (simp add: qkeys_def sorted_list_of_fset.rep_eq)

lemma qkeys_fmupd [qmap_simps]: "qkeys (fmupd k v m) = insort k (remove1 k (qkeys m))"
  by (simp add: qkeys_def sorted_list_of_fset.rep_eq sorted_list_of_set_insert_remove
      sorted_list_of_set_remove)

lemma qkeys_eq_Nil [simp]: "qkeys m = [] \<longleftrightarrow> m = fmempty"
proof
  assume "qkeys m = []"
  then have "k \<notin> fset (fmdom m)" for k using set_qkeys [of m] by simp
  then have "fmlookup m k = fmlookup fmempty k" for k by (simp add: fmdom_notD)
  then show "m = fmempty" by (rule fmap_ext)
qed simp

lemma qkeys_lookup: "k \<in> set (qkeys m) \<longleftrightarrow> (\<exists>v. fmlookup m k = Some v)"
  by (auto simp: fmlookup_dom_iff)

lemma qcontains_iff [simp]: "qcontains m k \<longleftrightarrow> k |\<in>| fmdom m"
  by (simp add: qcontains_def fmlookup_dom_iff)

lemma qvalue_fmempty [simp, qmap_simps]: "qvalue fmempty k d = d"
  by (simp add: qvalue_def)

lemma qvalue_fmupd [simp, qmap_simps]:
  "qvalue (fmupd k v m) k' d = (if k = k' then v else qvalue m k' d)"
  by (simp add: qvalue_def)

lemma qvalue_fmdrop [simp, qmap_simps]:
  "qvalue (fmdrop k m) k' d = (if k = k' then d else qvalue m k' d)"
  by (simp add: qvalue_def)

lemma qvalue_Some: "fmlookup m k = Some v \<Longrightarrow> qvalue m k d = v"
  by (simp add: qvalue_def)

lemma qvalue_None: "fmlookup m k = None \<Longrightarrow> qvalue m k d = d"
  by (simp add: qvalue_def)

lemma set_qvalues: "set (qvalues m) = fset (fmran m)"
proof (rule set_eqI)
  fix v
  have "v \<in> set (qvalues m) \<longleftrightarrow> (\<exists>k. fmlookup m k = Some v)"
    by (force simp: qvalues_def List.map_filter_def fmlookup_dom_iff)
  then show "v \<in> set (qvalues m) \<longleftrightarrow> v \<in> fset (fmran m)"
    by (simp add: fmlookup_ran_iff)
qed

text \<open>The two maps below agree as finite maps when their look-ups agree on every key.\<close>

lemma fmupd_same: "fmlookup m k = Some v \<Longrightarrow> fmupd k v m = m"
  by (rule fmap_ext) auto

lemma fmap_eqI: "(\<And>k. fmlookup m k = fmlookup n k) \<Longrightarrow> m = n"
  by (rule fmap_ext)

section \<open>Unique identifiers\<close>

text \<open>
  \<^verbatim>\<open>QUuid\<close>: the code compares identifiers, tests for the null identifier and uses them as
  hash keys; fresh ones come from \<^verbatim>\<open>QUuid::createUuid\<close>, which the model takes as an input of
  the operation that calls it.
\<close>

datatype quuid = Uuid nat

definition null_uuid :: quuid where
  "null_uuid = Uuid 0"

fun uuid_num :: "quuid \<Rightarrow> nat" where
  "uuid_num (Uuid n) = n"

lemma uuid_num_inject [simp]: "uuid_num a = uuid_num b \<longleftrightarrow> a = b"
  by (cases a; cases b) simp

instantiation quuid :: linorder
begin

definition less_eq_quuid :: "quuid \<Rightarrow> quuid \<Rightarrow> bool" where
  "less_eq_quuid a b = (uuid_num a \<le> uuid_num b)"

definition less_quuid :: "quuid \<Rightarrow> quuid \<Rightarrow> bool" where
  "less_quuid a b = (uuid_num a < uuid_num b)"

instance
  by standard (auto simp: less_eq_quuid_def less_quuid_def)

end

section \<open>Decimal printing\<close>

fun nat_digits :: "nat \<Rightarrow> string" where
  "nat_digits n =
     (if n < 10 then [char_of (n + 48)] else nat_digits (n div 10) @ [char_of (n mod 10 + 48)])"

declare nat_digits.simps [simp del]

definition int_digits :: "int \<Rightarrow> string" where
  "int_digits i = (if i < 0 then ''-'' @ nat_digits (nat (- i)) else nat_digits (nat i))"

lemma nat_digits_nonempty [simp]: "nat_digits n \<noteq> []"
  by (subst nat_digits.simps) simp

lemma int_digits_nonempty [simp]: "int_digits i \<noteq> []"
  by (simp add: int_digits_def)

section \<open>Lists\<close>

lemma removeAll_filter: "removeAll x xs = filter (\<lambda>y. y \<noteq> x) xs"
  by (induction xs) auto

text \<open>Append an element unless it is present already.\<close>

definition append_new :: "'a \<Rightarrow> 'a list \<Rightarrow> 'a list" where
  "append_new x xs = (if x \<in> set xs then xs else xs @ [x])"

lemma set_append_new [simp]: "set (append_new x xs) = insert x (set xs)"
  by (auto simp: append_new_def)

lemma distinct_append_new [simp]: "distinct xs \<Longrightarrow> distinct (append_new x xs)"
  by (simp add: append_new_def)

end
