(* ===== verification/QtModel.thy ===== *)
theory QtModel
  imports Prelude
begin

text \<open>
  The part of Qt the program relies on. \<^verbatim>\<open>QVariant\<close> is a tagged union of the value types that
  travel through vein; its conversions, its equality and its binary form belong to Qt and are
  therefore fields of the record \<open>qt_lib\<close>, an argument of every definition that uses them.
  What a property needs of them is a named hypothesis (\<open>qt_conv_ok\<close>, \<open>variant_streams\<close>,
  \<open>vmap_streams\<close>), which \<open>qt_ref\<close>, a concrete instance, satisfies.
\<close>

type_synonym byte = "8 word"
type_synonym bytes = "byte list"

text \<open>
  An input stream is the bytes left to read and the flag that no read has failed so far
  (\<^verbatim>\<open>status() == Ok\<close>). A reader returns the value it read and the stream behind it.
\<close>

type_synonym in_stream = "bytes \<times> bool"
type_synonym 'a reader = "in_stream \<Rightarrow> 'a \<times> in_stream"

datatype qvariant =
    QInvalid
  | QBool bool
  | QInt int
  | QUInt int
  | QDouble "64 word"
  | QStr string
  | QBytes bytes
  | QUuidV quuid
  | QStrList "string list"
  | QIntList "int list"
  | QDoubleList "64 word list"
  | QFloat "32 word"
  | QListV "qvariant list"
  | QMapV "(string, qvariant) fmap"

type_synonym qvariant_map = "(string, qvariant) qmap"

text \<open>\<^verbatim>\<open>QVariant::isValid\<close>: everything but the default-constructed variant.\<close>

definition qv_valid :: "qvariant \<Rightarrow> bool" where
  "qv_valid v = (v \<noteq> QInvalid)"

lemma qv_valid_simps [simp]:
  "\<not> qv_valid QInvalid" "qv_valid (QBool b)" "qv_valid (QInt i)" "qv_valid (QStr s)"
  "qv_valid (QUuidV u)" "qv_valid (QStrList l)" "qv_valid (QIntList k)" "qv_valid (QMapV m)"
  by (simp_all add: qv_valid_def)

record qt_lib =
  qtEq :: "qvariant \<Rightarrow> qvariant \<Rightarrow> bool"            \<comment> \<open>\<^verbatim>\<open>QVariant::operator==\<close>\<close>
  qtToString :: "qvariant \<Rightarrow> string"
  qtToBool :: "qvariant \<Rightarrow> bool"
  qtToUuid :: "qvariant \<Rightarrow> quuid"
  qtToMap :: "qvariant \<Rightarrow> qvariant_map"
  qtCanConvertList :: "qvariant \<Rightarrow> bool"             \<comment> \<open>\<^verbatim>\<open>canConvert(QVariantList)\<close>\<close>
  qtToList :: "qvariant \<Rightarrow> qvariant list"
  qtCanConvertMap :: "qvariant \<Rightarrow> bool"              \<comment> \<open>\<^verbatim>\<open>canConvert(QVariantMap)\<close>\<close>
  qtIsNull :: "qvariant \<Rightarrow> bool"                      \<comment> \<open>\<^verbatim>\<open>QVariant::isNull\<close>\<close>
  qtTypeName :: "qvariant \<Rightarrow> string"
  qtPutVariant :: "qvariant \<Rightarrow> bytes"                \<comment> \<open>\<^verbatim>\<open>QDataStream << QVariant\<close>\<close>
  qtGetVariant :: "qvariant reader"
  qtPutVMap :: "qvariant_map \<Rightarrow> bytes"              \<comment> \<open>\<^verbatim>\<open>QDataStream << QVariantMap\<close>\<close>
  qtGetVMap :: "qvariant_map reader"

text \<open>
  Documented behaviour of Qt. The conversions return the stored value when the stored type is
  the requested one; a variant of a type registered with the stream operators is read back as
  it was written, leaving the rest of the stream.
\<close>

definition qt_conv_ok :: "qt_lib \<Rightarrow> bool" where
  "qt_conv_ok qt \<longleftrightarrow>
     (\<forall>s. qtToString qt (QStr s) = s) \<and> qtToString qt QInvalid = '''' \<and>
     (\<forall>b. qtToBool qt (QBool b) = b) \<and> (\<forall>u. qtToUuid qt (QUuidV u) = u) \<and>
     (\<forall>m. qtToMap qt (QMapV m) = m)"

definition variant_streams :: "qt_lib \<Rightarrow> qvariant \<Rightarrow> bool" where
  "variant_streams qt v \<longleftrightarrow> (\<forall>r ok. qtGetVariant qt (qtPutVariant qt v @ r, ok) = (v, r, ok))"

definition vmap_streams :: "qt_lib \<Rightarrow> qvariant_map \<Rightarrow> bool" where
  "vmap_streams qt m \<longleftrightarrow> (\<forall>r ok. qtGetVMap qt (qtPutVMap qt m @ r, ok) = (m, r, ok))"

text \<open>
  A concrete instance, for witnesses: structural equality and one-byte tags for the values a
  witness streams.
\<close>

fun ref_to_string :: "qvariant \<Rightarrow> string" where
  "ref_to_string (QStr s) = s"
| "ref_to_string (QInt i) = int_digits i"
| "ref_to_string (QBool b) = (if b then ''true'' else ''false'')"
| "ref_to_string _ = ''''"

fun ref_to_bool :: "qvariant \<Rightarrow> bool" where
  "ref_to_bool (QBool b) = b"
| "ref_to_bool (QInt i) = (i \<noteq> 0)"
| "ref_to_bool _ = False"

fun ref_to_uuid :: "qvariant \<Rightarrow> quuid" where
  "ref_to_uuid (QUuidV u) = u"
| "ref_to_uuid _ = null_uuid"

fun ref_to_map :: "qvariant \<Rightarrow> qvariant_map" where
  "ref_to_map (QMapV m) = m"
| "ref_to_map _ = fmempty"

fun ref_to_list :: "qvariant \<Rightarrow> qvariant list" where
  "ref_to_list (QListV l) = l"
| "ref_to_list (QStrList l) = map QStr l"
| "ref_to_list _ = []"

fun ref_can_list :: "qvariant \<Rightarrow> bool" where
  "ref_can_list (QListV l) = True"
| "ref_can_list (QStrList l) = True"
| "ref_can_list _ = False"

fun ref_can_map :: "qvariant \<Rightarrow> bool" where
  "ref_can_map (QMapV m) = True"
| "ref_can_map _ = False"

fun ref_type_name :: "qvariant \<Rightarrow> string" where
  "ref_type_name (QStr s) = ''QString''"
| "ref_type_name (QInt i) = ''int''"
| "ref_type_name (QBool b) = ''bool''"
| "ref_type_name _ = ''other''"

fun ref_put :: "qvariant \<Rightarrow> bytes" where
  "ref_put (QBool b) = [1, if b then 1 else 0]"
| "ref_put (QUuidV (Uuid n)) = [2, of_nat n]"
| "ref_put _ = [0]"

fun ref_get :: "qvariant reader" where
  "ref_get (t # r, ok) =
     (if t = 1 then (case r of [] \<Rightarrow> (QInvalid, [], False) | b # s \<Rightarrow> (QBool (b = 1), s, ok))
      else if t = 2
      then (case r of [] \<Rightarrow> (QInvalid, [], False) | b # s \<Rightarrow> (QUuidV (Uuid (unat b)), s, ok))
      else (QInvalid, r, ok))"
| "ref_get ([], ok) = (QInvalid, [], False)"

text \<open>The empty map is streamed as one byte, a map with the single entry \<open>''a''\<close> as two.\<close>

definition ref_put_map :: "qvariant_map \<Rightarrow> bytes" where
  "ref_put_map m =
     (case fmlookup m ''a'' of Some (QBool b) \<Rightarrow> [1, if b then 1 else 0] | _ \<Rightarrow> [0])"

fun ref_get_map :: "qvariant_map reader" where
  "ref_get_map (t # r, ok) =
     (if t = 1 then (case r of [] \<Rightarrow> (fmempty, [], False)
        | b # s \<Rightarrow> (fmupd ''a'' (QBool (b = 1)) fmempty, s, ok))
      else (fmempty, r, ok))"
| "ref_get_map ([], ok) = (fmempty, [], False)"

definition qt_ref :: qt_lib where
  "qt_ref = \<lparr> qtEq = (=), qtToString = ref_to_string, qtToBool = ref_to_bool,
     qtToUuid = ref_to_uuid, qtToMap = ref_to_map, qtCanConvertList = ref_can_list,
     qtToList = ref_to_list, qtCanConvertMap = ref_can_map, qtIsNull = (\<lambda>v. v = QInvalid),
     qtTypeName = ref_type_name, qtPutVariant = ref_put, qtGetVariant = ref_get,
     qtPutVMap = ref_put_map, qtGetVMap = ref_get_map \<rparr>"

lemma qt_ref_sel [simp]:
  "qtEq qt_ref = (=)" "qtToString qt_ref = ref_to_string" "qtToBool qt_ref = ref_to_bool"
  "qtToUuid qt_ref = ref_to_uuid" "qtToMap qt_ref = ref_to_map"
  "qtCanConvertList qt_ref = ref_can_list" "qtToList qt_ref = ref_to_list"
  "qtCanConvertMap qt_ref = ref_can_map"
  "qtIsNull qt_ref = (\<lambda>v. v = QInvalid)" "qtTypeName qt_ref = ref_type_name"
  "qtPutVariant qt_ref = ref_put" "qtGetVariant qt_ref = ref_get"
  "qtPutVMap qt_ref = ref_put_map" "qtGetVMap qt_ref = ref_get_map"
  by (simp_all add: qt_ref_def)

lemma qt_ref_conv_ok [simp]: "qt_conv_ok qt_ref"
  by (simp add: qt_conv_ok_def)

lemma qt_ref_streams [simp]:
  "variant_streams qt_ref QInvalid" "variant_streams qt_ref (QBool b)"
  by (simp_all add: variant_streams_def)

lemma qt_ref_streams_map [simp]:
  "vmap_streams qt_ref fmempty" "vmap_streams qt_ref (fmupd ''a'' (QBool b) fmempty)"
  by (simp_all add: vmap_streams_def ref_put_map_def)

end
