(* ===== verification/VeinEvent.thy ===== *)
theory VeinEvent
  imports QtModel
begin

text \<open>
  framework/vf-event: the base class of every event payload, the command event that carries
  it, and the event handler that offers an event to its subsystems in order until one accepts
  it. The payload type is a parameter here; vf-component instantiates it.
\<close>

section \<open>EventData and CommandEvent\<close>

datatype event_origin = EO_LOCAL | EO_FOREIGN | EO_USER_DEFINED nat

datatype event_target = ET_IRRELEVANT | ET_LOCAL | ET_ALL | ET_USER_DEFINED nat

record event_data =
  edOrigin :: event_origin
  edTarget :: event_target
  edEntityId :: int

definition event_data_new :: event_data where
  "event_data_new = \<lparr> edOrigin = EO_LOCAL, edTarget = ET_IRRELEVANT, edEntityId = -1 \<rparr>"

definition setEventOrigin :: "event_origin \<Rightarrow> 'a event_data_scheme \<Rightarrow> 'a event_data_scheme" where
  "setEventOrigin eo d = d\<lparr>edOrigin := eo\<rparr>"

definition setEventTarget :: "event_target \<Rightarrow> 'a event_data_scheme \<Rightarrow> 'a event_data_scheme" where
  "setEventTarget et d = d\<lparr>edTarget := et\<rparr>"

text \<open>Negative identifiers are ignored.\<close>

definition setEntityId :: "int \<Rightarrow> 'a event_data_scheme \<Rightarrow> 'a event_data_scheme" where
  "setEntityId i d = (if i \<ge> 0 then d\<lparr>edEntityId := i\<rparr> else d)"

lemmas event_data_defs [vein_defs] =
  event_data_new_def setEventOrigin_def setEventTarget_def setEntityId_def

text \<open>
  The subtype is an \<^verbatim>\<open>int\<close> enumeration. A number off the wire is cast to it unchecked, so there
  is a constructor for the codes the enumeration does not name.
\<close>

datatype event_subtype = NOTIFICATION | TRANSACTION | SUBTYPE_CODE int

record 'd command_event =
  cePeerId :: quuid
  ceSubtype :: event_subtype
  ceData :: 'd
  ceAccepted :: bool

definition commandEvent_new :: "event_subtype \<Rightarrow> 'd \<Rightarrow> 'd command_event" where
  "commandEvent_new st d =
     \<lparr> cePeerId = null_uuid, ceSubtype = st, ceData = d, ceAccepted = False \<rparr>"

definition setPeerId :: "quuid \<Rightarrow> 'd command_event \<Rightarrow> 'd command_event" where
  "setPeerId p e = e\<lparr>cePeerId := p\<rparr>"

definition setEventSubtype :: "event_subtype \<Rightarrow> 'd command_event \<Rightarrow> 'd command_event" where
  "setEventSubtype st e = e\<lparr>ceSubtype := st\<rparr>"

definition accept :: "'d command_event \<Rightarrow> 'd command_event" where
  "accept e = e\<lparr>ceAccepted := True\<rparr>"

lemmas command_event_defs [vein_defs] =
  commandEvent_new_def setPeerId_def setEventSubtype_def accept_def

section \<open>EventHandler: the list of subsystems\<close>

text \<open>
  The handler keeps the ordered list of its subsystems; each event system keeps a pointer to
  the handler it is attached to. Systems and handlers are named by identifiers. Every
  operation that adds a system ends in \<open>attach\<close>, which asserts that the system has no handler
  yet (\<open>None\<close> is the failed assertion).
\<close>

record ('i, 'h) handler_world =
  hwSubsystems :: "'i list"
  hwHandlerOf :: "('i, 'h) fmap"

definition attach :: "'h \<Rightarrow> 'i \<Rightarrow> ('i, 'h) handler_world \<Rightarrow> ('i, 'h) handler_world option" where
  "attach h i w =
     (if i |\<in>| fmdom (hwHandlerOf w) then None
      else Some (w\<lparr>hwHandlerOf := fmupd i h (hwHandlerOf w)\<rparr>))"

definition detach :: "'i \<Rightarrow> ('i, 'h) handler_world \<Rightarrow> ('i, 'h) handler_world" where
  "detach i w = w\<lparr>hwHandlerOf := fmdrop i (hwHandlerOf w)\<rparr>"

fun attach_all :: "'h \<Rightarrow> 'i list \<Rightarrow> ('i, 'h) handler_world \<Rightarrow> ('i, 'h) handler_world option" where
  "attach_all h [] w = Some w"
| "attach_all h (i # is) w = Option.bind (attach h i w) (attach_all h is)"

definition setSubsystems ::
  "'h \<Rightarrow> 'i list \<Rightarrow> ('i, 'h) handler_world \<Rightarrow> ('i, 'h) handler_world option" where
  "setSubsystems h is w =
     (if hwSubsystems w \<noteq> is then attach_all h is (w\<lparr>hwSubsystems := is\<rparr>) else Some w)"

definition addSubsystem ::
  "'h \<Rightarrow> 'i \<Rightarrow> ('i, 'h) handler_world \<Rightarrow> ('i, 'h) handler_world option" where
  "addSubsystem h i w =
     (if i \<in> set (hwSubsystems w) then None
      else attach h i (w\<lparr>hwSubsystems := hwSubsystems w @ [i]\<rparr>))"

definition prependSubsystem ::
  "'h \<Rightarrow> 'i \<Rightarrow> ('i, 'h) handler_world \<Rightarrow> ('i, 'h) handler_world option" where
  "prependSubsystem h i w =
     (if i \<in> set (hwSubsystems w) then None
      else attach h i (w\<lparr>hwSubsystems := i # hwSubsystems w\<rparr>))"

definition removeSubsystem :: "'i \<Rightarrow> ('i, 'h) handler_world \<Rightarrow> ('i, 'h) handler_world" where
  "removeSubsystem i w =
     (let w' = detach i w in w'\<lparr>hwSubsystems := removeAll i (hwSubsystems w')\<rparr>)"

definition clearSubsystems :: "('i, 'h) handler_world \<Rightarrow> ('i, 'h) handler_world" where
  "clearSubsystems w = w\<lparr>hwSubsystems := []\<rparr>"

text \<open>Every listed system is attached, and no system is listed twice.\<close>

definition handler_ok :: "('i, 'h) handler_world \<Rightarrow> bool" where
  "handler_ok w \<longleftrightarrow>
     distinct (hwSubsystems w) \<and> set (hwSubsystems w) \<subseteq> fset (fmdom (hwHandlerOf w))"

lemma addSubsystem_ok [inv_intros]:
  "handler_ok w \<Longrightarrow> addSubsystem h i w = Some w' \<Longrightarrow> handler_ok w'"
  by (auto simp: handler_ok_def addSubsystem_def attach_def split: if_splits)

lemma prependSubsystem_ok [inv_intros]:
  "handler_ok w \<Longrightarrow> prependSubsystem h i w = Some w' \<Longrightarrow> handler_ok w'"
  by (auto simp: handler_ok_def prependSubsystem_def attach_def split: if_splits)

lemma removeSubsystem_ok [inv_intros]: "handler_ok w \<Longrightarrow> handler_ok (removeSubsystem i w)"
  by (auto simp: handler_ok_def removeSubsystem_def detach_def Let_def distinct_removeAll)

lemma clearSubsystems_ok [inv_intros]: "handler_ok w \<Longrightarrow> handler_ok (clearSubsystems w)"
  by (simp add: handler_ok_def clearSubsystems_def)

section \<open>Dispatch\<close>

text \<open>
  A subsystem's \<^verbatim>\<open>processEvent\<close> maps the state and the event to the new state, the event as it
  left it (accepted, rewritten, or untouched) and the events it sent. Sent events are posted
  to the queue of the application, behind the ones that wait there.
\<close>

type_synonym ('s, 'e) process_event = "'s \<Rightarrow> 'e \<Rightarrow> 's \<times> 'e \<times> 'e list"

text \<open>
  \<open>customEvent\<close> is the loop of the handler: it stops at the first subsystem that accepts the
  event. The last component of the result counts the subsystems that saw the event.
\<close>

fun customEvent ::
  "('e \<Rightarrow> bool) \<Rightarrow> ('s, 'e) process_event list \<Rightarrow> 's \<Rightarrow> 'e \<Rightarrow> 's \<times> 'e \<times> 'e list \<times> nat" where
  "customEvent acc [] s e = (s, e, [], 0)"
| "customEvent acc (p # ps) s e =
     (if acc e then (s, e, [], 0)
      else let (s1, e1, out1) = p s e;
               (s2, e2, out2, n) = customEvent acc ps s1 e1
           in (s2, e2, out1 @ out2, Suc n))"

text \<open>
  The module handler of the server offers the event to the modules' systems first and then
  runs the loop of its base class, which does nothing for an accepted event.
\<close>

definition moduleCustomEvent ::
  "('e \<Rightarrow> bool) \<Rightarrow> ('s, 'e) process_event list \<Rightarrow> ('s, 'e) process_event list \<Rightarrow> 's \<Rightarrow> 'e \<Rightarrow>
   's \<times> 'e \<times> 'e list \<times> nat" where
  "moduleCustomEvent acc mods core s e =
     (let (s1, e1, out1, n1) = customEvent acc mods s e;
          (s2, e2, out2, n2) = customEvent acc core s1 e1
      in (s2, e2, out1 @ out2, n1 + n2))"

text \<open>
  The application's event loop takes the oldest event, dispatches it and appends what the
  subsystems sent. Fuel bounds the number of events handled, since subsystems may answer each
  other; the result holds the events still waiting.
\<close>

fun run_events ::
  "nat \<Rightarrow> ('e \<Rightarrow> bool) \<Rightarrow> ('s, 'e) process_event list \<Rightarrow> 's \<Rightarrow> 'e list \<Rightarrow> 's \<times> 'e list" where
  "run_events 0 acc ps s q = (s, q)"
| "run_events (Suc n) acc ps s [] = (s, [])"
| "run_events (Suc n) acc ps s (e # q) =
     (let (s1, e1, out, k) = customEvent acc ps s e in run_events n acc ps s1 (q @ out))"

lemma customEvent_accepted [simp]: "acc e \<Longrightarrow> customEvent acc ps s e = (s, e, [], 0)"
  by (cases ps) auto

lemma customEvent_append:
  "customEvent acc (ps @ qs) s e =
     (let (s1, e1, out1, n1) = customEvent acc ps s e;
          (s2, e2, out2, n2) = customEvent acc qs s1 e1
      in (s2, e2, out1 @ out2, n1 + n2))"
  by (induction ps arbitrary: s e) (auto simp: Let_def split: prod.splits)

lemma customEvent_count: "customEvent acc ps s e = (s', e', out, n) \<Longrightarrow> n \<le> length ps"
  by (induction ps arbitrary: s e s' e' out n) (auto split: if_splits prod.splits)

lemma moduleCustomEvent_append:
  "moduleCustomEvent acc mods core s e = customEvent acc (mods @ core) s e"
  by (simp add: moduleCustomEvent_def customEvent_append)

text \<open>
  The contract between a handler and its subsystems: every subsystem keeps an invariant of
  the shared state. Then dispatch and the event loop keep it.
\<close>

locale event_chain =
  fixes acc :: "'e \<Rightarrow> bool"
    and procs :: "('s, 'e) process_event list"
    and inv :: "'s \<Rightarrow> bool"
  assumes proc_inv: "p \<in> set procs \<Longrightarrow> inv s \<Longrightarrow> inv (fst (p s e))"
begin

lemma customEvent_sub_inv:
  "set ps \<subseteq> set procs \<Longrightarrow> inv s \<Longrightarrow> inv (fst (customEvent acc ps s e))"
proof (induction ps arbitrary: s e)
  case Nil
  then show ?case by simp
next
  case (Cons p ps)
  obtain s1 e1 out1 where p: "p s e = (s1, e1, out1)" by (cases "p s e") auto
  have "inv (fst (p s e))" using Cons.prems by (intro proc_inv) auto
  then have "inv s1" using p by simp
  moreover have "set ps \<subseteq> set procs" using Cons.prems(1) by simp
  ultimately have "inv (fst (customEvent acc ps s1 e1))" by (intro Cons.IH)
  then show ?case using Cons.prems p by (auto split: prod.splits)
qed

lemma customEvent_inv: "inv s \<Longrightarrow> inv (fst (customEvent acc procs s e))"
  by (rule customEvent_sub_inv) simp

lemma run_events_inv: "inv s \<Longrightarrow> inv (fst (run_events n acc procs s q))"
proof (induction n arbitrary: s q)
  case 0
  then show ?case by simp
next
  case (Suc n)
  show ?case
  proof (cases q)
    case Nil
    then show ?thesis using Suc.prems by simp
  next
    case (Cons e q')
    obtain s1 e1 out k where c: "customEvent acc procs s e = (s1, e1, out, k)"
      by (cases "customEvent acc procs s e") auto
    have "inv s1" using customEvent_inv [OF Suc.prems, of e] c by simp
    then show ?thesis using Suc.IH [of s1 "q' @ out"] Cons c by simp
  qed
qed

end

end
