(* ===== verification/DataStream.thy ===== *)
theory DataStream
  imports QtModel
begin

unbundle bit_operations_syntax

text \<open>
  The binary form of the scalar types, as \<^verbatim>\<open>QDataStream\<close> documents it: integers big-endian, a
  byte array or string preceded by its length in bytes as a 32-bit number, with \<open>0xFFFFFFFF\<close>
  for the null array or string, a string list as its length and its elements. A read past the
  end yields zero (an empty array, an empty string) and leaves the stream failed and empty.
  The locale \<open>codec\<close> states the law the serialised classes rely on; every scalar codec
  interprets it.
\<close>

section \<open>The codec interface\<close>

locale codec =
  fixes put :: "'a \<Rightarrow> bytes"
    and get :: "'a reader"
    and wf :: "'a \<Rightarrow> bool"
  assumes get_put: "wf x \<Longrightarrow> get (put x @ r, ok) = (x, r, ok)"
begin

lemma get_put_whole: "wf x \<Longrightarrow> get (put x, ok) = (x, [], ok)"
  using get_put [of x "[]" ok] by simp

lemma put_prefix_free: "wf x \<Longrightarrow> wf y \<Longrightarrow> put x @ r = put y @ s \<Longrightarrow> x = y \<and> r = s"
  by (metis get_put prod.inject)

lemma put_inject: "wf x \<Longrightarrow> wf y \<Longrightarrow> put x = put y \<Longrightarrow> x = y"
  by (metis put_prefix_free)

end

text \<open>
  Reading a given number of elements, as the container operators of \<^verbatim>\<open>QDataStream\<close> do: after
  a failed element the container is cleared and the loop left.
\<close>

fun get_seq :: "'a reader \<Rightarrow> nat \<Rightarrow> in_stream \<Rightarrow> 'a list option \<times> in_stream" where
  "get_seq g 0 st = (Some [], st)"
| "get_seq g (Suc n) st =
     (let (x, r, ok) = g st
      in if \<not> ok then (None, r, ok)
         else let (xs, st') = get_seq g n (r, ok) in (map_option ((#) x) xs, st'))"

definition put_seq :: "('a \<Rightarrow> bytes) \<Rightarrow> 'a list \<Rightarrow> bytes" where
  "put_seq p xs = concat (map p xs)"

context codec
begin

lemma get_seq_put:
  "\<forall>x \<in> set xs. wf x \<Longrightarrow>
   get_seq get (length xs) (put_seq put xs @ r, True) = (Some xs, r, True)"
  by (induction xs) (auto simp: put_seq_def get_put Let_def)

end

section \<open>Integers\<close>

definition put_qint8 :: "byte \<Rightarrow> bytes" where
  "put_qint8 b = [b]"

fun get_qint8 :: "byte reader" where
  "get_qint8 ([], ok) = (0, [], False)"
| "get_qint8 (b # r, ok) = (b, r, ok)"

definition be32 :: "32 word \<Rightarrow> bytes" where
  "be32 w = [ucast (drop_bit 24 w), ucast (drop_bit 16 w), ucast (drop_bit 8 w), ucast w]"

fun un_be32 :: "bytes \<Rightarrow> 32 word" where
  "un_be32 [a, b, c, d] =
     push_bit 24 (ucast a) OR push_bit 16 (ucast b) OR push_bit 8 (ucast c) OR ucast d"
| "un_be32 _ = 0"

definition get_quint32 :: "(32 word) reader" where
  "get_quint32 = (\<lambda>(bs, ok).
     if length bs < 4 then (0, [], False) else (un_be32 (take 4 bs), drop 4 bs, ok))"

definition put_qint32 :: "int \<Rightarrow> bytes" where
  "put_qint32 i = be32 (word_of_int i)"

definition get_qint32 :: "int reader" where
  "get_qint32 st = (let (w, st') = get_quint32 st in (sint w, st'))"

definition int32_range :: "int \<Rightarrow> bool" where
  "int32_range i \<longleftrightarrow> - (2 ^ 31) \<le> i \<and> i < 2 ^ 31"

lemma length_be32 [simp]: "length (be32 w) = 4"
  by (simp add: be32_def)

lemma un_be32_be32 [simp]: "un_be32 (be32 w) = w"
proof (rule bit_word_eqI)
  fix n
  assume n: "n < LENGTH(32)"
  consider "n < 8" | "8 \<le> n" "n < 16" | "16 \<le> n" "n < 24" | "24 \<le> n" by linarith
  then show "bit (un_be32 (be32 w)) n \<longleftrightarrow> bit w n"
    using n by cases (auto simp: be32_def bit_simps)
qed

lemma get_quint32_be32 [simp]: "get_quint32 (be32 w @ r, ok) = (w, r, ok)"
  by (simp add: get_quint32_def)

lemma sint_word_of_int32: "int32_range i \<Longrightarrow> sint (word_of_int i :: 32 word) = i"
  by (simp add: int32_range_def sint_sbintrunc' signed_take_bit_int_eq_self)

interpretation qint8: codec put_qint8 get_qint8 "\<lambda>_. True"
  by unfold_locales (simp add: put_qint8_def)

interpretation quint32: codec be32 get_quint32 "\<lambda>_. True"
  by unfold_locales simp

interpretation qint32: codec put_qint32 get_qint32 int32_range
  by unfold_locales (simp add: put_qint32_def get_qint32_def sint_word_of_int32)

section \<open>Byte arrays\<close>

text \<open>\<open>None\<close> is the null \<^verbatim>\<open>QByteArray\<close>.\<close>

type_synonym qbytearray = "bytes option"

definition null_len :: "32 word" where
  "null_len = 0xFFFFFFFF"

definition put_qbytearray :: "qbytearray \<Rightarrow> bytes" where
  "put_qbytearray a =
     (case a of None \<Rightarrow> be32 null_len | Some bs \<Rightarrow> be32 (of_nat (length bs)) @ bs)"

definition get_qbytearray :: "qbytearray reader" where
  "get_qbytearray st =
     (let (len, r, ok) = get_quint32 st
      in if len = null_len then (None, r, ok)
         else if unat len \<le> length r then (Some (take (unat len) r), drop (unat len) r, ok)
         else (None, [], False))"

definition qbytearray_wf :: "qbytearray \<Rightarrow> bool" where
  "qbytearray_wf a \<longleftrightarrow> (case a of None \<Rightarrow> True | Some bs \<Rightarrow> length bs < 2 ^ 32 - 1)"

lemma unat_of_nat32 [simp]: "n < 4294967296 \<Longrightarrow> unat (of_nat n :: 32 word) = n"
  by (simp add: unat_of_nat take_bit_nat_eq_self)

lemma of_nat32_not_null: "n < 4294967295 \<Longrightarrow> (of_nat n :: 32 word) \<noteq> null_len"
proof
  assume n: "n < 4294967295" and "(of_nat n :: 32 word) = null_len"
  then have "unat (of_nat n :: 32 word) = unat null_len" by simp
  then show False using n by (simp add: null_len_def)
qed

lemma get_put_qbytearray:
  "qbytearray_wf a \<Longrightarrow> get_qbytearray (put_qbytearray a @ r, ok) = (a, r, ok)"
  by (cases a)
     (simp_all add: put_qbytearray_def get_qbytearray_def qbytearray_wf_def of_nat32_not_null)

interpretation qba: codec put_qbytearray get_qbytearray qbytearray_wf
  by unfold_locales (rule get_put_qbytearray)

section \<open>Strings\<close>

text \<open>
  Strings of the model hold Latin-1 characters, so a UTF-16 unit has a zero high byte; the
  null and the empty string of Qt, which the program does not tell apart, are both \<open>''''\<close>.
\<close>

fun utf16_units :: "string \<Rightarrow> bytes" where
  "utf16_units [] = []"
| "utf16_units (c # cs) = 0 # of_char c # utf16_units cs"

fun utf16_string :: "bytes \<Rightarrow> string" where
  "utf16_string (hi # lo # r) = char_of (unat lo) # utf16_string r"
| "utf16_string _ = []"

definition put_qstring :: "string \<Rightarrow> bytes" where
  "put_qstring s =
     (if s = [] then be32 null_len else be32 (of_nat (2 * length s)) @ utf16_units s)"

definition get_qstring :: "string reader" where
  "get_qstring st =
     (let (len, r, ok) = get_quint32 st
      in if len = null_len then ('''', r, ok)
         else if odd (unat len) then ('''', r, False)
         else if unat len \<le> length r
         then (utf16_string (take (unat len) r), drop (unat len) r, ok)
         else ('''', [], False))"

definition qstring_wf :: "string \<Rightarrow> bool" where
  "qstring_wf s \<longleftrightarrow> 2 * length s < 2 ^ 32 - 1"

lemma length_utf16_units [simp]: "length (utf16_units s) = 2 * length s"
  by (induction s) auto

lemma unat_of_char [simp]: "unat (of_char c :: byte) = of_char c"
proof -
  have "unat (of_nat (of_char c) :: byte) = of_char c"
    by (simp only: unat_of_nat) (simp add: take_bit_nat_eq_self)
  then show ?thesis by (simp only: of_nat_of_char)
qed

lemma utf16_string_units [simp]: "utf16_string (utf16_units s) = s"
  by (induction s) auto

lemma get_put_qstring: "qstring_wf s \<Longrightarrow> get_qstring (put_qstring s @ r, ok) = (s, r, ok)"
  by (simp add: put_qstring_def get_qstring_def qstring_wf_def of_nat32_not_null
      del: of_nat_mult)

interpretation qstr: codec put_qstring get_qstring qstring_wf
  by unfold_locales (rule get_put_qstring)

text \<open>
  A list of strings. The operator that reads a container starts from a clean status and hands
  an earlier failure back afterwards.
\<close>

definition put_qstringlist :: "string list \<Rightarrow> bytes" where
  "put_qstringlist ss = be32 (of_nat (length ss)) @ put_seq put_qstring ss"

definition get_qstringlist :: "string list reader" where
  "get_qstringlist = (\<lambda>(bs, ok).
     let (n, r, ok1) = get_quint32 (bs, True)
     in if \<not> ok1 then ([], r, False)
        else let (ss, r', ok2) = get_seq get_qstring (unat n) (r, True)
             in (case ss of None \<Rightarrow> [] | Some l \<Rightarrow> l, r', ok \<and> ok2))"

definition qstringlist_wf :: "string list \<Rightarrow> bool" where
  "qstringlist_wf ss \<longleftrightarrow> length ss < 2 ^ 32 \<and> (\<forall>s \<in> set ss. qstring_wf s)"

lemma get_put_qstringlist:
  "qstringlist_wf ss \<Longrightarrow> get_qstringlist (put_qstringlist ss @ r, ok) = (ss, r, ok)"
  by (simp add: put_qstringlist_def get_qstringlist_def qstringlist_wf_def qstr.get_seq_put)

interpretation qsl: codec put_qstringlist get_qstringlist qstringlist_wf
  by unfold_locales (rule get_put_qstringlist)

text \<open>The reading rules of all codecs, for the round trips of the serialised classes.\<close>

lemmas stream_rules =
  qint8.get_put [OF TrueI] qint32.get_put qint32.get_put_whole qba.get_put qstr.get_put
  qstr.get_put_whole qsl.get_put qsl.get_put_whole

end
