(* ===== verification/VeinComponent.thy ===== *)
theory VeinComponent
  imports VeinEvent DataStream
begin

text \<open>
  framework/vf-component: the five event payloads, each a record that extends
  \<open>event_data\<close>, with their setters, validity tests and binary form, the sum \<open>vein_data\<close> of them
  (what a \<^verbatim>\<open>VeinEvent::EventData*\<close> may point to) and the sender of error events. The lemmas
  show that every payload is read back as it was written.
\<close>

section \<open>ComponentData\<close>

text \<open>
  The command enumerations have underlying type \<^verbatim>\<open>qint8\<close>, and a byte off the wire is cast to them
  unchecked: the last constructor holds the codes without a name.
\<close>

datatype component_command =
    CCMD_INVALID | CCMD_ADD | CCMD_REMOVE | CCMD_SET | CCMD_FETCH | CCMD_CODE byte

definition ccmd_cast :: "byte \<Rightarrow> component_command" where
  "ccmd_cast b =
     (if b = 0xFF then CCMD_INVALID else if b = 0 then CCMD_ADD else if b = 1 then CCMD_REMOVE
      else if b = 2 then CCMD_SET else if b = 3 then CCMD_FETCH else CCMD_CODE b)"

fun ccmd_code :: "component_command \<Rightarrow> byte" where
  "ccmd_code CCMD_INVALID = 0xFF"
| "ccmd_code CCMD_ADD = 0"
| "ccmd_code CCMD_REMOVE = 1"
| "ccmd_code CCMD_SET = 2"
| "ccmd_code CCMD_FETCH = 3"
| "ccmd_code (CCMD_CODE b) = b"

record component_data = event_data +
  cdCommand :: component_command
  cdComponentName :: string
  cdNewValue :: qvariant
  cdOldValue :: qvariant

definition componentData_new :: component_data where
  "componentData_new = event_data.extend event_data_new
     \<lparr> cdCommand = CCMD_INVALID, cdComponentName = '''', cdNewValue = QInvalid,
       cdOldValue = QInvalid \<rparr>"

definition componentData_for :: "int \<Rightarrow> component_command \<Rightarrow> component_data" where
  "componentData_for i c = setEntityId i (componentData_new\<lparr>cdCommand := c\<rparr>)"

text \<open>The copy keeps the payload but starts with the default origin and target.\<close>

definition componentData_copy :: "component_data \<Rightarrow> component_data" where
  "componentData_copy d = setEntityId (edEntityId d)
     (componentData_new\<lparr> cdCommand := cdCommand d, cdComponentName := cdComponentName d,
        cdNewValue := cdNewValue d, cdOldValue := cdOldValue d \<rparr>)"

definition cd_setCommand :: "component_command \<Rightarrow> component_data \<Rightarrow> component_data" where
  "cd_setCommand c d = (if cdCommand d = CCMD_INVALID then d\<lparr>cdCommand := c\<rparr> else d)"

definition cd_setComponentName :: "string \<Rightarrow> component_data \<Rightarrow> component_data" where
  "cd_setComponentName n d = (if n \<noteq> '''' then d\<lparr>cdComponentName := n\<rparr> else d)"

definition cd_setNewValue :: "qvariant \<Rightarrow> component_data \<Rightarrow> component_data" where
  "cd_setNewValue v d = (if qv_valid v then d\<lparr>cdNewValue := v\<rparr> else d)"

definition cd_setOldValue :: "qt_lib \<Rightarrow> qvariant \<Rightarrow> component_data \<Rightarrow> component_data" where
  "cd_setOldValue qt v d = (if \<not> qtEq qt (cdOldValue d) v then d\<lparr>cdOldValue := v\<rparr> else d)"

definition cd_isValid :: "component_data \<Rightarrow> bool" where
  "cd_isValid d \<longleftrightarrow>
     (case cdCommand d of
        CCMD_ADD \<Rightarrow> True | CCMD_REMOVE \<Rightarrow> True | CCMD_SET \<Rightarrow> True | CCMD_FETCH \<Rightarrow> True
      | _ \<Rightarrow> False)"

definition cd_serialize :: "qt_lib \<Rightarrow> component_data \<Rightarrow> bytes" where
  "cd_serialize qt d =
     put_qint8 (ccmd_code (cdCommand d)) @ put_qstring (cdComponentName d) @
     put_qint32 (edEntityId d) @ qtPutVariant qt (cdNewValue d) @ qtPutVariant qt (cdOldValue d)"

definition cd_deserialize :: "qt_lib \<Rightarrow> bytes \<Rightarrow> component_data \<Rightarrow> component_data" where
  "cd_deserialize qt bs d =
     (let (c, s1) = get_qint8 (bs, True);
          (n, s2) = get_qstring s1;
          (i, s3) = get_qint32 s2;
          (nv, s4) = qtGetVariant qt s3;
          (ov, s5) = qtGetVariant qt s4
      in setEntityId i (d\<lparr> cdCommand := ccmd_cast c, cdComponentName := n, cdNewValue := nv,
                          cdOldValue := ov \<rparr>))"

section \<open>EntityData\<close>

datatype entity_command =
    ECMD_INVALID | ECMD_ADD | ECMD_REMOVE | ECMD_SUBSCRIBE | ECMD_UNSUBSCRIBE | ECMD_CODE byte

definition ecmd_cast :: "byte \<Rightarrow> entity_command" where
  "ecmd_cast b =
     (if b = 0xFF then ECMD_INVALID else if b = 0 then ECMD_ADD else if b = 1 then ECMD_REMOVE
      else if b = 2 then ECMD_SUBSCRIBE else if b = 3 then ECMD_UNSUBSCRIBE else ECMD_CODE b)"

fun ecmd_code :: "entity_command \<Rightarrow> byte" where
  "ecmd_code ECMD_INVALID = 0xFF"
| "ecmd_code ECMD_ADD = 0"
| "ecmd_code ECMD_REMOVE = 1"
| "ecmd_code ECMD_SUBSCRIBE = 2"
| "ecmd_code ECMD_UNSUBSCRIBE = 3"
| "ecmd_code (ECMD_CODE b) = b"

record entity_data = event_data +
  eaCommand :: entity_command

definition entityData_new :: entity_data where
  "entityData_new = event_data.extend event_data_new \<lparr> eaCommand = ECMD_INVALID \<rparr>"

definition ea_setCommand :: "entity_command \<Rightarrow> entity_data \<Rightarrow> entity_data" where
  "ea_setCommand c d = (if eaCommand d = ECMD_INVALID then d\<lparr>eaCommand := c\<rparr> else d)"

definition ea_isValid :: "entity_data \<Rightarrow> bool" where
  "ea_isValid d \<longleftrightarrow>
     (case eaCommand d of
        ECMD_ADD \<Rightarrow> True | ECMD_REMOVE \<Rightarrow> True | ECMD_SUBSCRIBE \<Rightarrow> True | ECMD_UNSUBSCRIBE \<Rightarrow> True
      | _ \<Rightarrow> False)"

definition ea_serialize :: "entity_data \<Rightarrow> bytes" where
  "ea_serialize d = put_qint8 (ecmd_code (eaCommand d)) @ put_qint32 (edEntityId d)"

definition ea_deserialize :: "bytes \<Rightarrow> entity_data \<Rightarrow> entity_data" where
  "ea_deserialize bs d =
     (let (c, s1) = get_qint8 (bs, True);
          (i, s2) = get_qint32 s1
      in setEntityId i (d\<lparr>eaCommand := ecmd_cast c\<rparr>))"

section \<open>IntrospectionData\<close>

record introspection_data = event_data +
  idComponentValues :: qvariant_map
  idRpcNames :: "string list"

definition introspectionData_new :: introspection_data where
  "introspectionData_new = event_data.extend event_data_new
     \<lparr> idComponentValues = fmempty, idRpcNames = [] \<rparr>"

definition id_setComponentValues :: "qvariant_map \<Rightarrow> introspection_data \<Rightarrow> introspection_data" where
  "id_setComponentValues m d = d\<lparr>idComponentValues := m\<rparr>"

definition id_setRpcNames :: "string list \<Rightarrow> introspection_data \<Rightarrow> introspection_data" where
  "id_setRpcNames ns d = d\<lparr>idRpcNames := ns\<rparr>"

definition id_isValid :: "introspection_data \<Rightarrow> bool" where
  "id_isValid d \<longleftrightarrow> idComponentValues d \<noteq> fmempty \<and> edEntityId d \<ge> 0"

definition id_serialize :: "qt_lib \<Rightarrow> introspection_data \<Rightarrow> bytes" where
  "id_serialize qt d =
     put_qint32 (edEntityId d) @ qtPutVMap qt (idComponentValues d) @ put_qstringlist (idRpcNames d)"

definition id_deserialize :: "qt_lib \<Rightarrow> bytes \<Rightarrow> introspection_data \<Rightarrow> introspection_data" where
  "id_deserialize qt bs d =
     (let (i, s1) = get_qint32 (bs, True);
          (m, s2) = qtGetVMap qt s1;
          (ns, s3) = get_qstringlist s2
      in setEntityId i (d\<lparr> idComponentValues := m, idRpcNames := ns \<rparr>))"

section \<open>RemoteProcedureData\<close>

datatype rpc_command =
    RPCMD_INVALID | RPCMD_CALL | RPCMD_REGISTER | RPCMD_RESULT | RPCMD_PROGRESS
  | RPCMD_CANCELLATION | RPCMD_CODE byte

definition rpcmd_cast :: "byte \<Rightarrow> rpc_command" where
  "rpcmd_cast b =
     (if b = 0xFF then RPCMD_INVALID else if b = 0 then RPCMD_CALL
      else if b = 1 then RPCMD_REGISTER else if b = 2 then RPCMD_RESULT
      else if b = 3 then RPCMD_PROGRESS else if b = 4 then RPCMD_CANCELLATION else RPCMD_CODE b)"

fun rpcmd_code :: "rpc_command \<Rightarrow> byte" where
  "rpcmd_code RPCMD_INVALID = 0xFF"
| "rpcmd_code RPCMD_CALL = 0"
| "rpcmd_code RPCMD_REGISTER = 1"
| "rpcmd_code RPCMD_RESULT = 2"
| "rpcmd_code RPCMD_PROGRESS = 3"
| "rpcmd_code RPCMD_CANCELLATION = 4"
| "rpcmd_code (RPCMD_CODE b) = b"

text \<open>The result codes; \<^verbatim>\<open>EINVAL\<close> is 22.\<close>

definition RPC_CANCELED :: int where "RPC_CANCELED = -64"
definition RPC_EINVAL :: int where "RPC_EINVAL = -22"
definition RPC_SUCCESS :: int where "RPC_SUCCESS = 0"

definition s_callIdString :: string where
  "s_callIdString = ''RemoteProcedureData::callID''"
definition s_resultCodeString :: string where
  "s_resultCodeString = ''RemoteProcedureData::resultCode''"
definition s_errorMessageString :: string where
  "s_errorMessageString = ''RemoteProcedureData::errorMessage''"
definition s_parameterString :: string where
  "s_parameterString = ''RemoteProcedureData::callParameters''"
definition s_returnString :: string where
  "s_returnString = ''RemoteProcedureData::Return''"

lemmas rpc_string_defs =
  s_callIdString_def s_resultCodeString_def s_errorMessageString_def s_parameterString_def
  s_returnString_def

lemma rpc_strings_distinct [simp]:
  "s_callIdString \<noteq> s_resultCodeString" "s_callIdString \<noteq> s_errorMessageString"
  "s_callIdString \<noteq> s_parameterString" "s_callIdString \<noteq> s_returnString"
  "s_resultCodeString \<noteq> s_callIdString" "s_resultCodeString \<noteq> s_errorMessageString"
  "s_resultCodeString \<noteq> s_parameterString" "s_resultCodeString \<noteq> s_returnString"
  "s_errorMessageString \<noteq> s_callIdString" "s_errorMessageString \<noteq> s_resultCodeString"
  "s_errorMessageString \<noteq> s_parameterString" "s_errorMessageString \<noteq> s_returnString"
  "s_parameterString \<noteq> s_callIdString" "s_parameterString \<noteq> s_resultCodeString"
  "s_parameterString \<noteq> s_errorMessageString" "s_parameterString \<noteq> s_returnString"
  "s_returnString \<noteq> s_callIdString" "s_returnString \<noteq> s_resultCodeString"
  "s_returnString \<noteq> s_errorMessageString" "s_returnString \<noteq> s_parameterString"
  by (simp_all add: rpc_string_defs)

record rpc_data = event_data +
  rdCommand :: rpc_command
  rdProcedureName :: string
  rdInvokationData :: qvariant_map

definition rpcData_new :: rpc_data where
  "rpcData_new = event_data.extend event_data_new
     \<lparr> rdCommand = RPCMD_INVALID, rdProcedureName = '''', rdInvokationData = fmempty \<rparr>"

text \<open>Unlike its siblings this setter replaces a command that is set already.\<close>

definition rd_setCommand :: "rpc_command \<Rightarrow> rpc_data \<Rightarrow> rpc_data" where
  "rd_setCommand c d = d\<lparr>rdCommand := c\<rparr>"

definition rd_setProcedureName :: "string \<Rightarrow> rpc_data \<Rightarrow> rpc_data" where
  "rd_setProcedureName n d = d\<lparr>rdProcedureName := n\<rparr>"

definition rd_setInvokationData :: "qvariant_map \<Rightarrow> rpc_data \<Rightarrow> rpc_data" where
  "rd_setInvokationData m d = d\<lparr>rdInvokationData := m\<rparr>"

definition rd_isValid :: "rpc_data \<Rightarrow> bool" where
  "rd_isValid d \<longleftrightarrow>
     rdProcedureName d \<noteq> '''' \<and> edEntityId d \<ge> 0 \<and> rdCommand d \<noteq> RPCMD_INVALID"

definition rd_serialize :: "qt_lib \<Rightarrow> rpc_data \<Rightarrow> bytes" where
  "rd_serialize qt d =
     put_qint8 (rpcmd_code (rdCommand d)) @ put_qstring (rdProcedureName d) @
     put_qint32 (edEntityId d) @ qtPutVMap qt (rdInvokationData d)"

definition rd_deserialize :: "qt_lib \<Rightarrow> bytes \<Rightarrow> rpc_data \<Rightarrow> rpc_data" where
  "rd_deserialize qt bs d =
     (let (c, s1) = get_qint8 (bs, True);
          (n, s2) = get_qstring s1;
          (i, s3) = get_qint32 s2;
          (m, s4) = qtGetVMap qt s3
      in setEntityId i (d\<lparr> rdCommand := rpcmd_cast c, rdProcedureName := n,
                          rdInvokationData := m \<rparr>))"

section \<open>ErrorData\<close>

record error_data = event_data +
  erOriginalDataType :: int
  erOriginalData :: qbytearray
  erErrorDescription :: string

definition errorData_new :: error_data where
  "errorData_new = event_data.extend event_data_new
     \<lparr> erOriginalDataType = 0, erOriginalData = None, erErrorDescription = '''' \<rparr>"

definition er_setErrorDescription :: "string \<Rightarrow> error_data \<Rightarrow> error_data" where
  "er_setErrorDescription s d = d\<lparr>erErrorDescription := s\<rparr>"

definition er_isValid :: "error_data \<Rightarrow> bool" where
  "er_isValid d \<longleftrightarrow>
     (case erOriginalData d of None \<Rightarrow> False | Some bs \<Rightarrow> bs \<noteq> []) \<and> erErrorDescription d \<noteq> ''''"

definition er_serialize :: "error_data \<Rightarrow> bytes" where
  "er_serialize d =
     put_qint32 (erOriginalDataType d) @ put_qbytearray (erOriginalData d) @
     put_qstring (erErrorDescription d) @ put_qint32 (edEntityId d)"

definition er_deserialize :: "bytes \<Rightarrow> error_data \<Rightarrow> error_data" where
  "er_deserialize bs d =
     (let (t, s1) = get_qint32 (bs, True);
          (o', s2) = get_qbytearray s1;
          (e, s3) = get_qstring s2;
          (i, s4) = get_qint32 s3
      in setEntityId i (d\<lparr> erOriginalDataType := t, erOriginalData := o',
                          erErrorDescription := e \<rparr>))"

section \<open>The payload of an event\<close>

datatype vein_data =
    VComponent component_data
  | VEntity entity_data
  | VIntrospection introspection_data
  | VError error_data
  | VRpc rpc_data

text \<open>The identifiers of globalIncludes.h, which \<^verbatim>\<open>type()\<close> returns.\<close>

definition VCMP_COMPONENTDATA_DATATYPE :: int where "VCMP_COMPONENTDATA_DATATYPE = 0"
definition VCMP_ENTITYDATA_DATATYPE :: int where "VCMP_ENTITYDATA_DATATYPE = 1"
definition VCMP_INTROSPECTIONDATA_DATATYPE :: int where "VCMP_INTROSPECTIONDATA_DATATYPE = 2"
definition VCMP_ERRORDATA_DATATYPE :: int where "VCMP_ERRORDATA_DATATYPE = 3"
definition VCMP_REMOTEPROCEDUREDATA_DATATYPE :: int where
  "VCMP_REMOTEPROCEDUREDATA_DATATYPE = 4"

lemmas datatype_ids =
  VCMP_COMPONENTDATA_DATATYPE_def VCMP_ENTITYDATA_DATATYPE_def
  VCMP_INTROSPECTIONDATA_DATATYPE_def VCMP_ERRORDATA_DATATYPE_def
  VCMP_REMOTEPROCEDUREDATA_DATATYPE_def

fun vd_type :: "vein_data \<Rightarrow> int" where
  "vd_type (VComponent d) = VCMP_COMPONENTDATA_DATATYPE"
| "vd_type (VEntity d) = VCMP_ENTITYDATA_DATATYPE"
| "vd_type (VIntrospection d) = VCMP_INTROSPECTIONDATA_DATATYPE"
| "vd_type (VError d) = VCMP_ERRORDATA_DATATYPE"
| "vd_type (VRpc d) = VCMP_REMOTEPROCEDUREDATA_DATATYPE"

fun vd_isValid :: "vein_data \<Rightarrow> bool" where
  "vd_isValid (VComponent d) = cd_isValid d"
| "vd_isValid (VEntity d) = ea_isValid d"
| "vd_isValid (VIntrospection d) = id_isValid d"
| "vd_isValid (VError d) = er_isValid d"
| "vd_isValid (VRpc d) = rd_isValid d"

fun vd_serialize :: "qt_lib \<Rightarrow> vein_data \<Rightarrow> bytes" where
  "vd_serialize qt (VComponent d) = cd_serialize qt d"
| "vd_serialize qt (VEntity d) = ea_serialize d"
| "vd_serialize qt (VIntrospection d) = id_serialize qt d"
| "vd_serialize qt (VError d) = er_serialize d"
| "vd_serialize qt (VRpc d) = rd_serialize qt d"

text \<open>The members of the base class, on whichever class the pointer refers to.\<close>

fun vd_base :: "vein_data \<Rightarrow> event_data" where
  "vd_base (VComponent d) = event_data.truncate d"
| "vd_base (VEntity d) = event_data.truncate d"
| "vd_base (VIntrospection d) = event_data.truncate d"
| "vd_base (VError d) = event_data.truncate d"
| "vd_base (VRpc d) = event_data.truncate d"

definition vd_entityId :: "vein_data \<Rightarrow> int" where
  "vd_entityId d = edEntityId (vd_base d)"

definition vd_origin :: "vein_data \<Rightarrow> event_origin" where
  "vd_origin d = edOrigin (vd_base d)"

definition vd_target :: "vein_data \<Rightarrow> event_target" where
  "vd_target d = edTarget (vd_base d)"

fun vd_setEventOrigin :: "event_origin \<Rightarrow> vein_data \<Rightarrow> vein_data" where
  "vd_setEventOrigin o' (VComponent d) = VComponent (setEventOrigin o' d)"
| "vd_setEventOrigin o' (VEntity d) = VEntity (setEventOrigin o' d)"
| "vd_setEventOrigin o' (VIntrospection d) = VIntrospection (setEventOrigin o' d)"
| "vd_setEventOrigin o' (VError d) = VError (setEventOrigin o' d)"
| "vd_setEventOrigin o' (VRpc d) = VRpc (setEventOrigin o' d)"

fun vd_setEventTarget :: "event_target \<Rightarrow> vein_data \<Rightarrow> vein_data" where
  "vd_setEventTarget t (VComponent d) = VComponent (setEventTarget t d)"
| "vd_setEventTarget t (VEntity d) = VEntity (setEventTarget t d)"
| "vd_setEventTarget t (VIntrospection d) = VIntrospection (setEventTarget t d)"
| "vd_setEventTarget t (VError d) = VError (setEventTarget t d)"
| "vd_setEventTarget t (VRpc d) = VRpc (setEventTarget t d)"

definition er_setOriginalData :: "qt_lib \<Rightarrow> vein_data \<Rightarrow> error_data \<Rightarrow> error_data" where
  "er_setOriginalData qt od d =
     (if vd_type od \<noteq> VCMP_ERRORDATA_DATATYPE
      then d\<lparr> erOriginalDataType := vd_type od, erOriginalData := Some (vd_serialize qt od) \<rparr>
      else d)"

type_synonym vein_event = "vein_data command_event"

text \<open>
  \<^verbatim>\<open>ErrorDataSender::errorOut\<close> accepts the offending event and sends an error notification to
  the peer it came from. Result: the event and the events sent.
\<close>

definition errorOut :: "qt_lib \<Rightarrow> string \<Rightarrow> vein_event \<Rightarrow> vein_event \<times> vein_event list" where
  "errorOut qt msg e =
     (let d = ceData e;
          err = er_setErrorDescription msg
                  (setEventTarget (vd_target d)
                    (setEventOrigin EO_LOCAL
                      (er_setOriginalData qt d
                        (setEntityId (vd_entityId d) errorData_new))))
      in (accept e, [setPeerId (cePeerId e) (commandEvent_new NOTIFICATION (VError err))]))"

lemmas component_data_defs [vein_defs] =
  componentData_new_def componentData_for_def componentData_copy_def cd_setCommand_def
  cd_setComponentName_def cd_setNewValue_def cd_setOldValue_def cd_isValid_def
lemmas entity_data_defs [vein_defs] = entityData_new_def ea_setCommand_def ea_isValid_def
lemmas introspection_data_defs [vein_defs] =
  introspectionData_new_def id_setComponentValues_def id_setRpcNames_def id_isValid_def
lemmas rpc_data_defs [vein_defs] =
  rpcData_new_def rd_setCommand_def rd_setProcedureName_def rd_setInvokationData_def rd_isValid_def
lemmas error_data_defs [vein_defs] =
  errorData_new_def er_setErrorDescription_def er_isValid_def er_setOriginalData_def

lemmas record_glue = event_data.defs component_data.defs entity_data.defs
  introspection_data.defs rpc_data.defs error_data.defs

section \<open>Base-class members\<close>

lemma vd_simps [simp]:
  "vd_entityId (VComponent cd) = edEntityId cd" "vd_entityId (VEntity ea) = edEntityId ea"
  "vd_entityId (VIntrospection idd) = edEntityId idd" "vd_entityId (VError er) = edEntityId er"
  "vd_entityId (VRpc rd) = edEntityId rd"
  "vd_origin (VComponent cd) = edOrigin cd" "vd_origin (VEntity ea) = edOrigin ea"
  "vd_origin (VIntrospection idd) = edOrigin idd" "vd_origin (VError er) = edOrigin er"
  "vd_origin (VRpc rd) = edOrigin rd"
  "vd_target (VComponent cd) = edTarget cd" "vd_target (VEntity ea) = edTarget ea"
  "vd_target (VIntrospection idd) = edTarget idd" "vd_target (VError er) = edTarget er"
  "vd_target (VRpc rd) = edTarget rd"
  by (simp_all add: vd_entityId_def vd_origin_def vd_target_def event_data.defs)

lemma vd_setters [simp]:
  "vd_entityId (vd_setEventOrigin eo d) = vd_entityId d"
  "vd_entityId (vd_setEventTarget t d) = vd_entityId d"
  "vd_origin (vd_setEventOrigin eo d) = eo" "vd_origin (vd_setEventTarget t d) = vd_origin d"
  "vd_target (vd_setEventTarget t d) = t" "vd_target (vd_setEventOrigin eo d) = vd_target d"
  "vd_type (vd_setEventOrigin eo d) = vd_type d" "vd_type (vd_setEventTarget t d) = vd_type d"
  by (cases d; simp add: setEventOrigin_def setEventTarget_def)+

section \<open>Round trips\<close>

text \<open>
  A command survives the cast when it is not a spelled-out code of a named one; the empty
  names, identifiers below -1 and values Qt cannot stream are left out.
\<close>

definition ccmd_wf :: "component_command \<Rightarrow> bool" where
  "ccmd_wf c \<longleftrightarrow> ccmd_cast (ccmd_code c) = c"

definition ecmd_wf :: "entity_command \<Rightarrow> bool" where
  "ecmd_wf c \<longleftrightarrow> ecmd_cast (ecmd_code c) = c"

definition rpcmd_wf :: "rpc_command \<Rightarrow> bool" where
  "rpcmd_wf c \<longleftrightarrow> rpcmd_cast (rpcmd_code c) = c"

lemma commands_wf [simp]:
  "ccmd_wf CCMD_INVALID" "ccmd_wf CCMD_ADD" "ccmd_wf CCMD_REMOVE" "ccmd_wf CCMD_SET"
  "ccmd_wf CCMD_FETCH" "ccmd_wf (ccmd_cast b)"
  "ecmd_wf ECMD_INVALID" "ecmd_wf ECMD_ADD" "ecmd_wf ECMD_REMOVE" "ecmd_wf ECMD_SUBSCRIBE"
  "ecmd_wf ECMD_UNSUBSCRIBE" "ecmd_wf (ecmd_cast b)"
  "rpcmd_wf RPCMD_INVALID" "rpcmd_wf RPCMD_CALL" "rpcmd_wf RPCMD_REGISTER"
  "rpcmd_wf RPCMD_RESULT" "rpcmd_wf RPCMD_PROGRESS" "rpcmd_wf RPCMD_CANCELLATION"
  "rpcmd_wf (rpcmd_cast b)"
  by (simp_all add: ccmd_wf_def ccmd_cast_def ecmd_wf_def ecmd_cast_def rpcmd_wf_def
      rpcmd_cast_def)

definition entity_id_wf :: "int \<Rightarrow> bool" where
  "entity_id_wf i \<longleftrightarrow> -1 \<le> i \<and> i < 2 ^ 31"

lemma entity_id_wf_range [simp]: "entity_id_wf i \<Longrightarrow> int32_range i"
  by (simp add: entity_id_wf_def int32_range_def)

text \<open>Reading an entity identifier into a fresh object, whose identifier is -1.\<close>

lemma setEntityId_fresh:
  "entity_id_wf i \<Longrightarrow> edEntityId d = -1 \<Longrightarrow> setEntityId i d = d\<lparr>edEntityId := i\<rparr>"
  by (cases d) (auto simp: setEntityId_def entity_id_wf_def)

definition cd_wf :: "qt_lib \<Rightarrow> component_data \<Rightarrow> bool" where
  "cd_wf qt d \<longleftrightarrow>
     ccmd_wf (cdCommand d) \<and> qstring_wf (cdComponentName d) \<and> entity_id_wf (edEntityId d) \<and>
     variant_streams qt (cdNewValue d) \<and> variant_streams qt (cdOldValue d)"

definition ea_wf :: "entity_data \<Rightarrow> bool" where
  "ea_wf d \<longleftrightarrow> ecmd_wf (eaCommand d) \<and> entity_id_wf (edEntityId d)"

definition id_wf :: "qt_lib \<Rightarrow> introspection_data \<Rightarrow> bool" where
  "id_wf qt d \<longleftrightarrow>
     entity_id_wf (edEntityId d) \<and> vmap_streams qt (idComponentValues d) \<and>
     qstringlist_wf (idRpcNames d)"

definition rd_wf :: "qt_lib \<Rightarrow> rpc_data \<Rightarrow> bool" where
  "rd_wf qt d \<longleftrightarrow>
     rpcmd_wf (rdCommand d) \<and> qstring_wf (rdProcedureName d) \<and> entity_id_wf (edEntityId d) \<and>
     vmap_streams qt (rdInvokationData d)"

definition er_wf :: "error_data \<Rightarrow> bool" where
  "er_wf d \<longleftrightarrow>
     int32_range (erOriginalDataType d) \<and> qbytearray_wf (erOriginalData d) \<and>
     qstring_wf (erErrorDescription d) \<and> entity_id_wf (edEntityId d)"

fun vd_wf :: "qt_lib \<Rightarrow> vein_data \<Rightarrow> bool" where
  "vd_wf qt (VComponent d) = cd_wf qt d"
| "vd_wf qt (VEntity d) = ea_wf d"
| "vd_wf qt (VIntrospection d) = id_wf qt d"
| "vd_wf qt (VError d) = er_wf d"
| "vd_wf qt (VRpc d) = rd_wf qt d"

lemma streams_get:
  "variant_streams qt v \<Longrightarrow> qtGetVariant qt (qtPutVariant qt v @ r, ok) = (v, r, ok)"
  "variant_streams qt v \<Longrightarrow> qtGetVariant qt (qtPutVariant qt v, ok) = (v, [], ok)"
  "vmap_streams qt m \<Longrightarrow> qtGetVMap qt (qtPutVMap qt m @ r, ok) = (m, r, ok)"
  "vmap_streams qt m \<Longrightarrow> qtGetVMap qt (qtPutVMap qt m, ok) = (m, [], ok)"
  using append_Nil2 unfolding variant_streams_def vmap_streams_def by metis+

lemma cd_roundtrip:
  "cd_wf qt d \<Longrightarrow> cd_deserialize qt (cd_serialize qt d) componentData_new =
     d\<lparr> edOrigin := EO_LOCAL, edTarget := ET_IRRELEVANT \<rparr>"
  by (cases d)
     (simp add: cd_wf_def cd_serialize_def cd_deserialize_def ccmd_wf_def stream_rules streams_get
      setEntityId_fresh componentData_new_def event_data_new_def record_glue)

lemma ea_roundtrip:
  "ea_wf d \<Longrightarrow> ea_deserialize (ea_serialize d) entityData_new =
     d\<lparr> edOrigin := EO_LOCAL, edTarget := ET_IRRELEVANT \<rparr>"
  by (cases d)
     (simp add: ea_wf_def ea_serialize_def ea_deserialize_def ecmd_wf_def stream_rules
      setEntityId_fresh entityData_new_def event_data_new_def record_glue)

lemma id_roundtrip:
  "id_wf qt d \<Longrightarrow> id_deserialize qt (id_serialize qt d) introspectionData_new =
     d\<lparr> edOrigin := EO_LOCAL, edTarget := ET_IRRELEVANT \<rparr>"
  by (cases d)
     (simp add: id_wf_def id_serialize_def id_deserialize_def stream_rules streams_get
      setEntityId_fresh introspectionData_new_def event_data_new_def record_glue)

lemma rd_roundtrip:
  "rd_wf qt d \<Longrightarrow> rd_deserialize qt (rd_serialize qt d) rpcData_new =
     d\<lparr> edOrigin := EO_LOCAL, edTarget := ET_IRRELEVANT \<rparr>"
  by (cases d)
     (simp add: rd_wf_def rd_serialize_def rd_deserialize_def rpcmd_wf_def stream_rules streams_get
      setEntityId_fresh rpcData_new_def event_data_new_def record_glue)

lemma er_roundtrip:
  "er_wf d \<Longrightarrow> er_deserialize (er_serialize d) errorData_new =
     d\<lparr> edOrigin := EO_LOCAL, edTarget := ET_IRRELEVANT \<rparr>"
  by (cases d)
     (simp add: er_wf_def er_serialize_def er_deserialize_def stream_rules
      setEntityId_fresh errorData_new_def event_data_new_def record_glue)

section \<open>Error events\<close>

lemma errorOut_accepts [simp]: "ceAccepted (fst (errorOut qt msg e))"
  by (simp add: errorOut_def Let_def accept_def)

lemma errorOut_event [simp]: "fst (errorOut qt msg e) = accept e"
  by (simp add: errorOut_def Let_def)

lemma errorOut_sent [simp]: "length (snd (errorOut qt msg e)) = 1"
  by (simp add: errorOut_def Let_def)

text \<open>
  The error event carries the identifier and target of its cause, whose serialised form it
  holds, and goes to the cause's peer.
\<close>

lemma errorOut_result:
  assumes "vd_type (ceData e) \<noteq> VCMP_ERRORDATA_DATATYPE" and "vd_entityId (ceData e) \<ge> -1"
  shows "snd (errorOut qt msg e) =
    [\<lparr> cePeerId = cePeerId e, ceSubtype = NOTIFICATION,
       ceData = VError \<lparr> edOrigin = EO_LOCAL, edTarget = vd_target (ceData e),
         edEntityId = vd_entityId (ceData e), erOriginalDataType = vd_type (ceData e),
         erOriginalData = Some (vd_serialize qt (ceData e)), erErrorDescription = msg \<rparr>,
       ceAccepted = False \<rparr>]"
  using assms
  by (auto simp: errorOut_def Let_def vein_defs record_glue)

end
