(* ===== verification/PendingCalls.thy ===== *)
theory PendingCalls
  imports Prelude
begin

text \<open>
  The contract of the components that wait for the results of calls: a set of pending call
  identifiers, to which a call adds its own and from which a result removes it. The locale
  proves that a call completes at most once, whatever results arrive; the invoker of the client
  library and the procedure objects of the server interpret it.
\<close>

datatype 'id call_op = Call 'id | Return 'id

locale pending_calls =
  fixes pend :: "'s \<Rightarrow> 'id set"
    and start :: "'id \<Rightarrow> 's \<Rightarrow> 's"
    and finish :: "'id \<Rightarrow> 's \<Rightarrow> 's \<times> nat"
  assumes start_pend: "pend (start i s) = insert i (pend s)"
    and finish_pend: "pend (fst (finish i s)) = pend s - {i}"
    and finish_count: "snd (finish i s) = (if i \<in> pend s then 1 else 0)"
begin

text \<open>A trace of calls and results, and how often the call \<open>i\<close> was reported finished.\<close>

fun run :: "'id call_op list \<Rightarrow> 's \<Rightarrow> 's" where
  "run [] s = s"
| "run (Call i # ops) s = run ops (start i s)"
| "run (Return i # ops) s = run ops (fst (finish i s))"

fun completions :: "'id \<Rightarrow> 'id call_op list \<Rightarrow> 's \<Rightarrow> nat" where
  "completions i [] s = 0"
| "completions i (Call j # ops) s = completions i ops (start j s)"
| "completions i (Return j # ops) s =
     (if j = i then snd (finish j s) else 0) + completions i ops (fst (finish j s))"

lemma completions_bound:
  "completions i ops s + (if i \<in> pend (run ops s) then 1 else 0) \<le>
   count_list ops (Call i) + (if i \<in> pend s then 1 else 0)"
proof (induction ops arbitrary: s)
  case Nil
  then show ?case by simp
next
  case (Cons op ops)
  show ?case
  proof (cases op)
    case (Call j)
    then show ?thesis
      using Cons [of "start j s"] by (cases "j = i") (auto simp: start_pend split: if_splits)
  next
    case (Return j)
    then show ?thesis
      using Cons [of "fst (finish j s)"]
      by (cases "j = i") (auto simp: finish_pend finish_count split: if_splits)
  qed
qed

lemma at_most_once: "i \<notin> pend s \<Longrightarrow> completions i ops s \<le> count_list ops (Call i)"
  using completions_bound [of i ops s] by simp

lemma unsolicited: "i \<notin> pend s \<Longrightarrow> Call i \<notin> set ops \<Longrightarrow> completions i ops s = 0"
  using at_most_once [of i s ops] by (simp add: count_list_0_iff)

end

end
