(* ===== verification/Strings.thy ===== *)
theory Strings
  imports Prelude
begin

text \<open>
  The operations of \<^verbatim>\<open>QString\<close> and \<^verbatim>\<open>QStringList\<close> the program uses, on Latin-1 strings: prefix,
  suffix and substring tests, splitting at a character, joining, folding of case. The lemmas
  relate splitting and joining.
\<close>

definition startsWith :: "string \<Rightarrow> string \<Rightarrow> bool" where
  "startsWith p s \<longleftrightarrow> take (length p) s = p"

definition endsWith :: "string \<Rightarrow> string \<Rightarrow> bool" where
  "endsWith p s \<longleftrightarrow> drop (length s - length p) s = p"

fun contains_str :: "string \<Rightarrow> string \<Rightarrow> bool" where
  "contains_str p [] = (p = [])"
| "contains_str p (c # cs) = (startsWith p (c # cs) \<or> contains_str p cs)"

fun lower_char :: "char \<Rightarrow> char" where
  "lower_char c =
     (let n = of_char c :: nat
      in if (65 \<le> n \<and> n \<le> 90) \<or> (192 \<le> n \<and> n \<le> 222 \<and> n \<noteq> 215) then char_of (n + 32) else c)"

definition to_lower :: "string \<Rightarrow> string" where
  "to_lower s = map lower_char s"

text \<open>\<^verbatim>\<open>split\<close> keeps empty parts; \<open>skip_empty\<close> drops them as \<^verbatim>\<open>Qt::SkipEmptyParts\<close> does.\<close>

fun split_at :: "char \<Rightarrow> string \<Rightarrow> string list" where
  "split_at c [] = [[]]"
| "split_at c (x # xs) =
     (if x = c then [] # split_at c xs
      else (case split_at c xs of [] \<Rightarrow> [[x]] | y # ys \<Rightarrow> (x # y) # ys))"

definition skip_empty :: "string list \<Rightarrow> string list" where
  "skip_empty xs = filter (\<lambda>s. s \<noteq> []) xs"

fun join :: "string \<Rightarrow> string list \<Rightarrow> string" where
  "join sep [] = ''''"
| "join sep [s] = s"
| "join sep (s # t # ts) = s @ sep @ join sep (t # ts)"

lemma split_at_nonempty [simp]: "split_at c s \<noteq> []"
  by (induction s) (auto split: list.splits)

lemma split_at_none: "c \<notin> set s \<Longrightarrow> split_at c s = [s]"
  by (induction s) auto

lemma split_at_first: "c \<notin> set a \<Longrightarrow> split_at c (a @ c # s) = a # split_at c s"
  by (induction a) auto

lemma split_at_parts: "x \<in> set (split_at c s) \<Longrightarrow> c \<notin> set x \<and> set x \<subseteq> set s"
  by (induction s arbitrary: x) (auto split: if_splits list.splits, fastforce+)

text \<open>Splitting undoes the concatenation of terminated parts.\<close>

lemma split_at_terminated:
  "\<forall>x \<in> set xs. c \<notin> set x \<Longrightarrow> split_at c (concat (map (\<lambda>x. x @ [c]) xs)) = xs @ [[]]"
  by (induction xs) (simp_all add: split_at_first)

lemma split_at_join:
  assumes "xs \<noteq> []" and "\<forall>x \<in> set xs. c \<notin> set x"
  shows "split_at c (join [c] xs) = xs"
  using assms by (induction xs rule: induct_list012) (simp_all add: split_at_none split_at_first)

lemma startsWith_append [simp]: "startsWith p (p @ s)"
  by (simp add: startsWith_def)

lemma startsWith_empty [simp]: "startsWith p [] \<longleftrightarrow> p = []"
  by (auto simp: startsWith_def)

end
