(* ===== verification/Actors.thy ===== *)
theory Actors
  imports VeinComponent PendingCalls Strings
begin

text \<open>
  convenient-code/lib/command-event-actors and notifier: the generators of the events that
  clients and server modules send, and the items that react to events: fetcher, setter,
  subscriber, unsubscriber, procedure invoker, change notifier. An item's reaction is the list
  of signals it emits.
\<close>

section \<open>Generators\<close>

definition component_event_data :: "int \<Rightarrow> component_command \<Rightarrow> string \<Rightarrow> component_data" where
  "component_event_data i c n =
     cd_setComponentName n (setEventTarget ET_ALL (setEventOrigin EO_LOCAL (componentData_for i c)))"

definition fetcher_generateEvent :: "int \<Rightarrow> string \<Rightarrow> vein_event" where
  "fetcher_generateEvent i n =
     commandEvent_new TRANSACTION (VComponent (component_event_data i CCMD_FETCH n))"

definition setter_generateEvent ::
  "qt_lib \<Rightarrow> int \<Rightarrow> string \<Rightarrow> qvariant \<Rightarrow> qvariant \<Rightarrow> vein_event" where
  "setter_generateEvent qt i n oldV newV =
     (let d = component_event_data i CCMD_SET n;
          d1 = (if qtCanConvertList qt newV \<and> qtToList qt newV \<noteq> []
                then cd_setNewValue (QListV (qtToList qt newV)) d
                else if qtCanConvertMap qt newV then cd_setNewValue (QMapV (qtToMap qt newV)) d
                else cd_setNewValue newV d)
      in commandEvent_new TRANSACTION (VComponent (cd_setOldValue qt oldV d1)))"

definition entity_event_data :: "entity_command \<Rightarrow> int \<Rightarrow> entity_data" where
  "entity_event_data c i =
     setEventTarget ET_ALL (setEventOrigin EO_LOCAL (setEntityId i (ea_setCommand c entityData_new)))"

definition subscriber_generateEvent :: "int \<Rightarrow> vein_event" where
  "subscriber_generateEvent i =
     commandEvent_new TRANSACTION (VEntity (entity_event_data ECMD_SUBSCRIBE i))"

definition unsubscriber_generateEvent :: "int \<Rightarrow> vein_event" where
  "unsubscriber_generateEvent i =
     commandEvent_new TRANSACTION (VEntity (entity_event_data ECMD_UNSUBSCRIBE i))"

definition rpc_call_data :: "int \<Rightarrow> string \<Rightarrow> qvariant_map \<Rightarrow> quuid \<Rightarrow> rpc_data" where
  "rpc_call_data i n params ident =
     (let m = fmupd s_parameterString (QMapV params) (fmupd s_callIdString (QUuidV ident) fmempty)
      in rd_setInvokationData m (rd_setProcedureName n
           (setEventTarget ET_ALL (setEventOrigin EO_LOCAL
             (rd_setCommand RPCMD_CALL (setEntityId i rpcData_new))))))"

definition client_rpc_generateEvent :: "int \<Rightarrow> string \<Rightarrow> qvariant_map \<Rightarrow> quuid \<Rightarrow> vein_event" where
  "client_rpc_generateEvent i n params ident =
     commandEvent_new TRANSACTION (VRpc (rpc_call_data i n params ident))"

definition server_rpc_generateEvent :: "int \<Rightarrow> string \<Rightarrow> qvariant_map \<Rightarrow> quuid \<Rightarrow> vein_event" where
  "server_rpc_generateEvent i n params ident =
     commandEvent_new NOTIFICATION (VRpc (rpc_call_data i n params ident))"

definition server_component_add :: "int \<Rightarrow> string \<Rightarrow> qvariant \<Rightarrow> vein_event" where
  "server_component_add i n v = commandEvent_new NOTIFICATION (VComponent
     (cd_setNewValue v (cd_setComponentName n (setEventTarget ET_ALL (setEventOrigin EO_LOCAL
       (cd_setCommand CCMD_ADD (setEntityId i componentData_new)))))))"

definition server_component_remove :: "int \<Rightarrow> string \<Rightarrow> vein_event" where
  "server_component_remove i n = commandEvent_new NOTIFICATION (VComponent
     (cd_setComponentName n (setEventTarget ET_ALL (setEventOrigin EO_LOCAL
       (cd_setCommand CCMD_REMOVE (setEntityId i componentData_new))))))"

definition server_component_setter ::
  "qt_lib \<Rightarrow> int \<Rightarrow> string \<Rightarrow> qvariant \<Rightarrow> qvariant \<Rightarrow> vein_event" where
  "server_component_setter qt i n oldV newV = commandEvent_new NOTIFICATION (VComponent
     (cd_setOldValue qt oldV (cd_setNewValue newV (component_event_data i CCMD_SET n))))"

definition server_entity_add :: "int \<Rightarrow> vein_event" where
  "server_entity_add i = commandEvent_new NOTIFICATION
     (VEntity (setEntityId i (setEventTarget ET_LOCAL (ea_setCommand ECMD_ADD entityData_new))))"

definition server_entity_remove :: "int \<Rightarrow> vein_event" where
  "server_entity_remove i = commandEvent_new NOTIFICATION
     (VEntity (ea_setCommand ECMD_REMOVE (setEventTarget ET_ALL (setEntityId i entityData_new))))"

definition server_rpc_register :: "int \<Rightarrow> string \<Rightarrow> vein_event" where
  "server_rpc_register i sig = commandEvent_new NOTIFICATION (VRpc
     (setEventTarget ET_ALL (setEventOrigin EO_LOCAL (rd_setProcedureName sig
       (rd_setCommand RPCMD_REGISTER (setEntityId i rpcData_new))))))"

definition server_rpc_result :: "int \<Rightarrow> string \<Rightarrow> qvariant_map \<Rightarrow> vein_event" where
  "server_rpc_result i sig ret = commandEvent_new NOTIFICATION (VRpc
     (rd_setInvokationData ret (rd_setProcedureName sig (rd_setCommand RPCMD_RESULT
       (setEventTarget ET_ALL (setEventOrigin EO_LOCAL (setEntityId i rpcData_new)))))))"

text \<open>\<^verbatim>\<open>VfRpcParamsParser::parseRpcParams\<close>: name, then "type name" for each parameter.\<close>


definition parseRpcParams :: "qt_lib \<Rightarrow> string \<Rightarrow> qvariant_map \<Rightarrow> string" where
  "parseRpcParams qt name params =
     name @ ''('' @
     join '','' (map (\<lambda>k. qtTypeName qt (qvalue params k QInvalid) @ '' '' @ k) (qkeys params)) @ '')''"

section \<open>Items\<close>

datatype actor_signal =
    SigGetFinish bool qvariant
  | SigSetFinish bool
  | SigSubscribed bool int
  | SigUnsubscribed bool int
  | SigRPCFinished bool qvariant_map
  | SigValueChanged

definition fetcher_component :: "component_data \<Rightarrow> actor_signal list" where
  "fetcher_component d = (if cdCommand d = CCMD_FETCH then [SigGetFinish True (cdNewValue d)] else [])"

definition fetcher_error :: "component_data \<Rightarrow> actor_signal list" where
  "fetcher_error d = (if cdCommand d = CCMD_FETCH then [SigGetFinish False (cdNewValue d)] else [])"

text \<open>Events sent and signals (queued).\<close>

definition startSetComponent ::
  "qt_lib \<Rightarrow> int \<Rightarrow> string \<Rightarrow> qvariant \<Rightarrow> qvariant \<Rightarrow> vein_event list \<times> actor_signal list" where
  "startSetComponent qt i n oldV newV =
     (if \<not> qv_valid newV then ([], [SigSetFinish False])
      else if qtEq qt oldV newV then ([], [SigSetFinish True])
      else ([setter_generateEvent qt i n oldV newV], []))"

definition setter_component :: "component_data \<Rightarrow> actor_signal list" where
  "setter_component d = (if cdCommand d = CCMD_SET then [SigSetFinish True] else [])"

definition setter_error :: "component_data \<Rightarrow> actor_signal list" where
  "setter_error d = (if cdCommand d = CCMD_SET then [SigSetFinish False] else [])"

record subscriber =
  suEntityId :: int
  suComponents :: qvariant_map

definition subscriber_event :: "vein_event \<Rightarrow> subscriber \<Rightarrow> subscriber \<times> actor_signal list" where
  "subscriber_event e s =
     (case ceData e of
        VIntrospection d \<Rightarrow>
          (s\<lparr>suComponents := idComponentValues d\<rparr>, [SigSubscribed (id_isValid d) (suEntityId s)])
      | _ \<Rightarrow> (s, []))"

definition subscriber_error :: "vein_data \<Rightarrow> subscriber \<Rightarrow> actor_signal list" where
  "subscriber_error od s =
     (case od of
        VEntity d \<Rightarrow> if eaCommand d = ECMD_SUBSCRIBE then [SigSubscribed False (suEntityId s)] else []
      | _ \<Rightarrow> [])"

definition getComponentNames :: "subscriber \<Rightarrow> string list" where
  "getComponentNames s = qkeys (suComponents s)"

text \<open>
  The unsubscriber compares the type of the Qt event with the data type of entity data. Event
  types of registered classes are user types (at least 1000), so \<open>qEventType\<close> never is 1.
\<close>

definition unsubscriber_event :: "int \<Rightarrow> int \<Rightarrow> vein_event \<Rightarrow> actor_signal list" where
  "unsubscriber_event qEventType i e =
     (if qEventType = VCMP_ENTITYDATA_DATATYPE
      then (case ceData e of
              VEntity d \<Rightarrow> if eaCommand d = ECMD_UNSUBSCRIBE then [SigUnsubscribed True i] else []
            | _ \<Rightarrow> [])
      else [])"

definition unsubscriber_error :: "int \<Rightarrow> vein_data \<Rightarrow> actor_signal list" where
  "unsubscriber_error i od =
     (case od of
        VEntity d \<Rightarrow> if eaCommand d = ECMD_UNSUBSCRIBE then [SigUnsubscribed False i] else []
      | _ \<Rightarrow> [])"

record change_notifier =
  cnComponentValue :: qvariant

definition notifier_component ::
  "component_data \<Rightarrow> change_notifier \<Rightarrow> change_notifier \<times> actor_signal list" where
  "notifier_component d s =
     (if cdCommand d = CCMD_SET
      then (s\<lparr>cnComponentValue := cdNewValue d\<rparr>, [SigValueChanged]) else (s, []))"

section \<open>VfRPCInvoker\<close>

record rpc_invoker =
  riEntityId :: int
  riPendingRPCs :: "quuid fset"

type_synonym rpc_generator = "int \<Rightarrow> string \<Rightarrow> qvariant_map \<Rightarrow> quuid \<Rightarrow> vein_event"

text \<open>The identifier is what \<^verbatim>\<open>createUuid\<close> returned.\<close>

definition invokeRPC ::
  "qt_lib \<Rightarrow> rpc_generator \<Rightarrow> quuid \<Rightarrow> string \<Rightarrow> qvariant_map \<Rightarrow> rpc_invoker \<Rightarrow>
   rpc_invoker \<times> vein_event list" where
  "invokeRPC qt gen ident name params s =
     (s\<lparr>riPendingRPCs := finsert ident (riPendingRPCs s)\<rparr>,
      [gen (riEntityId s) (parseRpcParams qt name params) params ident])"

definition call_id :: "qt_lib \<Rightarrow> rpc_data \<Rightarrow> quuid" where
  "call_id qt d = qtToUuid qt (qvalue (rdInvokationData d) s_callIdString QInvalid)"

definition finish_call ::
  "bool \<Rightarrow> quuid \<Rightarrow> qvariant_map \<Rightarrow> rpc_invoker \<Rightarrow> rpc_invoker \<times> actor_signal list" where
  "finish_call ok ident m s =
     (if ident |\<in>| riPendingRPCs s
      then (s\<lparr>riPendingRPCs := riPendingRPCs s |-| {|ident|}\<rparr>, [SigRPCFinished ok m])
      else (s, []))"

definition invoker_event ::
  "qt_lib \<Rightarrow> vein_event \<Rightarrow> rpc_invoker \<Rightarrow> rpc_invoker \<times> actor_signal list" where
  "invoker_event qt e s =
     (case ceData e of
        VRpc d \<Rightarrow>
          (if rdCommand d = RPCMD_RESULT
           then finish_call True (call_id qt d) (rdInvokationData d) s
           else (s, []))
      | _ \<Rightarrow> (s, []))"

definition invoker_error ::
  "qt_lib \<Rightarrow> vein_data \<Rightarrow> rpc_invoker \<Rightarrow> rpc_invoker \<times> actor_signal list" where
  "invoker_error qt od s =
     (case od of
        VRpc d \<Rightarrow> finish_call False (call_id qt d) (rdInvokationData d) s
      | _ \<Rightarrow> (s, []))"

section \<open>Lemmas\<close>

lemma rpc_call_data_fields:
  assumes "0 \<le> i"
  shows "rpc_call_data i n params ident =
    \<lparr> edOrigin = EO_LOCAL, edTarget = ET_ALL, edEntityId = i, rdCommand = RPCMD_CALL,
      rdProcedureName = n,
      rdInvokationData = fmupd s_parameterString (QMapV params)
        (fmupd s_callIdString (QUuidV ident) fmempty) \<rparr>"
  using assms by (simp add: rpc_call_data_def vein_defs record_glue)

lemma call_id_rpc_call_data [simp]:
  "qt_conv_ok qt \<Longrightarrow> call_id qt (rpc_call_data i n params ident) = ident"
  by (simp add: call_id_def rpc_call_data_def vein_defs qt_conv_ok_def)

lemma finish_call_pending [simp]:
  "fset (riPendingRPCs (fst (finish_call ok i m s))) = fset (riPendingRPCs s) - {i}"
  "length (snd (finish_call ok i m s)) = (if i |\<in>| riPendingRPCs s then 1 else 0)"
  by (auto simp: finish_call_def)

lemma invokeRPC_pending [simp]:
  "riPendingRPCs (fst (invokeRPC qt gen i n p s)) = finsert i (riPendingRPCs s)"
  by (simp add: invokeRPC_def)

text \<open>The invoker meets the contract of pending calls, for results and errors alike.\<close>

definition invoker_pending :: "rpc_invoker \<Rightarrow> quuid set" where
  "invoker_pending s = fset (riPendingRPCs s)"

definition invoker_start :: "quuid \<Rightarrow> rpc_invoker \<Rightarrow> rpc_invoker" where
  "invoker_start i s = s\<lparr>riPendingRPCs := finsert i (riPendingRPCs s)\<rparr>"

definition invoker_finish :: "quuid \<Rightarrow> rpc_invoker \<Rightarrow> rpc_invoker \<times> nat" where
  "invoker_finish i s =
     (fst (finish_call True i fmempty s), length (snd (finish_call True i fmempty s)))"

interpretation invoker: pending_calls invoker_pending invoker_start invoker_finish
  by unfold_locales (simp_all add: invoker_pending_def invoker_start_def invoker_finish_def)

text \<open>What an invoker sees: its own calls, the events of its entity, and errors.\<close>

datatype invoker_input =
    Invoke quuid string qvariant_map
  | Received vein_event
  | Failed vein_data

text \<open>The identifier a result or error refers to, if it is one.\<close>

definition answered :: "qt_lib \<Rightarrow> invoker_input \<Rightarrow> quuid option" where
  "answered qt x =
     (case x of
        Invoke i n p \<Rightarrow> None
      | Received e \<Rightarrow>
          (case ceData e of
             VRpc d \<Rightarrow> if rdCommand d = RPCMD_RESULT then Some (call_id qt d) else None
           | _ \<Rightarrow> None)
      | Failed od \<Rightarrow> (case od of VRpc d \<Rightarrow> Some (call_id qt d) | _ \<Rightarrow> None))"

definition invoker_step ::
  "qt_lib \<Rightarrow> rpc_generator \<Rightarrow> invoker_input \<Rightarrow> rpc_invoker \<Rightarrow> rpc_invoker \<times> actor_signal list" where
  "invoker_step qt gen x s =
     (case x of
        Invoke i n p \<Rightarrow> (fst (invokeRPC qt gen i n p s), [])
      | Received e \<Rightarrow> invoker_event qt e s
      | Failed od \<Rightarrow> invoker_error qt od s)"

text \<open>How often the caller of \<open>i\<close> is told that its call has finished.\<close>

fun finished_count ::
  "qt_lib \<Rightarrow> rpc_generator \<Rightarrow> quuid \<Rightarrow> invoker_input list \<Rightarrow> rpc_invoker \<Rightarrow> nat" where
  "finished_count qt gen i [] s = 0"
| "finished_count qt gen i (x # xs) s =
     (let (s', sigs) = invoker_step qt gen x s
      in (if answered qt x = Some i then length sigs else 0) + finished_count qt gen i xs s')"

fun call_ops :: "qt_lib \<Rightarrow> invoker_input list \<Rightarrow> quuid call_op list" where
  "call_ops qt [] = []"
| "call_ops qt (x # xs) =
     (case x of
        Invoke i n p \<Rightarrow> Call i # call_ops qt xs
      | _ \<Rightarrow> (case answered qt x of Some i \<Rightarrow> Return i # call_ops qt xs | None \<Rightarrow> call_ops qt xs))"

lemma finish_call_invoker:
  "(fst (finish_call ok i m s), length (snd (finish_call ok i m s))) = invoker_finish i s"
  by (simp add: finish_call_def invoker_finish_def)

lemma invoker_step_answered:
  assumes "answered qt x = Some i"
  shows "(fst (invoker_step qt gen x s), length (snd (invoker_step qt gen x s))) = invoker_finish i s"
proof -
  have "\<exists>ok m. invoker_step qt gen x s = finish_call ok i m s"
    using assms
    by (cases x) (auto simp: answered_def invoker_step_def invoker_event_def invoker_error_def
        split: vein_data.splits if_splits)
  then show ?thesis using finish_call_invoker by metis
qed

lemma invokeRPC_start: "fst (invokeRPC qt gen i n p s) = invoker_start i s"
  by (simp add: invokeRPC_def invoker_start_def)

lemma invoker_step_ignored:
  assumes "answered qt x = None" and "\<And>i n p. x \<noteq> Invoke i n p"
  shows "invoker_step qt gen x s = (s, [])"
  using assms
  by (cases x) (auto simp: answered_def invoker_step_def invoker_event_def invoker_error_def
      split: vein_data.splits if_splits)

lemma finished_count_completions:
  "finished_count qt gen i xs s = invoker.completions i (call_ops qt xs) s"
proof (induction xs arbitrary: s)
  case Nil
  then show ?case by simp
next
  case (Cons x xs)
  show ?case
  proof (cases "\<exists>j n p. x = Invoke j n p")
    case True
    then show ?thesis
      using Cons by (auto simp: invoker_step_def answered_def invokeRPC_start)
  next
    case False
    then have ops: "call_ops qt (x # xs) =
        (case answered qt x of Some i \<Rightarrow> Return i # call_ops qt xs | None \<Rightarrow> call_ops qt xs)"
      by (cases x) auto
    show ?thesis
    proof (cases "answered qt x")
      case None
      then have "invoker_step qt gen x s = (s, [])"
        using False by (intro invoker_step_ignored) auto
      then show ?thesis unfolding ops using Cons None by simp
    next
      case (Some j)
      then show ?thesis
        unfolding ops using Cons Some invoker_step_answered [OF Some, of gen s, symmetric]
        by (cases "j = i") (simp_all add: split_beta Let_def)
    qed
  qed
qed

lemma count_call_ops:
  "count_list (call_ops qt xs) (Call i) = length (filter (\<lambda>x. \<exists>n p. x = Invoke i n p) xs)"
  by (induction xs) (auto split: invoker_input.splits option.splits)

section \<open>Properties\<close>

text \<open>
  C25. Every remote call is reported finished at most once: whatever results and errors
  arrive, in any order and however often, the invoker signals the end of a call no more often
  than it was invoked, and never for an identifier it did not issue.
\<close>

theorem rpc_finished_at_most_once:
  assumes "i |\<notin>| riPendingRPCs s"
  shows "finished_count qt gen i xs s \<le> length (filter (\<lambda>x. \<exists>n p. x = Invoke i n p) xs)"
  using invoker.at_most_once [of i s "call_ops qt xs"] assms
  by (simp add: finished_count_completions count_call_ops invoker_pending_def)

definition example_invoker :: rpc_invoker where
  "example_invoker = \<lparr> riEntityId = 7, riPendingRPCs = {||} \<rparr>"

theorem rpc_finished_at_most_once_witness:
  "finished_count qt_ref client_rpc_generateEvent (Uuid 3)
     [Invoke (Uuid 3) ''RPC_A'' fmempty,
      Received (server_rpc_result 7 ''RPC_A()'' (fmupd s_callIdString (QUuidV (Uuid 3)) fmempty)),
      Received (server_rpc_result 7 ''RPC_A()'' (fmupd s_callIdString (QUuidV (Uuid 3)) fmempty))]
     example_invoker \<le> 1"
  using rpc_finished_at_most_once [of "Uuid 3" example_invoker qt_ref client_rpc_generateEvent
     "[Invoke (Uuid 3) ''RPC_A'' fmempty,
      Received (server_rpc_result 7 ''RPC_A()'' (fmupd s_callIdString (QUuidV (Uuid 3)) fmempty)),
      Received (server_rpc_result 7 ''RPC_A()'' (fmupd s_callIdString (QUuidV (Uuid 3)) fmempty))]"]
  by (simp add: example_invoker_def)

text \<open>
  A call that is answered is reported: the result that carries the identifier of a
  pending call, as the generated call event carried it, makes the invoker emit exactly one
  signal with the result's data and forget the call.
\<close>

theorem rpc_result_reported:
  assumes "qt_conv_ok qt" and "0 \<le> riEntityId s"
    and "ceData call = VRpc cd"
    and "snd (invokeRPC qt client_rpc_generateEvent ident n p s) = [call]"
    and "fmlookup m s_callIdString = fmlookup (rdInvokationData cd) s_callIdString"
  defines "s1 \<equiv> fst (invokeRPC qt client_rpc_generateEvent ident n p s)"
  shows "invoker_event qt (server_rpc_result j sig m) s1 =
    (s1\<lparr>riPendingRPCs := riPendingRPCs s |-| {|ident|}\<rparr>, [SigRPCFinished True m])"
proof -
  have "cd = rpc_call_data (riEntityId s) (parseRpcParams qt n p) p ident"
    using assms(3,4) by (auto simp: invokeRPC_def client_rpc_generateEvent_def vein_defs)
  then have "fmlookup m s_callIdString = Some (QUuidV ident)"
    using assms(5) by (simp add: rpc_call_data_def vein_defs)
  then have "qtToUuid qt (qvalue m s_callIdString QInvalid) = ident"
    using assms(1) by (simp add: qvalue_def qt_conv_ok_def)
  then show ?thesis
    by (simp add: invoker_event_def server_rpc_result_def call_id_def vein_defs finish_call_def
        s1_def invokeRPC_def)
qed

theorem rpc_result_reported_witness:
  "snd (invoker_event qt_ref (server_rpc_result 7 ''RPC_A()''
      (fmupd s_callIdString (QUuidV (Uuid 3)) fmempty))
      (fst (invokeRPC qt_ref client_rpc_generateEvent (Uuid 3) ''RPC_A'' fmempty example_invoker))) =
    [SigRPCFinished True (fmupd s_callIdString (QUuidV (Uuid 3)) fmempty)]"
  using rpc_result_reported [of qt_ref example_invoker
      "client_rpc_generateEvent 7 ''RPC_A()'' fmempty (Uuid 3)"
      "rpc_call_data 7 ''RPC_A()'' fmempty (Uuid 3)" "Uuid 3" "''RPC_A''" fmempty
      "fmupd s_callIdString (QUuidV (Uuid 3)) fmempty" 7 "''RPC_A()''"]
  by (simp add: example_invoker_def client_rpc_generateEvent_def vein_defs invokeRPC_def
      parseRpcParams_def rpc_call_data_def)

text \<open>
  The unsubscriber never reports success: the type of a command event is a user event
  type, which is at least 1000, and so never equals the data type it is compared with; only
  errors are reported.
\<close>

theorem unsubscriber_never_succeeds:
  assumes "1000 \<le> qEventType"
  shows "unsubscriber_event qEventType i e = []"
  using assms by (simp add: unsubscriber_event_def datatype_ids)

theorem unsubscriber_never_succeeds_witness:
  "unsubscriber_event 1001 7 (setEventSubtype NOTIFICATION (unsubscriber_generateEvent 7)) = []"
  by (rule unsubscriber_never_succeeds) simp

end
