(* ===== verification/Lxdm.thy ===== *)
theory Lxdm
  imports Strings
begin

text \<open>
  xsession-change/lib: the display manager's configuration file, which names the X session to
  start. The file system is a record: contents by path, and which paths can be opened and
  committed. File contents are byte strings; reading decodes UTF-8 (a parameter, Qt's
  \<^verbatim>\<open>fromUtf8\<close>), writing encodes Latin-1, which on the model's strings is the identity.
\<close>

section \<open>Configuration and files\<close>

record xsession =
  xsName :: string
  xsFile :: string

record lxdm_param =
  lpConfigFileName :: string
  lpSessions :: "xsession list"

definition lxdm_param_default :: lxdm_param where
  "lxdm_param_default =
     \<lparr> lpConfigFileName = ''/var/lib/lxdm/lxdm.conf'',
       lpSessions = [\<lparr> xsName = ''Desktop'', xsFile = ''/usr/share/xsessions/xfce.desktop'' \<rparr>,
                     \<lparr> xsName = ''Fullscreen'', xsFile = ''/usr/share/xsessions/zenux-gui.desktop'' \<rparr>] \<rparr>"

record file_system =
  fsContents :: "(string, string) fmap"
  fsCanRead :: "string \<Rightarrow> bool"
  fsCanWrite :: "string \<Rightarrow> bool"
  fsCommits :: "string \<Rightarrow> bool"

definition exists_file :: "file_system \<Rightarrow> string \<Rightarrow> bool" where
  "exists_file fs f \<longleftrightarrow> f |\<in>| fmdom (fsContents fs)"

record lxdm_config =
  lxFileName :: string
  lxSessions :: "xsession list"

definition lxdm_new :: "lxdm_param \<Rightarrow> file_system \<Rightarrow> lxdm_config" where
  "lxdm_new p fs =
     \<lparr> lxFileName = lpConfigFileName p,
       lxSessions = (if exists_file fs (lpConfigFileName p)
                     then filter (\<lambda>x. exists_file fs (xsFile x)) (lpSessions p) else []) \<rparr>"

definition sessionLead :: string where
  "sessionLead = ''last_session=''"

section \<open>Reading\<close>

definition readLxdmConfig :: "(string \<Rightarrow> string) \<Rightarrow> lxdm_config \<Rightarrow> file_system \<Rightarrow> string list" where
  "readLxdmConfig utf8 c fs =
     (if \<not> fsCanRead fs (lxFileName c) then []
      else (case fmlookup (fsContents fs) (lxFileName c) of
              None \<Rightarrow> []
            | Some s \<Rightarrow> split_at (CHR 0x0A) (removeAll (CHR 0x0D) (utf8 s))))"

fun find_session :: "(xsession \<Rightarrow> bool) \<Rightarrow> xsession list \<Rightarrow> xsession option" where
  "find_session p [] = None"
| "find_session p (x # xs) = (if p x then Some x else find_session p xs)"

definition sessionNameFromFile :: "lxdm_config \<Rightarrow> string \<Rightarrow> string" where
  "sessionNameFromFile c f =
     (case find_session (\<lambda>x. xsFile x = f) (lxSessions c) of None \<Rightarrow> '''' | Some x \<Rightarrow> xsName x)"

fun first_configured :: "lxdm_config \<Rightarrow> string list \<Rightarrow> string" where
  "first_configured c [] = ''''"
| "first_configured c (l # ls) =
     (if startsWith sessionLead l
      then (case split_at (CHR ''='') l of
              [_, v] \<Rightarrow> sessionNameFromFile c v
            | _ \<Rightarrow> first_configured c ls)
      else first_configured c ls)"

definition getConfiguredXSessionName ::
  "(string \<Rightarrow> string) \<Rightarrow> lxdm_config \<Rightarrow> file_system \<Rightarrow> string" where
  "getConfiguredXSessionName utf8 c fs = first_configured c (readLxdmConfig utf8 c fs)"

definition getAvailableXSessionNames :: "lxdm_config \<Rightarrow> string list" where
  "getAvailableXSessionNames c = map xsName (lxSessions c)"

section \<open>Writing\<close>

text \<open>The lines to write, and whether the session line has been written.\<close>

fun rewrite_lines :: "string \<Rightarrow> bool \<Rightarrow> string list \<Rightarrow> string list \<times> bool" where
  "rewrite_lines new found [] = ([], found)"
| "rewrite_lines new found (l # ls) =
     (if startsWith sessionLead l \<and> found then rewrite_lines new found ls
      else
        let w = (if startsWith sessionLead l then new else l);
            found' = (found \<or> startsWith sessionLead l);
            (ws, f) = rewrite_lines new found' ls
        in (if w \<noteq> [] then w # ws else ws, f))"

text \<open>The result of \<^verbatim>\<open>commit\<close> is not looked at.\<close>

definition writeConfig ::
  "(string \<Rightarrow> string) \<Rightarrow> lxdm_config \<Rightarrow> string \<Rightarrow> file_system \<Rightarrow> bool \<times> file_system" where
  "writeConfig utf8 c f fs =
     (if \<not> exists_file fs f then (False, fs)
      else
        let new = sessionLead @ f;
            (ws, found) = rewrite_lines new False (readLxdmConfig utf8 c fs);
            ls = (if found then ws else ws @ [new])
        in if \<not> fsCanWrite fs (lxFileName c) then (False, fs)
           else if fsCommits fs (lxFileName c)
           then (True, fs\<lparr>fsContents := fmupd (lxFileName c)
                             (concat (map (\<lambda>l. l @ [CHR 0x0A]) ls)) (fsContents fs)\<rparr>)
           else (True, fs))"

definition setCurrentXSession ::
  "(string \<Rightarrow> string) \<Rightarrow> lxdm_config \<Rightarrow> string \<Rightarrow> file_system \<Rightarrow> bool \<times> file_system" where
  "setCurrentXSession utf8 c n fs =
     (case find_session (\<lambda>x. xsName x = n) (lxSessions c) of
        None \<Rightarrow> (False, fs)
      | Some x \<Rightarrow> writeConfig utf8 c (xsFile x) fs)"

section \<open>Lemmas\<close>

lemma lead_nonempty [simp]: "sessionLead \<noteq> []"
  by (simp add: sessionLead_def)

definition ascii :: "string \<Rightarrow> bool" where
  "ascii s \<longleftrightarrow> (\<forall>c \<in> set s. of_char c < (128 :: nat))"

text \<open>Documented: UTF-8 decodes ASCII to itself.\<close>

definition utf8_ascii :: "(string \<Rightarrow> string) \<Rightarrow> bool" where
  "utf8_ascii utf8 \<longleftrightarrow> (\<forall>s. ascii s \<longrightarrow> utf8 s = s)"

lemma find_session_Some:
  "find_session p xs = Some x \<Longrightarrow> x \<in> set xs \<and> p x"
  by (induction xs) (auto split: if_splits)

lemma find_session_unique:
  "x \<in> set xs \<Longrightarrow> distinct (map xsFile xs) \<Longrightarrow> find_session (\<lambda>y. xsFile y = xsFile x) xs = Some x"
  by (induction xs) auto

text \<open>A line of another setting.\<close>

definition other_setting :: "string \<Rightarrow> bool" where
  "other_setting l \<longleftrightarrow> l \<noteq> [] \<and> \<not> startsWith sessionLead l"

lemma rewrite_lines_flag:
  "snd (rewrite_lines new found ls) \<longleftrightarrow> found \<or> (\<exists>l \<in> set ls. startsWith sessionLead l)"
  by (induction ls arbitrary: found) (simp_all add: Let_def split_beta)

lemma rewrite_lines_found: "fst (rewrite_lines new True ls) = filter other_setting ls"
  by (induction ls) (simp_all add: Let_def split_beta other_setting_def)

lemma rewrite_lines_none:
  "\<forall>l \<in> set ls. \<not> startsWith sessionLead l \<Longrightarrow>
   fst (rewrite_lines new False ls) = filter other_setting ls"
  by (induction ls) (simp_all add: Let_def split_beta other_setting_def)

lemma rewrite_lines_first:
  "new \<noteq> [] \<Longrightarrow> \<exists>l \<in> set ls. startsWith sessionLead l \<Longrightarrow>
   \<exists>pre post. fst (rewrite_lines new False ls) = pre @ [new] @ post \<and>
     pre @ post = filter other_setting ls"
proof (induction ls)
  case Nil
  then show ?case by simp
next
  case (Cons l ls)
  show ?case
  proof (cases "startsWith sessionLead l")
    case True
    then show ?thesis
      using Cons.prems(1)
      by (intro exI [of _ "[]"] exI [of _ "filter other_setting ls"])
         (simp add: Let_def split_beta rewrite_lines_found, simp add: other_setting_def)
  next
    case False
    then obtain pre post where "fst (rewrite_lines new False ls) = pre @ [new] @ post"
      "pre @ post = filter other_setting ls"
      using Cons by auto
    moreover have "other_setting l \<longleftrightarrow> l \<noteq> []" using False by (simp add: other_setting_def)
    ultimately have "fst (rewrite_lines new False (l # ls)) =
        (if l \<noteq> [] then l # pre else pre) @ [new] @ post"
      "(if l \<noteq> [] then l # pre else pre) @ post = filter other_setting (l # ls)"
      using False by (simp_all add: Let_def split_beta)
    then show ?thesis by blast
  qed
qed

text \<open>The lines written: those of other settings in order, and one session line.\<close>

definition written :: "string \<Rightarrow> string list \<Rightarrow> string list" where
  "written new ls =
     (let (ws, found) = rewrite_lines new False ls in if found then ws else ws @ [new])"

lemma written_spec:
  assumes "new \<noteq> []"
  obtains pre post where "written new ls = pre @ [new] @ post"
    and "pre @ post = filter other_setting ls"
proof (cases "\<exists>l \<in> set ls. startsWith sessionLead l")
  case False
  then have "written new ls = filter other_setting ls @ [new] @ []"
    using rewrite_lines_none [of ls new]
    by (simp add: written_def split_beta Let_def rewrite_lines_flag)
  then show ?thesis by (rule that) simp
next
  case True
  then obtain pre post where "fst (rewrite_lines new False ls) = pre @ [new] @ post"
    and "pre @ post = filter other_setting ls"
    using rewrite_lines_first [OF assms] by blast
  moreover have "written new ls = fst (rewrite_lines new False ls)"
    using True by (simp add: written_def split_beta Let_def rewrite_lines_flag)
  ultimately show ?thesis by (intro that) simp_all
qed

lemma first_configured_skip:
  "\<forall>l \<in> set pre. \<not> startsWith sessionLead l \<Longrightarrow>
   first_configured c (pre @ ls) = first_configured c ls"
  by (induction pre) auto

lemma split_session_line:
  assumes "CHR ''='' \<notin> set f"
  shows "split_at (CHR ''='') (sessionLead @ f) = [''last_session'', f]"
  using split_at_first [of "CHR ''=''" "''last_session''" f] split_at_none [OF assms]
  by (simp add: sessionLead_def)

lemma setCurrentXSession_writes:
  assumes "setCurrentXSession utf8 c n fs = (True, fs')"
  obtains x where "x \<in> set (lxSessions c)" and "xsName x = n"
    and "fsCommits fs (lxFileName c) \<Longrightarrow> fs' = fs\<lparr>fsContents := fmupd (lxFileName c)
      (concat (map (\<lambda>l. l @ [CHR 0x0A])
        (written (sessionLead @ xsFile x) (readLxdmConfig utf8 c fs)))) (fsContents fs)\<rparr>"
    and "\<not> fsCommits fs (lxFileName c) \<Longrightarrow> fs' = fs"
  using assms that
  by (auto simp: setCurrentXSession_def writeConfig_def written_def Let_def split_beta
      split: option.splits if_splits dest!: find_session_Some)

lemma read_clean:
  assumes "utf8_ascii utf8" and "\<And>s. fmlookup (fsContents fs) (lxFileName c) = Some s \<Longrightarrow> ascii s"
    and "l \<in> set (readLxdmConfig utf8 c fs)"
  shows "ascii l \<and> CHR 0x0A \<notin> set l \<and> CHR 0x0D \<notin> set l"
proof -
  obtain s where s: "fmlookup (fsContents fs) (lxFileName c) = Some s"
    "l \<in> set (split_at (CHR 0x0A) (removeAll (CHR 0x0D) (utf8 s)))"
    using assms(3)
    by (cases "fmlookup (fsContents fs) (lxFileName c)")
       (simp_all add: readLxdmConfig_def split: if_splits)
  then have "utf8 s = s" "ascii s" using assms(1,2) by (auto simp: utf8_ascii_def)
  then show ?thesis using split_at_parts [OF s(2)] by (auto simp: ascii_def)
qed

lemma read_back:
  assumes "utf8_ascii utf8" and "fsCanRead fs (lxFileName c)"
    and "\<forall>l \<in> set ls. ascii l \<and> CHR 0x0A \<notin> set l \<and> CHR 0x0D \<notin> set l"
  shows "readLxdmConfig utf8 c (fs\<lparr>fsContents := fmupd (lxFileName c)
      (concat (map (\<lambda>l. l @ [CHR 0x0A]) ls)) m\<rparr>) = ls @ [[]]"
proof -
  let ?s = "concat (map (\<lambda>l. l @ [CHR 0x0A]) ls)"
  have "ascii ?s" using assms(3) by (auto simp: ascii_def)
  then have "utf8 ?s = ?s" using assms(1) by (simp add: utf8_ascii_def)
  moreover have "removeAll (CHR 0x0D) ?s = ?s"
    using assms(3) by (intro removeAll_id) auto
  moreover have "split_at (CHR 0x0A) ?s = ls @ [[]]"
    using assms(3) by (intro split_at_terminated) auto
  ultimately show ?thesis using assms(2) by (simp add: readLxdmConfig_def)
qed

lemma selected_session:
  assumes "setCurrentXSession utf8 c n fs = (True, fs')"
    and "fsCommits fs (lxFileName c)" and "fsCanRead fs (lxFileName c)"
    and "utf8_ascii utf8" and "\<And>s. fmlookup (fsContents fs) (lxFileName c) = Some s \<Longrightarrow> ascii s"
    and "distinct (map xsFile (lxSessions c))"
    and "\<forall>x \<in> set (lxSessions c). ascii (xsFile x) \<and>
      set (xsFile x) \<inter> {CHR ''='', CHR 0x0A, CHR 0x0D} = {}"
  shows "getConfiguredXSessionName utf8 c fs' = n \<and>
    filter other_setting (readLxdmConfig utf8 c fs') =
      filter other_setting (readLxdmConfig utf8 c fs) \<and>
    length (filter (startsWith sessionLead) (readLxdmConfig utf8 c fs')) = 1"
proof -
  obtain x where x: "x \<in> set (lxSessions c)" "xsName x = n"
    and fs': "fs' = fs\<lparr>fsContents := fmupd (lxFileName c) (concat (map (\<lambda>l. l @ [CHR 0x0A])
        (written (sessionLead @ xsFile x) (readLxdmConfig utf8 c fs)))) (fsContents fs)\<rparr>"
    using setCurrentXSession_writes [OF assms(1)] assms(2) by blast
  let ?new = "sessionLead @ xsFile x"
  obtain pre post where w: "written ?new (readLxdmConfig utf8 c fs) = pre @ [?new] @ post"
    and pp: "pre @ post = filter other_setting (readLxdmConfig utf8 c fs)"
    by (rule written_spec [of ?new]) simp_all
  have w2: "other_setting l \<and> l \<in> set (readLxdmConfig utf8 c fs)" if "l \<in> set (pre @ post)" for l
    using that unfolding pp by simp
  have "ascii ?new \<and> CHR 0x0A \<notin> set ?new \<and> CHR 0x0D \<notin> set ?new"
    using assms(7) x(1) by (auto simp: ascii_def sessionLead_def)
  then have r: "readLxdmConfig utf8 c fs' = (pre @ [?new] @ post) @ [[]]"
    unfolding fs' w using read_clean [OF assms(4,5)] w2
    by (intro read_back [OF assms(4,3)]) auto
  have "sessionNameFromFile c (xsFile x) = n"
    using find_session_unique [OF x(1) assms(6)] x(2) by (simp add: sessionNameFromFile_def)
  moreover have pre: "\<forall>l \<in> set pre. \<not> startsWith sessionLead l" and
    post: "\<forall>l \<in> set post. \<not> startsWith sessionLead l"
    using w2 by (simp_all add: other_setting_def)
  ultimately have "getConfiguredXSessionName utf8 c fs' = n"
    using assms(7) x(1) split_session_line [of "xsFile x"]
    unfolding getConfiguredXSessionName_def r by (simp add: first_configured_skip)
  moreover have "filter other_setting (readLxdmConfig utf8 c fs') = pre @ post"
    using w2 unfolding r by (simp add: filter_id_conv) (simp add: other_setting_def)
  moreover have "filter (startsWith sessionLead) (readLxdmConfig utf8 c fs') = [?new]"
    using pre post unfolding r by (simp add: filter_empty_conv)
  ultimately show ?thesis by (simp add: pp)
qed

section \<open>Properties\<close>

text \<open>
  C34. Selecting an X session takes effect: when \<open>setCurrentXSession\<close> reports success and the
  file was committed, the session read back from the configuration file is the selected one,
  and every non-empty line of another setting is still there, in order, with exactly one
  session line (for ASCII files, distinct session files whose names hold no equals sign).
\<close>

theorem xsession_set_and_get:
  assumes "setCurrentXSession utf8 c n fs = (True, fs')"
    and "fsCommits fs (lxFileName c)" and "fsCanRead fs (lxFileName c)"
    and "utf8_ascii utf8" and "\<And>s. fmlookup (fsContents fs) (lxFileName c) = Some s \<Longrightarrow> ascii s"
    and "distinct (map xsFile (lxSessions c))"
    and "\<forall>x \<in> set (lxSessions c). ascii (xsFile x) \<and>
      set (xsFile x) \<inter> {CHR ''='', CHR 0x0A, CHR 0x0D} = {}"
  shows "getConfiguredXSessionName utf8 c fs' = n \<and>
    filter other_setting (readLxdmConfig utf8 c fs') =
      filter other_setting (readLxdmConfig utf8 c fs) \<and>
    length (filter (startsWith sessionLead) (readLxdmConfig utf8 c fs')) = 1"
  by (rule selected_session [OF assms])

definition example_fs :: file_system where
  "example_fs =
     \<lparr> fsContents = fmap_of_list [(''lxdm.conf'', ''last_session=a''), (''a'', []), (''b'', [])],
       fsCanRead = (\<lambda>f. True), fsCanWrite = (\<lambda>f. True), fsCommits = (\<lambda>f. True) \<rparr>"

definition example_config :: lxdm_config where
  "example_config = lxdm_new
     \<lparr> lpConfigFileName = ''lxdm.conf'',
       lpSessions = [\<lparr> xsName = ''A'', xsFile = ''a'' \<rparr>, \<lparr> xsName = ''B'', xsFile = ''b'' \<rparr>] \<rparr> example_fs"

theorem xsession_set_and_get_witness:
  "getConfiguredXSessionName id example_config
     (snd (setCurrentXSession id example_config ''B'' example_fs)) = ''B''"
proof -
  have c: "example_config = \<lparr> lxFileName = ''lxdm.conf'',
      lxSessions = [\<lparr> xsName = ''A'', xsFile = ''a'' \<rparr>, \<lparr> xsName = ''B'', xsFile = ''b'' \<rparr>] \<rparr>"
    by (simp add: example_config_def lxdm_new_def exists_file_def example_fs_def)
  have "setCurrentXSession id example_config ''B'' example_fs =
      (True, snd (setCurrentXSession id example_config ''B'' example_fs))"
    by (simp add: setCurrentXSession_def c writeConfig_def exists_file_def example_fs_def Let_def
        split_beta)
  from xsession_set_and_get [OF this]
  show ?thesis by (auto simp: c example_fs_def utf8_ascii_def ascii_def)
qed

text \<open>Success is also reported when the file could not be committed and keeps its content.\<close>

lemma commit_failure_unnoticed:
  assumes "fst (setCurrentXSession utf8 c n fs)" and "\<not> fsCommits fs (lxFileName c)"
  shows "snd (setCurrentXSession utf8 c n fs) = fs"
  using assms
  by (auto simp: setCurrentXSession_def writeConfig_def Let_def split_beta split: option.splits if_splits)

end
