(* ===== verification/ModulesBase.thy ===== *)
theory ModulesBase
  imports QtModel Strings
begin

text \<open>
  server-libs/modules-base: the validators of module parameters and the description of a
  parameter for the SCPI interface. JSON values are a datatype; numbers and their conversions
  belong to Qt and are fields of \<open>num_lib\<close>.
\<close>

section \<open>JSON\<close>

datatype json =
    JUndefined
  | JNull
  | JBool bool
  | JInt int
  | JDouble "64 word"
  | JStr string
  | JArr "json list"
  | JObj "(string, json) fmap"

type_synonym json_object = "(string, json) qmap"

fun jsonToString :: "json \<Rightarrow> string" where
  "jsonToString (JStr s) = s"
| "jsonToString _ = ''''"

fun jsonToArray :: "json \<Rightarrow> json list" where
  "jsonToArray (JArr l) = l"
| "jsonToArray _ = []"

fun jsonToObject :: "json \<Rightarrow> json_object" where
  "jsonToObject (JObj m) = m"
| "jsonToObject _ = fmempty"

definition jsonValue :: "json_object \<Rightarrow> string \<Rightarrow> json" where
  "jsonValue m k = qvalue m k JUndefined"

section \<open>Validators\<close>

text \<open>Conversions come with the flag that they succeeded; doubles are bit patterns.\<close>

record num_lib =
  nlToInt :: "qvariant \<Rightarrow> int \<times> bool"
  nlToUInt :: "qvariant \<Rightarrow> int \<times> bool"
  nlToDouble :: "qvariant \<Rightarrow> 64 word \<times> bool"
  nlLe :: "64 word \<Rightarrow> 64 word \<Rightarrow> bool"
  nlMatches :: "string \<Rightarrow> string \<Rightarrow> bool"        \<comment> \<open>\<^verbatim>\<open>QRegularExpression(r).match(s).hasMatch()\<close>\<close>

datatype validator =
    StringV "string list"
  | BoolV
  | IntV int int int
  | UintV int int int
  | DoubleV "64 word" "64 word" "64 word"
  | RegexV string

definition string_isValidParam :: "qt_lib \<Rightarrow> string list \<Rightarrow> qvariant \<Rightarrow> bool \<times> qvariant" where
  "string_isValidParam qt ps v = (qtToString qt v \<in> set ps, v)"

definition bool_isValidParam :: "num_lib \<Rightarrow> qvariant \<Rightarrow> bool \<times> qvariant" where
  "bool_isValidParam nl v =
     (let (n, ok) = nlToInt nl v in if ok \<and> (n = 0 \<or> n = 1) then (True, QInt n) else (False, v))"

definition int_isValidParam :: "num_lib \<Rightarrow> int \<Rightarrow> int \<Rightarrow> qvariant \<Rightarrow> bool \<times> qvariant" where
  "int_isValidParam nl mn mx v =
     (let (n, ok) = nlToInt nl v;
          ok' = (ok \<and> n \<le> mx \<and> n \<ge> mn)
      in (ok', if ok' then QInt n else v))"

definition uint_isValidParam :: "num_lib \<Rightarrow> int \<Rightarrow> int \<Rightarrow> qvariant \<Rightarrow> bool \<times> qvariant" where
  "uint_isValidParam nl mn mx v =
     (let (n, ok) = nlToUInt nl v;
          ok' = (ok \<and> n \<le> mx \<and> n \<ge> mn)
      in (ok', if ok' then QUInt n else v))"

definition double_isValidParam ::
  "num_lib \<Rightarrow> 64 word \<Rightarrow> 64 word \<Rightarrow> qvariant \<Rightarrow> bool \<times> qvariant" where
  "double_isValidParam nl mn mx v =
     (let (x, ok) = nlToDouble nl v;
          ok' = (ok \<and> nlLe nl x mx \<and> nlLe nl mn x)
      in (ok', if ok' then QDouble x else v))"

definition regex_isValidParam :: "qt_lib \<Rightarrow> num_lib \<Rightarrow> string \<Rightarrow> qvariant \<Rightarrow> bool \<times> qvariant" where
  "regex_isValidParam qt nl r v = (nlMatches nl r (qtToString qt v), v)"

text \<open>The virtual function: the verdict and the parameter, possibly converted.\<close>

fun isValidParam :: "qt_lib \<Rightarrow> num_lib \<Rightarrow> validator \<Rightarrow> qvariant \<Rightarrow> bool \<times> qvariant" where
  "isValidParam qt nl (StringV ps) v = string_isValidParam qt ps v"
| "isValidParam qt nl BoolV v = bool_isValidParam nl v"
| "isValidParam qt nl (IntV mn mx dl) v = int_isValidParam nl mn mx v"
| "isValidParam qt nl (UintV mn mx dl) v = uint_isValidParam nl mn mx v"
| "isValidParam qt nl (DoubleV mn mx dl) v = double_isValidParam nl mn mx v"
| "isValidParam qt nl (RegexV r) v = regex_isValidParam qt nl r v"

text \<open>The possibilities as one text with semicolons, and the setters.\<close>

definition string_validator :: "string \<Rightarrow> validator" where
  "string_validator possibilities = StringV (split_at (CHR '';'') possibilities)"

fun string_setValidator :: "string \<Rightarrow> validator \<Rightarrow> validator" where
  "string_setValidator possibilities (StringV ps) = StringV (split_at (CHR '';'') possibilities)"
| "string_setValidator possibilities va = va"

fun regex_setValidator :: "string \<Rightarrow> validator \<Rightarrow> validator" where
  "regex_setValidator r (RegexV old) = RegexV r"
| "regex_setValidator r va = va"

lemma string_validator_join:
  assumes "ps \<noteq> []" and "\<forall>p \<in> set ps. CHR '';'' \<notin> set p"
  shows "fst (isValidParam qt nl (string_validator (join '';'' ps)) v) \<longleftrightarrow> qtToString qt v \<in> set ps"
  using split_at_join [OF assms] by (simp add: string_validator_def string_isValidParam_def)

definition string_exportMetaData :: "string list \<Rightarrow> json_object \<Rightarrow> json_object" where
  "string_exportMetaData ps m =
     fmupd ''Data'' (JArr (map JStr ps)) (fmupd ''Type'' (JStr ''STRING'') m)"

definition bool_exportMetaData :: "json_object \<Rightarrow> json_object" where
  "bool_exportMetaData m =
     fmupd ''Data'' (JArr [JInt 0, JInt 1]) (fmupd ''Type'' (JStr ''BOOL'') m)"

definition int_exportMetaData :: "int \<Rightarrow> int \<Rightarrow> int \<Rightarrow> json_object \<Rightarrow> json_object" where
  "int_exportMetaData mn mx dl m =
     fmupd ''Data'' (JArr [JInt mn, JInt mx, JInt dl]) (fmupd ''Type'' (JStr ''INTEGER'') m)"

definition uint_exportMetaData :: "int \<Rightarrow> int \<Rightarrow> int \<Rightarrow> json_object \<Rightarrow> json_object" where
  "uint_exportMetaData mn mx dl m =
     fmupd ''Data'' (JArr [JInt mn, JInt mx, JInt dl]) (fmupd ''Type'' (JStr ''INTEGER'') m)"

definition double_exportMetaData ::
  "64 word \<Rightarrow> 64 word \<Rightarrow> 64 word \<Rightarrow> json_object \<Rightarrow> json_object" where
  "double_exportMetaData mn mx dl m =
     fmupd ''Data'' (JArr [JDouble mn, JDouble mx, JDouble dl]) (fmupd ''Type'' (JStr ''DOUBLE'') m)"

definition regex_exportMetaData :: "string \<Rightarrow> json_object \<Rightarrow> json_object" where
  "regex_exportMetaData r m = fmupd ''Data'' (JStr r) (fmupd ''Type'' (JStr ''REGEX'') m)"

fun validator_exportMetaData :: "validator \<Rightarrow> json_object \<Rightarrow> json_object" where
  "validator_exportMetaData (StringV ps) m = string_exportMetaData ps m"
| "validator_exportMetaData BoolV m = bool_exportMetaData m"
| "validator_exportMetaData (IntV mn mx dl) m = int_exportMetaData mn mx dl m"
| "validator_exportMetaData (UintV mn mx dl) m = uint_exportMetaData mn mx dl m"
| "validator_exportMetaData (DoubleV mn mx dl) m = double_exportMetaData mn mx dl m"
| "validator_exportMetaData (RegexV r) m = regex_exportMetaData r m"

section \<open>JsonParamValidator\<close>

text \<open>
  The library that checks JSON parameters against their structure, and the conversions between
  variants and JSON objects, are parameters: a structure becomes a state of type \<open>'s\<close>, and a check
  returns the texts of the errors found.
\<close>

record 's json_param_lib =
  jlStructure :: "json_object \<Rightarrow> 's"
  jlErrors :: "'s \<Rightarrow> json_object \<Rightarrow> string list"
  jlToObject :: "qvariant \<Rightarrow> json_object"          \<comment> \<open>\<^verbatim>\<open>toJsonObject\<close>\<close>
  jlOfObject :: "json_object \<Rightarrow> qvariant"          \<comment> \<open>a variant that holds the object\<close>

definition json_setStructure :: "'s json_param_lib \<Rightarrow> json_object \<Rightarrow> 's" where
  "json_setStructure jl structure = jlStructure jl structure"

text \<open>An accepted value is left as a JSON object, whatever lists and maps it came in.\<close>

definition json_isValidParam :: "'s json_param_lib \<Rightarrow> 's \<Rightarrow> qvariant \<Rightarrow> bool \<times> qvariant" where
  "json_isValidParam jl s v =
     (let ob = jlToObject jl v; valid = (jlErrors jl s ob = [])
      in (valid, if valid then jlOfObject jl ob else v))"

definition json_exportMetaData :: "json_object \<Rightarrow> json_object" where
  "json_exportMetaData m = m"

lemma json_validation_stable:
  assumes "\<And>ob. jlToObject jl (jlOfObject jl ob) = ob"
  shows "case json_isValidParam jl s v of
      (True, v') \<Rightarrow> jlErrors jl s (jlToObject jl v') = [] \<and> json_isValidParam jl s v' = (True, v')
    | (False, v') \<Rightarrow> v' = v"
  using assms by (simp add: json_isValidParam_def Let_def)

section \<open>VfModuleMetaInfoContainer\<close>

datatype scpi_entry_type = ScpiComponent | ScpiCatalog

record meta_info =
  miModel :: string
  miCmd :: string
  miCmdType :: string
  miName :: string
  miRefType :: string

definition meta_info_new ::
  "string \<Rightarrow> string \<Rightarrow> int \<Rightarrow> string \<Rightarrow> scpi_entry_type \<Rightarrow> meta_info" where
  "meta_info_new model cmd tm name t =
     \<lparr> miModel = model, miCmd = cmd, miCmdType = int_digits tm, miName = name,
       miRefType = (if t = ScpiCatalog then ''1'' else ''0'') \<rparr>"

definition appendSCPIInfo :: "meta_info \<Rightarrow> json list \<Rightarrow> json list" where
  "appendSCPIInfo mi arr =
     arr @ [JArr (map JStr [miModel mi, miCmd mi, miCmdType mi, miName mi, miRefType mi])]"

section \<open>Properties\<close>

text \<open>Documented: converting a value of the stored type succeeds and returns it.\<close>

definition num_lib_ok :: "num_lib \<Rightarrow> bool" where
  "num_lib_ok nl \<longleftrightarrow>
     (\<forall>i. - (2 ^ 31) \<le> i \<and> i < 2 ^ 31 \<longrightarrow> nlToInt nl (QInt i) = (i, True)) \<and>
     (\<forall>v i. nlToInt nl v = (i, True) \<longrightarrow> - (2 ^ 31) \<le> i \<and> i < 2 ^ 31) \<and>
     (\<forall>i. 0 \<le> i \<and> i < 2 ^ 32 \<longrightarrow> nlToUInt nl (QUInt i) = (i, True)) \<and>
     (\<forall>v i. nlToUInt nl v = (i, True) \<longrightarrow> 0 \<le> i \<and> i < 2 ^ 32) \<and>
     (\<forall>x. nlToDouble nl (QDouble x) = (x, True))"

definition in_bounds :: "qt_lib \<Rightarrow> num_lib \<Rightarrow> validator \<Rightarrow> qvariant \<Rightarrow> bool" where
  "in_bounds qt nl va v =
     (case va of
        StringV ps \<Rightarrow> qtToString qt v \<in> set ps
      | BoolV \<Rightarrow> v \<in> {QInt 0, QInt 1}
      | IntV mn mx dl \<Rightarrow> (case v of QInt i \<Rightarrow> mn \<le> i \<and> i \<le> mx | _ \<Rightarrow> False)
      | UintV mn mx dl \<Rightarrow> (case v of QUInt i \<Rightarrow> mn \<le> i \<and> i \<le> mx | _ \<Rightarrow> False)
      | DoubleV mn mx dl \<Rightarrow> (case v of QDouble x \<Rightarrow> nlLe nl mn x \<and> nlLe nl x mx | _ \<Rightarrow> False)
      | RegexV r \<Rightarrow> nlMatches nl r (qtToString qt v))"

lemma validated_in_bounds:
  "isValidParam qt nl va v = (True, v') \<Longrightarrow> in_bounds qt nl va v'"
  by (cases va) (auto simp: in_bounds_def string_isValidParam_def bool_isValidParam_def
      int_isValidParam_def uint_isValidParam_def double_isValidParam_def regex_isValidParam_def
      Let_def split: prod.splits if_splits)

text \<open>
  Validation is sound and idempotent: an accepted parameter is left as a value of the
  validator's type within its bounds, which the validator accepts again unchanged; a rejected
  parameter is left as it was.
\<close>

theorem validation_sound:
  assumes "num_lib_ok nl"
  shows "case isValidParam qt nl va v of
      (True, v') \<Rightarrow> in_bounds qt nl va v' \<and> isValidParam qt nl va v' = (True, v')
    | (False, v') \<Rightarrow> v' = v"
proof (cases "fst (isValidParam qt nl va v)")
  case False
  then show ?thesis
    by (cases va) (auto simp: string_isValidParam_def bool_isValidParam_def
      int_isValidParam_def uint_isValidParam_def double_isValidParam_def regex_isValidParam_def
      Let_def split: prod.splits if_splits)
next
  case True
  then obtain v' where v': "isValidParam qt nl va v = (True, v')"
    by (cases "isValidParam qt nl va v") auto
  have "isValidParam qt nl va v' = (True, v')"
    using v' assms by (cases va) (auto simp: num_lib_ok_def string_isValidParam_def
      bool_isValidParam_def int_isValidParam_def uint_isValidParam_def double_isValidParam_def
      regex_isValidParam_def Let_def split: prod.splits if_splits)
  then show ?thesis using v' validated_in_bounds [OF v'] by simp
qed

fun ref_to_int :: "qvariant \<Rightarrow> int \<times> bool" where
  "ref_to_int (QInt i) = (if - (2 ^ 31) \<le> i \<and> i < 2 ^ 31 then (i, True) else (0, False))"
| "ref_to_int (QBool b) = (if b then 1 else 0, True)"
| "ref_to_int _ = (0, False)"

fun ref_to_uint :: "qvariant \<Rightarrow> int \<times> bool" where
  "ref_to_uint (QUInt i) = (if 0 \<le> i \<and> i < 2 ^ 32 then (i, True) else (0, False))"
| "ref_to_uint _ = (0, False)"

fun ref_to_double :: "qvariant \<Rightarrow> 64 word \<times> bool" where
  "ref_to_double (QDouble x) = (x, True)"
| "ref_to_double _ = (0, False)"

definition num_ref :: num_lib where
  "num_ref = \<lparr> nlToInt = ref_to_int, nlToUInt = ref_to_uint, nlToDouble = ref_to_double,
     nlLe = (\<le>), nlMatches = (=) \<rparr>"

lemma num_ref_ok: "num_lib_ok num_ref"
proof -
  have "ref_to_int v = (i, True) \<Longrightarrow> - (2 ^ 31) \<le> i \<and> i < 2 ^ 31" for v i
    by (cases v rule: ref_to_int.cases) (auto split: if_splits)
  moreover have "ref_to_uint v = (i, True) \<Longrightarrow> 0 \<le> i \<and> i < 2 ^ 32" for v i
    by (cases v rule: ref_to_uint.cases) (auto split: if_splits)
  ultimately show ?thesis by (simp add: num_lib_ok_def num_ref_def)
qed

theorem validation_sound_witness:
  "in_bounds qt_ref num_ref BoolV (QInt 1)"
  using validation_sound [OF num_ref_ok, of qt_ref BoolV "QBool True"]
  by (simp add: bool_isValidParam_def num_ref_def)

end
