(* ===== verification/SystemModule.thy ===== *)
theory SystemModule
  imports Actors Lxdm ModulesBase
begin

text \<open>
  server-libs/modman-base, \<^verbatim>\<open>SystemModuleEventSystem\<close>: the first system of the server's chain.
  It turns client requests it allows into notifications, runs the session and X session changes
  and publishes the components of the system entity. The environment (file decoding, the restart
  command, JSON files and text, the entity list of the store) is an argument; the file system is
  part of the state because an X session change writes to it.
\<close>

section \<open>State\<close>

record vein_param =
  vpDescription :: string
  vpVeinComponentData :: "component_data option"
  vpScpiInfo :: "meta_info option"
  vpValidator :: "validator option"

record system_module =
  smCurrentSession :: string
  smAvailableSessions :: "string list"
  smAvailableSessionsDisplayed :: "string list"
  smConfigFileName :: string
  smParams :: "(string, vein_param) qmap"
  smCatalog :: "meta_info list"
  smLxdm :: lxdm_config
  smInitDone :: bool
  smSessionReady :: bool
  smModulesPaused :: bool
  smDevMode :: bool
  smHasStorage :: bool
  smFs :: file_system

datatype sm_signal = SigChangeSession string | SigModulesPausedChanged bool

text \<open>
  Slots run while \<^verbatim>\<open>emit\<close> waits. \<open>evChangeSlots\<close> is what those of \<^verbatim>\<open>sigChangeSession\<close> do to the system
  before it goes on: its new state, events it sent and signals it emitted meanwhile, or \<open>None\<close>.
\<close>

record system_env =
  evUtf8 :: "string \<Rightarrow> string"
  evRestart :: bool                          \<comment> \<open>what the restart function returns\<close>
  evLoadJson :: "string \<Rightarrow> json_object"       \<comment> \<open>\<^verbatim>\<open>cJsonFileLoader::loadJsonFile\<close>\<close>
  evJsonText :: "json_object \<Rightarrow> bytes"        \<comment> \<open>\<^verbatim>\<open>QJsonDocument::toJson\<close>\<close>
  evEntityList :: "int list"                 \<comment> \<open>\<^verbatim>\<open>getDb()->getEntityList()\<close>\<close>
  evIsQuery :: int                           \<comment> \<open>\<^verbatim>\<open>SCPI::isQuery\<close>\<close>
  evIsQueryCmd :: int                        \<comment> \<open>\<^verbatim>\<open>SCPI::isQuery|SCPI::isCmdwP\<close>\<close>
  evChangeSlots :: "string \<Rightarrow> system_module \<Rightarrow>
    (system_module \<times> vein_event list \<times> sm_signal list) option"

text \<open>Slots that leave the system alone.\<close>

definition no_slots ::
  "string \<Rightarrow> system_module \<Rightarrow> (system_module \<times> vein_event list \<times> sm_signal list) option" where
  "no_slots n s = Some (s, [], [])"

definition system_module_new :: "bool \<Rightarrow> lxdm_param \<Rightarrow> file_system \<Rightarrow> system_module" where
  "system_module_new devMode p fs =
     \<lparr> smCurrentSession = '''', smAvailableSessions = [], smAvailableSessionsDisplayed = [],
       smConfigFileName = '''', smParams = fmempty, smCatalog = [], smLxdm = lxdm_new p fs,
       smInitDone = False, smSessionReady = False, smModulesPaused = False, smDevMode = devMode,
       smHasStorage = False, smFs = fs \<rparr>"

definition sm_setStorage :: "bool \<Rightarrow> system_module \<Rightarrow> system_module" where
  "sm_setStorage b s = s\<lparr>smHasStorage := b\<rparr>"

definition sm_setConfigFileName :: "string \<Rightarrow> system_module \<Rightarrow> system_module" where
  "sm_setConfigFileName f s = s\<lparr>smConfigFileName := f\<rparr>"

definition configuredXSession :: "system_env \<Rightarrow> system_module \<Rightarrow> string" where
  "configuredXSession env s = getConfiguredXSessionName (evUtf8 env) (smLxdm s) (smFs s)"

text \<open>\<^verbatim>\<open>getEntityId\<close> is 0.\<close>

definition sm_set_event :: "qt_lib \<Rightarrow> string \<Rightarrow> qvariant \<Rightarrow> qvariant \<Rightarrow> vein_event" where
  "sm_set_event qt n oldV newV = server_component_setter qt 0 n oldV newV"

section \<open>Session names\<close>

definition deduceDeviceName :: "string \<Rightarrow> string" where
  "deduceDeviceName s =
     (if contains_str ''mt310s2'' s then ''mt310s2''
      else if contains_str ''com5003'' s then ''com5003'' else ''unknown'')"

definition device_config :: "system_env \<Rightarrow> system_module \<Rightarrow> string \<Rightarrow> json_object" where
  "device_config env s device =
     jsonToObject (jsonValue (evLoadJson env (smConfigFileName s)) device)"

text \<open>The entry of the second array at the first place where the first holds the string.\<close>

fun session_lookup :: "string \<Rightarrow> json list \<Rightarrow> json list \<Rightarrow> string" where
  "session_lookup x [] vs = ''''"
| "session_lookup x (k # ks) vs =
     (if x = jsonToString k then (case vs of [] \<Rightarrow> '''' | v # _ \<Rightarrow> jsonToString v)
      else session_lookup x ks (tl vs))"

text \<open>Indexing the first available session is undefined when there is none.\<close>

definition getJsonSessionName :: "system_env \<Rightarrow> string \<Rightarrow> system_module \<Rightarrow> string option" where
  "getJsonSessionName env shown s =
     (case smAvailableSessions s of
        [] \<Rightarrow> None
      | first # _ \<Rightarrow>
          (let c = device_config env s (deduceDeviceName first)
           in Some (session_lookup shown (jsonToArray (jsonValue c ''sessionDisplayStrings''))
                      (jsonToArray (jsonValue c ''availableSessions'')))))"

definition getDisplayedSessionName :: "system_env \<Rightarrow> string \<Rightarrow> system_module \<Rightarrow> string" where
  "getDisplayedSessionName env name s =
     (let c = device_config env s (deduceDeviceName name)
      in session_lookup name (jsonToArray (jsonValue c ''availableSessions''))
           (jsonToArray (jsonValue c ''sessionDisplayStrings'')))"

definition sm_setAvailableSessionList ::
  "system_env \<Rightarrow> string list \<Rightarrow> system_module \<Rightarrow> system_module" where
  "sm_setAvailableSessionList env names s =
     s\<lparr>smAvailableSessionsDisplayed := map (\<lambda>n. getDisplayedSessionName env n s) names\<rparr>"

section \<open>Handling of requests\<close>

definition sendEmptySessionToClient :: "qt_lib \<Rightarrow> component_data \<Rightarrow> vein_event" where
  "sendEmptySessionToClient qt d = sm_set_event qt ''Session'' (cdOldValue d) (QStr '''')"

text \<open>
  State, handled or not, events sent, signals. \<open>None\<close>: undefined behaviour. The session is still
  ready while the slots of the signal run, and not any more when they have, whatever they did.
\<close>

definition handleVeinSessionSet ::
  "qt_lib \<Rightarrow> system_env \<Rightarrow> component_data \<Rightarrow> system_module \<Rightarrow>
   (system_module \<times> bool \<times> vein_event list \<times> sm_signal list) option" where
  "handleVeinSessionSet qt env d s =
     (let v = qtToString qt (cdNewValue d);
          name = (if endsWith ''.json'' v then Some v else getJsonSessionName env v s)
      in case name of
           None \<Rightarrow> None
         | Some new \<Rightarrow>
             (if new \<in> set (smAvailableSessions s) \<and> new \<noteq> smCurrentSession s
              then if smSessionReady s
                   then map_option (\<lambda>(s1, out, sigs).
                            (s1\<lparr>smSessionReady := False\<rparr>, True,
                             sendEmptySessionToClient qt d # out, SigChangeSession new # sigs))
                          (evChangeSlots env new (s\<lparr>smCurrentSession := new\<rparr>))
                   else Some (s, True, [], [])
              else Some (s, False, [], [])))"

definition handleXSessionSet ::
  "system_env \<Rightarrow> string \<Rightarrow> system_module \<Rightarrow> bool \<times> system_module" where
  "handleXSessionSet env x s =
     (if configuredXSession env s = x then (True, s)
      else
        let (ok, fs) = setCurrentXSession (evUtf8 env) (smLxdm s) x (smFs s)
        in (ok \<and> evRestart env, s\<lparr>smFs := fs\<rparr>))"

definition sm_setModulesPaused ::
  "bool \<Rightarrow> system_module \<Rightarrow> system_module \<times> sm_signal list" where
  "sm_setModulesPaused p s =
     (if p \<noteq> smModulesPaused s then (s\<lparr>smModulesPaused := p\<rparr>, [SigModulesPausedChanged p])
      else (s, []))"

definition sendSessionNotificationForScpiModule ::
  "qt_lib \<Rightarrow> system_env \<Rightarrow> component_data \<Rightarrow> system_module \<Rightarrow> vein_event" where
  "sendSessionNotificationForScpiModule qt env d s =
     commandEvent_new NOTIFICATION (VComponent
       (cd_setNewValue (QStr (getDisplayedSessionName env (qtToString qt (cdOldValue d)) s))
         (cd_setComponentName (cdComponentName d) (setEntityId 0 componentData_new))))"

definition sendNotificationForScpiModule ::
  "qt_lib \<Rightarrow> system_env \<Rightarrow> component_data \<Rightarrow> system_module \<Rightarrow> vein_event list" where
  "sendNotificationForScpiModule qt env d s =
     (if cdComponentName d = ''Session'' then [sendSessionNotificationForScpiModule qt env d s]
      else if cdComponentName d = ''XSession''
      then [sm_set_event qt (cdComponentName d) QInvalid (QStr (configuredXSession env s))]
      else [])"

text \<open>A validated event becomes a notification of this system to everybody.\<close>

definition validated :: "vein_event \<Rightarrow> vein_event" where
  "validated e = (setEventSubtype NOTIFICATION e)
     \<lparr>ceData := vd_setEventTarget ET_ALL (vd_setEventOrigin EO_LOCAL (ceData e))\<rparr>"

type_synonym sm_result = "system_module \<times> vein_event \<times> vein_event list \<times> sm_signal list"

definition sm_setComponent ::
  "qt_lib \<Rightarrow> system_env \<Rightarrow> component_data \<Rightarrow> vein_event \<Rightarrow> system_module \<Rightarrow> sm_result option" where
  "sm_setComponent qt env d e s =
     (if cdComponentName d = ''Session''
      then map_option (\<lambda>(s', ok, out, sigs). (s', if ok then accept e else e, out, sigs))
             (handleVeinSessionSet qt env d s)
      else if cdComponentName d = ''XSession''
      then Some (let (ok, s') = handleXSessionSet env (qtToString qt (cdNewValue d)) s
                 in if ok then (s', validated e, [], [])
                    else (s', accept e,
                          [sm_set_event qt (cdComponentName d) (cdNewValue d) (cdOldValue d)], []))
      else if cdComponentName d = ''ModulesPaused''
      then Some (let (s', sigs) = sm_setModulesPaused (qtToBool qt (cdNewValue d)) s
                 in (s', validated e, [], sigs))
      else if cdComponentName d = ''DevMode'' then Some (s, validated e, [], [])
      else Some (s, e, [], []))"

definition sm_processEvent ::
  "qt_lib \<Rightarrow> system_env \<Rightarrow> vein_event \<Rightarrow> system_module \<Rightarrow> sm_result option" where
  "sm_processEvent qt env e s =
     (if ceSubtype e = NOTIFICATION then Some (s, e, [], [])
      else
        case ceData e of
          VIntrospection d \<Rightarrow> Some (s, validated e, [], [])
        | VEntity d \<Rightarrow>
            Some (if eaCommand d = ECMD_SUBSCRIBE \<or> eaCommand d = ECMD_UNSUBSCRIBE
                  then (s, validated e, [], []) else (s, e, [], []))
        | VComponent d \<Rightarrow>
            (if cdCommand d = CCMD_FETCH
             then Some (s, validated e,
                        if edEntityId d = 0 then sendNotificationForScpiModule qt env d s else [],
                        [])
             else if cdCommand d = CCMD_SET \<and> edEntityId d = 0 then sm_setComponent qt env d e s
             else Some (s, e, [], []))
        | _ \<Rightarrow> Some (s, e, [], []))"

section \<open>Publication of the system entity\<close>

definition vein_param_new :: vein_param where
  "vein_param_new = \<lparr> vpDescription = '''', vpVeinComponentData = None, vpScpiInfo = None,
     vpValidator = None \<rparr>"

definition param_setScpiInfo ::
  "string \<Rightarrow> string \<Rightarrow> int \<Rightarrow> string \<Rightarrow> scpi_entry_type \<Rightarrow> vein_param \<Rightarrow> vein_param" where
  "param_setScpiInfo model cmd cmdTypeMask name t p =
     p\<lparr>vpScpiInfo := Some (meta_info_new model cmd cmdTypeMask name t)\<rparr>"

definition param_setValidator :: "validator \<Rightarrow> vein_param \<Rightarrow> vein_param" where
  "param_setValidator v p = p\<lparr>vpValidator := Some v\<rparr>"

definition param_exportSCPIInfo :: "vein_param \<Rightarrow> json list \<Rightarrow> json list" where
  "param_exportSCPIInfo p arr =
     (case vpScpiInfo p of None \<Rightarrow> arr | Some i \<Rightarrow> appendSCPIInfo i arr)"

definition exportMetaData :: "vein_param \<Rightarrow> json_object \<Rightarrow> json_object" where
  "exportMetaData p m =
     (case vpValidator p of
        None \<Rightarrow> m
      | Some v \<Rightarrow> fmupd ''Validation'' (JObj (validator_exportMetaData v fmempty)) m)"

definition setModuleInterface :: "system_env \<Rightarrow> system_module \<Rightarrow> bytes" where
  "setModuleInterface env s =
     (let moduleInfo = fmupd ''Name'' (JStr ''_System'')
            (fmupd ''Description'' (JStr ''This module gives general information about the device'')
              fmempty);
          described = (\<lambda>t. JObj (fmupd ''Description'' (JStr t) fmempty));
          fixedInfo = fmupd ''EntityName'' (described ''Module's name'')
            (fmupd ''INF_ModuleInterface'' (described ''Module's interface details'') fmempty);
          params = List.map_filter (\<lambda>k. map_option (Pair k) (fmlookup (smParams s) k))
            (qkeys (smParams s));
          componentInfo = fold (\<lambda>(k, p) m.
            fmupd k (JObj (exportMetaData p (fmupd ''Description'' (JStr (vpDescription p)) fmempty))) m)
            params fixedInfo;
          arr = fold appendSCPIInfo (smCatalog s) (fold (param_exportSCPIInfo \<circ> snd) params []);
          scpiInfo = fmupd ''Cmd'' (JArr arr) (fmupd ''Name'' (JStr ''SYST'') fmempty)
      in evJsonText env
           (fmupd ''SCPIInfo'' (JObj scpiInfo)
             (fmupd ''ComponentInfo'' (JObj componentInfo)
               (fmupd ''ModuleInfo'' (JObj moduleInfo) fmempty))))"

text \<open>The second parameter is made by changing the first.\<close>

definition setScpiInfo :: "system_env \<Rightarrow> system_module \<Rightarrow> system_module" where
  "setScpiInfo env s =
     (let cat = (\<lambda>cmd name. meta_info_new ''CONFIGURATION'' cmd (evIsQuery env) name ScpiCatalog);
          p1 = param_setValidator (StringV (smAvailableSessionsDisplayed s))
            (param_setScpiInfo ''CONFIGURATION'' ''NAMESESSION'' (evIsQueryCmd env) ''Session'' ScpiComponent
              (vein_param_new\<lparr> vpDescription := ''Session name'',
                               vpVeinComponentData := Some componentData_new \<rparr>));
          p2 = param_setValidator (StringV (getAvailableXSessionNames (smLxdm s)))
            (param_setScpiInfo ''CONFIGURATION'' ''XSESSION'' (evIsQueryCmd env) ''XSession'' ScpiComponent
              (p1\<lparr> vpDescription := ''XSession name'',
                   vpVeinComponentData := Some componentData_new \<rparr>))
      in s\<lparr> smParams := fmupd ''XSession'' p2 (fmupd ''Session'' p1 (smParams s)),
            smCatalog := smCatalog s @ [cat ''SESSION:CATALOG'' ''Session'',
                                        cat ''XSESSION:CATALOG'' ''XSession''] \<rparr>)"

definition initial_components :: "system_env \<Rightarrow> system_module \<Rightarrow> qvariant_map" where
  "initial_components env s = fmap_of_list
     [(''EntityName'', QStr ''_System''), (''Entities'', QInvalid),
      (''Session'', QStr (smCurrentSession s)),
      (''SessionsAvailable'', QStrList (smAvailableSessions s)),
      (''XSession'', QStr (configuredXSession env s)), (''ModulesPaused'', QBool False),
      (''DevMode'', QBool False), (''INF_ModuleInterface'', QInvalid)]"

definition sm_initOnce :: "system_env \<Rightarrow> system_module \<Rightarrow> system_module \<times> vein_event list" where
  "sm_initOnce env s =
     (if smInitDone s then (s, [])
      else
        let s1 = setScpiInfo env s;
            m = initial_components env s1
        in (s1\<lparr>smInitDone := True\<rparr>,
            server_entity_add 0 #
            map (\<lambda>n. server_component_add 0 n
                       (if n = ''INF_ModuleInterface'' then QBytes (setModuleInterface env s1)
                        else qvalue m n QInvalid)) (qkeys m)))"

definition sm_initializeEntity ::
  "qt_lib \<Rightarrow> system_env \<Rightarrow> string \<Rightarrow> string list \<Rightarrow> system_module \<Rightarrow>
   system_module \<times> vein_event list" where
  "sm_initializeEntity qt env path names s =
     (if \<not> smHasStorage s then (s, [])
      else
        let s1 = s\<lparr> smSessionReady := True, smCurrentSession := path,
                    smAvailableSessions := names \<rparr>;
            set = (\<lambda>n v. sm_set_event qt n QInvalid v)
        in (s1, [set ''Entities'' (QIntList (evEntityList env)), set ''Session'' (QStr path),
                 set ''XSession'' (QStr (configuredXSession env s1)),
                 set ''SessionsAvailable'' (QStrList names), set ''DevMode'' (QBool (smDevMode s)),
                 set ''INF_ModuleInterface'' (QBytes (setModuleInterface env s1))]))"

section \<open>Runs\<close>

text \<open>
  What happens to the system: events and the calls of the module manager, each in an environment of
  its own. An event may change the session; it carries what happens to the system during that
  signal, when slots call it directly or run the event loop.
\<close>

datatype sm_input =
    SmEvent system_env vein_event "sm_input list"
  | SmInitOnce system_env
  | SmInitializeEntity system_env string "string list"
  | SmPause bool

type_synonym sm_outcome = "(system_module \<times> vein_event list \<times> sm_signal list) option"

primrec sm_step :: "qt_lib \<Rightarrow> sm_input \<Rightarrow> system_module \<Rightarrow> sm_outcome"
  and sm_run :: "qt_lib \<Rightarrow> sm_input list \<Rightarrow> system_module \<Rightarrow> sm_outcome" where
  "sm_step qt (SmEvent env e inner) s =
     map_option (\<lambda>(s', e', out, sigs). (s', out, sigs))
       (sm_processEvent qt (env\<lparr>evChangeSlots := \<lambda>n. sm_run qt inner\<rparr>) e s)"
| "sm_step qt (SmInitOnce env) s = Some (let (s', out) = sm_initOnce env s in (s', out, []))"
| "sm_step qt (SmInitializeEntity env path names) s =
     Some (let (s', out) = sm_initializeEntity qt env path names s in (s', out, []))"
| "sm_step qt (SmPause b) s = Some (let (s', sigs) = sm_setModulesPaused b s in (s', [], sigs))"
| "sm_run qt [] s = Some (s, [], [])"
| "sm_run qt (x # xs) s =
     Option.bind (sm_step qt x s) (\<lambda>(s1, out1, sigs1).
       map_option (\<lambda>(s2, out2, sigs2). (s2, out1 @ out2, sigs1 @ sigs2)) (sm_run qt xs s1))"

fun is_change :: "sm_signal \<Rightarrow> bool" where
  "is_change (SigChangeSession n) = True"
| "is_change (SigModulesPausedChanged b) = False"

fun is_event :: "sm_input \<Rightarrow> bool" where
  "is_event (SmEvent env e inner) = True"
| "is_event _ = False"

text \<open>
  How often the module manager initialises the entity, and how often the event loop runs inside a
  signal, at all depths.
\<close>

primrec initialisations :: "sm_input \<Rightarrow> nat" and all_initialisations :: "sm_input list \<Rightarrow> nat" where
  "initialisations (SmEvent env e inner) = all_initialisations inner"
| "initialisations (SmInitOnce env) = 0"
| "initialisations (SmInitializeEntity env path names) = 1"
| "initialisations (SmPause b) = 0"
| "all_initialisations [] = 0"
| "all_initialisations (x # xs) = initialisations x + all_initialisations xs"

primrec nested_loops :: "sm_input \<Rightarrow> nat" and all_nested_loops :: "sm_input list \<Rightarrow> nat" where
  "nested_loops (SmEvent env e inner) = (if list_ex is_event inner then 1 else 0) + all_nested_loops inner"
| "nested_loops (SmInitOnce env) = 0"
| "nested_loops (SmInitializeEntity env path names) = 0"
| "nested_loops (SmPause b) = 0"
| "all_nested_loops [] = 0"
| "all_nested_loops (x # xs) = nested_loops x + all_nested_loops xs"

definition changes :: "sm_signal list \<Rightarrow> nat" where
  "changes sigs = length (filter is_change sigs)"

lemma changes_append [simp]: "changes (a @ b) = changes a + changes b"
  by (simp add: changes_def)

lemma changes_simps [simp]:
  "changes [] = 0" "changes [SigChangeSession n] = 1" "changes [SigModulesPausedChanged b] = 0"
  by (simp_all add: changes_def)

definition ready :: "system_module \<Rightarrow> nat" where
  "ready s = (if smSessionReady s then 1 else 0)"

lemma setModulesPaused_ready [simp]:
  "changes (snd (sm_setModulesPaused b s)) = 0"
  "smSessionReady (fst (sm_setModulesPaused b s)) = smSessionReady s"
  by (simp_all add: sm_setModulesPaused_def)

lemma setScpiInfo_ready [simp]: "smSessionReady (setScpiInfo env s) = smSessionReady s"
  by (simp add: setScpiInfo_def Let_def)

lemma handleXSessionSet_ready [simp]:
  "smSessionReady (snd (handleXSessionSet env x s)) = smSessionReady s"
  by (simp add: handleXSessionSet_def split_beta Let_def)

lemma handleVeinSessionSet_cases:
  assumes "handleVeinSessionSet qt env d s = Some (s', ok, out, sigs)"
  obtains "s' = s" "out = []" "sigs = []"
  | n s1 out1 sigs1 where "ok" "smSessionReady s" "n \<in> set (smAvailableSessions s)" "n \<noteq> smCurrentSession s"
      "evChangeSlots env n (s\<lparr>smCurrentSession := n\<rparr>) = Some (s1, out1, sigs1)"
      "s' = s1\<lparr>smSessionReady := False\<rparr>" "out = sendEmptySessionToClient qt d # out1"
      "sigs = SigChangeSession n # sigs1"
  using assms by (auto simp: handleVeinSessionSet_def Let_def split: option.splits if_splits)

text \<open>An event either leaves session, readiness and session signals alone, or is a request for a change.\<close>

lemma sm_processEvent_cases:
  assumes "sm_processEvent qt env e s = Some (s', e', out, sigs)"
  obtains "changes sigs = 0" "smSessionReady s' = smSessionReady s"
  | d n s1 out1 sigs1 where "ceData e = VComponent d" "ceSubtype e \<noteq> NOTIFICATION" "edEntityId d = 0"
      "cdCommand d = CCMD_SET" "cdComponentName d = ''Session''" "e' = accept e"
      "smSessionReady s" "n \<in> set (smAvailableSessions s)" "n \<noteq> smCurrentSession s"
      "evChangeSlots env n (s\<lparr>smCurrentSession := n\<rparr>) = Some (s1, out1, sigs1)"
      "s' = s1\<lparr>smSessionReady := False\<rparr>" "out = sendEmptySessionToClient qt d # out1"
      "sigs = SigChangeSession n # sigs1"
proof (cases "\<exists>d. ceData e = VComponent d \<and> ceSubtype e \<noteq> NOTIFICATION \<and> edEntityId d = 0 \<and>
    cdCommand d = CCMD_SET \<and> cdComponentName d = ''Session''")
  case True
  then obtain d where d: "ceData e = VComponent d" "ceSubtype e \<noteq> NOTIFICATION" "edEntityId d = 0"
    "cdCommand d = CCMD_SET" "cdComponentName d = ''Session''"
    by blast
  then obtain ok where ok: "handleVeinSessionSet qt env d s = Some (s', ok, out, sigs)"
    "e' = (if ok then accept e else e)"
    using assms by (auto simp: sm_processEvent_def sm_setComponent_def)
  from ok(1) show ?thesis
  proof (cases rule: handleVeinSessionSet_cases)
    case 1
    then show ?thesis using that(1) by simp
  next
    case (2 n s1 out1 sigs1)
    then show ?thesis using that(2) d ok(2) by simp
  qed
next
  case False
  then have "changes sigs = 0 \<and> smSessionReady s' = smSessionReady s"
    using assms
    by (auto simp: sm_processEvent_def sm_setComponent_def sm_setModulesPaused_def split_beta Let_def
        split: if_splits vein_data.splits)
  then show ?thesis using that(1) by blast
qed

text \<open>What happens without events changes no session.\<close>

lemma sm_run_quiet:
  "sm_run qt xs s = Some (s', out, sigs) \<Longrightarrow> \<not> list_ex is_event xs \<Longrightarrow> changes sigs = 0"
proof (induction xs arbitrary: s out sigs)
  case Nil
  then show ?case by simp
next
  case (Cons x xs)
  obtain s1 out1 sigs1 out2 sigs2 where "sm_step qt x s = Some (s1, out1, sigs1)"
    "sm_run qt xs s1 = Some (s', out2, sigs2)" "sigs = sigs1 @ sigs2"
    using Cons.prems(1) by (auto simp: bind_eq_Some_conv)
  then show ?case
    using Cons.IH Cons.prems(2) by (cases x) (auto simp: sm_setModulesPaused_def Let_def split: prod.splits if_splits)
qed

lemma sm_run_ready:
  shows "sm_step qt x s = Some (s', out, sigs) \<Longrightarrow>
      changes sigs + ready s' \<le> ready s + initialisations x + nested_loops x"
    and "sm_run qt xs s = Some (s', out, sigs) \<Longrightarrow>
      changes sigs + ready s' \<le> ready s + all_initialisations xs + all_nested_loops xs"
proof (induction x and xs arbitrary: s s' out sigs and s s' out sigs rule: sm_step.induct sm_run.induct)
  case (SmEvent env e inner)
  then obtain e' where "sm_processEvent qt (env\<lparr>evChangeSlots := \<lambda>n. sm_run qt inner\<rparr>) e s = Some (s', e', out, sigs)"
    by auto
  then show ?case
  proof (cases rule: sm_processEvent_cases)
    case 1
    then show ?thesis by (simp add: ready_def)
  next
    case (2 d n s1 out1 sigs1)
    then have run: "sm_run qt inner (s\<lparr>smCurrentSession := n\<rparr>) = Some (s1, out1, sigs1)" by simp
    have "changes sigs1 \<le> 1 + all_initialisations inner + all_nested_loops inner"
      using SmEvent.IH [OF run] by (simp add: ready_def split: if_splits)
    then show ?thesis
      using 2 sm_run_quiet [OF run] by (auto simp: ready_def changes_def)
  qed
next
  case (Cons_sm_input x xs)
  obtain s1 out1 sigs1 out2 sigs2 where "sm_step qt x s = Some (s1, out1, sigs1)"
    "sm_run qt xs s1 = Some (s', out2, sigs2)" "sigs = sigs1 @ sigs2"
    using Cons_sm_input.prems by (auto simp: bind_eq_Some_conv)
  then show ?case using Cons_sm_input.IH(1) [of s s1] Cons_sm_input.IH(2) [of s1 s'] by fastforce
qed (auto simp: sm_initOnce_def sm_initializeEntity_def ready_def Let_def sm_setModulesPaused_def
    split: prod.splits if_splits)

text \<open>A session that is not ready stays so, whatever events come, until it is initialised again.\<close>

lemma sm_run_blocked:
  "sm_run qt xs s = Some (s', out, sigs) \<Longrightarrow> \<not> smSessionReady s \<Longrightarrow> all_initialisations xs = 0 \<Longrightarrow>
   changes sigs = 0 \<and> \<not> smSessionReady s'"
proof (induction xs arbitrary: s out sigs)
  case Nil
  then show ?case by simp
next
  case (Cons x xs)
  obtain s1 out1 sigs1 out2 sigs2 where s1: "sm_step qt x s = Some (s1, out1, sigs1)"
    "sm_run qt xs s1 = Some (s', out2, sigs2)" "sigs = sigs1 @ sigs2"
    using Cons.prems(1) by (auto simp: bind_eq_Some_conv)
  have "changes sigs1 = 0 \<and> \<not> smSessionReady s1"
  proof (cases x)
    case (SmEvent env e inner)
    then obtain e' where
      "sm_processEvent qt (env\<lparr>evChangeSlots := \<lambda>n. sm_run qt inner\<rparr>) e s = Some (s1, e', out1, sigs1)"
      using s1(1) by auto
    then show ?thesis using Cons.prems(2) by (cases rule: sm_processEvent_cases) simp_all
  qed (use s1(1) Cons.prems(2,3) in \<open>auto simp: sm_initOnce_def Let_def sm_setModulesPaused_def
      split: prod.splits if_splits\<close>)
  then show ?case using Cons.IH [OF s1(2)] Cons.prems(3) s1(3) by simp
qed

section \<open>Properties\<close>

text \<open>
  C13. How often the session changes: whatever events and calls arrive in whatever order and
  environment, also from inside the slots of the signal, the system signals a change of session no
  more often than it was ready, the module manager has initialised it, and slots of the signal have
  run the event loop, taken together. So each initialisation is good for one change as long as no
  slot runs the event loop; and a system that is not ready signals none until it is initialised.
\<close>

theorem session_changes_bounded:
  assumes "sm_run qt xs s = Some (s', out, sigs)"
  shows "changes sigs + ready s' \<le> ready s + all_initialisations xs + all_nested_loops xs \<and>
    (if smSessionReady s \<or> all_initialisations xs > 0 then True else changes sigs = 0)"
  using sm_run_ready(2) [OF assms] sm_run_blocked [OF assms] by simp

definition example_env :: system_env where
  "example_env = \<lparr> evUtf8 = id, evRestart = True, evLoadJson = (\<lambda>f. fmempty),
     evJsonText = (\<lambda>m. []), evEntityList = [0], evIsQuery = 1, evIsQueryCmd = 5,
     evChangeSlots = no_slots \<rparr>"

definition example_system :: system_module where
  "example_system = sm_setStorage True (system_module_new False lxdm_param_default example_fs)"

definition session_request :: "string \<Rightarrow> vein_event" where
  "session_request n = commandEvent_new TRANSACTION (VComponent
     \<lparr> edOrigin = EO_FOREIGN, edTarget = ET_ALL, edEntityId = 0, cdCommand = CCMD_SET,
       cdComponentName = ''Session'', cdNewValue = QStr n, cdOldValue = QStr ''a.json'' \<rparr>)"

lemmas example_simps = session_request_def sm_initializeEntity_def example_system_def
  sm_setStorage_def system_module_new_def sm_processEvent_def sm_setComponent_def
  handleVeinSessionSet_def commandEvent_new_def endsWith_def

text \<open>
  The bound is reached: while the signal of a change is emitted, the session is still ready, so a
  request that a slot's event loop dispatches is carried out as a second change.
\<close>

definition reentrant_requests :: "sm_input list" where
  "reentrant_requests =
     [SmInitializeEntity example_env ''a.json'' [''a.json'', ''b.json'', ''c.json''],
      SmEvent example_env (session_request ''b.json'') [SmEvent example_env (session_request ''c.json'') []],
      SmEvent example_env (session_request ''a.json'') []]"

lemma second_change_during_signal:
  "\<exists>s' out. sm_run qt_ref reentrant_requests example_system =
     Some (s', out, [SigChangeSession ''b.json'', SigChangeSession ''c.json'']) \<and>
   all_initialisations reentrant_requests = 1"
  by (simp add: reentrant_requests_def example_simps Let_def)

theorem session_changes_bounded_witness:
  "case sm_run qt_ref reentrant_requests example_system of
     None \<Rightarrow> False | Some (s', out, sigs) \<Rightarrow> changes sigs = 2 \<and> ready s' = 0"
proof -
  obtain s' out where run: "sm_run qt_ref reentrant_requests example_system =
      Some (s', out, [SigChangeSession ''b.json'', SigChangeSession ''c.json''])"
    using second_change_during_signal by blast
  have "ready example_system = 0" "all_initialisations reentrant_requests = 1" "all_nested_loops reentrant_requests = 1"
    by (simp_all add: ready_def example_simps reentrant_requests_def)
  then show ?thesis using session_changes_bounded [OF run] run by (simp add: changes_def)
qed



text \<open>The subtype is only compared with that of a notification.\<close>

lemma unknown_subtype_changes_session:
  "\<exists>s' e' out. sm_processEvent qt_ref example_env (setEventSubtype (SUBTYPE_CODE 7) (session_request ''b.json''))
     (fst (sm_initializeEntity qt_ref example_env ''a.json'' [''a.json'', ''b.json'']
        example_system)) = Some (s', e', out, [SigChangeSession ''b.json''])"
  by (simp add: example_simps Let_def example_env_def no_slots_def setEventSubtype_def)

end
