(* ===== verification/License.thy ===== *)
theory License
  imports VeinComponent ModulesBase
begin

text \<open>
  server-libs/modman-base, \<^verbatim>\<open>LicenseSystem\<close>: it loads signed license files at start-up, learns the
  serial number of the device from the event stream and answers whether a system is licensed.
  Signature verification, the JSON parser, dates and the files are parameters; the current time
  is an argument of the operations that ask for it.
\<close>

section \<open>Environment\<close>

datatype path_kind = NoPath | DirPath "string list" | FilePath

record license_env =
  leKind :: "string \<Rightarrow> path_kind"          \<comment> \<open>a directory with the files below it\<close>
  leRead :: "string \<Rightarrow> bytes option"       \<comment> \<open>open and read\<close>
  leCert :: bytes                          \<comment> \<open>\<^verbatim>\<open>loadCertData()\<close>\<close>
  leVerify :: "bytes \<Rightarrow> bytes \<Rightarrow> bytes \<times> bool"
  leParse :: "bytes \<Rightarrow> json_object option" \<comment> \<open>None: parse error\<close>
  leVariantString :: "json \<Rightarrow> string"      \<comment> \<open>\<^verbatim>\<open>toVariant().toString()\<close>\<close>
  leMonthEnd :: "string \<Rightarrow> int option"     \<comment> \<open>one month after the given "yyyy/MM"\<close>

text \<open>The name of a file behind the last slash, and what follows its first dot.\<close>

definition file_name :: "string \<Rightarrow> string" where
  "file_name path = last (split_at (CHR ''/'') path)"

definition completeSuffix :: "string \<Rightarrow> string" where
  "completeSuffix path = join ''.'' (tl (split_at (CHR ''.'') (file_name path)))"

definition loadLicenseFile :: "license_env \<Rightarrow> string \<Rightarrow> bytes option" where
  "loadLicenseFile le path =
     (if leKind le path \<noteq> NoPath \<and> to_lower (completeSuffix path) = ''p7m''
      then leRead le path else None)"

definition getLicenseFilesFromPath :: "license_env \<Rightarrow> string \<Rightarrow> (string, bytes) qmap" where
  "getLicenseFilesFromPath le path =
     (case leKind le path of
        NoPath \<Rightarrow> fmempty
      | DirPath files \<Rightarrow>
          fold (\<lambda>f m. case loadLicenseFile le f of None \<Rightarrow> m | Some d \<Rightarrow> fmupd f d m) files fmempty
      | FilePath \<Rightarrow>
          (case loadLicenseFile le path of None \<Rightarrow> fmempty | Some d \<Rightarrow> fmupd path d fmempty))"

section \<open>State\<close>

record license_system =
  liTable :: "(string, json_object) qmap"
  liLicensed :: "string list"
  liDeviceSerial :: string
  liUniversal :: bool
  liSerialInitialized :: bool

definition isValidLicenseExpiryDate :: "license_env \<Rightarrow> int \<Rightarrow> string \<Rightarrow> bool" where
  "isValidLicenseExpiryDate le now date \<longleftrightarrow>
     date = ''never'' \<or> (case leMonthEnd le date of None \<Rightarrow> False | Some t \<Rightarrow> t \<ge> now)"

definition isValidLicenseDeviceSerial :: "license_system \<Rightarrow> string \<Rightarrow> bool" where
  "isValidLicenseDeviceSerial s serial \<longleftrightarrow> serial = ''universalSerial'' \<or> serial = liDeviceSerial s"

fun jsonToInt0 :: "json \<Rightarrow> int" where
  "jsonToInt0 (JInt i) = i"
| "jsonToInt0 _ = 0"

text \<open>One license file at start-up.\<close>

definition load_license ::
  "license_env \<Rightarrow> int \<Rightarrow> bytes \<Rightarrow> license_system \<Rightarrow> license_system" where
  "load_license le now file s =
     (let (content, verified) = leVerify le (leCert le) file
      in if \<not> verified then s
         else
           case leParse le content of
             None \<Rightarrow> s
           | Some obj \<Rightarrow>
               (let universal = qcontains obj ''universalLicense'' \<and>
                      jsonToInt0 (jsonValue obj ''universalLicense'') = 1;
                    s1 = (if universal \<and>
                             isValidLicenseExpiryDate le now (jsonToString (jsonValue obj ''expires'')) \<and>
                             isValidLicenseDeviceSerial s (jsonToString (jsonValue obj ''deviceSerial''))
                          then s\<lparr>liUniversal := True\<rparr> else s)
                in if qcontains obj ''uniqueSystemName''
                   then s1\<lparr>liTable := fmupd (jsonToString (jsonValue obj ''uniqueSystemName'')) obj
                             (liTable s1)\<rparr>
                   else s1))"

definition license_system_new :: "license_env \<Rightarrow> int \<Rightarrow> string list \<Rightarrow> license_system" where
  "license_system_new le now paths =
     fold (\<lambda>p s. fold (load_license le now) (qvalues (getLicenseFilesFromPath le p)) s) paths
       \<lparr> liTable = fmempty, liLicensed = [], liDeviceSerial = ''SERIAL NUMBER NOT FOUND!'',
         liUniversal = False, liSerialInitialized = False \<rparr>"

definition isSystemLicensed ::
  "license_env \<Rightarrow> int \<Rightarrow> string \<Rightarrow> license_system \<Rightarrow> bool \<times> license_system" where
  "isSystemLicensed le now name s =
     (if liUniversal s \<or> name \<in> set (liLicensed s) then (True, s)
      else
        let obj = qvalue (liTable s) name fmempty;
            str = (\<lambda>k. leVariantString le (jsonValue obj k))
        in if isValidLicenseDeviceSerial s (str ''deviceSerial'') \<and>
              isValidLicenseExpiryDate le now (str ''expires'')
           then (True, s\<lparr>liLicensed := liLicensed s @ [str ''uniqueSystemName'']\<rparr>)
           else (False, s))"

text \<open>Setting the serial number; the signal is emitted when the flag of the result is set.\<close>

definition setDeviceSerial :: "string \<Rightarrow> license_system \<Rightarrow> license_system \<times> bool" where
  "setDeviceSerial serial s =
     (if serial \<noteq> '''' then (s\<lparr> liDeviceSerial := serial, liSerialInitialized := True \<rparr>, True)
      else (s, False))"

definition li_processEvent ::
  "qt_lib \<Rightarrow> vein_event \<Rightarrow> license_system \<Rightarrow> license_system \<times> bool" where
  "li_processEvent qt e s =
     (case ceData e of
        VComponent d \<Rightarrow>
          (if edEntityId d = 1150 \<and> edOrigin d = EO_LOCAL \<and> cdComponentName d = ''PAR_SerialNr'' \<and>
              (cdCommand d = CCMD_ADD \<or> cdCommand d = CCMD_SET)
           then let serial = qtToString qt (cdNewValue d)
                in if serial \<noteq> '''' \<and> liDeviceSerial s \<noteq> serial then setDeviceSerial serial s
                   else (s, False)
           else (s, False))
      | _ \<Rightarrow> (s, False))"

section \<open>Invariant\<close>

text \<open>A signed license: a file whose signature verifies and whose text parses to the object.\<close>

definition signed_license :: "license_env \<Rightarrow> json_object \<Rightarrow> bool" where
  "signed_license le obj \<longleftrightarrow>
     (\<exists>path file content. leRead le path = Some file \<and> leVerify le (leCert le) file = (content, True) \<and>
        leParse le content = Some obj)"

text \<open>
  A license names a system in one of two ways: the table of licenses is indexed by the string of
  the JSON value, and what a query caches is the string of its variant. They differ for a value
  that is not a string.
\<close>

definition names_system :: "license_env \<Rightarrow> json_object \<Rightarrow> string \<Rightarrow> bool" where
  "names_system le obj name \<longleftrightarrow> qcontains obj ''uniqueSystemName'' \<and>
     (jsonToString (jsonValue obj ''uniqueSystemName'') = name \<or>
      leVariantString le (jsonValue obj ''uniqueSystemName'') = name)"

definition license_for :: "license_env \<Rightarrow> string \<Rightarrow> json_object \<Rightarrow> bool" where
  "license_for le name obj \<longleftrightarrow> signed_license le obj \<and> names_system le obj name"

definition universal_for :: "license_env \<Rightarrow> json_object \<Rightarrow> bool" where
  "universal_for le obj \<longleftrightarrow> signed_license le obj \<and>
     jsonToInt0 (jsonValue obj ''universalLicense'') = 1"

definition licenses_ok :: "license_env \<Rightarrow> license_system \<Rightarrow> bool" where
  "licenses_ok le s \<longleftrightarrow>
     (\<forall>name obj. fmlookup (liTable s) name = Some obj \<longrightarrow> license_for le name obj) \<and>
     (\<forall>name \<in> set (liLicensed s). \<exists>obj. license_for le name obj) \<and>
     (liUniversal s \<longrightarrow> (\<exists>obj. universal_for le obj)) \<and> liDeviceSerial s \<noteq> ''''"

text \<open>
  Documented: the variant of a JSON string converts to the string, that of the undefined value to
  the empty one.
\<close>

definition variant_string_ok :: "license_env \<Rightarrow> bool" where
  "variant_string_ok le \<longleftrightarrow>
     (\<forall>t. leVariantString le (JStr t) = t) \<and> leVariantString le JUndefined = ''''"

lemma files_are_read:
  "data \<in> set (qvalues (getLicenseFilesFromPath le path)) \<Longrightarrow> \<exists>p. leRead le p = Some data"
proof -
  have step: "fmlookup (fold (\<lambda>f m. case loadLicenseFile le f of None \<Rightarrow> m
      | Some d \<Rightarrow> fmupd f d m) files m) k = Some data \<Longrightarrow>
      \<forall>k d. fmlookup m k = Some d \<longrightarrow> (\<exists>p. leRead le p = Some d) \<Longrightarrow>
      \<exists>p. leRead le p = Some data" for files m k
  proof (induction files arbitrary: m)
    case Nil
    then show ?case by simp
  next
    case (Cons f files)
    show ?case
    proof (cases "loadLicenseFile le f")
      case None
      then show ?thesis using Cons by simp
    next
      case (Some d)
      then have "\<exists>p. leRead le p = Some d" by (auto simp: loadLicenseFile_def split: if_splits)
      then have "\<forall>k d'. fmlookup (fmupd f d m) k = Some d' \<longrightarrow> (\<exists>p. leRead le p = Some d')"
        using Cons.prems(2) by simp
      then show ?thesis using Cons.IH [of "fmupd f d m"] Cons.prems(1) Some by simp
    qed
  qed
  assume "data \<in> set (qvalues (getLicenseFilesFromPath le path))"
  then show ?thesis
    using step [of _ fmempty]
    by (auto simp: set_qvalues getLicenseFilesFromPath_def fmlookup_ran_iff loadLicenseFile_def
        split: path_kind.splits option.splits if_splits)
qed

lemma load_license_ok [inv_intros]:
  assumes "licenses_ok le s" and "leRead le path = Some file"
  shows "licenses_ok le (load_license le now file s)"
proof (cases "snd (leVerify le (leCert le) file) \<and> leParse le (fst (leVerify le (leCert le) file)) \<noteq> None")
  case False
  then show ?thesis using assms by (auto simp: load_license_def Let_def split_beta)
next
  case True
  then obtain content obj where v: "leVerify le (leCert le) file = (content, True)"
    "leParse le content = Some obj"
    by (cases "leVerify le (leCert le) file") auto
  then have sig: "signed_license le obj" using assms(2) by (auto simp: signed_license_def)
  show ?thesis
    using assms(1) v sig
    by (auto simp: load_license_def Let_def licenses_ok_def license_for_def names_system_def universal_for_def)
qed

lemma license_system_new_ok [inv_intros]: "licenses_ok le (license_system_new le now paths)"
proof -
  have files: "licenses_ok le s \<Longrightarrow> \<forall>f \<in> set fs. \<exists>p. leRead le p = Some f \<Longrightarrow>
      licenses_ok le (fold (load_license le now) fs s)" for fs s
    by (induction fs arbitrary: s) (auto intro: load_license_ok)
  have path: "licenses_ok le s \<Longrightarrow>
      licenses_ok le (fold (load_license le now) (qvalues (getLicenseFilesFromPath le p)) s)" for p s
    by (intro files ballI) (simp_all add: files_are_read)
  have "licenses_ok le s \<Longrightarrow> licenses_ok le
      (fold (\<lambda>p s. fold (load_license le now) (qvalues (getLicenseFilesFromPath le p)) s) paths s)" for s
    by (induction paths arbitrary: s) (simp_all add: path)
  moreover have "licenses_ok le \<lparr> liTable = fmempty, liLicensed = [],
      liDeviceSerial = ''SERIAL NUMBER NOT FOUND!'', liUniversal = False,
      liSerialInitialized = False \<rparr>"
    by (simp add: licenses_ok_def)
  ultimately show ?thesis unfolding license_system_new_def by blast
qed

lemma isSystemLicensed_ok [inv_intros]:
  assumes "licenses_ok le s" and "variant_string_ok le"
  shows "licenses_ok le (snd (isSystemLicensed le now name s))"
proof (cases "fmlookup (liTable s) name")
  case None
  have "liDeviceSerial s \<noteq> ''''" using assms(1) by (simp add: licenses_ok_def)
  then have "\<not> isValidLicenseDeviceSerial s
      (leVariantString le (jsonValue (qvalue (liTable s) name fmempty) ''deviceSerial''))"
    using None assms(2)
    by (auto simp: qvalue_def jsonValue_def variant_string_ok_def isValidLicenseDeviceSerial_def)
  then show ?thesis using assms(1) by (simp add: isSystemLicensed_def Let_def)
next
  case (Some obj)
  then have lic: "license_for le name obj" using assms(1) by (simp add: licenses_ok_def)
  then have "license_for le (leVariantString le (jsonValue obj ''uniqueSystemName'')) obj"
    by (auto simp: license_for_def names_system_def)
  then show ?thesis
    using assms(1) Some
    by (auto simp: isSystemLicensed_def Let_def licenses_ok_def qvalue_def)
qed

lemma li_processEvent_ok [inv_intros]:
  "licenses_ok le s \<Longrightarrow> licenses_ok le (fst (li_processEvent qt e s))"
  by (auto simp: li_processEvent_def setDeviceSerial_def licenses_ok_def Let_def
      split: vein_data.splits)

section \<open>Runs\<close>

datatype license_input = LicenseEvent vein_event | LicenseQuery int string

fun license_step :: "qt_lib \<Rightarrow> license_env \<Rightarrow> license_input \<Rightarrow> license_system \<Rightarrow> license_system" where
  "license_step qt le (LicenseEvent e) s = fst (li_processEvent qt e s)"
| "license_step qt le (LicenseQuery now name) s = snd (isSystemLicensed le now name s)"

lemma license_run_ok:
  assumes "variant_string_ok le"
  shows "licenses_ok le s \<Longrightarrow> licenses_ok le (fold (license_step qt le) xs s)"
proof (induction xs arbitrary: s)
  case Nil
  then show ?case by simp
next
  case (Cons x xs)
  then show ?case using assms by (cases x) (auto intro: inv_intros)
qed

section \<open>Properties\<close>

text \<open>
  No license without a signature: after any sequence of events and queries, a system is
  reported licensed only if some readable file carries a verified signature over a license
  document that names this system, in one of the two ways, or is a universal license.
\<close>

theorem licensed_only_by_signed_file:
  assumes "variant_string_ok le"
    and "fst (isSystemLicensed le now name
           (fold (license_step qt le) xs (license_system_new le start paths)))"
  shows "\<exists>obj. license_for le name obj \<or> universal_for le obj"
proof -
  let ?s = "fold (license_step qt le) xs (license_system_new le start paths)"
  have ok: "licenses_ok le ?s" by (intro license_run_ok assms license_system_new_ok)
  show ?thesis
  proof (cases "liUniversal ?s \<or> name \<in> set (liLicensed ?s)")
    case True
    then show ?thesis using ok unfolding licenses_ok_def by blast
  next
    case False
    then have serial: "isValidLicenseDeviceSerial ?s
        (leVariantString le (jsonValue (qvalue (liTable ?s) name fmempty) ''deviceSerial''))"
      using assms(2) by (auto simp: isSystemLicensed_def Let_def split: if_splits)
    have "fmlookup (liTable ?s) name \<noteq> None"
    proof
      assume "fmlookup (liTable ?s) name = None"
      then have "isValidLicenseDeviceSerial ?s ''''"
        using serial assms(1) by (simp add: qvalue_def jsonValue_def variant_string_ok_def)
      then show False using ok by (simp add: isValidLicenseDeviceSerial_def licenses_ok_def)
    qed
    then show ?thesis using ok unfolding licenses_ok_def by blast
  qed
qed

definition example_license :: json_object where
  "example_license = fmap_of_list [(''uniqueSystemName'', JStr ''sys''),
     (''deviceSerial'', JStr ''0815''), (''expires'', JStr ''never'')]"

definition example_license_env :: license_env where
  "example_license_env =
     \<lparr> leKind = (\<lambda>p. FilePath), leRead = (\<lambda>p. if p = ''/lic/a.p7m'' then Some [1] else None),
       leCert = [], leVerify = (\<lambda>c f. (f, f = [1])),
       leParse = (\<lambda>t. if t = [1] then Some example_license else None),
       leVariantString = jsonToString, leMonthEnd = (\<lambda>d. None) \<rparr>"

definition serial_event :: vein_event where
  "serial_event = commandEvent_new NOTIFICATION (VComponent
     \<lparr> edOrigin = EO_LOCAL, edTarget = ET_ALL, edEntityId = 1150, cdCommand = CCMD_ADD,
       cdComponentName = ''PAR_SerialNr'', cdNewValue = QStr ''0815'', cdOldValue = QInvalid \<rparr>)"

theorem licensed_only_by_signed_file_witness:
  "fst (isSystemLicensed example_license_env 0 ''sys''
      (fold (license_step qt_ref example_license_env) [LicenseEvent serial_event]
        (license_system_new example_license_env 0 [''/lic/a.p7m'']))) \<and>
   (\<exists>obj. license_for example_license_env ''sys'' obj \<or> universal_for example_license_env obj)"
proof -
  have sfx: "to_lower (completeSuffix ''/lic/a.p7m'') = ''p7m''" by code_simp
  have variant: "variant_string_ok example_license_env"
    by (simp add: variant_string_ok_def example_license_env_def)
  have "fst (isSystemLicensed example_license_env 0 ''sys''
      (fold (license_step qt_ref example_license_env) [LicenseEvent serial_event]
        (license_system_new example_license_env 0 [''/lic/a.p7m''])))"
    using sfx
    by (simp add: isSystemLicensed_def li_processEvent_def license_system_new_def load_license_def
        getLicenseFilesFromPath_def loadLicenseFile_def serial_event_def commandEvent_new_def
        setDeviceSerial_def qvalues_def qkeys_fmupd List.map_filter_def example_license_env_def
        example_license_def isValidLicenseDeviceSerial_def isValidLicenseExpiryDate_def Let_def
        jsonValue_def)
  then show ?thesis using licensed_only_by_signed_file [OF variant] by blast
qed

text \<open>
  Where the two ways differ, a license grants both names: a query for the name in the table
  caches the other one.
\<close>

lemma both_names_granted:
  assumes "fmlookup (liTable s) name = Some obj" and "\<not> liUniversal s" and "name \<notin> set (liLicensed s)"
    and "fst (isSystemLicensed le now name s)"
  shows "fst (isSystemLicensed le later (leVariantString le (jsonValue obj ''uniqueSystemName''))
    (snd (isSystemLicensed le now name s)))"
  using assms by (auto simp: isSystemLicensed_def Let_def qvalue_def split: if_splits)

text \<open>
  A grant is remembered: later queries succeed whatever the serial number and the date are then.
\<close>

lemma grant_persists:
  assumes "name \<in> set (liLicensed s)"
  shows "fst (isSystemLicensed le now name (fst (setDeviceSerial serial s)))"
  using assms by (simp add: isSystemLicensed_def setDeviceSerial_def)

end
