(* ===== verification/RpcSignature.thy ===== *)
theory RpcSignature
  imports Strings
begin

text \<open>
  server-libs/vf-cpp: the textual signatures of remote procedures, built by
  \<^verbatim>\<open>VfCppRpcSignature::createRpcSignature\<close> and taken apart by \<^verbatim>\<open>VfCppRpcHelper\<close>. The regular
  expressions of the helper are written out as the functions they stand for.
\<close>

section \<open>Building\<close>

definition createRpcSignature :: "string \<Rightarrow> (string, string) qmap \<Rightarrow> string" where
  "createRpcSignature name ps =
     (let s = name @ ''('' @ concat (map (\<lambda>k. qvalue ps k '''' @ '' '' @ k @ '','') (qkeys ps));
          s' = (if last s = CHR '','' then butlast s else s)
      in s' @ '')'')"

section \<open>Taking apart\<close>

definition is_space :: "char \<Rightarrow> bool" where
  "is_space c \<longleftrightarrow> (let n = of_char c :: nat in n = 32 \<or> (9 \<le> n \<and> n \<le> 13))"

text \<open>\<^verbatim>\<open>QChar::isSpace\<close> also holds for two Latin-1 characters beyond ASCII.\<close>

definition is_qspace :: "char \<Rightarrow> bool" where
  "is_qspace c \<longleftrightarrow> is_space c \<or> (of_char c :: nat) = 133 \<or> (of_char c :: nat) = 160"

definition is_word :: "char \<Rightarrow> bool" where
  "is_word c \<longleftrightarrow> (let n = of_char c :: nat in
     (48 \<le> n \<and> n \<le> 57) \<or> (65 \<le> n \<and> n \<le> 90) \<or> (97 \<le> n \<and> n \<le> 122) \<or> n = 95)"

definition trimmed :: "string \<Rightarrow> string" where
  "trimmed s = rev (dropWhile is_qspace (rev (dropWhile is_qspace s)))"

definition up_to_last :: "char \<Rightarrow> string \<Rightarrow> string" where
  "up_to_last c s = rev (tl (dropWhile (\<lambda>x. x \<noteq> c) (rev s)))"

text \<open>
  The group of \<^verbatim>\<open>\((.*)\)\<close>: from the first opening parenthesis that has a closing one on its
  line to the last closing one of the line.
\<close>

fun paren_body :: "string \<Rightarrow> string option" where
  "paren_body [] = None"
| "paren_body (c # cs) =
     (let line = takeWhile (\<lambda>x. x \<noteq> CHR 0x0A) cs
      in if c = CHR ''('' \<and> CHR '')'' \<in> set line then Some (up_to_last (CHR '')'') line)
         else paren_body cs)"

text \<open>Removing \<^verbatim>\<open>\s+\w+$\<close>.\<close>

definition strip_last_word :: "string \<Rightarrow> string" where
  "strip_last_word s =
     (let r = dropWhile is_word (rev s)
      in if takeWhile is_word (rev s) \<noteq> [] \<and> takeWhile is_space r \<noteq> []
         then rev (dropWhile is_space r) else s)"

definition getRpcTypesFromSignature :: "string \<Rightarrow> string" where
  "getRpcTypesFromSignature sig =
     (case paren_body sig of
        None \<Rightarrow> ''''
      | Some body \<Rightarrow>
          join '','' (map (\<lambda>p. strip_last_word (trimmed p))
                        (skip_empty (split_at (CHR '','') (trimmed body)))))"

definition getRpcTypesListFromSignature :: "string \<Rightarrow> string list" where
  "getRpcTypesListFromSignature sig =
     skip_empty (split_at (CHR '','') (getRpcTypesFromSignature sig))"

definition getRpcParamNamesList :: "string \<Rightarrow> string list" where
  "getRpcParamNamesList sig =
     (case paren_body sig of
        None \<Rightarrow> []
      | Some body \<Rightarrow>
          List.map_filter (\<lambda>p. case split_at (CHR '' '') p of [_, n] \<Rightarrow> Some n | _ \<Rightarrow> None)
            (skip_empty (split_at (CHR '','') (trimmed body))))"

definition getRpcName :: "string \<Rightarrow> string" where
  "getRpcName sig = hd (split_at (CHR ''('') sig)"

section \<open>Lemmas\<close>

definition param_text :: "(string, string) qmap \<Rightarrow> string \<Rightarrow> string" where
  "param_text ps k = qvalue ps k '''' @ '' '' @ k"

lemma concat_terminated_join:
  "xs \<noteq> [] \<Longrightarrow> concat (map (\<lambda>x. x @ [c]) xs) = join [c] xs @ [c]"
  by (induction xs rule: induct_list012) simp_all

lemma createRpcSignature_join:
  "createRpcSignature name ps = name @ ''('' @ join '','' (map (param_text ps) (qkeys ps)) @ '')''"
proof -
  have c: "concat (map (\<lambda>k. qvalue ps k '''' @ '' '' @ k @ '','') ks) =
      concat (map (\<lambda>x. x @ [CHR '','']) (map (param_text ps) ks))" for ks
    by (simp add: param_text_def comp_def)
  show ?thesis
  proof (cases "qkeys ps")
    case Nil
    then show ?thesis by (simp add: createRpcSignature_def Let_def)
  next
    case (Cons k ks)
    then have "concat (map (\<lambda>k. qvalue ps k '''' @ '' '' @ k @ '','') (qkeys ps)) =
        join '','' (map (param_text ps) (qkeys ps)) @ '',''"
      unfolding c by (intro concat_terminated_join) simp
    then show ?thesis
      unfolding createRpcSignature_def Let_def by (simp add: butlast_append)
  qed
qed

text \<open>Names and types without the characters that delimit them.\<close>

definition plain :: "string \<Rightarrow> bool" where
  "plain s \<longleftrightarrow> s \<noteq> [] \<and> list_all is_word s"

lemma plain_space: "plain s \<Longrightarrow> c \<in> set s \<Longrightarrow> \<not> is_qspace c"
  by (auto simp: plain_def list_all_iff is_word_def is_qspace_def is_space_def Let_def)

lemma plain_chars:
  assumes "plain s"
  shows "CHR ''('' \<notin> set s" "CHR '')'' \<notin> set s" "CHR '','' \<notin> set s" "CHR '' '' \<notin> set s"
    "CHR 0x0A \<notin> set s"
  using assms by (auto simp: plain_def list_all_iff is_word_def)

lemma trimmed_id:
  assumes "s = [] \<or> (\<not> is_qspace (hd s) \<and> \<not> is_qspace (last s))"
  shows "trimmed s = s"
proof (cases s)
  case Nil
  then show ?thesis by (simp add: trimmed_def)
next
  case (Cons c cs)
  then have "dropWhile is_qspace s = s" using assms by simp
  moreover have "dropWhile is_qspace (rev s) = rev s"
    using assms by (cases s rule: rev_cases) auto
  ultimately show ?thesis by (simp add: trimmed_def)
qed

lemma up_to_last_snoc [simp]: "up_to_last c (s @ [c]) = s"
  by (simp add: up_to_last_def)

lemma paren_body_signature:
  assumes "CHR ''('' \<notin> set name" and "CHR 0x0A \<notin> set body"
  shows "paren_body (name @ ''('' @ body @ '')'') = Some body"
proof -
  have "takeWhile (\<lambda>x. x \<noteq> CHR 0x0A) (body @ '')'') = body @ '')''"
    using assms(2) by (intro takeWhile_eq_all_conv [THEN iffD2]) auto
  then show ?thesis using assms(1) by (induction name) (auto simp: Let_def)
qed

lemma map_filter_Some: "(\<And>x. x \<in> set xs \<Longrightarrow> f x = Some (g x)) \<Longrightarrow> List.map_filter f xs = map g xs"
  by (induction xs) simp_all

definition params_plain :: "(string, string) qmap \<Rightarrow> bool" where
  "params_plain ps \<longleftrightarrow> (\<forall>k v. fmlookup ps k = Some v \<longrightarrow> plain k \<and> plain v)"

lemma params_plainD:
  "params_plain ps \<Longrightarrow> k \<in> set (qkeys ps) \<Longrightarrow> plain k \<and> plain (qvalue ps k '''')"
  by (auto simp: params_plain_def qvalue_def fmlookup_dom_iff)

lemma param_text_chars:
  assumes "params_plain ps" and "k \<in> set (qkeys ps)"
  shows "CHR '','' \<notin> set (param_text ps k)" "CHR 0x0A \<notin> set (param_text ps k)"
    "param_text ps k \<noteq> []" "\<not> is_qspace (hd (param_text ps k))" "\<not> is_qspace (last (param_text ps k))"
    "split_at (CHR '' '') (param_text ps k) = [qvalue ps k '''', k]"
proof -
  have p: "plain k" "plain (qvalue ps k '''')" using params_plainD [OF assms] by auto
  note cs = plain_chars [OF p(1)] plain_chars [OF p(2)]
  show "CHR '','' \<notin> set (param_text ps k)" "CHR 0x0A \<notin> set (param_text ps k)"
    using cs by (simp_all add: param_text_def)
  show "param_text ps k \<noteq> []" by (simp add: param_text_def)
  have "hd (param_text ps k) \<in> set (qvalue ps k '''')" "last (param_text ps k) \<in> set k"
    using p by (simp_all add: param_text_def plain_def)
  then show "\<not> is_qspace (hd (param_text ps k))" "\<not> is_qspace (last (param_text ps k))"
    using plain_space p by blast+
  show "split_at (CHR '' '') (param_text ps k) = [qvalue ps k '''', k]"
    using cs split_at_first [of "CHR '' ''" "qvalue ps k ''''" k] split_at_none [of "CHR '' ''" k]
    by (simp add: param_text_def)
qed

lemma join_ends:
  assumes "xs \<noteq> []" and "\<forall>x \<in> set xs. x \<noteq> []"
  shows "join sep xs \<noteq> []" "hd (join sep xs) = hd (hd xs)" "last (join sep xs) = last (last xs)"
  using assms by (induction xs rule: induct_list012) auto

lemma set_join: "set (join sep xs) \<subseteq> \<Union> (set ` set xs) \<union> set sep"
  by (induction xs rule: induct_list012) auto

lemma signature_parts:
  assumes "params_plain ps" and "CHR ''('' \<notin> set name"
  obtains body where "paren_body (createRpcSignature name ps) = Some body"
    and "skip_empty (split_at (CHR '','') (trimmed body)) = map (param_text ps) (qkeys ps)"
proof -
  let ?xs = "map (param_text ps) (qkeys ps)"
  let ?body = "join '','' ?xs"
  have ne: "\<forall>x \<in> set ?xs. x \<noteq> []" using param_text_chars(3) [OF assms(1)] by auto
  have "CHR 0x0A \<notin> set ?body"
    using set_join [of "'',''" ?xs] param_text_chars(2) [OF assms(1)] by auto
  then have b: "paren_body (createRpcSignature name ps) = Some ?body"
    unfolding createRpcSignature_join by (intro paren_body_signature assms(2))
  show ?thesis
  proof (cases "qkeys ps = []")
    case True
    then show ?thesis
      using b by (intro that [of ?body]) (auto simp: skip_empty_def trimmed_def)
  next
    case False
    have "hd (qkeys ps) \<in> set (qkeys ps)" "last (qkeys ps) \<in> set (qkeys ps)"
      using False by (simp_all del: qkeys_eq_Nil set_qkeys)
    then have "\<not> is_qspace (hd ?body)" "\<not> is_qspace (last ?body)"
      using join_ends [OF _ ne, of "'',''"] False param_text_chars(4,5) [OF assms(1)]
      by (simp_all add: hd_map last_map del: qkeys_eq_Nil set_qkeys)
    then have "trimmed ?body = ?body" by (intro trimmed_id) simp
    moreover have "split_at (CHR '','') ?body = ?xs"
      using False param_text_chars(1) [OF assms(1)]
      by (intro split_at_join) (auto simp del: qkeys_eq_Nil)
    moreover have "skip_empty ?xs = ?xs" using ne by (simp add: skip_empty_def filter_id_conv)
    ultimately show ?thesis using b by (intro that [of ?body]) simp_all
  qed
qed

section \<open>Properties\<close>

text \<open>
  C38. Signatures are read back: from the signature of a procedure whose name, parameters and
  types are words, the helper recovers the name and the list of parameter names.
\<close>

theorem signature_roundtrip:
  assumes "plain name" and "params_plain ps"
  shows "getRpcName (createRpcSignature name ps) = name \<and>
    getRpcParamNamesList (createRpcSignature name ps) = qkeys ps"
proof -
  have paren: "CHR ''('' \<notin> set name" by (rule plain_chars(1) [OF assms(1)])
  then have nm: "getRpcName (createRpcSignature name ps) = name"
    using split_at_first [of "CHR ''(''" name]
    unfolding createRpcSignature_join getRpcName_def by simp
  obtain body where b: "paren_body (createRpcSignature name ps) = Some body"
    "skip_empty (split_at (CHR '','') (trimmed body)) = map (param_text ps) (qkeys ps)"
    using signature_parts [OF assms(2) paren] by blast
  have "List.map_filter (\<lambda>p. case split_at (CHR '' '') p of [_, n] \<Rightarrow> Some n | _ \<Rightarrow> None)
      (map (param_text ps) (qkeys ps)) =
    List.map_filter (\<lambda>k. case split_at (CHR '' '') (param_text ps k) of [_, n] \<Rightarrow> Some n | _ \<Rightarrow> None)
      (qkeys ps)"
    by (simp add: List.map_filter_def comp_def filter_map)
  also have "\<dots> = map id (qkeys ps)"
    using param_text_chars(6) [OF assms(2)] by (intro map_filter_Some) simp
  finally have "getRpcParamNamesList (createRpcSignature name ps) = qkeys ps"
    using b by (simp add: getRpcParamNamesList_def)
  then show ?thesis using nm by simp
qed

theorem signature_roundtrip_witness:
  "getRpcName (createRpcSignature ''RPC_A'' (fmupd ''p'' ''int'' fmempty)) = ''RPC_A'' \<and>
   getRpcParamNamesList (createRpcSignature ''RPC_A'' (fmupd ''p'' ''int'' fmempty)) = [''p'']"
  using signature_roundtrip [of "''RPC_A''" "fmupd ''p'' ''int'' fmempty"]
  by (simp add: plain_def params_plain_def is_word_def qkeys_fmupd)

text \<open>
  In the documented notation, with a blank behind the comma, only the first parameter is found.
\<close>

lemma blank_after_comma:
  "getRpcParamNamesList ''RPC_A(int p_a, int p_b)'' = [''p_a'']"
  by code_simp

end
