(* ===== verification/VfCpp.thy ===== *)
theory VfCpp
  imports Actors RpcSignature
begin

text \<open>
  server-libs/vf-cpp: entities, components and remote procedures of server modules. A component
  object lives in the component list of its entity under its name; the functions of the modules
  that procedures invoke are arguments. Calls of procedures are queued by the entity and
  executed later (queued signal or thread), one at a time under the procedure's mutex.
\<close>

section \<open>VfCppComponent\<close>

record vf_component =
  fcEntityId :: int
  fcName :: string
  fcValue :: qvariant
  fcReadOnly :: bool

definition fc_sendNotification :: "component_command \<Rightarrow> vf_component \<Rightarrow> vein_event" where
  "fc_sendNotification cmd c = setPeerId null_uuid (commandEvent_new NOTIFICATION (VComponent
     (cd_setNewValue (fcValue c) (cd_setComponentName (fcName c) (cd_setCommand cmd
       (setEventTarget ET_ALL (setEventOrigin EO_LOCAL
         (setEntityId (fcEntityId c) componentData_new))))))))"

definition fc_new :: "int \<Rightarrow> string \<Rightarrow> qvariant \<Rightarrow> bool \<Rightarrow> vf_component \<times> vein_event list" where
  "fc_new i n v ro =
     (let c = \<lparr> fcEntityId = i, fcName = n, fcValue = v, fcReadOnly = ro \<rparr>
      in (c, [fc_sendNotification CCMD_ADD c]))"

definition fc_setValue :: "qvariant \<Rightarrow> vf_component \<Rightarrow> vf_component \<times> vein_event list" where
  "fc_setValue v c = (let c' = c\<lparr>fcValue := v\<rparr> in (c', [fc_sendNotification CCMD_SET c']))"

text \<open>The last component of the result holds the values the signal is emitted with.\<close>

definition fc_setValueFromVein ::
  "qt_lib \<Rightarrow> qvariant \<Rightarrow> vf_component \<Rightarrow> vf_component \<times> vein_event list \<times> qvariant list" where
  "fc_setValueFromVein qt v c =
     (if \<not> qtEq qt v (fcValue c)
      then let (c', out) = (if \<not> fcReadOnly c then fc_setValue v c else (c, []))
           in (c', out, [v])
      else (c, [], []))"

definition fc_changeComponentReadWriteType :: "bool \<Rightarrow> vf_component \<Rightarrow> vf_component" where
  "fc_changeComponentReadWriteType b c = c\<lparr>fcReadOnly := b\<rparr>"

section \<open>VeinCompProxy\<close>

text \<open>
  A typed pointer to a component, possibly null: \<open>from\<close> is \<^verbatim>\<open>QVariant::value<T>\<close>, \<open>to\<close> the
  variant made of a value, \<open>dflt\<close> the default-constructed \<^verbatim>\<open>T\<close>.
\<close>

definition cp_value :: "(qvariant \<Rightarrow> 't) \<Rightarrow> 't \<Rightarrow> vf_component option \<Rightarrow> 't" where
  "cp_value from_variant dflt p = (case p of Some c \<Rightarrow> from_variant (fcValue c) | None \<Rightarrow> dflt)"

definition cp_setValue ::
  "('t \<Rightarrow> qvariant) \<Rightarrow> 't \<Rightarrow> vf_component option \<Rightarrow> vf_component option \<times> vein_event list" where
  "cp_setValue to_variant v p =
     (case p of
        Some c \<Rightarrow> let (c', out) = fc_setValue (to_variant v) c in (Some c', out)
      | None \<Rightarrow> (None, []))"

definition cp_equals :: "(qvariant \<Rightarrow> 't) \<Rightarrow> 't \<Rightarrow> 't \<Rightarrow> vf_component option \<Rightarrow> bool" where
  "cp_equals from_variant dflt v p \<longleftrightarrow> v = cp_value from_variant dflt p"

lemma cp_set_get:
  assumes "from_variant (to_variant v) = v"
  shows "cp_equals from_variant dflt v (fst (cp_setValue to_variant v (Some c)))"
    and "fst (cp_setValue to_variant v None) = None"
  using assms by (simp_all add: cp_equals_def cp_value_def cp_setValue_def fc_setValue_def Let_def)

section \<open>cVeinModuleRpc\<close>

record vf_rpc =
  frFunction :: string
  frParameter :: "(string, string) qmap"
  frName :: string
  frEntityId :: int
  frFunctionBlocks :: bool
  frPending :: "(quuid, quuid) qmap"

text \<open>A threaded procedure whose function does not block is refused (\<open>None\<close>: fatal error).\<close>

definition fr_new ::
  "int \<Rightarrow> string \<Rightarrow> (string, string) qmap \<Rightarrow> bool \<Rightarrow> bool \<Rightarrow> (vf_rpc \<times> vein_event list) option" where
  "fr_new i f ps threaded blocks =
     (if threaded \<and> \<not> blocks then None
      else
        let name = createRpcSignature f ps;
            d = setEventTarget ET_ALL (setEventOrigin EO_LOCAL (rd_setProcedureName name
                  (rd_setCommand RPCMD_REGISTER (setEntityId i rpcData_new))))
        in Some (\<lparr> frFunction = f, frParameter = ps, frName = name, frEntityId = i,
                   frFunctionBlocks = blocks, frPending = fmempty \<rparr>,
                 [commandEvent_new NOTIFICATION (VRpc d)]))"

definition rpc_return_value ::
  "qt_lib \<Rightarrow> quuid \<Rightarrow> int \<Rightarrow> string \<Rightarrow> qvariant \<Rightarrow> qvariant_map" where
  "rpc_return_value qt callId code msg result =
     (let m = fmupd s_resultCodeString (QInt code) (fmupd s_callIdString (QUuidV callId) fmempty);
          m1 = (if msg \<noteq> '''' then fmupd s_errorMessageString (QStr msg) m else m)
      in if \<not> qtIsNull qt result then fmupd s_returnString result m1 else m1)"

definition fr_sendRpcResult ::
  "qt_lib \<Rightarrow> quuid \<Rightarrow> int \<Rightarrow> string \<Rightarrow> qvariant \<Rightarrow> vf_rpc \<Rightarrow> vf_rpc \<times> vein_event list" where
  "fr_sendRpcResult qt callId code msg result r =
     (case fmlookup (frPending r) callId of
        None \<Rightarrow> (r, [])
      | Some peer \<Rightarrow>
          (r\<lparr>frPending := fmdrop callId (frPending r)\<rparr>,
           [setPeerId peer (server_rpc_result (frEntityId r) (frName r)
              (rpc_return_value qt callId code msg result))]))"

text \<open>
  What invoking the module's function does: whether it could be invoked, the value it returned
  and the results it sent itself while it ran.
\<close>

record rpc_invocation =
  ivOk :: bool
  ivResult :: qvariant
  ivSent :: "(quuid \<times> int \<times> string \<times> qvariant) list"

fun send_results ::
  "qt_lib \<Rightarrow> (quuid \<times> int \<times> string \<times> qvariant) list \<Rightarrow> vf_rpc \<Rightarrow> vf_rpc \<times> vein_event list" where
  "send_results qt [] r = (r, [])"
| "send_results qt ((i, code, msg, v) # xs) r =
     (let (r1, out1) = fr_sendRpcResult qt i code msg v r;
          (r2, out2) = send_results qt xs r1
      in (r2, out1 @ out2))"

definition rpc_parameters :: "qt_lib \<Rightarrow> qvariant_map \<Rightarrow> qvariant_map" where
  "rpc_parameters qt m = qtToMap qt (qvalue m s_parameterString QInvalid)"

definition fr_callFunctionPrivate ::
  "qt_lib \<Rightarrow> (string \<Rightarrow> qvariant_map \<Rightarrow> rpc_invocation) \<Rightarrow> quuid \<Rightarrow> quuid \<Rightarrow> qvariant_map \<Rightarrow> vf_rpc \<Rightarrow>
   vf_rpc \<times> vein_event list" where
  "fr_callFunctionPrivate qt invoke callId peerId m r =
     (let search = rpc_parameters qt m;
          missing = filter (\<lambda>k. k \<notin> set (qkeys search)) (qkeys (frParameter r));
          complete = (missing = []);
          iv = (if complete
                then invoke (frFunction r) (fmupd s_callIdString (QUuidV callId) search)
                else \<lparr> ivOk = False, ivResult = QMapV m, ivSent = [] \<rparr>);
          (code, msg) =
            (if \<not> complete
             then (RPC_EINVAL, ''Missing required parameters: ['' @
                     join '','' (qkeys (frParameter r)) @ '']'')
             else if ivOk iv then (RPC_SUCCESS, '''')
             else (RPC_EINVAL, ''Function not implemented''));
          (r1, out1) = send_results qt (ivSent iv) r;
          r2 = r1\<lparr>frPending := fmupd callId peerId (frPending r1)\<rparr>
      in if \<not> ivOk iv \<or> frFunctionBlocks r
         then let (r3, out3) = fr_sendRpcResult qt callId code msg (ivResult iv) r2
              in (r3, out1 @ out3)
         else (r2, out1))"

section \<open>VfCppRpcSimplified\<close>

record simple_rpc =
  srEntityId :: int
  srSignature :: string
  srPeers :: "(quuid, quuid) qmap"

definition sr_new :: "int \<Rightarrow> string \<Rightarrow> simple_rpc \<times> vein_event list" where
  "sr_new i sig =
     (\<lparr> srEntityId = i, srSignature = sig, srPeers = fmempty \<rparr>, [server_rpc_register i sig])"

text \<open>The call signal carries the identifier and the parameters.\<close>

definition sr_callFunction ::
  "qt_lib \<Rightarrow> quuid \<Rightarrow> quuid \<Rightarrow> qvariant_map \<Rightarrow> simple_rpc \<Rightarrow> simple_rpc \<times> (quuid \<times> qvariant_map)" where
  "sr_callFunction qt callId peerId m s =
     (s\<lparr>srPeers := fmupd callId peerId (srPeers s)\<rparr>, (callId, rpc_parameters qt m))"

definition sr_sendRPCresultEvent ::
  "quuid \<Rightarrow> qvariant_map \<Rightarrow> simple_rpc \<Rightarrow> simple_rpc \<times> vein_event list" where
  "sr_sendRPCresultEvent callId ret s =
     (if qcontains (srPeers s) callId
      then (s\<lparr>srPeers := fmdrop callId (srPeers s)\<rparr>,
            [setPeerId (qvalue (srPeers s) callId null_uuid)
               (server_rpc_result (srEntityId s) (srSignature s) ret)])
      else (s, []))"

definition sr_sendRpcResult ::
  "qt_lib \<Rightarrow> quuid \<Rightarrow> qvariant \<Rightarrow> simple_rpc \<Rightarrow> simple_rpc \<times> vein_event list" where
  "sr_sendRpcResult qt callId result s =
     sr_sendRPCresultEvent callId (rpc_return_value qt callId RPC_SUCCESS '''' result) s"

definition sr_sendRpcError ::
  "quuid \<Rightarrow> string \<Rightarrow> simple_rpc \<Rightarrow> simple_rpc \<times> vein_event list" where
  "sr_sendRpcError callId msg s =
     (let m = fmupd s_resultCodeString (QInt RPC_EINVAL) (fmupd s_callIdString (QUuidV callId) fmempty)
      in sr_sendRPCresultEvent callId
           (if msg \<noteq> '''' then fmupd s_errorMessageString (QStr msg) m else m) s)"

section \<open>VfCppEntity\<close>

record vf_entity =
  veEntityId :: int
  veComponents :: "(string, vf_component) qmap"
  veRpcs :: "(string, vf_rpc) qmap"

definition ve_new :: "int \<Rightarrow> vf_entity" where
  "ve_new i = \<lparr> veEntityId = i, veComponents = fmempty, veRpcs = fmempty \<rparr>"

definition ve_initModule :: "vf_entity \<Rightarrow> vein_event list" where
  "ve_initModule s = [server_entity_add (veEntityId s)]"

text \<open>Creating a component that exists is a fatal error.\<close>

definition ve_createComponent ::
  "string \<Rightarrow> qvariant \<Rightarrow> bool \<Rightarrow> vf_entity \<Rightarrow> (vf_entity \<times> vein_event list) option" where
  "ve_createComponent n v ro s =
     (if qcontains (veComponents s) n then None
      else let (c, out) = fc_new (veEntityId s) n v ro
           in Some (s\<lparr>veComponents := fmupd (fcName c) c (veComponents s)\<rparr>, out))"

definition ve_removeEntity :: "vf_entity \<Rightarrow> vf_entity \<times> vein_event list" where
  "ve_removeEntity s = (s\<lparr>veComponents := fmempty\<rparr>, [server_entity_remove (veEntityId s)])"

text \<open>The destructor.\<close>

definition ve_destroy :: "vf_entity \<Rightarrow> vein_event list" where
  "ve_destroy s = [server_entity_remove (veEntityId s)]"

text \<open>The component list keeps the removed component.\<close>

definition ve_removeComponent :: "string \<Rightarrow> vf_entity \<Rightarrow> vein_event list" where
  "ve_removeComponent n s =
     (if qcontains (veComponents s) n then [server_component_remove (veEntityId s) n] else [])"

definition ve_createRpc ::
  "string \<Rightarrow> (string, string) qmap \<Rightarrow> bool \<Rightarrow> vf_entity \<Rightarrow> (vf_entity \<times> vein_event list) option" where
  "ve_createRpc f ps threaded s =
     map_option (\<lambda>(r, out). (s\<lparr>veRpcs := fmupd (frName r) r (veRpcs s)\<rparr>, out))
       (fr_new (veEntityId s) f ps threaded True)"

text \<open>A module sets the value of a component it holds.\<close>

definition ve_setValue :: "string \<Rightarrow> qvariant \<Rightarrow> vf_entity \<Rightarrow> vf_entity \<times> vein_event list" where
  "ve_setValue n v s =
     (case fmlookup (veComponents s) n of
        None \<Rightarrow> (s, [])
      | Some c \<Rightarrow> let (c', out) = fc_setValue v c
                  in (s\<lparr>veComponents := fmupd n c' (veComponents s)\<rparr>, out))"

text \<open>A call handed to a procedure: its name, call identifier, peer and invocation data.\<close>

type_synonym queued_call = "string \<times> quuid \<times> quuid \<times> qvariant_map"

record entity_output =
  eoEvents :: "vein_event list"
  eoChanged :: "qvariant list"
  eoCalls :: "queued_call list"

definition no_output :: entity_output where
  "no_output = \<lparr> eoEvents = [], eoChanged = [], eoCalls = [] \<rparr>"

definition ve_handleComponents ::
  "qt_lib \<Rightarrow> component_data \<Rightarrow> vein_event \<Rightarrow> vf_entity \<Rightarrow> vf_entity \<times> vein_event \<times> entity_output" where
  "ve_handleComponents qt d e s =
     (if ceSubtype e = TRANSACTION \<and> cdCommand d = CCMD_SET
      then (case fmlookup (veComponents s) (cdComponentName d) of
              None \<Rightarrow> (s, e, no_output)
            | Some c \<Rightarrow>
                (let (c', out, sigs) = fc_setValueFromVein qt (cdNewValue d) c
                 in (s\<lparr>veComponents := fmupd (cdComponentName d) c' (veComponents s)\<rparr>, accept e,
                     no_output\<lparr> eoEvents := out, eoChanged := sigs \<rparr>)))
      else (s, e, no_output))"

text \<open>
  The procedure is the first one, in the order of names, whose name contains the requested one,
  ignoring case. When there is none, the name left in the variable is that of the last one.
\<close>

definition find_rpc :: "string \<Rightarrow> vf_entity \<Rightarrow> string option" where
  "find_rpc name s = find (\<lambda>k. contains_str (to_lower name) (to_lower k)) (qkeys (veRpcs s))"

definition ve_handleRpcs ::
  "qt_lib \<Rightarrow> rpc_data \<Rightarrow> vein_event \<Rightarrow> vf_entity \<Rightarrow> vf_entity \<times> vein_event \<times> entity_output" where
  "ve_handleRpcs qt d e s =
     (if rdCommand d = RPCMD_CALL
      then (case find_rpc (rdProcedureName d) s of
              Some k \<Rightarrow>
                (s, accept e, no_output\<lparr>eoCalls :=
                   [(k, qtToUuid qt (qvalue (rdInvokationData d) s_callIdString QInvalid),
                     cePeerId e, rdInvokationData d)]\<rparr>)
            | None \<Rightarrow>
                (let e1 = e\<lparr>ceData := vd_setEventTarget ET_ALL (ceData e)\<rparr>;
                     last_name = (if qkeys (veRpcs s) = [] then '''' else last (qkeys (veRpcs s)));
                     (e2, out) = errorOut qt (''No RPC with entityId: '' @ int_digits (veEntityId s) @
                                   '' name: '' @ last_name) e1
                 in (s, e2, no_output\<lparr>eoEvents := out\<rparr>)))
      else (s, e, no_output))"

definition ve_processEvent ::
  "qt_lib \<Rightarrow> vein_event \<Rightarrow> vf_entity \<Rightarrow> vf_entity \<times> vein_event \<times> entity_output" where
  "ve_processEvent qt e s =
     (if vd_entityId (ceData e) \<noteq> veEntityId s then (s, e, no_output)
      else case ceData e of
             VComponent d \<Rightarrow> ve_handleComponents qt d e s
           | VRpc d \<Rightarrow> ve_handleRpcs qt d e s
           | _ \<Rightarrow> (s, e, no_output))"

text \<open>Executing a queued call.\<close>

definition ve_runCall ::
  "qt_lib \<Rightarrow> (string \<Rightarrow> qvariant_map \<Rightarrow> rpc_invocation) \<Rightarrow> queued_call \<Rightarrow> vf_entity \<Rightarrow>
   vf_entity \<times> vein_event list" where
  "ve_runCall qt invoke q s =
     (case q of (k, callId, peerId, m) \<Rightarrow>
        (case fmlookup (veRpcs s) k of
           None \<Rightarrow> (s, [])
         | Some r \<Rightarrow> let (r', out) = fr_callFunctionPrivate qt invoke callId peerId m r
                     in (s\<lparr>veRpcs := fmupd k r' (veRpcs s)\<rparr>, out)))"

section \<open>Lemmas on components\<close>

lemma fc_sendNotification_data:
  "ceSubtype (fc_sendNotification cmd c) = NOTIFICATION"
  "\<exists>d. ceData (fc_sendNotification cmd c) = VComponent d \<and> cdCommand d = cmd \<and>
     cdComponentName d = fcName c \<and> cdNewValue d = fcValue c \<and> edOrigin d = EO_LOCAL \<and>
     edTarget d = ET_ALL \<and> (0 \<le> fcEntityId c \<longrightarrow> edEntityId d = fcEntityId c)"
  by (simp_all add: fc_sendNotification_def vein_defs record_glue qv_valid_def)

lemma readonly_from_vein:
  "fcReadOnly c \<Longrightarrow> fst (fc_setValueFromVein qt v c) = c \<and> fst (snd (fc_setValueFromVein qt v c)) = []"
  by (simp add: fc_setValueFromVein_def)

lemma readonly_kept:
  "fcReadOnly (fst (fc_setValueFromVein qt v c)) = fcReadOnly c"
  "fcName (fst (fc_setValueFromVein qt v c)) = fcName c"
  by (simp_all add: fc_setValueFromVein_def fc_setValue_def Let_def)

text \<open>A run of events over an entity, with the events it sends.\<close>

fun ve_run :: "qt_lib \<Rightarrow> vein_event list \<Rightarrow> vf_entity \<Rightarrow> vf_entity \<times> vein_event list" where
  "ve_run qt [] s = (s, [])"
| "ve_run qt (e # es) s =
     (let (s1, e1, o1) = ve_processEvent qt e s;
          (s2, out) = ve_run qt es s1
      in (s2, eoEvents o1 @ out))"

definition component_set_event :: "string \<Rightarrow> vein_event \<Rightarrow> bool" where
  "component_set_event n e \<longleftrightarrow>
     (case ceData e of VComponent d \<Rightarrow> cdCommand d = CCMD_SET \<and> cdComponentName d = n | _ \<Rightarrow> False)"

text \<open>Every component is listed under its name.\<close>

definition entity_ok :: "vf_entity \<Rightarrow> bool" where
  "entity_ok s \<longleftrightarrow> (\<forall>n c. fmlookup (veComponents s) n = Some c \<longrightarrow> fcName c = n)"

lemma ve_new_ok [inv_intros]: "entity_ok (ve_new i)"
  by (simp add: entity_ok_def ve_new_def)

lemma ve_createComponent_ok [inv_intros]:
  "entity_ok s \<Longrightarrow> ve_createComponent n v ro s = Some (s', out) \<Longrightarrow> entity_ok s'"
  by (auto simp: entity_ok_def ve_createComponent_def fc_new_def Let_def split: if_splits)

lemma ve_setValue_ok [inv_intros]: "entity_ok s \<Longrightarrow> entity_ok (fst (ve_setValue n v s))"
  by (auto simp: entity_ok_def ve_setValue_def fc_setValue_def Let_def split: option.splits)

lemma ve_processEvent_component:
  assumes "ceData e = VComponent d" and "edEntityId d = veEntityId s" and "ceSubtype e = TRANSACTION"
    and "cdCommand d = CCMD_SET" and "fmlookup (veComponents s) (cdComponentName d) = Some c"
  shows "ve_processEvent qt e s =
    (s\<lparr>veComponents := fmupd (cdComponentName d) (fst (fc_setValueFromVein qt (cdNewValue d) c))
        (veComponents s)\<rparr>, accept e,
     no_output\<lparr> eoEvents := fst (snd (fc_setValueFromVein qt (cdNewValue d) c)),
       eoChanged := snd (snd (fc_setValueFromVein qt (cdNewValue d) c)) \<rparr>)"
  using assms by (simp add: ve_processEvent_def ve_handleComponents_def split_beta Let_def)

lemma ve_processEvent_cases:
  obtains (written) d c where "ceData e = VComponent d" and "edEntityId d = veEntityId s"
      and "ceSubtype e = TRANSACTION" and "cdCommand d = CCMD_SET"
      and "fmlookup (veComponents s) (cdComponentName d) = Some c"
  | (other) "fst (ve_processEvent qt e s) = s"
      and "\<forall>e' \<in> set (eoEvents (snd (snd (ve_processEvent qt e s)))). \<exists>er. ceData e' = VError er"
proof (cases "\<exists>d c. ceData e = VComponent d \<and> edEntityId d = veEntityId s \<and>
    ceSubtype e = TRANSACTION \<and> cdCommand d = CCMD_SET \<and>
    fmlookup (veComponents s) (cdComponentName d) = Some c")
  case True
  then show ?thesis using written by blast
next
  case False
  then show ?thesis
    by (intro other; cases "ceData e")
       (auto simp: ve_processEvent_def ve_handleComponents_def ve_handleRpcs_def no_output_def
        errorOut_def Let_def vein_defs split: option.splits)
qed

lemma ve_processEvent_ok [inv_intros]:
  assumes "entity_ok s"
  shows "entity_ok (fst (ve_processEvent qt e s))"
proof (cases rule: ve_processEvent_cases [where e = e and s = s and qt = qt])
  case (written d c)
  then show ?thesis
    using assms by (auto simp: ve_processEvent_component entity_ok_def readonly_kept)
qed (use assms in simp)

lemma ve_processEvent_readonly:
  assumes "entity_ok s" and "fmlookup (veComponents s) n = Some c" and "fcReadOnly c"
  shows "fmlookup (veComponents (fst (ve_processEvent qt e s))) n = Some c"
    and "e' \<in> set (eoEvents (snd (snd (ve_processEvent qt e s)))) \<Longrightarrow> \<not> component_set_event n e'"
proof -
  have "fmlookup (veComponents (fst (ve_processEvent qt e s))) n = Some c \<and>
    (\<forall>e' \<in> set (eoEvents (snd (snd (ve_processEvent qt e s)))). \<not> component_set_event n e')"
  proof (cases rule: ve_processEvent_cases [where e = e and s = s and qt = qt])
    case (written d c')
    have "fcName c' = cdComponentName d" using assms(1) written(5) by (simp add: entity_ok_def)
    then show ?thesis
      using assms(2,3) readonly_from_vein [of c qt "cdNewValue d"] written
      by (cases "cdComponentName d = n")
         (auto simp: ve_processEvent_component component_set_event_def fc_setValueFromVein_def
          fc_setValue_def fc_sendNotification_def vein_defs record_glue Let_def no_output_def)
  next
    case other
    then show ?thesis using assms(2) by (auto simp: component_set_event_def)
  qed
  then show "fmlookup (veComponents (fst (ve_processEvent qt e s))) n = Some c"
    and "e' \<in> set (eoEvents (snd (snd (ve_processEvent qt e s)))) \<Longrightarrow> \<not> component_set_event n e'"
    by blast+
qed

lemma ve_run_readonly:
  assumes "entity_ok s" and "fmlookup (veComponents s) n = Some c" and "fcReadOnly c"
  shows "fmlookup (veComponents (fst (ve_run qt es s))) n = Some c \<and>
    (\<forall>e \<in> set (snd (ve_run qt es s)). \<not> component_set_event n e)"
  using assms
proof (induction es arbitrary: s)
  case Nil
  then show ?case by simp
next
  case (Cons e es)
  obtain s1 e1 o1 where p: "ve_processEvent qt e s = (s1, e1, o1)"
    by (cases "ve_processEvent qt e s") auto
  have "entity_ok s1" using ve_processEvent_ok [OF Cons.prems(1), of qt e] p by simp
  moreover have "fmlookup (veComponents s1) n = Some c"
    using ve_processEvent_readonly(1) [OF Cons.prems, of qt e] p by simp
  moreover have "\<forall>e' \<in> set (eoEvents o1). \<not> component_set_event n e'"
    using ve_processEvent_readonly(2) [OF Cons.prems, of _ qt e] p by simp
  ultimately show ?case using Cons.IH [of s1] Cons.prems(3) p by (auto simp: split_beta)
qed

section \<open>Lemmas on procedures\<close>

text \<open>Both kinds of procedures meet the contract of pending calls, whatever the peer and result.\<close>

definition rpc_pending :: "vf_rpc \<Rightarrow> quuid set" where
  "rpc_pending r = fset (fmdom (frPending r))"

definition rpc_start :: "quuid \<Rightarrow> quuid \<Rightarrow> vf_rpc \<Rightarrow> vf_rpc" where
  "rpc_start peer i r = r\<lparr>frPending := fmupd i peer (frPending r)\<rparr>"

definition rpc_finish :: "qt_lib \<Rightarrow> int \<Rightarrow> string \<Rightarrow> qvariant \<Rightarrow> quuid \<Rightarrow> vf_rpc \<Rightarrow> vf_rpc \<times> nat" where
  "rpc_finish qt code msg v i r =
     (fst (fr_sendRpcResult qt i code msg v r), length (snd (fr_sendRpcResult qt i code msg v r)))"

interpretation module_rpc: pending_calls rpc_pending "rpc_start peer" "rpc_finish qt code msg v"
  for peer qt code msg v
  by unfold_locales
     (auto simp: rpc_pending_def rpc_start_def rpc_finish_def fr_sendRpcResult_def fmlookup_dom_iff
      split: option.splits)

definition simple_pending :: "simple_rpc \<Rightarrow> quuid set" where
  "simple_pending s = fset (fmdom (srPeers s))"

definition simple_start :: "quuid \<Rightarrow> simple_rpc \<Rightarrow> simple_rpc" where
  "simple_start i s = s\<lparr>srPeers := fmupd i null_uuid (srPeers s)\<rparr>"

definition simple_finish :: "quuid \<Rightarrow> simple_rpc \<Rightarrow> simple_rpc \<times> nat" where
  "simple_finish i s =
     (fst (sr_sendRPCresultEvent i fmempty s), length (snd (sr_sendRPCresultEvent i fmempty s)))"

interpretation simple_rpc: pending_calls simple_pending simple_start simple_finish
  by unfold_locales
     (auto simp: simple_pending_def simple_start_def simple_finish_def sr_sendRPCresultEvent_def)

text \<open>A result that is sent while the call is not pending is dropped.\<close>

lemma early_result_dropped:
  "i |\<notin>| fmdom (frPending r) \<Longrightarrow> fr_sendRpcResult qt i code msg v r = (r, [])"
  by (simp add: fr_sendRpcResult_def fmdom_notD)

section \<open>Traces of a simplified procedure\<close>

datatype simple_input =
    SrCall quuid quuid qvariant_map
  | SrResult quuid qvariant
  | SrError quuid string

fun sr_step :: "qt_lib \<Rightarrow> simple_input \<Rightarrow> simple_rpc \<Rightarrow> simple_rpc \<times> vein_event list" where
  "sr_step qt (SrCall i p m) s = (fst (sr_callFunction qt i p m s), [])"
| "sr_step qt (SrResult i v) s = sr_sendRpcResult qt i v s"
| "sr_step qt (SrError i msg) s = sr_sendRpcError i msg s"

fun sr_run :: "qt_lib \<Rightarrow> simple_input list \<Rightarrow> simple_rpc \<Rightarrow> simple_rpc \<times> vein_event list" where
  "sr_run qt [] s = (s, [])"
| "sr_run qt (x # xs) s =
     (let (s1, out1) = sr_step qt x s; (s2, out2) = sr_run qt xs s1 in (s2, out1 @ out2))"

text \<open>The call a result event answers.\<close>

definition answers :: "qt_lib \<Rightarrow> quuid \<Rightarrow> vein_event \<Rightarrow> bool" where
  "answers qt i e \<longleftrightarrow>
     (case ceData e of VRpc d \<Rightarrow> rdCommand d = RPCMD_RESULT \<and> call_id qt d = i | _ \<Rightarrow> False)"

lemma rpc_return_value_id [simp]:
  "fmlookup (rpc_return_value qt i code msg v) s_callIdString = Some (QUuidV i)"
  by (simp add: rpc_return_value_def Let_def rpc_strings_distinct [symmetric])

lemma fmdrop_missing [simp]: "i |\<notin>| fmdom m \<Longrightarrow> fmdrop i m = m"
  by (rule fmap_ext) (simp add: fmdom_notD)

lemma result_answers:
  assumes "qt_conv_ok qt" and "fmlookup m s_callIdString = Some (QUuidV j)"
  shows "answers qt i (setPeerId p (server_rpc_result k sig m)) \<longleftrightarrow> i = j"
  using assms
  by (auto simp: answers_def server_rpc_result_def call_id_def vein_defs qvalue_def qt_conv_ok_def)

lemma sendRPCresultEvent_answers:
  assumes "qt_conv_ok qt" and "fmlookup m s_callIdString = Some (QUuidV j)"
  shows "length (filter (answers qt i) (snd (sr_sendRPCresultEvent j m s))) =
      (if i = j \<and> j |\<in>| fmdom (srPeers s) then 1 else 0)"
    and "srPeers (fst (sr_sendRPCresultEvent j m s)) = fmdrop j (srPeers s)"
  using result_answers [OF assms]
  by (auto simp: sr_sendRPCresultEvent_def)

text \<open>The call a result or error refers to.\<close>

fun sr_refers :: "simple_input \<Rightarrow> quuid" where
  "sr_refers (SrCall i p m) = i"
| "sr_refers (SrResult i v) = i"
| "sr_refers (SrError i msg) = i"

fun sr_is_call :: "quuid \<Rightarrow> simple_input \<Rightarrow> bool" where
  "sr_is_call i (SrCall j p m) = (i = j)"
| "sr_is_call i _ = False"

lemma sr_step_answers:
  assumes "qt_conv_ok qt"
  shows "length (filter (answers qt i) (snd (sr_step qt x s))) +
      (if i |\<in>| fmdom (srPeers (fst (sr_step qt x s))) then 1 else 0) \<le>
      (if sr_is_call i x then 1 else 0) + (if i |\<in>| fmdom (srPeers s) then 1 else 0)"
proof (cases x)
  case (SrCall j p m)
  then show ?thesis by (simp add: sr_callFunction_def)
next
  case (SrResult j v)
  then show ?thesis
    using sendRPCresultEvent_answers [OF assms, of "rpc_return_value qt j RPC_SUCCESS '''' v" j]
    by (simp add: sr_sendRpcResult_def)
next
  case (SrError j msg)
  then show ?thesis
    using sendRPCresultEvent_answers [OF assms, of _ j]
    by (simp add: sr_sendRpcError_def Let_def rpc_string_defs)
qed

lemma sr_run_answers:
  assumes "qt_conv_ok qt"
  shows "length (filter (answers qt i) (snd (sr_run qt xs s))) \<le>
    length (filter (sr_is_call i) xs) + (if i |\<in>| fmdom (srPeers s) then 1 else 0)"
proof (induction xs arbitrary: s)
  case Nil
  then show ?case by simp
next
  case (Cons x xs)
  have "length (filter (answers qt i) (snd (sr_run qt (x # xs) s))) =
      length (filter (answers qt i) (snd (sr_step qt x s))) +
      length (filter (answers qt i) (snd (sr_run qt xs (fst (sr_step qt x s)))))"
    by (simp add: split_beta)
  moreover have "length (filter (sr_is_call i) (x # xs)) =
      (if sr_is_call i x then 1 else 0) + length (filter (sr_is_call i) xs)"
    by simp
  ultimately show ?case
    using sr_step_answers [OF assms, of i x s] Cons [of "fst (sr_step qt x s)"] by linarith
qed

text \<open>Where the peers in the table, and so the receivers of the results, come from.\<close>

lemma sr_step_peers:
  assumes "fmlookup (srPeers (fst (sr_step qt x s))) i = Some p"
  shows "fmlookup (srPeers s) i = Some p \<or> (\<exists>m. x = SrCall i p m)"
  using assms
  by (cases x) (auto simp: sr_callFunction_def sr_sendRpcResult_def sr_sendRpcError_def
      sr_sendRPCresultEvent_def Let_def split: if_splits)

lemma sr_step_receiver:
  assumes "qt_conv_ok qt" and "e \<in> set (snd (sr_step qt x s))"
  shows "\<exists>i. answers qt i e \<and> fmlookup (srPeers s) i = Some (cePeerId e)"
proof -
  have *: "\<exists>i. answers qt i e \<and> fmlookup (srPeers s) i = Some (cePeerId e)"
    if "e \<in> set (snd (sr_sendRPCresultEvent j m s))" "fmlookup m s_callIdString = Some (QUuidV j)"
    for j m
    using that result_answers [OF assms(1) that(2)]
    by (auto simp: sr_sendRPCresultEvent_def fmlookup_dom_iff qvalue_def setPeerId_def
        split: if_splits)
  show ?thesis
    using assms(2) by (cases x) (auto simp: sr_sendRpcResult_def sr_sendRpcError_def Let_def
        rpc_strings_distinct [symmetric] intro!: * split: if_splits)
qed

lemma sr_run_receiver:
  assumes "qt_conv_ok qt" and "e \<in> set (snd (sr_run qt xs s))"
  shows "\<exists>i. answers qt i e \<and>
    (fmlookup (srPeers s) i = Some (cePeerId e) \<or> (\<exists>m. SrCall i (cePeerId e) m \<in> set xs))"
  using assms(2)
proof (induction xs arbitrary: s)
  case Nil
  then show ?case by simp
next
  case (Cons x xs)
  show ?case
  proof (cases "e \<in> set (snd (sr_step qt x s))")
    case True
    then show ?thesis using sr_step_receiver [OF assms(1)] by blast
  next
    case False
    then have "e \<in> set (snd (sr_run qt xs (fst (sr_step qt x s))))"
      using Cons.prems by (simp add: split_beta)
    then show ?thesis using Cons.IH sr_step_peers by fastforce
  qed
qed

section \<open>Calling a procedure\<close>

lemma blocking_call_answered:
  assumes "frFunctionBlocks r" and "\<And>f m. ivSent (invoke f m) = []"
  shows "\<exists>code msg v. fr_callFunctionPrivate qt invoke i p m r =
    (r\<lparr>frPending := fmdrop i (frPending r)\<rparr>,
     [setPeerId p (server_rpc_result (frEntityId r) (frName r) (rpc_return_value qt i code msg v))])"
proof -
  have drop: "fmdrop i (fmupd i p m) = fmdrop i m" for m :: "(quuid, quuid) fmap"
    by (rule fmap_ext) simp
  show ?thesis
    using assms
    by (auto simp: fr_callFunctionPrivate_def fr_sendRpcResult_def Let_def split_beta drop
        simp del: set_qkeys)
qed

lemma send_results_keeps [simp]:
  "frEntityId (fst (send_results qt xs r)) = frEntityId r"
  "frName (fst (send_results qt xs r)) = frName r"
  by (induction xs arbitrary: r)
     (auto simp: split_beta Let_def fr_sendRpcResult_def split: option.splits)

text \<open>
  A call with all parameters that is answered at once: the results that the function sent for
  other calls while it ran come first, the answer last.
\<close>

lemma complete_call_result:
  fixes invoke :: "string \<Rightarrow> qvariant_map \<Rightarrow> rpc_invocation" and i :: quuid
  assumes "set (qkeys (frParameter r)) \<subseteq> set (qkeys (rpc_parameters qt m))"
  defines "iv \<equiv> invoke (frFunction r) (fmupd s_callIdString (QUuidV i) (rpc_parameters qt m))"
  assumes "frFunctionBlocks r \<or> \<not> ivOk iv"
  shows "snd (fr_callFunctionPrivate qt invoke i p m r) = snd (send_results qt (ivSent iv) r) @
    [setPeerId p (server_rpc_result (frEntityId r) (frName r)
       (rpc_return_value qt i (if ivOk iv then RPC_SUCCESS else RPC_EINVAL)
         (if ivOk iv then '''' else ''Function not implemented'') (ivResult iv)))]"
proof -
  have "filter (\<lambda>k. k \<notin> set (qkeys (rpc_parameters qt m))) (qkeys (frParameter r)) = []"
    using assms(1) by (auto simp: filter_empty_conv)
  then show ?thesis
    using assms(3)
    by (auto simp add: fr_callFunctionPrivate_def fr_sendRpcResult_def Let_def split_beta iv_def)
qed

text \<open>
  The caller's signature is the registered one when the parameters have the registered names
  and their type names are the registered types.
\<close>

definition matching_parameters :: "qt_lib \<Rightarrow> qvariant_map \<Rightarrow> (string, string) qmap \<Rightarrow> bool" where
  "matching_parameters qt params ps \<longleftrightarrow>
     (\<forall>k. map_option (qtTypeName qt) (fmlookup params k) = fmlookup ps k)"

lemma matching_keys:
  assumes "matching_parameters qt params ps"
  shows "qkeys params = qkeys ps"
proof -
  have "fmdom params = fmdom ps"
    using assms by (auto simp: matching_parameters_def fset_eq_iff fmlookup_dom_iff)
       (metis map_option_eq_Some option.map_disc_iff option.exhaust)+
  then show ?thesis by (simp add: qkeys_def)
qed

lemma parse_matching:
  assumes "matching_parameters qt params ps"
  shows "parseRpcParams qt name params = createRpcSignature name ps"
proof -
  have "qtTypeName qt (qvalue params k QInvalid) @ '' '' @ k = param_text ps k"
    if k: "k \<in> set (qkeys ps)" for k
  proof -
    have "k \<in> set (qkeys params)" unfolding matching_keys [OF assms] by (rule k)
    then obtain v where "fmlookup params k = Some v" unfolding qkeys_lookup ..
    moreover obtain t where "fmlookup ps k = Some t" using k unfolding qkeys_lookup ..
    ultimately show ?thesis
      using assms [unfolded matching_parameters_def, THEN spec, of k]
      by (simp add: param_text_def qvalue_def)
  qed
  then have "map (\<lambda>k. qtTypeName qt (qvalue params k QInvalid) @ '' '' @ k) (qkeys params) =
      map (param_text ps) (qkeys ps)"
    unfolding matching_keys [OF assms] by (intro map_cong) (simp_all del: set_qkeys)
  then show ?thesis unfolding parseRpcParams_def createRpcSignature_join by simp
qed

lemma find_least:
  assumes "sorted xs" and "x \<in> set xs" and "P x" and "\<And>y. y \<in> set xs \<Longrightarrow> P y \<Longrightarrow> x \<le> y"
  shows "find P xs = Some (x :: 'a :: linorder)"
  using assms by (induction xs) (auto intro: antisym)

lemma contains_refl [simp]: "contains_str s s"
  by (cases s) (simp_all add: startsWith_def)

text \<open>
  A procedure is found under its own signature when no signature that contains it, ignoring case,
  comes first in the order of names.
\<close>

lemma find_rpc_first:
  assumes "fmlookup (veRpcs s) sig = Some r"
    and "\<And>k. k |\<in>| fmdom (veRpcs s) \<Longrightarrow> k < sig \<Longrightarrow>
      \<not> contains_str (to_lower sig) (to_lower k)"
  shows "find_rpc sig s = Some sig"
proof -
  have sig: "sig \<in> set (qkeys (veRpcs s))" using assms(1) by (simp add: fmlookup_dom_iff)
  show ?thesis
    unfolding find_rpc_def
    by (rule find_least [OF sorted_qkeys sig]) (use assms(2) leI in \<open>auto\<close>)
qed

section \<open>Properties\<close>

text \<open>
  Clients cannot write a read-only component: whatever events reach the entity, a
  read-only component keeps its value, and no event is sent that sets it.
\<close>

theorem readonly_component_protected:
  assumes "entity_ok s" and "fmlookup (veComponents s) n = Some c" and "fcReadOnly c"
  shows "fmlookup (veComponents (fst (ve_run qt es s))) n = Some c \<and>
    (\<forall>e \<in> set (snd (ve_run qt es s)). \<not> component_set_event n e)"
  using assms by (rule ve_run_readonly)

definition example_entity :: vf_entity where
  "example_entity = (ve_new 7)\<lparr>veComponents := fmupd ''ro''
     \<lparr> fcEntityId = 7, fcName = ''ro'', fcValue = QInt 1, fcReadOnly = True \<rparr> fmempty\<rparr>"

theorem readonly_component_protected_witness:
  "fmlookup (veComponents (fst (ve_run qt_ref
      [setter_generateEvent qt_ref 7 ''ro'' (QInt 1) (QInt 2)] example_entity))) ''ro'' =
   Some \<lparr> fcEntityId = 7, fcName = ''ro'', fcValue = QInt 1, fcReadOnly = True \<rparr>"
  using readonly_component_protected [of example_entity "''ro''"
      "\<lparr> fcEntityId = 7, fcName = ''ro'', fcValue = QInt 1, fcReadOnly = True \<rparr>" qt_ref
      "[setter_generateEvent qt_ref 7 ''ro'' (QInt 1) (QInt 2)]"]
  by (simp add: example_entity_def entity_ok_def ve_new_def)

text \<open>
  Results of a simplified procedure go to the callers and nowhere else: over any sequence
  of calls, results and errors, no call is answered more often than it was made, and every
  answer is addressed to a peer that made the call it answers.
\<close>

theorem simple_rpc_answers:
  assumes "qt_conv_ok qt" and "srPeers s = fmempty" and "sr_run qt xs s = (s', out)"
  shows "(\<forall>i. length (filter (answers qt i) out) \<le> length (filter (sr_is_call i) xs)) \<and>
    (\<forall>e \<in> set out. \<exists>i m. answers qt i e \<and> SrCall i (cePeerId e) m \<in> set xs)"
proof (intro conjI allI ballI)
  fix i
  show "length (filter (answers qt i) out) \<le> length (filter (sr_is_call i) xs)"
    using sr_run_answers [OF assms(1), of i xs s] assms(2,3) by simp
next
  fix e
  assume "e \<in> set out"
  then show "\<exists>i m. answers qt i e \<and> SrCall i (cePeerId e) m \<in> set xs"
    using sr_run_receiver [OF assms(1), of e xs s] assms(2,3) by auto
qed

theorem simple_rpc_answers_witness:
  "length (filter (answers qt_ref (Uuid 5)) (snd (sr_run qt_ref
      [SrCall (Uuid 5) (Uuid 9) fmempty, SrResult (Uuid 5) (QInt 1), SrResult (Uuid 5) (QInt 2)]
      (fst (sr_new 7 ''RPC_A()''))))) \<le> 1"
proof -
  obtain s' out where "sr_run qt_ref [SrCall (Uuid 5) (Uuid 9) fmempty, SrResult (Uuid 5) (QInt 1),
      SrResult (Uuid 5) (QInt 2)] (fst (sr_new 7 ''RPC_A()'')) = (s', out)" by fastforce
  from this simple_rpc_answers [OF _ _ this] show ?thesis
    by (auto simp: sr_new_def dest: spec [of _ "Uuid 5"])
qed

text \<open>
  A call of a blocking procedure is always answered: executing it, with complete or
  missing parameters and whether or not the function can be invoked, sends exactly one result,
  which carries the call's identifier and goes to its peer, and leaves no pending entry for it.
\<close>

theorem blocking_rpc_answered:
  assumes "qt_conv_ok qt" and "frFunctionBlocks r" and "\<And>f m. ivSent (invoke f m) = []"
  shows "\<exists>ev. fr_callFunctionPrivate qt invoke i p m r =
      (r\<lparr>frPending := fmdrop i (frPending r)\<rparr>, [ev]) \<and> answers qt i ev \<and> cePeerId ev = p"
proof -
  obtain code msg v where "fr_callFunctionPrivate qt invoke i p m r =
    (r\<lparr>frPending := fmdrop i (frPending r)\<rparr>,
     [setPeerId p (server_rpc_result (frEntityId r) (frName r) (rpc_return_value qt i code msg v))])"
    using blocking_call_answered [of r invoke qt i p m] assms(2,3) by blast
  then show ?thesis
    using result_answers [OF assms(1) rpc_return_value_id] by (simp add: setPeerId_def)
qed

definition example_invoke :: "string \<Rightarrow> qvariant_map \<Rightarrow> rpc_invocation" where
  "example_invoke f m = \<lparr> ivOk = True, ivResult = QInt 42, ivSent = [] \<rparr>"

definition example_rpc :: vf_rpc where
  "example_rpc = \<lparr> frFunction = ''RPC_A'', frParameter = fmempty, frName = ''RPC_A()'',
     frEntityId = 7, frFunctionBlocks = True, frPending = fmempty \<rparr>"

theorem blocking_rpc_answered_witness:
  "\<exists>ev. fr_callFunctionPrivate qt_ref example_invoke (Uuid 5) (Uuid 9) fmempty example_rpc =
      (example_rpc, [ev]) \<and> answers qt_ref (Uuid 5) ev \<and> cePeerId ev = Uuid 9"
  using blocking_rpc_answered [of qt_ref example_rpc example_invoke "Uuid 5" "Uuid 9" fmempty]
  by (simp add: example_rpc_def example_invoke_def)

lemma invoker_reports:
  assumes "qt_conv_ok qt" and "fmlookup m s_callIdString = Some (QUuidV ident)"
    and "ident |\<in>| riPendingRPCs rp"
  shows "invoker_event qt (setPeerId peer (server_rpc_result i sig m)) rp =
    (rp\<lparr>riPendingRPCs := riPendingRPCs rp |-| {|ident|}\<rparr>, [SigRPCFinished True m])"
  using assms
  by (simp add: invoker_event_def server_rpc_result_def call_id_def vein_defs finish_call_def
      qvalue_def qt_conv_ok_def)

lemma rpc_call_roundtrip:
  fixes invoke :: "string \<Rightarrow> qvariant_map \<Rightarrow> rpc_invocation" and ident :: quuid
  assumes "qt_conv_ok qt"
    and "snd (invokeRPC qt client_rpc_generateEvent ident name params rp) = [call]"
    and "riEntityId rp = veEntityId s" and "0 \<le> veEntityId s"
    and "matching_parameters qt params ps"
    and "fmlookup (veRpcs s) (createRpcSignature name ps) = Some r"
    and "frParameter r = ps"
    and "\<And>k. k |\<in>| fmdom (veRpcs s) \<Longrightarrow> k < createRpcSignature name ps \<Longrightarrow>
      \<not> contains_str (to_lower (createRpcSignature name ps)) (to_lower k)"
  defines "iv \<equiv> invoke (frFunction r) (fmupd s_callIdString (QUuidV ident) params)"
  assumes "frFunctionBlocks r \<or> \<not> ivOk iv"
  defines "result \<equiv> rpc_return_value qt ident (if ivOk iv then RPC_SUCCESS else RPC_EINVAL)
      (if ivOk iv then '''' else ''Function not implemented'') (ivResult iv)"
    and "rp1 \<equiv> fst (invokeRPC qt client_rpc_generateEvent ident name params rp)"
  shows "\<exists>q s' ev. ve_processEvent qt (setPeerId peer call) s =
      (s, accept (setPeerId peer call), no_output\<lparr>eoCalls := [q]\<rparr>) \<and>
    ve_runCall qt invoke q s = (s', snd (send_results qt (ivSent iv) r) @ [ev]) \<and>
    cePeerId ev = peer \<and>
    invoker_event qt ev rp1 =
      (rp1\<lparr>riPendingRPCs := riPendingRPCs rp1 |-| {|ident|}\<rparr>, [SigRPCFinished True result])"
proof -
  let ?sig = "createRpcSignature name ps"
  let ?m = "fmupd s_parameterString (QMapV params) (fmupd s_callIdString (QUuidV ident) fmempty)"
  let ?ev = "setPeerId peer (server_rpc_result (frEntityId r) (frName r) result)"
  have call: "call = commandEvent_new TRANSACTION (VRpc \<lparr> edOrigin = EO_LOCAL, edTarget = ET_ALL,
      edEntityId = veEntityId s, rdCommand = RPCMD_CALL, rdProcedureName = ?sig,
      rdInvokationData = ?m \<rparr>)"
    using assms(2-4) parse_matching [OF assms(5), of name]
    by (simp add: invokeRPC_def client_rpc_generateEvent_def rpc_call_data_fields)
  have ids: "qtToUuid qt (qvalue ?m s_callIdString QInvalid) = ident"
    "rpc_parameters qt ?m = params"
    using assms(1) by (simp_all add: qvalue_def rpc_parameters_def qt_conv_ok_def)
  have find: "find_rpc ?sig s = Some ?sig" by (rule find_rpc_first [OF assms(6,8)])
  let ?q = "(?sig, ident, peer, ?m)"
  have proc: "ve_processEvent qt (setPeerId peer call) s =
      (s, accept (setPeerId peer call), no_output\<lparr>eoCalls := [?q]\<rparr>)"
    unfolding call using find ids
    by (simp add: ve_processEvent_def ve_handleRpcs_def commandEvent_new_def setPeerId_def)
  have "set (qkeys (frParameter r)) \<subseteq> set (qkeys (rpc_parameters qt ?m))"
    unfolding ids assms(7) matching_keys [OF assms(5)] by (rule subset_refl)
  then have "snd (fr_callFunctionPrivate qt invoke ident peer ?m r) =
      snd (send_results qt (ivSent iv) r) @ [?ev]"
    using complete_call_result [of r qt ?m invoke ident peer] assms(10)
    unfolding ids result_def iv_def by blast
  then have "snd (ve_runCall qt invoke ?q s) = snd (send_results qt (ivSent iv) r) @ [?ev]"
    using assms(6) by (simp add: ve_runCall_def split_beta)
  then obtain s' where run: "ve_runCall qt invoke ?q s =
      (s', snd (send_results qt (ivSent iv) r) @ [?ev])"
    by (metis prod.collapse)
  have "fmlookup result s_callIdString = Some (QUuidV ident)" by (simp add: result_def)
  then have "invoker_event qt ?ev rp1 =
      (rp1\<lparr>riPendingRPCs := riPendingRPCs rp1 |-| {|ident|}\<rparr>, [SigRPCFinished True result])"
    by (rule invoker_reports [OF assms(1)]) (simp add: rp1_def)
  moreover have "cePeerId ?ev = peer" by (simp add: setPeerId_def)
  ultimately show ?thesis using proc run by blast
qed

text \<open>
  Looking a procedure up by a part of its signature can reach another one: with both registered,
  a call of the procedure \<open>RPC_A()\<close> is handed to \<open>MyRPC_A()\<close>, whose name comes first.
\<close>

lemma call_reaches_other_procedure:
  assumes "veRpcs s = fmupd ''RPC_A()'' r (fmupd ''MyRPC_A()'' r' fmempty)"
    and "ceData e = VRpc d" and "edEntityId d = veEntityId s"
    and "rdCommand d = RPCMD_CALL" and "rdProcedureName d = ''RPC_A()''"
  shows "map fst (eoCalls (snd (snd (ve_processEvent qt e s)))) = [''MyRPC_A()'']"
proof -
  have "qkeys (veRpcs s) = [''MyRPC_A()'', ''RPC_A()'']"
    unfolding assms(1) qmap_simps by code_simp
  moreover have "contains_str (to_lower ''RPC_A()'') (to_lower ''MyRPC_A()'')" by code_simp
  ultimately show ?thesis
    using assms by (simp add: ve_processEvent_def ve_handleRpcs_def find_rpc_def)
qed

text \<open>
  C10. A remote call comes back. A client's invoker asks for a procedure with parameters whose
  names and types are the registered ones, of the entity it belongs to (whose identifier is not
  negative). If no other registered signature that comes before the called one in the order of
  names contains it ignoring case (the entity looks procedures up by that test), the call event,
  delivered by the server under the client's peer identifier, is accepted by the entity and handed
  to this procedure. Executing it, when the procedure blocks or its function cannot be invoked,
  sends what the function itself sent for other pending calls and then one event, addressed to
  the peer. This event makes the invoker report the call finished and forget it; the report
  carries success and the value the function returned, or, if the function could not be invoked,
  the code of an invalid call and the error text.
\<close>

theorem rpc_roundtrip:
  fixes invoke :: "string \<Rightarrow> qvariant_map \<Rightarrow> rpc_invocation" and ident :: quuid
  assumes "qt_conv_ok qt"
    and "snd (invokeRPC qt client_rpc_generateEvent ident name params rp) = [call]"
    and "riEntityId rp = veEntityId s" and "0 \<le> veEntityId s"
    and "matching_parameters qt params ps"
    and "fmlookup (veRpcs s) (createRpcSignature name ps) = Some r"
    and "frParameter r = ps"
    and "\<And>k. k |\<in>| fmdom (veRpcs s) \<Longrightarrow> k < createRpcSignature name ps \<Longrightarrow>
      \<not> contains_str (to_lower (createRpcSignature name ps)) (to_lower k)"
  defines "iv \<equiv> invoke (frFunction r) (fmupd s_callIdString (QUuidV ident) params)"
  assumes "frFunctionBlocks r \<or> \<not> ivOk iv"
  defines "result \<equiv> rpc_return_value qt ident (if ivOk iv then RPC_SUCCESS else RPC_EINVAL)
      (if ivOk iv then '''' else ''Function not implemented'') (ivResult iv)"
    and "rp1 \<equiv> fst (invokeRPC qt client_rpc_generateEvent ident name params rp)"
  shows "\<exists>q s' ev. ve_processEvent qt (setPeerId peer call) s =
      (s, accept (setPeerId peer call), no_output\<lparr>eoCalls := [q]\<rparr>) \<and>
    ve_runCall qt invoke q s = (s', snd (send_results qt (ivSent iv) r) @ [ev]) \<and>
    cePeerId ev = peer \<and>
    invoker_event qt ev rp1 =
      (rp1\<lparr>riPendingRPCs := riPendingRPCs rp1 |-| {|ident|}\<rparr>, [SigRPCFinished True result])"
  unfolding result_def rp1_def iv_def
  by (rule rpc_call_roundtrip; use assms(1-8) assms(10) [unfolded iv_def] in \<open>blast\<close>)

definition example_rpc_entity :: vf_entity where
  "example_rpc_entity = (ve_new 7)\<lparr>veRpcs := fmupd ''RPC_A()'' example_rpc fmempty\<rparr>"

theorem rpc_roundtrip_witness:
  "\<exists>call q s' ev. ve_processEvent qt_ref (setPeerId (Uuid 9) call) example_rpc_entity =
      (example_rpc_entity, accept (setPeerId (Uuid 9) call), no_output\<lparr>eoCalls := [q]\<rparr>) \<and>
    ve_runCall qt_ref example_invoke q example_rpc_entity = (s', [ev]) \<and> cePeerId ev = Uuid 9 \<and>
    snd (invoker_event qt_ref ev
      (fst (invokeRPC qt_ref client_rpc_generateEvent (Uuid 5) ''RPC_A'' fmempty example_invoker))) =
    [SigRPCFinished True (rpc_return_value qt_ref (Uuid 5) RPC_SUCCESS '''' (QInt 42))]"
proof -
  let ?call = "hd (snd (invokeRPC qt_ref client_rpc_generateEvent (Uuid 5) ''RPC_A'' fmempty
      example_invoker))"
  have sig: "createRpcSignature ''RPC_A'' fmempty = ''RPC_A()''"
    by (simp add: createRpcSignature_def)
  have call: "snd (invokeRPC qt_ref client_rpc_generateEvent (Uuid 5) ''RPC_A'' fmempty
      example_invoker) = [?call]"
    by (simp add: invokeRPC_def)
  have m: "matching_parameters qt_ref fmempty fmempty" by (simp add: matching_parameters_def)
  have e: "riEntityId example_invoker = veEntityId example_rpc_entity"
    "0 \<le> veEntityId example_rpc_entity"
    "fmlookup (veRpcs example_rpc_entity) (createRpcSignature ''RPC_A'' fmempty) = Some example_rpc"
    "frParameter example_rpc = fmempty"
    "\<And>k. k |\<in>| fmdom (veRpcs example_rpc_entity) \<Longrightarrow> k < createRpcSignature ''RPC_A'' fmempty \<Longrightarrow>
      \<not> contains_str (to_lower (createRpcSignature ''RPC_A'' fmempty)) (to_lower k)"
    "frFunctionBlocks example_rpc \<or> \<not> ivOk (example_invoke (frFunction example_rpc)
      (fmupd s_callIdString (QUuidV (Uuid 5)) fmempty))"
    by (simp_all add: example_rpc_entity_def example_invoker_def ve_new_def sig example_rpc_def
        example_invoke_def)
  have res: "ivResult (example_invoke f m) = QInt 42" "ivSent (example_invoke f m) = []"
      "ivOk (example_invoke f m)" for f m
    by (simp_all add: example_invoke_def)
  show ?thesis
    using rpc_roundtrip [of qt_ref "Uuid 5" "''RPC_A''" fmempty example_invoker ?call
        example_rpc_entity fmempty example_rpc example_invoke "Uuid 9",
        OF qt_ref_conv_ok call e(1,2) m e(3,4,5,6)]
    by (fastforce simp: res)
qed

text \<open>A function that answers while it is invoked answers too early: nothing is sent.\<close>

lemma answer_during_invocation_lost:
  assumes "\<not> frFunctionBlocks r" and "frParameter r = fmempty" and "i |\<notin>| fmdom (frPending r)"
    and "\<And>f m. invoke f m = \<lparr> ivOk = True, ivResult = QInvalid, ivSent = [(i, RPC_SUCCESS, '''', v)] \<rparr>"
  shows "snd (fr_callFunctionPrivate qt invoke i p m r) = []"
  using assms early_result_dropped [of i r]
  by (simp add: fr_callFunctionPrivate_def Let_def split_beta)

end
