(* ===== verification/Database.thy ===== *)
theory Database
  imports QtModel
begin

text \<open>
  framework/vf-storage: \<^verbatim>\<open>StorageComponent\<close> and \<^verbatim>\<open>DatabaseHash\<close>. Components are shared objects:
  a caller that asked for a component keeps its pointer while the component moves from the
  future map to the entity map. The model therefore keeps the components in a heap and the two
  maps hold references. The invariant \<open>db_ok\<close> says that references are valid and unshared, that
  no component is present and future at once and that no empty future map is left behind; the
  locale \<open>component_store\<close> is the interface the readers of the database use.
\<close>

section \<open>StorageComponent\<close>

record component_cell =
  scValue :: qvariant
  scCustomizer :: "(qvariant \<Rightarrow> qvariant) option"

type_synonym component_ref = nat
type_synonym entity_map = "(string, component_ref) qmap"

record database =
  dbHeap :: "component_cell list"
  dbEntities :: "(int, entity_map) qmap"
  dbFutures :: "(int, entity_map) qmap"

text \<open>The signals of a component, in the order they are emitted.\<close>

datatype storage_signal = SigValueSet component_ref qvariant | SigValueChange component_ref qvariant

definition database_new :: database where
  "database_new = \<lparr> dbHeap = [], dbEntities = fmempty, dbFutures = fmempty \<rparr>"

definition storageComponent_new :: "qvariant \<Rightarrow> database \<Rightarrow> component_ref \<times> database" where
  "storageComponent_new v db =
     (length (dbHeap db), db\<lparr>dbHeap := dbHeap db @ [\<lparr> scValue = v, scCustomizer = None \<rparr>]\<rparr>)"

definition getValue :: "database \<Rightarrow> component_ref \<Rightarrow> qvariant" where
  "getValue db r =
     (case scCustomizer (dbHeap db ! r) of
        Some f \<Rightarrow> f (scValue (dbHeap db ! r))
      | None \<Rightarrow> scValue (dbHeap db ! r))"

definition setValue ::
  "qt_lib \<Rightarrow> component_ref \<Rightarrow> qvariant \<Rightarrow> database \<Rightarrow> database \<times> storage_signal list" where
  "setValue qt r v db =
     (if \<not> qtEq qt v (scValue (dbHeap db ! r))
      then (db\<lparr>dbHeap := (dbHeap db)[r := (dbHeap db ! r)\<lparr>scValue := v\<rparr>]\<rparr>,
            [SigValueSet r v, SigValueChange r v])
      else (db, [SigValueSet r v]))"

definition setGetValueCustomizer ::
  "component_ref \<Rightarrow> (qvariant \<Rightarrow> qvariant) option \<Rightarrow> database \<Rightarrow> database" where
  "setGetValueCustomizer r f db =
     db\<lparr>dbHeap := (dbHeap db)[r := (dbHeap db ! r)\<lparr>scCustomizer := f\<rparr>]\<rparr>"

section \<open>DatabaseHash: look-ups\<close>

definition hasEntity :: "database \<Rightarrow> int \<Rightarrow> bool" where
  "hasEntity db i = qcontains (dbEntities db) i"

definition getEntityList :: "database \<Rightarrow> int list" where
  "getEntityList db = qkeys (dbEntities db)"

definition findInMap :: "entity_map option \<Rightarrow> string \<Rightarrow> component_ref option" where
  "findInMap m c = (case m of None \<Rightarrow> None | Some em \<Rightarrow> fmlookup em c)"

definition findComponent :: "database \<Rightarrow> int \<Rightarrow> string \<Rightarrow> component_ref option" where
  "findComponent db i c = findInMap (fmlookup (dbEntities db) i) c"

definition findFutureComponent :: "database \<Rightarrow> int \<Rightarrow> string \<Rightarrow> component_ref option" where
  "findFutureComponent db i c = findInMap (fmlookup (dbFutures db) i) c"

definition hasStoredValue :: "database \<Rightarrow> int \<Rightarrow> string \<Rightarrow> bool" where
  "hasStoredValue db i c \<longleftrightarrow> findComponent db i c \<noteq> None"

definition hasFutureStoredValue :: "database \<Rightarrow> int \<Rightarrow> string \<Rightarrow> bool" where
  "hasFutureStoredValue db i c \<longleftrightarrow> findFutureComponent db i c \<noteq> None"

definition getStoredValue :: "database \<Rightarrow> int \<Rightarrow> string \<Rightarrow> qvariant" where
  "getStoredValue db i c =
     (case findComponent db i c of Some r \<Rightarrow> getValue db r | None \<Rightarrow> QInvalid)"

definition getFutureStoredValue :: "database \<Rightarrow> int \<Rightarrow> string \<Rightarrow> qvariant" where
  "getFutureStoredValue db i c =
     (case findFutureComponent db i c of Some r \<Rightarrow> getValue db r | None \<Rightarrow> QInvalid)"

definition findAllComponents :: "database \<Rightarrow> string \<Rightarrow> (int \<times> component_ref) list" where
  "findAllComponents db c =
     List.map_filter (\<lambda>i. map_option (Pair i) (findComponent db i c)) (getEntityList db)"

definition getComponentList :: "database \<Rightarrow> int \<Rightarrow> string list" where
  "getComponentList db i =
     (case fmlookup (dbEntities db) i of Some m \<Rightarrow> qkeys m | None \<Rightarrow> [])"

definition areFutureComponentsEmpty :: "database \<Rightarrow> bool" where
  "areFutureComponentsEmpty db \<longleftrightarrow> dbFutures db = fmempty"

definition getComponentListWithFutures :: "database \<Rightarrow> int \<Rightarrow> string list" where
  "getComponentListWithFutures db i =
     getComponentList db i @
     (case fmlookup (dbFutures db) i of Some m \<Rightarrow> qkeys m | None \<Rightarrow> [])"

definition findEntity :: "database \<Rightarrow> int \<Rightarrow> entity_map option" where
  "findEntity db i = fmlookup (dbEntities db) i"

section \<open>DatabaseHash: updates\<close>

text \<open>\<^verbatim>\<open>map[entityId][componentName] = r\<close>, which creates the inner map if it is missing.\<close>

definition put_ref :: "int \<Rightarrow> string \<Rightarrow> component_ref \<Rightarrow> (int, entity_map) qmap \<Rightarrow>
    (int, entity_map) qmap" where
  "put_ref i c r m = fmupd i (fmupd c r (qvalue m i fmempty)) m"

definition getFutureComponent :: "int \<Rightarrow> string \<Rightarrow> database \<Rightarrow> component_ref \<times> database" where
  "getFutureComponent i c db =
     (case findComponent db i c of
        Some r \<Rightarrow> (r, db)
      | None \<Rightarrow>
          (case findFutureComponent db i c of
             Some r \<Rightarrow> (r, db)
           | None \<Rightarrow>
               let (r, db1) = storageComponent_new QInvalid db
               in (r, db1\<lparr>dbFutures := put_ref i c r (dbFutures db1)\<rparr>)))"

definition insertEntity :: "int \<Rightarrow> database \<Rightarrow> database" where
  "insertEntity i db = db\<lparr>dbEntities := fmupd i fmempty (dbEntities db)\<rparr>"

definition removeEntity :: "int \<Rightarrow> database \<Rightarrow> database" where
  "removeEntity i db = db\<lparr>dbEntities := fmdrop i (dbEntities db)\<rparr>"

definition takeFutureComponent ::
  "int \<Rightarrow> string \<Rightarrow> database \<Rightarrow> component_ref option \<times> database" where
  "takeFutureComponent i c db =
     (case fmlookup (dbFutures db) i of
        None \<Rightarrow> (None, db)
      | Some m \<Rightarrow>
          (case fmlookup m c of
             None \<Rightarrow> (None, db)
           | Some r \<Rightarrow>
               let m' = fmdrop c m;
                   fs = fmupd i m' (dbFutures db)
               in (Some r, db\<lparr>dbFutures := if m' = fmempty then fmdrop i fs else fs\<rparr>)))"

definition insertComponentValue ::
  "qt_lib \<Rightarrow> int \<Rightarrow> string \<Rightarrow> qvariant \<Rightarrow> database \<Rightarrow> database \<times> storage_signal list" where
  "insertComponentValue qt i c v db =
     (case takeFutureComponent i c db of
        (Some r, db1) \<Rightarrow>
          let (db2, sigs) = setValue qt r v db1
          in (db2\<lparr>dbEntities := put_ref i c r (dbEntities db2)\<rparr>, sigs)
      | (None, db1) \<Rightarrow>
          let (r, db2) = storageComponent_new v db1
          in (db2\<lparr>dbEntities := put_ref i c r (dbEntities db2)\<rparr>, []))"

text \<open>The caller of \<^verbatim>\<open>removeComponentValue\<close> passes the map \<^verbatim>\<open>findEntity\<close> returned.\<close>

definition removeComponentValue :: "int \<Rightarrow> string \<Rightarrow> database \<Rightarrow> database" where
  "removeComponentValue i c db =
     (case findEntity db i of
        None \<Rightarrow> db
      | Some m \<Rightarrow> db\<lparr>dbEntities := fmupd i (fmdrop c m) (dbEntities db)\<rparr>)"

section \<open>Look-up rules\<close>

lemma findInMap_put_ref:
  "findInMap (fmlookup (put_ref i c r m) i') c' =
     (if i' = i \<and> c' = c then Some r else findInMap (fmlookup m i') c')"
  by (simp add: findInMap_def put_ref_def qvalue_def split: option.splits)

lemmas find_defs = findComponent_def findFutureComponent_def findInMap_def

lemma find_heap [simp]:
  "findComponent (db\<lparr>dbHeap := h\<rparr>) = findComponent db"
  "findFutureComponent (db\<lparr>dbHeap := h\<rparr>) = findFutureComponent db"
  by (simp_all add: fun_eq_iff find_defs)

lemma find_put [simp]:
  "findComponent (db\<lparr>dbEntities := put_ref i c r (dbEntities db)\<rparr>) i' c' =
     (if i' = i \<and> c' = c then Some r else findComponent db i' c')"
  "findFutureComponent (db\<lparr>dbFutures := put_ref i c r (dbFutures db)\<rparr>) i' c' =
     (if i' = i \<and> c' = c then Some r else findFutureComponent db i' c')"
  "findComponent (db\<lparr>dbFutures := fs\<rparr>) i' c' = findComponent db i' c'"
  "findFutureComponent (db\<lparr>dbEntities := es\<rparr>) i' c' = findFutureComponent db i' c'"
  by (simp_all add: findComponent_def findFutureComponent_def findInMap_put_ref)

lemma find_insertEntity [simp]:
  "findComponent (insertEntity i db) i' c' = (if i' = i then None else findComponent db i' c')"
  "findFutureComponent (insertEntity i db) i' c' = findFutureComponent db i' c'"
  by (simp_all add: insertEntity_def find_defs)

lemma find_removeEntity [simp]:
  "findComponent (removeEntity i db) i' c' = (if i' = i then None else findComponent db i' c')"
  "findFutureComponent (removeEntity i db) i' c' = findFutureComponent db i' c'"
  by (simp_all add: removeEntity_def find_defs)

lemma find_removeComponentValue [simp]:
  "findComponent (removeComponentValue i c db) i' c' =
     (if i' = i \<and> c' = c then None else findComponent db i' c')"
  "findFutureComponent (removeComponentValue i c db) i' c' = findFutureComponent db i' c'"
  by (auto simp: removeComponentValue_def findEntity_def find_defs split: option.splits)

lemma takeFutureComponent_fst [simp]:
  "fst (takeFutureComponent i c db) = findFutureComponent db i c"
  by (simp add: takeFutureComponent_def find_defs Let_def split: option.splits)

lemma find_takeFutureComponent [simp]:
  "findFutureComponent (snd (takeFutureComponent i c db)) i' c' =
     (if i' = i \<and> c' = c then None else findFutureComponent db i' c')"
  "findComponent (snd (takeFutureComponent i c db)) i' c' = findComponent db i' c'"
  "dbHeap (snd (takeFutureComponent i c db)) = dbHeap db"
  "dbEntities (snd (takeFutureComponent i c db)) = dbEntities db"
  by (auto simp: takeFutureComponent_def find_defs Let_def split: option.splits)
     (metis fmlookup_drop fmempty_lookup option.distinct(1))

lemma find_setValue [simp]:
  "findComponent (fst (setValue qt r v db)) = findComponent db"
  "findFutureComponent (fst (setValue qt r v db)) = findFutureComponent db"
  "dbEntities (fst (setValue qt r v db)) = dbEntities db"
  "dbFutures (fst (setValue qt r v db)) = dbFutures db"
  "length (dbHeap (fst (setValue qt r v db))) = length (dbHeap db)"
  by (simp_all add: setValue_def)

lemma find_storageComponent_new [simp]:
  "findComponent (snd (storageComponent_new v db)) = findComponent db"
  "findFutureComponent (snd (storageComponent_new v db)) = findFutureComponent db"
  "fst (storageComponent_new v db) = length (dbHeap db)"
  "dbEntities (snd (storageComponent_new v db)) = dbEntities db"
  "dbFutures (snd (storageComponent_new v db)) = dbFutures db"
  by (simp_all add: storageComponent_new_def)

text \<open>Where a component inserted lives: the future component if there is one, else a new one.\<close>

definition insert_ref :: "database \<Rightarrow> int \<Rightarrow> string \<Rightarrow> component_ref" where
  "insert_ref db i c =
     (case findFutureComponent db i c of Some r \<Rightarrow> r | None \<Rightarrow> length (dbHeap db))"

lemma insertComponentValue_cases:
  obtains (future) r where "findFutureComponent db i c = Some r"
      "insertComponentValue qt i c v db =
         (let db1 = snd (takeFutureComponent i c db); s = setValue qt r v db1
          in ((fst s)\<lparr>dbEntities := put_ref i c r (dbEntities (fst s))\<rparr>, snd s))"
    | (fresh) "findFutureComponent db i c = None"
      "insertComponentValue qt i c v db =
         (let db1 = snd (takeFutureComponent i c db); n = storageComponent_new v db1
          in ((snd n)\<lparr>dbEntities := put_ref i c (fst n) (dbEntities (snd n))\<rparr>, []))"
proof (cases "findFutureComponent db i c")
  case None
  then have "fst (takeFutureComponent i c db) = None" by simp
  then show ?thesis using None fresh
    by (cases "takeFutureComponent i c db")
       (simp add: insertComponentValue_def Let_def split_beta del: takeFutureComponent_fst)
next
  case (Some r)
  then have "fst (takeFutureComponent i c db) = Some r" by simp
  then show ?thesis using Some future
    by (cases "takeFutureComponent i c db")
       (simp add: insertComponentValue_def Let_def split_beta del: takeFutureComponent_fst)
qed

lemma find_put_any:
  "findComponent (db\<lparr>dbEntities := put_ref i c r m\<rparr>) i' c' =
     (if i' = i \<and> c' = c then Some r else findInMap (fmlookup m i') c')"
  "findFutureComponent (db\<lparr>dbFutures := put_ref i c r m\<rparr>) i' c' =
     (if i' = i \<and> c' = c then Some r else findInMap (fmlookup m i') c')"
  by (simp_all add: findComponent_def findFutureComponent_def findInMap_put_ref)

lemmas find_fold = findComponent_def [symmetric] findFutureComponent_def [symmetric]

lemma find_insertComponentValue [simp]:
  "findComponent (fst (insertComponentValue qt i c v db)) i' c' =
     (if i' = i \<and> c' = c then Some (insert_ref db i c) else findComponent db i' c')"
  "findFutureComponent (fst (insertComponentValue qt i c v db)) i' c' =
     (if i' = i \<and> c' = c then None else findFutureComponent db i' c')"
  by (cases rule: insertComponentValue_cases [of db i c qt v];
      simp add: Let_def insert_ref_def find_put_any find_fold)+

lemma find_getFutureComponent [simp]:
  "findComponent (snd (getFutureComponent i c db)) i' c' = findComponent db i' c'"
  "findFutureComponent (snd (getFutureComponent i c db)) i' c' =
     (if i' = i \<and> c' = c \<and> findComponent db i c = None then Some (insert_ref db i c)
      else findFutureComponent db i' c')"
  by (auto simp: getFutureComponent_def insert_ref_def Let_def split_beta find_put_any find_fold
      split: option.splits)

section \<open>The invariant\<close>

text \<open>
  References are valid; two places never share a component; a component is not present and
  future at once; future maps are not empty, which is what \<^verbatim>\<open>areFutureComponentsEmpty\<close> relies on.
\<close>

definition all_ref :: "database \<Rightarrow> bool \<times> int \<times> string \<Rightarrow> component_ref option" where
  "all_ref db p =
     (case p of (f, i, c) \<Rightarrow> if f then findFutureComponent db i c else findComponent db i c)"

definition refs_valid :: "database \<Rightarrow> bool" where
  "refs_valid db \<longleftrightarrow> (\<forall>p r. all_ref db p = Some r \<longrightarrow> r < length (dbHeap db))"

definition refs_unshared :: "database \<Rightarrow> bool" where
  "refs_unshared db \<longleftrightarrow> (\<forall>p q r. all_ref db p = Some r \<and> all_ref db q = Some r \<longrightarrow> p = q)"

definition present_or_future :: "database \<Rightarrow> bool" where
  "present_or_future db \<longleftrightarrow>
     (\<forall>i c. findComponent db i c = None \<or> findFutureComponent db i c = None)"

definition futures_nonempty :: "database \<Rightarrow> bool" where
  "futures_nonempty db \<longleftrightarrow> (\<forall>i m. fmlookup (dbFutures db) i = Some m \<longrightarrow> m \<noteq> fmempty)"

definition db_ok :: "database \<Rightarrow> bool" where
  "db_ok db \<longleftrightarrow>
     refs_valid db \<and> refs_unshared db \<and> present_or_future db \<and> futures_nonempty db"

lemma db_okI [intro?]:
  "refs_valid db \<Longrightarrow> refs_unshared db \<Longrightarrow> present_or_future db \<Longrightarrow> futures_nonempty db \<Longrightarrow> db_ok db"
  by (simp add: db_ok_def)

lemma db_okD:
  assumes "db_ok db"
  shows "refs_valid db" "refs_unshared db" "present_or_future db" "futures_nonempty db"
  using assms by (simp_all add: db_ok_def)

text \<open>Operations only lose places, keep them, or add one with a reference of their own.\<close>

lemma refs_sub:
  assumes "\<And>p r. all_ref db' p = Some r \<Longrightarrow> all_ref db p = Some r"
    and "length (dbHeap db') = length (dbHeap db)" and "db_ok db"
  shows "refs_valid db'" "refs_unshared db'"
  using assms unfolding db_ok_def refs_valid_def refs_unshared_def by metis+

lemma refs_move:
  assumes "\<And>p r. all_ref db' p = Some r \<Longrightarrow> p \<noteq> q \<Longrightarrow> p \<noteq> q' \<Longrightarrow> all_ref db p = Some r"
    and "all_ref db' q = Some x" and "all_ref db' q' = None"
    and "all_ref db q' = Some x" and "length (dbHeap db') = length (dbHeap db)" and "db_ok db"
  shows "refs_valid db'" "refs_unshared db'"
  using assms unfolding db_ok_def refs_valid_def refs_unshared_def
  by (metis option.distinct(1) option.inject)+

lemma refs_add:
  assumes old: "\<And>p r. all_ref db' p = Some r \<Longrightarrow> p \<noteq> q \<Longrightarrow> all_ref db p = Some r"
    and new: "all_ref db' q = Some (length (dbHeap db))"
    and len: "length (dbHeap db') = Suc (length (dbHeap db))" and ok: "db_ok db"
  shows "refs_valid db'" "refs_unshared db'"
proof -
  have valid: "all_ref db p = Some r \<Longrightarrow> r < length (dbHeap db)" for p r
    using ok unfolding db_ok_def refs_valid_def by blast
  show "refs_valid db'"
    unfolding refs_valid_def len using old new valid by (metis less_Suc_eq option.inject)
  show "refs_unshared db'"
    unfolding refs_unshared_def
    using old new valid ok unfolding db_ok_def refs_unshared_def
    by (metis less_irrefl option.inject)
qed

lemma all_ref_simps [simp]:
  "all_ref db (True, i, c) = findFutureComponent db i c"
  "all_ref db (False, i, c) = findComponent db i c"
  by (simp_all add: all_ref_def)

lemma all_refE:
  assumes "all_ref db p = Some r"
  obtains i c where "p = (True, i, c)" "findFutureComponent db i c = Some r"
    | i c where "p = (False, i, c)" "findComponent db i c = Some r"
  using assms by (auto simp: all_ref_def split: if_splits prod.splits)

lemma futures_nonempty_put [simp]:
  "futures_nonempty db \<Longrightarrow> futures_nonempty (db\<lparr>dbFutures := put_ref i c r (dbFutures db)\<rparr>)"
  by (auto simp: futures_nonempty_def put_ref_def split: if_splits)

lemma futures_nonempty_take:
  "futures_nonempty db \<Longrightarrow> futures_nonempty (snd (takeFutureComponent i c db))"
  by (auto simp: futures_nonempty_def takeFutureComponent_def Let_def split: option.splits if_splits)

lemma futures_nonempty_cong: "dbFutures db' = dbFutures db \<Longrightarrow> futures_nonempty db' = futures_nonempty db"
  by (simp add: futures_nonempty_def)

lemma database_new_ok [inv_intros]: "db_ok database_new"
  by (simp add: db_ok_def refs_valid_def refs_unshared_def present_or_future_def
      futures_nonempty_def all_ref_def find_defs database_new_def split: prod.splits)

text \<open>An operation that only removes present components keeps the invariant.\<close>

lemma db_ok_shrink:
  assumes "db_ok db" and "dbHeap db' = dbHeap db" and "dbFutures db' = dbFutures db"
    and "\<And>i c r. findComponent db' i c = Some r \<Longrightarrow> findComponent db i c = Some r"
  shows "db_ok db'"
proof
  have f: "findFutureComponent db' = findFutureComponent db"
    by (simp add: fun_eq_iff findFutureComponent_def assms(3))
  have sub: "all_ref db' p = Some r \<Longrightarrow> all_ref db p = Some r" for p r
    by (erule all_refE) (simp_all add: f assms(4))
  show "refs_valid db'" "refs_unshared db'"
    using refs_sub [of db' db, OF sub _ assms(1)] assms(2) by simp_all
  show "present_or_future db'"
    using assms(1,4) unfolding db_ok_def present_or_future_def f by (metis not_Some_eq)
  show "futures_nonempty db'"
    using assms(1) futures_nonempty_cong [OF assms(3)] by (simp add: db_ok_def)
qed

lemma insertEntity_ok [inv_intros]: "db_ok db \<Longrightarrow> db_ok (insertEntity i db)"
  by (erule db_ok_shrink) (auto simp: insertEntity_def find_defs split: if_splits option.splits)

lemma removeEntity_ok [inv_intros]: "db_ok db \<Longrightarrow> db_ok (removeEntity i db)"
  by (erule db_ok_shrink) (auto simp: removeEntity_def find_defs split: if_splits option.splits)

lemma removeComponentValue_ok [inv_intros]: "db_ok db \<Longrightarrow> db_ok (removeComponentValue i c db)"
  by (erule db_ok_shrink)
     (auto simp: removeComponentValue_def findEntity_def find_defs split: if_splits option.splits)

lemma db_ok_heap_cong:
  assumes "db_ok db" and "length (dbHeap db') = length (dbHeap db)"
    and "dbEntities db' = dbEntities db" and "dbFutures db' = dbFutures db"
  shows "db_ok db'"
proof -
  have "findComponent db' = findComponent db" "findFutureComponent db' = findFutureComponent db"
    using assms by (simp_all add: fun_eq_iff find_defs)
  moreover from this have "all_ref db' = all_ref db" by (simp add: fun_eq_iff all_ref_def)
  ultimately show ?thesis
    using assms unfolding db_ok_def refs_valid_def refs_unshared_def present_or_future_def
      futures_nonempty_def by simp
qed

lemma setValue_ok [inv_intros]: "db_ok db \<Longrightarrow> db_ok (fst (setValue qt r v db))"
  by (erule db_ok_heap_cong) simp_all

lemma setGetValueCustomizer_ok [inv_intros]: "db_ok db \<Longrightarrow> db_ok (setGetValueCustomizer r f db)"
  by (erule db_ok_heap_cong) (simp_all add: setGetValueCustomizer_def)

lemma insertComponentValue_ok [inv_intros]:
  assumes ok: "db_ok db"
  shows "db_ok (fst (insertComponentValue qt i c v db))" (is "db_ok ?db'")
proof
  show "present_or_future ?db'"
    using ok by (auto simp: db_ok_def present_or_future_def)
  have nonempty: "futures_nonempty (snd (takeFutureComponent i c db))"
    using ok by (simp add: db_ok_def futures_nonempty_take)
  show "futures_nonempty ?db'"
    by (cases rule: insertComponentValue_cases [of db i c qt v])
       (simp_all add: Let_def futures_nonempty_cong [OF _, of _ "snd (takeFutureComponent i c db)"]
         nonempty)
  have sub: "all_ref ?db' p = Some r \<Longrightarrow> p \<noteq> (False, i, c) \<Longrightarrow> all_ref db p = Some r" for p r
    by (erule all_refE) (auto split: if_splits)
  have "refs_valid ?db' \<and> refs_unshared ?db'"
  proof (cases "findFutureComponent db i c")
    case (Some r)
    have len: "length (dbHeap ?db') = length (dbHeap db)"
      using Some by (cases rule: insertComponentValue_cases [of db i c qt v]) (simp_all add: Let_def)
    show ?thesis
      using refs_move [of ?db' "(False, i, c)" "(True, i, c)" db r] sub ok len Some
      by (simp add: insert_ref_def)
  next
    case None
    have len: "length (dbHeap ?db') = Suc (length (dbHeap db))"
      using None by (cases rule: insertComponentValue_cases [of db i c qt v])
        (simp_all add: Let_def storageComponent_new_def)
    show ?thesis
      using refs_add [of ?db' "(False, i, c)" db] sub ok len None by (simp add: insert_ref_def)
  qed
  then show "refs_valid ?db'" "refs_unshared ?db'" by simp_all
qed

lemma getFutureComponent_ok [inv_intros]:
  assumes ok: "db_ok db"
  shows "db_ok (snd (getFutureComponent i c db))" (is "db_ok ?db'")
proof (cases "findComponent db i c = None \<and> findFutureComponent db i c = None")
  case False
  then have "?db' = db" by (auto simp: getFutureComponent_def split: option.splits)
  then show ?thesis using ok by simp
next
  case True
  have sub: "all_ref ?db' p = Some r \<Longrightarrow> p \<noteq> (True, i, c) \<Longrightarrow> all_ref db p = Some r" for p r
    by (erule all_refE) (auto split: if_splits)
  have len: "length (dbHeap ?db') = Suc (length (dbHeap db))"
    using True by (simp add: getFutureComponent_def Let_def storageComponent_new_def)
  show ?thesis
  proof
    show "refs_valid ?db'" "refs_unshared ?db'"
      using refs_add [of ?db' "(True, i, c)" db] sub ok len True by (simp_all add: insert_ref_def)
    show "present_or_future ?db'"
      using ok True by (auto simp: db_ok_def present_or_future_def)
    show "futures_nonempty ?db'"
      using ok True futures_nonempty_put [of "snd (storageComponent_new QInvalid db)" i c]
        futures_nonempty_cong [of "snd (storageComponent_new QInvalid db)" db]
      by (simp add: getFutureComponent_def Let_def split_beta db_ok_def)
  qed
qed

section \<open>Operations of the clients of the database\<close>

text \<open>
  What the event systems do with a database: the operations above, with \<open>AssignValue\<close> for the
  assignment to a component that was found.
\<close>

datatype db_op =
    InsertEntity int
  | RemoveEntity int
  | InsertValue int string qvariant
  | AssignValue int string qvariant
  | RemoveValue int string
  | GetFuture int string

fun db_exec :: "qt_lib \<Rightarrow> db_op \<Rightarrow> database \<Rightarrow> database" where
  "db_exec qt (InsertEntity i) db = insertEntity i db"
| "db_exec qt (RemoveEntity i) db = removeEntity i db"
| "db_exec qt (InsertValue i c v) db = fst (insertComponentValue qt i c v db)"
| "db_exec qt (AssignValue i c v) db =
     (case findComponent db i c of None \<Rightarrow> db | Some r \<Rightarrow> fst (setValue qt r v db))"
| "db_exec qt (RemoveValue i c) db = removeComponentValue i c db"
| "db_exec qt (GetFuture i c) db = snd (getFutureComponent i c db)"

definition db_run :: "qt_lib \<Rightarrow> db_op list \<Rightarrow> database \<Rightarrow> database" where
  "db_run qt ops db = fold (db_exec qt) ops db"

lemma db_exec_ok [inv_intros]: "db_ok db \<Longrightarrow> db_ok (db_exec qt op db)"
  by (cases op) (auto intro: inv_intros split: option.splits)

lemma db_run_ok [inv_intros]: "db_ok db \<Longrightarrow> db_ok (db_run qt ops db)"
  unfolding db_run_def by (induction ops arbitrary: db) (auto intro: inv_intros)

text \<open>
  Reachable databases: the operations, and assignments and customizers on any component a
  caller holds.
\<close>

inductive db_step :: "qt_lib \<Rightarrow> database \<Rightarrow> database \<Rightarrow> bool" for qt where
  step_op: "db_step qt db (db_exec qt op db)"
| step_set: "r < length (dbHeap db) \<Longrightarrow> db_step qt db (fst (setValue qt r v db))"
| step_customize: "r < length (dbHeap db) \<Longrightarrow> db_step qt db (setGetValueCustomizer r f db)"

inductive db_reachable :: "qt_lib \<Rightarrow> database \<Rightarrow> bool" for qt where
  reach_new: "db_reachable qt database_new"
| reach_step: "db_reachable qt db \<Longrightarrow> db_step qt db db' \<Longrightarrow> db_reachable qt db'"

inductive_cases db_stepE: "db_step qt db db'"

lemma db_step_ok: "db_step qt db db' \<Longrightarrow> db_ok db \<Longrightarrow> db_ok db'"
  by (erule db_stepE) (auto intro: inv_intros)

lemma db_reachable_ok: "db_reachable qt db \<Longrightarrow> db_ok db"
  by (induction rule: db_reachable.induct) (auto intro: inv_intros db_step_ok)

lemma db_reachable_run: "db_reachable qt db \<Longrightarrow> db_reachable qt (db_run qt ops db)"
  unfolding db_run_def by (induction ops arbitrary: db) (auto intro: reach_step step_op)

text \<open>A future component stays where it is until its value is inserted.\<close>

fun inserts :: "int \<Rightarrow> string \<Rightarrow> db_op \<Rightarrow> bool" where
  "inserts i c (InsertValue i' c' v) = (i' = i \<and> c' = c)"
| "inserts i c _ = False"

lemma future_stays_exec:
  "\<not> inserts i c op \<Longrightarrow> findFutureComponent db i c = Some r \<Longrightarrow> findComponent db i c = None \<Longrightarrow>
   findFutureComponent (db_exec qt op db) i c = Some r \<and> findComponent (db_exec qt op db) i c = None"
  by (cases op) (auto simp: insert_ref_def split: option.splits)

lemma future_stays:
  "\<forall>op \<in> set ops. \<not> inserts i c op \<Longrightarrow> findFutureComponent db i c = Some r \<Longrightarrow>
   findComponent db i c = None \<Longrightarrow>
   findFutureComponent (db_run qt ops db) i c = Some r \<and>
   findComponent (db_run qt ops db) i c = None"
  unfolding db_run_def by (induction ops arbitrary: db) (auto simp: future_stays_exec)

section \<open>Values\<close>

text \<open>What an assignment stores: an equal value (in Qt's sense) leaves the old one in place.\<close>

definition assign :: "qt_lib \<Rightarrow> qvariant \<Rightarrow> qvariant \<Rightarrow> qvariant" where
  "assign qt old v = (if qtEq qt v old then old else v)"

lemma assign_equal: "assign qt old v = v \<or> qtEq qt v (assign qt old v)"
  by (simp add: assign_def)

definition raw_value :: "database \<Rightarrow> component_ref \<Rightarrow> qvariant" where
  "raw_value db r = scValue (dbHeap db ! r)"

lemma raw_setValue [simp]:
  "r < length (dbHeap db) \<Longrightarrow>
   raw_value (fst (setValue qt r v db)) r' =
     (if r' = r then assign qt (raw_value db r) v else raw_value db r')"
  by (simp add: raw_value_def setValue_def assign_def nth_list_update)

lemma raw_heap_cong: "dbHeap db' = dbHeap db \<Longrightarrow> raw_value db' = raw_value db"
  by (simp add: raw_value_def fun_eq_iff)

lemma raw_same [simp]:
  "raw_value (db\<lparr>dbEntities := e\<rparr>) = raw_value db" "raw_value (db\<lparr>dbFutures := f\<rparr>) = raw_value db"
  "raw_value (insertEntity i db) = raw_value db" "raw_value (removeEntity i db) = raw_value db"
  "raw_value (removeComponentValue i c db) = raw_value db"
  "raw_value (snd (takeFutureComponent i c db)) = raw_value db"
  by (simp_all add: raw_value_def fun_eq_iff insertEntity_def removeEntity_def
      removeComponentValue_def split: option.splits)

lemma raw_storageComponent_new [simp]:
  "r \<le> length (dbHeap db) \<Longrightarrow> raw_value (snd (storageComponent_new v db)) r =
     (if r = length (dbHeap db) then v else raw_value db r)"
  by (simp add: raw_value_def storageComponent_new_def nth_append)

lemma db_ok_ref:
  assumes "db_ok db"
  shows "findComponent db i c = Some r \<Longrightarrow> r < length (dbHeap db)"
    and "findFutureComponent db i c = Some r \<Longrightarrow> r < length (dbHeap db)"
proof -
  have "all_ref db p = Some r \<Longrightarrow> r < length (dbHeap db)" for p
    using assms unfolding db_ok_def refs_valid_def by blast
  from this [of "(False, i, c)"] this [of "(True, i, c)"]
  show "findComponent db i c = Some r \<Longrightarrow> r < length (dbHeap db)"
    "findFutureComponent db i c = Some r \<Longrightarrow> r < length (dbHeap db)" by simp_all
qed

lemma db_ok_unshared:
  assumes "db_ok db"
  shows "findComponent db i c = Some r \<Longrightarrow> findComponent db i' c' = Some r \<Longrightarrow> i' = i \<and> c' = c"
    and "findFutureComponent db i c = Some r \<Longrightarrow> findFutureComponent db i' c' = Some r \<Longrightarrow>
         i' = i \<and> c' = c"
    and "findComponent db i c = Some r \<Longrightarrow> findFutureComponent db i' c' \<noteq> Some r"
proof -
  have *: "all_ref db p = Some r \<Longrightarrow> all_ref db q = Some r \<Longrightarrow> p = q" for p q
    using assms unfolding db_ok_def refs_unshared_def by blast
  show "findComponent db i c = Some r \<Longrightarrow> findComponent db i' c' = Some r \<Longrightarrow> i' = i \<and> c' = c"
    using * [of "(False, i, c)" "(False, i', c')"] by simp
  show "findFutureComponent db i c = Some r \<Longrightarrow> findFutureComponent db i' c' = Some r \<Longrightarrow>
         i' = i \<and> c' = c"
    using * [of "(True, i, c)" "(True, i', c')"] by simp
  show "findComponent db i c = Some r \<Longrightarrow> findFutureComponent db i' c' \<noteq> Some r"
    using * [of "(False, i, c)" "(True, i', c')"] by auto
qed

section \<open>The abstract store\<close>

text \<open>
  What a user of the database sees: the entities, the value of every present component and the
  value of every future one.
\<close>

record store_spec =
  spEntities :: "int set"
  spValue :: "int \<Rightarrow> string \<Rightarrow> qvariant option"
  spFuture :: "int \<Rightarrow> string \<Rightarrow> qvariant option"

definition db_abs :: "database \<Rightarrow> store_spec" where
  "db_abs db =
     \<lparr> spEntities = fset (fmdom (dbEntities db)),
       spValue = (\<lambda>i c. map_option (raw_value db) (findComponent db i c)),
       spFuture = (\<lambda>i c. map_option (raw_value db) (findFutureComponent db i c)) \<rparr>"

definition upd2 :: "int \<Rightarrow> string \<Rightarrow> 'v \<Rightarrow> (int \<Rightarrow> string \<Rightarrow> 'v) \<Rightarrow> int \<Rightarrow> string \<Rightarrow> 'v" where
  "upd2 i c v f = f(i := (f i)(c := v))"

lemma upd2_apply [simp]: "upd2 i c v f i' c' = (if i' = i \<and> c' = c then v else f i' c')"
  by (simp add: upd2_def)

fun spec_exec :: "qt_lib \<Rightarrow> db_op \<Rightarrow> store_spec \<Rightarrow> store_spec" where
  "spec_exec qt (InsertEntity i) s =
     s\<lparr> spEntities := insert i (spEntities s), spValue := (spValue s)(i := \<lambda>_. None) \<rparr>"
| "spec_exec qt (RemoveEntity i) s =
     s\<lparr> spEntities := spEntities s - {i}, spValue := (spValue s)(i := \<lambda>_. None) \<rparr>"
| "spec_exec qt (InsertValue i c v) s =
     s\<lparr> spEntities := insert i (spEntities s),
        spValue := upd2 i c (Some (case spFuture s i c of None \<Rightarrow> v | Some old \<Rightarrow> assign qt old v))
                     (spValue s),
        spFuture := upd2 i c None (spFuture s) \<rparr>"
| "spec_exec qt (AssignValue i c v) s =
     s\<lparr> spValue := upd2 i c (map_option (\<lambda>old. assign qt old v) (spValue s i c)) (spValue s) \<rparr>"
| "spec_exec qt (RemoveValue i c) s = s\<lparr> spValue := upd2 i c None (spValue s) \<rparr>"
| "spec_exec qt (GetFuture i c) s =
     (if spValue s i c = None \<and> spFuture s i c = None
      then s\<lparr> spFuture := upd2 i c (Some QInvalid) (spFuture s) \<rparr> else s)"

lemma store_spec_eqI:
  "spEntities s = spEntities t \<Longrightarrow> spValue s = spValue t \<Longrightarrow> spFuture s = spFuture t \<Longrightarrow>
   s = (t :: store_spec)"
  by (cases s; cases t) simp

lemma db_abs_sel [simp]:
  "spEntities (db_abs db) = fset (fmdom (dbEntities db))"
  "spValue (db_abs db) i c = map_option (raw_value db) (findComponent db i c)"
  "spFuture (db_abs db) i c = map_option (raw_value db) (findFutureComponent db i c)"
  by (simp_all add: db_abs_def)

lemma entities_insertComponentValue [simp]:
  "fmdom (dbEntities (fst (insertComponentValue qt i c v db))) = finsert i (fmdom (dbEntities db))"
  by (cases rule: insertComponentValue_cases [of db i c qt v]; simp add: Let_def put_ref_def)

lemma entities_removeComponentValue [simp]:
  "fmdom (dbEntities (removeComponentValue i c db)) = fmdom (dbEntities db)"
  by (auto simp: removeComponentValue_def findEntity_def fmdomI split: option.splits)

lemma entities_getFutureComponent [simp]:
  "dbEntities (snd (getFutureComponent i c db)) = dbEntities db"
  by (simp add: getFutureComponent_def Let_def split_beta split: option.splits)

lemma raw_insertComponentValue:
  assumes "db_ok db" and "r < length (dbHeap db) \<or> r = insert_ref db i c"
  shows "raw_value (fst (insertComponentValue qt i c v db)) r =
    (if r = insert_ref db i c
     then case findFutureComponent db i c of None \<Rightarrow> v | Some q \<Rightarrow> assign qt (raw_value db q) v
     else raw_value db r)"
proof (cases rule: insertComponentValue_cases [of db i c qt v])
  case (future q)
  then have "q < length (dbHeap db)" by (intro db_ok_ref [OF assms(1)])
  then show ?thesis using future by (simp add: Let_def insert_ref_def)
next
  case fresh
  then show ?thesis using assms(2) by (auto simp: Let_def insert_ref_def)
qed

lemma insert_ref_other:
  assumes "db_ok db"
  shows "findComponent db i' c' = Some r \<Longrightarrow> r \<noteq> insert_ref db i c"
    and "findFutureComponent db i' c' = Some r \<Longrightarrow> (i', c') \<noteq> (i, c) \<Longrightarrow> r \<noteq> insert_ref db i c"
proof -
  show "findComponent db i' c' = Some r \<Longrightarrow> r \<noteq> insert_ref db i c"
    using db_ok_ref(1) [OF assms, of i' c' r] db_ok_unshared(3) [OF assms, of i' c' r i c]
    by (auto simp: insert_ref_def split: option.splits)
  show "findFutureComponent db i' c' = Some r \<Longrightarrow> (i', c') \<noteq> (i, c) \<Longrightarrow> r \<noteq> insert_ref db i c"
    using db_ok_ref(2) [OF assms, of i' c' r] db_ok_unshared(2) [OF assms, of i' c' r i c]
    by (auto simp: insert_ref_def split: option.splits)
qed

lemma map_option_cong_ref:
  "(\<And>r. x = Some r \<Longrightarrow> f r = g r) \<Longrightarrow> map_option f x = map_option g x"
  by (cases x) auto

lemma raw_insert_kept:
  assumes "db_ok db"
  shows "findComponent db i' c' = Some r \<Longrightarrow>
      raw_value (fst (insertComponentValue qt i c v db)) r = raw_value db r"
    and "findFutureComponent db i' c' = Some r \<Longrightarrow> (i', c') \<noteq> (i, c) \<Longrightarrow>
      raw_value (fst (insertComponentValue qt i c v db)) r = raw_value db r"
  using raw_insertComponentValue [OF assms] insert_ref_other [OF assms] db_ok_ref [OF assms]
  by simp_all

lemma raw_insert_own:
  "db_ok db \<Longrightarrow> raw_value (fst (insertComponentValue qt i c v db)) (insert_ref db i c) =
     (case findFutureComponent db i c of None \<Rightarrow> v | Some q \<Rightarrow> assign qt (raw_value db q) v)"
  by (simp add: raw_insertComponentValue)

lemma abs_insertComponentValue:
  assumes "db_ok db"
  shows "db_abs (fst (insertComponentValue qt i c v db)) = spec_exec qt (InsertValue i c v) (db_abs db)"
proof (rule store_spec_eqI)
  show "spValue (db_abs (fst (insertComponentValue qt i c v db))) =
    spValue (spec_exec qt (InsertValue i c v) (db_abs db))"
    using raw_insert_kept(1) [OF assms] raw_insert_own [OF assms]
    by (auto simp: fun_eq_iff intro!: map_option_cong_ref split: option.splits)
  show "spFuture (db_abs (fst (insertComponentValue qt i c v db))) =
    spFuture (spec_exec qt (InsertValue i c v) (db_abs db))"
    using raw_insert_kept(2) [OF assms]
    by (auto simp: fun_eq_iff intro!: map_option_cong_ref)
qed simp

lemma abs_setValue:
  assumes "db_ok db" and r: "findComponent db i c = Some r"
  shows "db_abs (fst (setValue qt r v db)) = spec_exec qt (AssignValue i c v) (db_abs db)"
proof (rule store_spec_eqI)
  have len: "r < length (dbHeap db)" using db_ok_ref(1) [OF assms] .
  have kept: "findComponent db i' c' = Some q \<and> (i', c') \<noteq> (i, c) \<or>
      findFutureComponent db i' c' = Some q \<Longrightarrow>
      raw_value (fst (setValue qt r v db)) q = raw_value db q" for i' c' q
    using len db_ok_unshared(1,3) [OF assms, of i' c'] by auto
  show "spValue (db_abs (fst (setValue qt r v db))) =
      spValue (spec_exec qt (AssignValue i c v) (db_abs db))"
  proof (intro ext)
    fix i' c'
    show "spValue (db_abs (fst (setValue qt r v db))) i' c' =
        spValue (spec_exec qt (AssignValue i c v) (db_abs db)) i' c'"
      using r len kept [of i' c'] by (cases "findComponent db i' c'") auto
  qed
  show "spFuture (db_abs (fst (setValue qt r v db))) =
      spFuture (spec_exec qt (AssignValue i c v) (db_abs db))"
    using kept by (auto simp: fun_eq_iff intro!: map_option_cong_ref)
qed simp

lemma abs_getFutureComponent:
  assumes "db_ok db"
  shows "db_abs (snd (getFutureComponent i c db)) = spec_exec qt (GetFuture i c) (db_abs db)"
proof (cases "findComponent db i c = None \<and> findFutureComponent db i c = None")
  case False
  then have "snd (getFutureComponent i c db) = db"
    by (auto simp: getFutureComponent_def split: option.splits)
  then show ?thesis using False by (auto intro: store_spec_eqI)
next
  case True
  then have raw: "r \<le> length (dbHeap db) \<Longrightarrow> raw_value (snd (getFutureComponent i c db)) r =
     (if r = length (dbHeap db) then QInvalid else raw_value db r)" for r
    by (simp add: getFutureComponent_def Let_def split_beta)
  have kept: "findComponent db i' c' = Some r \<or> findFutureComponent db i' c' = Some r \<Longrightarrow>
      raw_value (snd (getFutureComponent i c db)) r = raw_value db r" for i' c' r
    using raw [of r] db_ok_ref [OF assms, of i' c' r] by auto
  show ?thesis
  proof (rule store_spec_eqI)
    show "spValue (db_abs (snd (getFutureComponent i c db))) =
        spValue (spec_exec qt (GetFuture i c) (db_abs db))"
      using True kept by (auto simp: fun_eq_iff intro!: map_option_cong_ref)
    show "spFuture (db_abs (snd (getFutureComponent i c db))) =
        spFuture (spec_exec qt (GetFuture i c) (db_abs db))"
      using True kept raw [of "length (dbHeap db)"]
      by (auto simp: fun_eq_iff insert_ref_def intro!: map_option_cong_ref)
  qed (use True in simp)
qed

lemma entities_insertEntity [simp]:
  "fmdom (dbEntities (insertEntity i db)) = finsert i (fmdom (dbEntities db))"
  by (simp add: insertEntity_def)

lemma entities_removeEntity [simp]:
  "fmdom (dbEntities (removeEntity i db)) = fmdom (dbEntities db) |-| {|i|}"
  by (simp add: removeEntity_def)

lemma db_exec_refines_lemma:
  assumes ok: "db_ok db"
  shows "db_abs (db_exec qt op db) = spec_exec qt op (db_abs db)"
proof (cases op)
  case (InsertValue i c v)
  then show ?thesis using abs_insertComponentValue [OF ok] by simp
next
  case (GetFuture i c)
  then show ?thesis using abs_getFutureComponent [OF ok] by simp
next
  case (AssignValue i c v)
  show ?thesis
  proof (cases "findComponent db i c")
    case None
    then show ?thesis using AssignValue by (auto intro!: store_spec_eqI simp: fun_eq_iff)
  next
    case (Some r)
    then show ?thesis using AssignValue abs_setValue [OF ok Some] by simp
  qed
qed (auto intro!: store_spec_eqI simp: fun_eq_iff)

section \<open>Requests\<close>

text \<open>
  When the event systems grant an operation: they add only what is not there, remove and
  assign only what is.
\<close>

fun request_ok :: "store_spec \<Rightarrow> db_op \<Rightarrow> bool" where
  "request_ok s (InsertEntity i) = (i \<notin> spEntities s)"
| "request_ok s (RemoveEntity i) = (i \<in> spEntities s)"
| "request_ok s (InsertValue i c v) = (i \<in> spEntities s \<and> spValue s i c = None)"
| "request_ok s (AssignValue i c v) = (spValue s i c \<noteq> None)"
| "request_ok s (RemoveValue i c) = (spValue s i c \<noteq> None)"
| "request_ok s (GetFuture i c) = True"

definition grant :: "qt_lib \<Rightarrow> db_op option \<Rightarrow> store_spec \<Rightarrow> store_spec" where
  "grant qt req s =
     (case req of None \<Rightarrow> s | Some op \<Rightarrow> if request_ok s op then spec_exec qt op s else s)"

lemma findEntity_iff: "findEntity db i = None \<longleftrightarrow> i |\<notin>| fmdom (dbEntities db)"
  by (auto simp: findEntity_def fmdom_notD fmdomI)

lemma findEntity_ex: "(\<exists>m. findEntity db i = Some m) \<longleftrightarrow> i |\<in>| fmdom (dbEntities db)"
  using findEntity_iff [of db i] by auto

lemma findInMap_findEntity [simp]: "findInMap (findEntity db i) c = findComponent db i c"
  by (simp add: findEntity_def findComponent_def)

lemma found_entity: "findComponent db i c = Some r \<Longrightarrow> i |\<in>| fmdom (dbEntities db)"
  by (auto simp: find_defs fmdomI split: option.splits)

text \<open>The database operation that a granted event performs.\<close>

definition db_grant :: "qt_lib \<Rightarrow> db_op option \<Rightarrow> database \<Rightarrow> database" where
  "db_grant qt req db =
     (case req of None \<Rightarrow> db | Some op \<Rightarrow> if request_ok (db_abs db) op then db_exec qt op db else db)"

lemma db_grant_refines: "db_ok db \<Longrightarrow> db_abs (db_grant qt req db) = grant qt req (db_abs db)"
  by (simp add: db_grant_def grant_def db_exec_refines_lemma split: option.splits)

lemmas db_step_rules = Let_def split_beta findEntity_iff findEntity_ex db_grant_def

section \<open>The interface of the readers\<close>

text \<open>
  The readers of a database (the introspection system, the recorder, the modules) find
  components, read their values and list the names of an entity's components. The locale holds
  what they rely on; its lemma builds the map of an entity's values that introspection sends.
\<close>

locale component_store =
  fixes find :: "'db \<Rightarrow> int \<Rightarrow> string \<Rightarrow> 'ref option"
    and val :: "'db \<Rightarrow> 'ref \<Rightarrow> qvariant"
    and names :: "'db \<Rightarrow> int \<Rightarrow> string list"
  assumes names_distinct: "distinct (names db i)"
    and names_found: "c \<in> set (names db i) \<longleftrightarrow> find db i c \<noteq> None"
begin

definition stored :: "'db \<Rightarrow> int \<Rightarrow> string \<Rightarrow> qvariant" where
  "stored db i c = (case find db i c of Some r \<Rightarrow> val db r | None \<Rightarrow> QInvalid)"

lemma values_fold:
  "fmlookup (fold (\<lambda>c m. fmupd c (stored db i c) m) cs m0) c =
     (if c \<in> set cs then Some (stored db i c) else fmlookup m0 c)"
  by (induction cs arbitrary: m0) auto

lemma values_map:
  "fmlookup (fold (\<lambda>c m. fmupd c (stored db i c) m) (names db i) fmempty) c =
     map_option (val db) (find db i c)"
proof (cases "find db i c")
  case None
  then show ?thesis using names_found [of c db i] by (simp add: values_fold)
next
  case (Some r)
  then show ?thesis using names_found [of c db i] by (simp add: values_fold) (simp add: stored_def)
qed

end

lemma set_getComponentList: "c \<in> set (getComponentList db i) \<longleftrightarrow> findComponent db i c \<noteq> None"
  by (auto simp: getComponentList_def find_defs fmdom_notD fmdomI split: option.splits)

lemma distinct_getComponentList: "distinct (getComponentList db i)"
  by (simp add: getComponentList_def split: option.splits)

interpretation present: component_store findComponent getValue getComponentList
  by unfold_locales (simp_all only: distinct_getComponentList set_getComponentList)

lemma stored_getStoredValue: "present.stored db i c = getStoredValue db i c"
  by (simp add: present.stored_def getStoredValue_def)

text \<open>The same interface on the list with the future components, which the modules use.\<close>

definition findAnyComponent :: "database \<Rightarrow> int \<Rightarrow> string \<Rightarrow> component_ref option" where
  "findAnyComponent db i c =
     (case findComponent db i c of Some r \<Rightarrow> Some r | None \<Rightarrow> findFutureComponent db i c)"

lemma set_getComponentListWithFutures:
  "c \<in> set (getComponentListWithFutures db i) \<longleftrightarrow> findAnyComponent db i c \<noteq> None"
  unfolding getComponentListWithFutures_def set_append Un_iff set_getComponentList
  by (auto simp: findAnyComponent_def findFutureComponent_def findInMap_def fmdom_notD fmdomI
      split: option.splits)

lemma distinct_getComponentListWithFutures:
  assumes "db_ok db"
  shows "distinct (getComponentListWithFutures db i)"
proof -
  have "findComponent db i c = None \<or> findFutureComponent db i c = None" for c
    using assms by (simp add: db_ok_def present_or_future_def)
  then show ?thesis
    unfolding getComponentListWithFutures_def distinct_append
    by (auto simp: distinct_getComponentList set_getComponentList [THEN iffD1]
        findFutureComponent_def findInMap_def split: option.splits)
       (metis disjoint_iff fmdom_notI set_getComponentList set_qkeys)
qed

section \<open>Properties\<close>

text \<open>
  C8. The database keeps its invariant: in every database reachable by its operations and by
  assignments through held pointers, references are valid and unshared, no component is
  present and future at the same time, and no empty future map is left.
\<close>

theorem database_invariant: "db_reachable qt db \<Longrightarrow> db_ok db"
  by (rule db_reachable_ok)

theorem database_invariant_witness:
  "db_ok (db_run qt_ref [GetFuture 1 ''a'', InsertValue 1 ''a'' (QInt 3), InsertEntity 2] database_new)"
  by (rule database_invariant [of qt_ref]) (intro db_reachable_run reach_new)

text \<open>
  C7. Refinement: every operation of the database acts on its abstraction, the map from
  entities and component names to values with the future values beside it, as the
  specification of that operation.
\<close>

theorem database_refines:
  "db_reachable qt db \<Longrightarrow> db_abs (db_exec qt op db) = spec_exec qt op (db_abs db)"
  by (intro db_exec_refines_lemma db_reachable_ok)

theorem database_refines_witness:
  "db_abs (db_exec qt_ref (InsertValue 1 ''a'' (QInt 3)) (db_run qt_ref [GetFuture 1 ''a''] database_new)) =
   spec_exec qt_ref (InsertValue 1 ''a'' (QInt 3)) (db_abs (db_run qt_ref [GetFuture 1 ''a''] database_new))"
  by (rule database_refines) (intro db_reachable_run reach_new)

text \<open>
  A module that asks for a component before it exists keeps a live pointer: whatever
  else happens to the database in between, inserting the component's value makes the very
  component the module holds the present one, with the value assigned, and notifies its
  listeners of the value.
\<close>

theorem future_component_becomes_present:
  assumes "db_reachable qt db" and "findComponent db i c = None"
    and "\<forall>op \<in> set ops. \<not> inserts i c op"
  defines "r \<equiv> fst (getFutureComponent i c db)"
    and "db1 \<equiv> db_run qt ops (snd (getFutureComponent i c db))"
  shows "findFutureComponent db1 i c = Some r \<and>
    findComponent (fst (insertComponentValue qt i c v db1)) i c = Some r \<and>
    raw_value (fst (insertComponentValue qt i c v db1)) r = assign qt (raw_value db1 r) v \<and>
    hd (snd (insertComponentValue qt i c v db1)) = SigValueSet r v \<and>
    (SigValueChange r v \<in> set (snd (insertComponentValue qt i c v db1)) \<longleftrightarrow>
       \<not> qtEq qt v (raw_value db1 r))"
proof -
  have "db_ok db" using assms(1) by (rule db_reachable_ok)
  then have ok: "db_ok db1" unfolding db1_def by (intro inv_intros)
  have "r = insert_ref db i c"
    using assms(2) by (simp add: r_def getFutureComponent_def insert_ref_def Let_def split_beta
        split: option.splits)
  then have "findFutureComponent (snd (getFutureComponent i c db)) i c = Some r"
    using assms(2) by simp
  then have fut: "findFutureComponent db1 i c = Some r"
    using future_stays [of ops i c _ r qt] assms(2,3) by (simp add: db1_def)
  then have "insert_ref db1 i c = r" by (simp add: insert_ref_def)
  then show ?thesis
    using fut raw_insert_own [OF ok, of qt i c v]
    by (cases rule: insertComponentValue_cases [of db1 i c qt v])
       (auto simp: Let_def setValue_def raw_value_def insert_ref_def)
qed

theorem future_component_becomes_present_witness:
  "findComponent (fst (insertComponentValue qt_ref 1 ''a'' (QInt 3)
      (db_run qt_ref [InsertEntity 1] (snd (getFutureComponent 1 ''a'' database_new))))) 1 ''a'' =
    Some (fst (getFutureComponent 1 ''a'' database_new))"
  using future_component_becomes_present
    [of qt_ref database_new 1 "''a''" "[InsertEntity 1]" "QInt 3"] reach_new [of qt_ref]
  by (simp add: database_new_def find_defs)

end
