(* ===== verification/ServerStorage.thy ===== *)
theory ServerStorage
  imports VeinComponent Database
begin

text \<open>
  framework/vf-storage, \<^verbatim>\<open>StorageEventSystem\<close>: the server's store. It holds the database and
  the names of the registered procedures per entity, executes the entity and component commands
  of notifications and answers fetches by rewriting the event. \<open>event_request\<close> and
  \<open>request_ok\<close> are its abstract specification: what a command asks of the store and when it is
  granted.
\<close>

section \<open>State\<close>

record server_storage =
  ssDb :: database
  ssRpcNames :: "(int, string list) qmap"

definition server_storage_new :: server_storage where
  "server_storage_new = \<lparr> ssDb = database_new, ssRpcNames = fmempty \<rparr>"

definition acceptableOrigin :: "event_origin \<Rightarrow> bool" where
  "acceptableOrigin eo \<longleftrightarrow> eo \<in> {EO_LOCAL, EO_FOREIGN}"

text \<open>State, event, events sent and signals of the components.\<close>

type_synonym storage_result =
  "server_storage \<times> vein_event \<times> vein_event list \<times> storage_signal list"

definition storage_error :: "qt_lib \<Rightarrow> string \<Rightarrow> server_storage \<Rightarrow> vein_event \<Rightarrow> storage_result" where
  "storage_error qt msg st e = (let (e', out) = errorOut qt msg e in (st, e', out, []))"

section \<open>Handlers\<close>

definition ss_processEntityData ::
  "qt_lib \<Rightarrow> entity_data \<Rightarrow> server_storage \<Rightarrow> vein_event \<Rightarrow> storage_result" where
  "ss_processEntityData qt d st e =
     (let i = edEntityId d;
          entityMap = findEntity (ssDb st) i;
          forget = (\<lambda>st. if edOrigin d = EO_LOCAL
                         then st\<lparr>ssRpcNames := fmdrop i (ssRpcNames st)\<rparr> else st)
      in case eaCommand d of
           ECMD_ADD \<Rightarrow>
             (if entityMap \<noteq> None
              then storage_error qt (''Cannot add entity, entity id already exists: '' @ int_digits i)
                     (forget st) e
              else ((forget st)\<lparr>ssDb := insertEntity i (ssDb st)\<rparr>, e, [], []))
         | ECMD_REMOVE \<Rightarrow>
             (if entityMap = None
              then storage_error qt (''Cannot delete entity, entity id does not exists: '' @
                     int_digits i) (forget st) e
              else ((forget st)\<lparr>ssDb := removeEntity i (ssDb st)\<rparr>, e, [], []))
         | _ \<Rightarrow> (st, e, [], []))"

text \<open>The answer to a fetch: the event itself, addressed to everybody.\<close>

definition fetched :: "qvariant \<Rightarrow> component_data \<Rightarrow> component_data" where
  "fetched v d = setEventTarget ET_ALL (setEventOrigin EO_LOCAL (cd_setNewValue v d))"

definition ss_processComponentData ::
  "qt_lib \<Rightarrow> component_data \<Rightarrow> server_storage \<Rightarrow> vein_event \<Rightarrow> storage_result" where
  "ss_processComponentData qt d st e =
     (let n = cdComponentName d;
          i = edEntityId d;
          db = ssDb st;
          entity = findEntity db i;
          component = findInMap entity n;
          place = int_digits i @ '' '' @ n
      in case cdCommand d of
           CCMD_ADD \<Rightarrow>
             (if entity = None
              then storage_error qt (''Cannot add component for invalid entity id: '' @ int_digits i)
                     st e
              else if component \<noteq> None
              then storage_error qt (''Value already exists for component: '' @ place) st e
              else let (db', sigs) = insertComponentValue qt i n (cdNewValue d) db
                   in (st\<lparr>ssDb := db'\<rparr>, e, [], sigs))
         | CCMD_REMOVE \<Rightarrow>
             (if entity = None
              then storage_error qt
                     (''Cannot remove component for invalid entity id: '' @ int_digits i) st e
              else if component = None
              then storage_error qt (''Cannot remove not existing component: '' @ place) st e
              else (st\<lparr>ssDb := removeComponentValue i n db\<rparr>, e, [], []))
         | CCMD_SET \<Rightarrow>
             (if entity = None
              then storage_error qt
                     (''Cannot set component for not existing entity id: '' @ int_digits i) st e
              else (case component of
                      None \<Rightarrow> storage_error qt (''Cannot set not existing component: '' @ place) st e
                    | Some r \<Rightarrow> let (db', sigs) = setValue qt r (cdNewValue d) db
                               in (st\<lparr>ssDb := db'\<rparr>, e, [], sigs)))
         | CCMD_FETCH \<Rightarrow>
             (if entity = None
              then storage_error qt
                     (''Cannot fetch component for not existing entity id: '' @ int_digits i) st e
              else (case component of
                      None \<Rightarrow>
                        (case findFutureComponent db i n of
                           Some r \<Rightarrow> (st, e\<lparr>ceData := VComponent (fetched (getValue db r) d)\<rparr>, [], [])
                         | None \<Rightarrow>
                             storage_error qt (''Cannot fetch not existing component: '' @ place) st e)
                    | Some r \<Rightarrow>
                        (st, e\<lparr>ceData := VComponent (fetched (getValue db r) d)\<rparr>, [], [])))
         | _ \<Rightarrow> (st, e, [], []))"

definition ss_processRpcData ::
  "qt_lib \<Rightarrow> rpc_data \<Rightarrow> server_storage \<Rightarrow> vein_event \<Rightarrow> storage_result" where
  "ss_processRpcData qt d st e =
     (let i = edEntityId d;
          n = rdProcedureName d
      in if rdCommand d = RPCMD_REGISTER
         then let names = qvalue (ssRpcNames st) i []
              in if n \<notin> set names
                 then (st\<lparr>ssRpcNames := fmupd i (names @ [n]) (ssRpcNames st)\<rparr>, e, [], [])
                 else storage_error qt (''RPC '' @ n @ '' already exists in '' @ int_digits i) st e
         else (st, e, [], []))"

definition ss_processEvent :: "qt_lib \<Rightarrow> server_storage \<Rightarrow> vein_event \<Rightarrow> storage_result" where
  "ss_processEvent qt st e =
     (case ceData e of
        VComponent d \<Rightarrow>
          (if ceSubtype e = NOTIFICATION \<and> acceptableOrigin (edOrigin d)
           then if \<not> qv_valid (cdNewValue d) \<and> cdCommand d = CCMD_SET
                then (st, accept e, [], [])
                else ss_processComponentData qt d st e
           else (st, e, [], []))
      | VEntity d \<Rightarrow>
          (if ceSubtype e = NOTIFICATION \<and> acceptableOrigin (edOrigin d)
           then ss_processEntityData qt d st e
           else (st, e, [], []))
      | VRpc d \<Rightarrow> if edOrigin d = EO_LOCAL then ss_processRpcData qt d st e else (st, e, [], [])
      | _ \<Rightarrow> (st, e, [], []))"

lemmas ss_defs = ss_processEvent_def ss_processComponentData_def ss_processEntityData_def
  ss_processRpcData_def storage_error_def

section \<open>Invariant\<close>

definition server_storage_ok :: "server_storage \<Rightarrow> bool" where
  "server_storage_ok st \<longleftrightarrow>
     db_ok (ssDb st) \<and> (\<forall>i names. fmlookup (ssRpcNames st) i = Some names \<longrightarrow> distinct names)"

lemma server_storage_new_ok [inv_intros]: "server_storage_ok server_storage_new"
  by (simp add: server_storage_ok_def server_storage_new_def inv_intros)

lemma ss_ok_db [inv_intros]:
  "server_storage_ok st \<Longrightarrow> db_ok db \<Longrightarrow> server_storage_ok (st\<lparr>ssDb := db\<rparr>)"
  by (simp add: server_storage_ok_def)

lemma ss_ok_forget [inv_intros]:
  "server_storage_ok st \<Longrightarrow> server_storage_ok (st\<lparr>ssRpcNames := fmdrop i (ssRpcNames st)\<rparr>)"
  by (simp add: server_storage_ok_def)

lemma ss_okD: "server_storage_ok st \<Longrightarrow> db_ok (ssDb st)"
  by (simp add: server_storage_ok_def)

lemma ss_processEntityData_ok:
  "server_storage_ok st \<Longrightarrow> server_storage_ok (fst (ss_processEntityData qt d st e))"
  by (simp add: ss_processEntityData_def storage_error_def Let_def split_beta
      split: entity_command.splits)
     (auto intro: inv_intros ss_okD simp: server_storage_ok_def)

lemma ss_processComponentData_ok:
  "server_storage_ok st \<Longrightarrow> server_storage_ok (fst (ss_processComponentData qt d st e))"
  by (simp add: ss_processComponentData_def storage_error_def Let_def split_beta
      split: component_command.splits option.splits)
     (auto intro: inv_intros ss_okD)

lemma ss_processRpcData_ok:
  "server_storage_ok st \<Longrightarrow> server_storage_ok (fst (ss_processRpcData qt d st e))"
  by (auto simp: ss_processRpcData_def storage_error_def Let_def split_beta server_storage_ok_def
      qvalue_def split: option.splits)

lemma ss_processEvent_ok [inv_intros]:
  "server_storage_ok st \<Longrightarrow> server_storage_ok (fst (ss_processEvent qt st e))"
  by (simp add: ss_processEvent_def ss_processComponentData_ok ss_processEntityData_ok
      ss_processRpcData_ok split: vein_data.splits)

section \<open>Specification\<close>

text \<open>What an event asks of the store.\<close>

definition event_request :: "vein_event \<Rightarrow> db_op option" where
  "event_request e =
     (if ceSubtype e \<noteq> NOTIFICATION \<or> \<not> acceptableOrigin (vd_origin (ceData e)) then None
      else case ceData e of
             VComponent d \<Rightarrow>
               (case cdCommand d of
                  CCMD_ADD \<Rightarrow> Some (InsertValue (edEntityId d) (cdComponentName d) (cdNewValue d))
                | CCMD_REMOVE \<Rightarrow> Some (RemoveValue (edEntityId d) (cdComponentName d))
                | CCMD_SET \<Rightarrow>
                    if qv_valid (cdNewValue d)
                    then Some (AssignValue (edEntityId d) (cdComponentName d) (cdNewValue d))
                    else None
                | _ \<Rightarrow> None)
           | VEntity d \<Rightarrow>
               (case eaCommand d of
                  ECMD_ADD \<Rightarrow> Some (InsertEntity (edEntityId d))
                | ECMD_REMOVE \<Rightarrow> Some (RemoveEntity (edEntityId d))
                | _ \<Rightarrow> None)
           | _ \<Rightarrow> None)"

lemmas storage_step = storage_error_def db_step_rules

lemma ss_component_db:
  "ssDb (fst (ss_processComponentData qt d st e)) =
     db_grant qt (case cdCommand d of
        CCMD_ADD \<Rightarrow> Some (InsertValue (edEntityId d) (cdComponentName d) (cdNewValue d))
      | CCMD_REMOVE \<Rightarrow> Some (RemoveValue (edEntityId d) (cdComponentName d))
      | CCMD_SET \<Rightarrow> Some (AssignValue (edEntityId d) (cdComponentName d) (cdNewValue d))
      | _ \<Rightarrow> None) (ssDb st)"
  using found_entity [of "ssDb st" "edEntityId d" "cdComponentName d"]
  by (cases "findComponent (ssDb st) (edEntityId d) (cdComponentName d)"; cases "cdCommand d")
     (simp_all add: ss_processComponentData_def storage_step split: option.splits)

lemma ss_entity_db:
  "ssDb (fst (ss_processEntityData qt d st e)) =
     db_grant qt (case eaCommand d of
        ECMD_ADD \<Rightarrow> Some (InsertEntity (edEntityId d))
      | ECMD_REMOVE \<Rightarrow> Some (RemoveEntity (edEntityId d))
      | _ \<Rightarrow> None) (ssDb st)"
  by (cases "eaCommand d") (simp_all add: ss_processEntityData_def storage_step)

lemma ss_rpc_db [simp]: "ssDb (fst (ss_processRpcData qt d st e)) = ssDb st"
  by (simp add: ss_processRpcData_def storage_step)

lemma ss_processEvent_db:
  "ssDb (fst (ss_processEvent qt st e)) = db_grant qt (event_request e) (ssDb st)"
proof (cases "ceData e")
  case (VComponent d)
  then show ?thesis
    by (cases "cdCommand d")
       (simp_all add: ss_processEvent_def event_request_def ss_component_db db_grant_def)
next
  case (VEntity d)
  then show ?thesis
    by (cases "eaCommand d")
       (simp_all add: ss_processEvent_def event_request_def ss_entity_db db_grant_def)
qed (simp_all add: ss_processEvent_def event_request_def db_grant_def)

section \<open>Errors\<close>

text \<open>
  An event fails when its request is not granted, when it fetches what is neither present nor
  future in a known entity, or when it registers a procedure name a second time.
\<close>

definition event_fails :: "server_storage \<Rightarrow> vein_event \<Rightarrow> bool" where
  "event_fails st e \<longleftrightarrow>
     (case event_request e of
        Some op \<Rightarrow> \<not> request_ok (db_abs (ssDb st)) op
      | None \<Rightarrow>
          (case ceData e of
             VComponent d \<Rightarrow>
               ceSubtype e = NOTIFICATION \<and> acceptableOrigin (edOrigin d) \<and>
               cdCommand d = CCMD_FETCH \<and>
               (\<not> hasEntity (ssDb st) (edEntityId d) \<or>
                findAnyComponent (ssDb st) (edEntityId d) (cdComponentName d) = None)
           | VRpc d \<Rightarrow>
               edOrigin d = EO_LOCAL \<and> rdCommand d = RPCMD_REGISTER \<and>
               rdProcedureName d \<in> set (qvalue (ssRpcNames st) (edEntityId d) [])
           | _ \<Rightarrow> False))"

definition sent :: "storage_result \<Rightarrow> vein_event list" where
  "sent r = fst (snd (snd r))"

definition handled :: "storage_result \<Rightarrow> vein_event" where
  "handled r = fst (snd r)"

lemma storage_error_sel [simp]:
  "fst (storage_error qt msg st e) = st" "handled (storage_error qt msg st e) = accept e"
  "sent (storage_error qt msg st e) = snd (errorOut qt msg e)"
  "length (sent (storage_error qt msg st e)) = 1"
  by (simp_all add: storage_error_def split_beta sent_def handled_def)

lemma sent_simps [simp]: "sent (st, e, out, sigs) = out" "handled (st, e, out, sigs) = e"
  by (simp_all add: sent_def handled_def)

lemma ss_component_errors:
  "length (sent (ss_processComponentData qt d st e)) =
     (let i = edEntityId d; n = cdComponentName d; s = db_abs (ssDb st) in
      case cdCommand d of
        CCMD_ADD \<Rightarrow> if request_ok s (InsertValue i n (cdNewValue d)) then 0 else 1
      | CCMD_REMOVE \<Rightarrow> if request_ok s (RemoveValue i n) then 0 else 1
      | CCMD_SET \<Rightarrow> if request_ok s (AssignValue i n (cdNewValue d)) then 0 else 1
      | CCMD_FETCH \<Rightarrow>
          if hasEntity (ssDb st) i \<and> findAnyComponent (ssDb st) i n \<noteq> None then 0 else 1
      | _ \<Rightarrow> 0)"
  using found_entity [of "ssDb st" "edEntityId d" "cdComponentName d"]
  by (cases "findComponent (ssDb st) (edEntityId d) (cdComponentName d)"; cases "cdCommand d")
     (auto simp add: ss_processComponentData_def Let_def split_beta findEntity_iff hasEntity_def
       findAnyComponent_def split: option.splits)

lemma ss_entity_errors:
  "length (sent (ss_processEntityData qt d st e)) =
     (let i = edEntityId d; s = db_abs (ssDb st) in
      case eaCommand d of
        ECMD_ADD \<Rightarrow> if request_ok s (InsertEntity i) then 0 else 1
      | ECMD_REMOVE \<Rightarrow> if request_ok s (RemoveEntity i) then 0 else 1
      | _ \<Rightarrow> 0)"
  by (cases "eaCommand d") (auto simp add: ss_processEntityData_def Let_def findEntity_iff findEntity_ex)

lemma ss_rpc_errors:
  "length (sent (ss_processRpcData qt d st e)) =
     (if rdCommand d = RPCMD_REGISTER \<and>
         rdProcedureName d \<in> set (qvalue (ssRpcNames st) (edEntityId d) []) then 1 else 0)"
  by (simp add: ss_processRpcData_def Let_def)

text \<open>Every result either sends nothing or is an error reply to the event.\<close>

definition error_reply :: "qt_lib \<Rightarrow> vein_event \<Rightarrow> storage_result \<Rightarrow> bool" where
  "error_reply qt e r \<longleftrightarrow> (\<exists>msg. sent r = snd (errorOut qt msg e) \<and> handled r = accept e)"

lemma error_reply_error [simp]: "error_reply qt e (storage_error qt msg st e)"
  by (auto simp: error_reply_def)

lemma ss_component_reply:
  "sent (ss_processComponentData qt d st e) = [] \<or> error_reply qt e (ss_processComponentData qt d st e)"
  by (auto simp add: ss_processComponentData_def Let_def split_beta
      split: option.splits component_command.splits)

lemma ss_entity_reply:
  "sent (ss_processEntityData qt d st e) = [] \<or> error_reply qt e (ss_processEntityData qt d st e)"
  by (auto simp add: ss_processEntityData_def Let_def split: entity_command.splits)

lemma ss_rpc_reply:
  "sent (ss_processRpcData qt d st e) = [] \<or> error_reply qt e (ss_processRpcData qt d st e)"
  by (auto simp add: ss_processRpcData_def Let_def)

lemma ss_errors:
  "length (sent (ss_processEvent qt st e)) = (if event_fails st e then 1 else 0)"
proof (cases "ceData e")
  case (VComponent d)
  then show ?thesis
    by (cases "cdCommand d")
       (auto simp add: ss_processEvent_def event_fails_def event_request_def ss_component_errors
         Let_def simp del: length_0_conv)
next
  case (VEntity d)
  then show ?thesis
    by (cases "eaCommand d")
       (auto simp add: ss_processEvent_def event_fails_def event_request_def ss_entity_errors Let_def
         simp del: length_0_conv)
next
  case (VRpc d)
  then show ?thesis
    by (auto simp add: ss_processEvent_def event_fails_def event_request_def ss_rpc_errors
        simp del: length_0_conv)
qed (simp_all add: ss_processEvent_def event_fails_def event_request_def)

lemma ss_reply:
  "sent (ss_processEvent qt st e) = [] \<or> error_reply qt e (ss_processEvent qt st e)"
  using ss_component_reply [of qt _ st e] ss_entity_reply [of qt _ st e] ss_rpc_reply [of qt _ st e]
  by (auto simp: ss_processEvent_def split: vein_data.splits)

section \<open>Properties\<close>

text \<open>
  C6. The server's store implements its specification: whatever event it is offered, the
  map of entities and values it holds changes by exactly the requested command if the command is
  granted (an entity or component is added only where none is, removed or set only where one
  is) and not at all otherwise; events that are no notifications, of another origin or without
  a command for the store change nothing.
\<close>

theorem storage_refines_spec:
  assumes "server_storage_ok st"
  shows "db_abs (ssDb (fst (ss_processEvent qt st e))) =
    grant qt (event_request e) (db_abs (ssDb st))"
  using ss_okD [OF assms] by (simp add: ss_processEvent_db db_grant_refines)

definition example_add :: vein_event where
  "example_add = commandEvent_new NOTIFICATION
     (VComponent ((componentData_for 7 CCMD_ADD)\<lparr>cdComponentName := ''U'', cdNewValue := QInt 230\<rparr>))"

theorem storage_refines_spec_witness:
  "db_abs (ssDb (fst (ss_processEvent qt_ref server_storage_new example_add))) =
   grant qt_ref (event_request example_add) (db_abs (ssDb server_storage_new))"
  by (rule storage_refines_spec [OF server_storage_new_ok])

text \<open>
  C30. The store answers with an error exactly when the event fails: for a command that is
  not granted, a fetch of something unknown or a second registration of a procedure it accepts
  the event and sends one error event for it; in every other case it sends nothing.
\<close>

theorem storage_error_iff_fails:
  "if event_fails st e then error_reply qt e (ss_processEvent qt st e)
   else sent (ss_processEvent qt st e) = []"
  using ss_errors [of qt st e] ss_reply [of qt st e] by auto

text \<open>
  A granted fetch leaves the store alone and turns the event into the answer: it carries
  the component's value, counts as local and is addressed to all; the value is the component's
  whenever that is valid.
\<close>

theorem storage_fetch:
  assumes "ceSubtype e = NOTIFICATION" and "ceData e = VComponent d"
    and "acceptableOrigin (edOrigin d)" and "cdCommand d = CCMD_FETCH"
    and "hasEntity (ssDb st) (edEntityId d)"
    and "findAnyComponent (ssDb st) (edEntityId d) (cdComponentName d) = Some r"
  shows "ss_processEvent qt st e =
    (st, e\<lparr>ceData := VComponent (d\<lparr> edOrigin := EO_LOCAL, edTarget := ET_ALL,
       cdNewValue := if qv_valid (getValue (ssDb st) r) then getValue (ssDb st) r
                     else cdNewValue d \<rparr>)\<rparr>, [], [])"
  using assms
  by (auto simp: ss_processEvent_def ss_processComponentData_def Let_def fetched_def vein_defs
      findAnyComponent_def hasEntity_def findEntity_iff split: option.splits)

definition example_store :: server_storage where
  "example_store = server_storage_new\<lparr>ssDb := db_run qt_ref
     [InsertEntity 7, InsertValue 7 ''U'' (QInt 230), GetFuture 7 ''I''] database_new\<rparr>"

definition example_fetch :: "string \<Rightarrow> qvariant \<Rightarrow> vein_event" where
  "example_fetch n v = commandEvent_new NOTIFICATION
     (VComponent ((componentData_for 7 CCMD_FETCH)\<lparr>cdComponentName := n, cdNewValue := v\<rparr>))"

lemma example_store_lookups:
  "hasEntity (ssDb example_store) 7" "findComponent (ssDb example_store) 7 ''U'' = Some 0"
  "findComponent (ssDb example_store) 7 ''I'' = None"
  "findFutureComponent (ssDb example_store) 7 ''I'' = Some 1"
  "getValue (ssDb example_store) 0 = QInt 230" "getValue (ssDb example_store) 1 = QInvalid"
  by code_simp+

theorem storage_fetch_witness:
  "ss_processEvent qt_ref example_store (example_fetch ''U'' QInvalid) =
     (example_store, (example_fetch ''U'' QInvalid)\<lparr>ceData := VComponent
        ((componentData_for 7 CCMD_FETCH)\<lparr> edTarget := ET_ALL, cdComponentName := ''U'',
           cdNewValue := QInt 230 \<rparr>)\<rparr>, [], [])"
  using storage_fetch [of "example_fetch ''U'' QInvalid"
      "(componentData_for 7 CCMD_FETCH)\<lparr>cdComponentName := ''U'', cdNewValue := QInvalid\<rparr>"
      example_store 0 qt_ref]
  by (simp add: example_fetch_def vein_defs acceptableOrigin_def findAnyComponent_def
      example_store_lookups record_glue)

end
