(* ===== verification/Introspection.thy ===== *)
theory Introspection
  imports VeinComponent Database
begin

text \<open>
  network/vf-net2, \<^verbatim>\<open>IntrospectionSystem\<close>: answers a subscription with a description of the
  entity, its component values and procedure names, followed by one fetch notification per
  component, all addressed to the subscriber. It reads the database and the procedure names of
  the storage system and changes nothing.
\<close>

section \<open>Handler\<close>

definition s_nameComponent :: string where
  "s_nameComponent = ''EntityName''"

definition getRpcNames :: "(int, string list) qmap \<Rightarrow> int \<Rightarrow> string list" where
  "getRpcNames rpcs i = (if \<not> qcontains rpcs i then [] else qvalue rpcs i [])"

definition component_values :: "database \<Rightarrow> int \<Rightarrow> qvariant_map" where
  "component_values db i =
     fold (\<lambda>c m. fmupd c (getStoredValue db i c) m) (getComponentList db i) fmempty"

definition introspection_event ::
  "database \<Rightarrow> (int, string list) qmap \<Rightarrow> int \<Rightarrow> quuid \<Rightarrow> vein_event" where
  "introspection_event db rpcs i peer =
     setPeerId peer (commandEvent_new NOTIFICATION (VIntrospection
       (setEventTarget ET_ALL (setEventOrigin EO_LOCAL
         (id_setRpcNames (getRpcNames rpcs i)
           (id_setComponentValues (component_values db i)
             (setEntityId i introspectionData_new)))))))"

definition initial_fetch :: "qt_lib \<Rightarrow> int \<Rightarrow> quuid \<Rightarrow> string \<Rightarrow> qvariant \<Rightarrow> vein_event" where
  "initial_fetch qt i peer c v =
     setPeerId peer (commandEvent_new NOTIFICATION (VComponent
       (cd_setOldValue qt QInvalid (cd_setNewValue v (cd_setComponentName c
         (setEventTarget ET_ALL (setEventOrigin EO_LOCAL (componentData_for i CCMD_FETCH))))))))"

definition introspection_processEvent ::
  "qt_lib \<Rightarrow> database \<Rightarrow> (int, string list) qmap \<Rightarrow> vein_event \<Rightarrow> vein_event \<times> vein_event list" where
  "introspection_processEvent qt db rpcs e =
     (case ceData e of
        VEntity d \<Rightarrow>
          (if ceSubtype e = NOTIFICATION \<and> eaCommand d = ECMD_SUBSCRIBE
           then let i = edEntityId d
                in if getComponentList db i \<noteq> []
                   then let m = component_values db i
                        in (e, introspection_event db rpcs i (cePeerId e) #
                              map (\<lambda>c. initial_fetch qt i (cePeerId e) c (qvalue m c QInvalid)) (qkeys m))
                   else errorOut qt (''No introspection available for requested entity, entity id: '' @
                          int_digits i) e
           else (e, []))
      | _ \<Rightarrow> (e, []))"

section \<open>Lemmas\<close>

lemma component_values_lookup:
  "fmlookup (component_values db i) c = map_option (getValue db) (findComponent db i c)"
  using present.values_map [where db = db and i = i and c = c]
  by (simp add: component_values_def stored_getStoredValue)

lemma qkeys_component_values: "set (qkeys (component_values db i)) = set (getComponentList db i)"
proof (rule set_eqI)
  fix c
  show "c \<in> set (qkeys (component_values db i)) \<longleftrightarrow> c \<in> set (getComponentList db i)"
    unfolding qkeys_lookup set_getComponentList component_values_lookup by auto
qed

lemma introspection_event_data:
  "0 \<le> i \<Longrightarrow> introspection_event db rpcs i peer =
     \<lparr> cePeerId = peer, ceSubtype = NOTIFICATION,
       ceData = VIntrospection \<lparr> edOrigin = EO_LOCAL, edTarget = ET_ALL, edEntityId = i,
         idComponentValues = component_values db i, idRpcNames = qvalue rpcs i [] \<rparr>,
       ceAccepted = False \<rparr>"
  by (simp add: introspection_event_def getRpcNames_def vein_defs record_glue qvalue_def fmdom_notD
      split: option.splits)

lemma initial_fetch_data:
  "0 \<le> i \<Longrightarrow> c \<noteq> '''' \<Longrightarrow> initial_fetch qt i peer c v =
     \<lparr> cePeerId = peer, ceSubtype = NOTIFICATION,
       ceData = VComponent \<lparr> edOrigin = EO_LOCAL, edTarget = ET_ALL, edEntityId = i,
         cdCommand = CCMD_FETCH, cdComponentName = c, cdNewValue = v, cdOldValue = QInvalid \<rparr>,
       ceAccepted = False \<rparr>"
  by (auto simp: initial_fetch_def vein_defs record_glue qv_valid_def)

section \<open>Properties\<close>

text \<open>
  A subscription to an entity with components is answered to its sender with exactly the
  state of the store: first one introspection event whose map has precisely the entity's
  components with their current values and whose list holds its procedures, then one fetch
  notification for every component, each with the component's value. The request itself is
  passed on to the network system.
\<close>

theorem introspection_describes_store:
  assumes "ceData e = VEntity d" and "ceSubtype e = NOTIFICATION"
    and "eaCommand d = ECMD_SUBSCRIBE" and "0 \<le> edEntityId d"
    and "getComponentList db (edEntityId d) \<noteq> []"
    and "'''' \<notin> set (getComponentList db (edEntityId d))"
  shows "\<exists>m names.
    introspection_processEvent qt db rpcs e =
      (e, \<lparr> cePeerId = cePeerId e, ceSubtype = NOTIFICATION,
            ceData = VIntrospection \<lparr> edOrigin = EO_LOCAL, edTarget = ET_ALL,
              edEntityId = edEntityId d, idComponentValues = m,
              idRpcNames = qvalue rpcs (edEntityId d) [] \<rparr>, ceAccepted = False \<rparr> #
          map (\<lambda>c. \<lparr> cePeerId = cePeerId e, ceSubtype = NOTIFICATION,
            ceData = VComponent \<lparr> edOrigin = EO_LOCAL, edTarget = ET_ALL,
              edEntityId = edEntityId d, cdCommand = CCMD_FETCH, cdComponentName = c,
              cdNewValue = getStoredValue db (edEntityId d) c, cdOldValue = QInvalid \<rparr>,
            ceAccepted = False \<rparr>) names) \<and>
    (\<forall>c. fmlookup m c = map_option (getValue db) (findComponent db (edEntityId d) c)) \<and>
    distinct names \<and> set names = set (getComponentList db (edEntityId d))"
proof (intro exI conjI allI)
  let ?i = "edEntityId d" and ?m = "component_values db (edEntityId d)"
  show "fmlookup ?m c = map_option (getValue db) (findComponent db ?i c)" for c
    by (rule component_values_lookup)
  show "distinct (qkeys ?m)" by (rule distinct_qkeys)
  show "set (qkeys ?m) = set (getComponentList db ?i)" by (rule qkeys_component_values)
  have named: "c \<noteq> ''''" if "c \<in> set (qkeys ?m)" for c
    using that assms(6) qkeys_component_values [of db ?i] by metis
  have "qvalue ?m c QInvalid = getStoredValue db ?i c" for c
    by (simp add: qvalue_def component_values_lookup getStoredValue_def split: option.splits)
  then have "map (\<lambda>c. initial_fetch qt ?i (cePeerId e) c (qvalue ?m c QInvalid)) (qkeys ?m) =
      map (\<lambda>c. \<lparr> cePeerId = cePeerId e, ceSubtype = NOTIFICATION,
            ceData = VComponent \<lparr> edOrigin = EO_LOCAL, edTarget = ET_ALL,
              edEntityId = edEntityId d, cdCommand = CCMD_FETCH, cdComponentName = c,
              cdNewValue = getStoredValue db (edEntityId d) c, cdOldValue = QInvalid \<rparr>,
            ceAccepted = False \<rparr>) (qkeys ?m)"
    using assms(4) named by (intro map_cong refl) (simp only: initial_fetch_data simp_thms)
  then show "introspection_processEvent qt db rpcs e =
      (e, \<lparr> cePeerId = cePeerId e, ceSubtype = NOTIFICATION,
            ceData = VIntrospection \<lparr> edOrigin = EO_LOCAL, edTarget = ET_ALL,
              edEntityId = ?i, idComponentValues = ?m,
              idRpcNames = qvalue rpcs ?i [] \<rparr>, ceAccepted = False \<rparr> #
          map (\<lambda>c. \<lparr> cePeerId = cePeerId e, ceSubtype = NOTIFICATION,
            ceData = VComponent \<lparr> edOrigin = EO_LOCAL, edTarget = ET_ALL,
              edEntityId = edEntityId d, cdCommand = CCMD_FETCH, cdComponentName = c,
              cdNewValue = getStoredValue db (edEntityId d) c, cdOldValue = QInvalid \<rparr>,
            ceAccepted = False \<rparr>) (qkeys ?m))"
    using assms by (simp add: introspection_processEvent_def introspection_event_data Let_def)
qed

definition example_db :: database where
  "example_db = db_run qt_ref [InsertEntity 7, InsertValue 7 ''U'' (QInt 230)] database_new"

definition example_subscribe :: vein_event where
  "example_subscribe = setPeerId (Uuid 5) (commandEvent_new NOTIFICATION
     (VEntity (setEntityId 7 (ea_setCommand ECMD_SUBSCRIBE entityData_new))))"

theorem introspection_describes_store_witness:
  "\<exists>m names. introspection_processEvent qt_ref example_db fmempty example_subscribe =
      (example_subscribe, \<lparr> cePeerId = Uuid 5, ceSubtype = NOTIFICATION,
            ceData = VIntrospection \<lparr> edOrigin = EO_LOCAL, edTarget = ET_ALL,
              edEntityId = 7, idComponentValues = m, idRpcNames = [] \<rparr>, ceAccepted = False \<rparr> #
          map (\<lambda>c. \<lparr> cePeerId = Uuid 5, ceSubtype = NOTIFICATION,
            ceData = VComponent \<lparr> edOrigin = EO_LOCAL, edTarget = ET_ALL,
              edEntityId = 7, cdCommand = CCMD_FETCH, cdComponentName = c,
              cdNewValue = getStoredValue example_db 7 c, cdOldValue = QInvalid \<rparr>,
            ceAccepted = False \<rparr>) names) \<and> fmlookup m ''U'' = Some (QInt 230)"
proof -
  have *: "getComponentList example_db 7 = [''U'']"
    "map_option (getValue example_db) (findComponent example_db 7 ''U'') = Some (QInt 230)"
    by code_simp+
  show ?thesis
    using introspection_describes_store [of example_subscribe
        "setEntityId 7 (ea_setCommand ECMD_SUBSCRIBE entityData_new)" example_db qt_ref fmempty]
    by (fastforce simp: * example_subscribe_def vein_defs record_glue)
qed

end
