(* ===== verification/NetworkSystem.thy ===== *)
theory NetworkSystem
  imports VeinComponent
begin

text \<open>
  network/vf-net2: the events exchanged with the wire implementations, and
  \<^verbatim>\<open>NetworkSystem\<close>, which turns command events into envelopes for the peers that subscribed to
  their entity and envelopes received into command events of foreign origin. The envelope format
  is generated by flatbuffers and belongs to that library: verification, reading and building of
  an envelope are the fields of \<open>fb_lib\<close>, and \<open>fb_streams\<close> states that a built envelope
  verifies and is read back.
\<close>

section \<open>Events\<close>

record protocol_event =
  peLocalOrigin :: bool
  peBuffer :: qbytearray
  peReceivers :: "quuid list"
  pePeerId :: quuid

definition protocolEvent_new :: "bool \<Rightarrow> protocol_event" where
  "protocolEvent_new loc =
     \<lparr> peLocalOrigin = loc, peBuffer = None, peReceivers = [], pePeerId = null_uuid \<rparr>"

definition pe_setBuffer :: "qbytearray \<Rightarrow> protocol_event \<Rightarrow> protocol_event" where
  "pe_setBuffer b p = p\<lparr>peBuffer := b\<rparr>"

definition pe_setReceivers :: "quuid list \<Rightarrow> protocol_event \<Rightarrow> protocol_event" where
  "pe_setReceivers rs p = p\<lparr>peReceivers := rs\<rparr>"

definition pe_setPeerId :: "quuid \<Rightarrow> protocol_event \<Rightarrow> protocol_event" where
  "pe_setPeerId i p = p\<lparr>pePeerId := i\<rparr>"

lemmas protocol_event_defs [vein_defs] =
  protocolEvent_new_def pe_setBuffer_def pe_setReceivers_def pe_setPeerId_def

datatype network_status = NSE_DISCONNECTED | NSE_SOCKET_ERROR

text \<open>Socket errors are numbers of Qt's enumeration.\<close>

record network_status_event =
  nseStatus :: network_status
  nseSocketError :: int
  nsePeerId :: quuid

definition networkStatusEvent_new :: "network_status \<Rightarrow> quuid \<Rightarrow> network_status_event" where
  "networkStatusEvent_new s i = \<lparr> nseStatus = s, nseSocketError = 0, nsePeerId = i \<rparr>"

definition nse_setError :: "int \<Rightarrow> network_status_event \<Rightarrow> network_status_event" where
  "nse_setError x e = e\<lparr>nseSocketError := x\<rparr>"

text \<open>The events an event system may be offered.\<close>

datatype app_event =
    CmdEv vein_event
  | ProtoEv protocol_event
  | StatusEv network_status_event

section \<open>Envelopes\<close>

record flat_event =
  feCommand :: int
  feDataType :: int
  feEventData :: "bytes option"

record fb_lib =
  fbVerify :: "bytes \<Rightarrow> bool"
  fbEvents :: "bytes \<Rightarrow> flat_event list option"
  fbBuild :: "flat_event list \<Rightarrow> bytes"

definition fb_streams :: "fb_lib \<Rightarrow> flat_event list \<Rightarrow> bool" where
  "fb_streams fb es \<longleftrightarrow> fbVerify fb (fbBuild fb es) \<and> fbEvents fb (fbBuild fb es) = Some es"

text \<open>The subtype enumeration of the envelope has the codes of the event's.\<close>

fun subtype_code :: "event_subtype \<Rightarrow> int" where
  "subtype_code NOTIFICATION = 0"
| "subtype_code TRANSACTION = 1"
| "subtype_code (SUBTYPE_CODE n) = n"

definition subtype_cast :: "int \<Rightarrow> event_subtype" where
  "subtype_cast n = (if n = 0 then NOTIFICATION else if n = 1 then TRANSACTION else SUBTYPE_CODE n)"

section \<open>NetworkSystem\<close>

datatype operation_mode = VNOM_PASS_THROUGH | VNOM_SUBSCRIPTION

record network_system =
  nsOperationMode :: operation_mode
  nsSubscriptions :: "(int, quuid list) qmap"

definition network_system_new :: network_system where
  "network_system_new = \<lparr> nsOperationMode = VNOM_SUBSCRIPTION, nsSubscriptions = fmempty \<rparr>"

definition setOperationMode :: "operation_mode \<Rightarrow> network_system \<Rightarrow> network_system" where
  "setOperationMode m ns = ns\<lparr>nsOperationMode := m\<rparr>"

definition getSubscriberCount :: "network_system \<Rightarrow> int \<Rightarrow> nat" where
  "getSubscriberCount ns i =
     (if \<not> qcontains (nsSubscriptions ns) i then 0 else length (qvalue (nsSubscriptions ns) i []))"

text \<open>
  Reading the payload by its data type. An unknown type leaves the null pointer, which the code
  goes on to use (\<open>None\<close>).
\<close>

definition deserialize_data :: "qt_lib \<Rightarrow> int \<Rightarrow> bytes \<Rightarrow> vein_data option" where
  "deserialize_data qt t bs =
     (if t = VCMP_ENTITYDATA_DATATYPE then Some (VEntity (ea_deserialize bs entityData_new))
      else if t = VCMP_ERRORDATA_DATATYPE then Some (VError (er_deserialize bs errorData_new))
      else if t = VCMP_COMPONENTDATA_DATATYPE
      then Some (VComponent (cd_deserialize qt bs componentData_new))
      else if t = VCMP_INTROSPECTIONDATA_DATATYPE
      then Some (VIntrospection (id_deserialize qt bs introspectionData_new))
      else if t = VCMP_REMOTEPROCEDUREDATA_DATATYPE
      then Some (VRpc (rd_deserialize qt bs rpcData_new))
      else None)"

text \<open>The loop over the events of an envelope; \<open>None\<close> is the use of a null pointer.\<close>

fun read_events :: "qt_lib \<Rightarrow> quuid \<Rightarrow> flat_event list \<Rightarrow> vein_event list option" where
  "read_events qt peer [] = Some []"
| "read_events qt peer (fe # fes) =
     (case feEventData fe of
        None \<Rightarrow> None
      | Some bs \<Rightarrow>
          (case deserialize_data qt (feDataType fe) bs of
             None \<Rightarrow> None
           | Some d \<Rightarrow>
               map_option
                 (\<lambda>es. if vd_isValid d
                       then setPeerId peer (commandEvent_new (subtype_cast (feCommand fe))
                              (vd_setEventOrigin EO_FOREIGN d)) # es
                       else es)
                 (read_events qt peer fes)))"

definition deserializeIncoming :: "fb_lib \<Rightarrow> qt_lib \<Rightarrow> protocol_event \<Rightarrow> vein_event list option" where
  "deserializeIncoming fb qt p =
     (if peLocalOrigin p then Some []
      else let raw = (case peBuffer p of None \<Rightarrow> [] | Some bs \<Rightarrow> bs)
           in if fbVerify fb raw
              then (case fbEvents fb raw of
                      None \<Rightarrow> None
                    | Some es \<Rightarrow> read_events qt (pePeerId p) es)
              else Some [])"

definition prepareEnvelope :: "fb_lib \<Rightarrow> qt_lib \<Rightarrow> vein_event \<Rightarrow> bytes" where
  "prepareEnvelope fb qt e =
     fbBuild fb [\<lparr> feCommand = subtype_code (ceSubtype e), feDataType = vd_type (ceData e),
                   feEventData = Some (vd_serialize qt (ceData e)) \<rparr>]"

definition sendNetworkEvent :: "quuid list \<Rightarrow> bytes \<Rightarrow> protocol_event" where
  "sendNetworkEvent rs bs = pe_setReceivers rs (pe_setBuffer (Some bs) (protocolEvent_new True))"

definition tryAddSubscription ::
  "entity_data \<Rightarrow> quuid \<Rightarrow> network_system \<Rightarrow> network_system \<times> bool" where
  "tryAddSubscription d peer ns =
     (if eaCommand d = ECMD_SUBSCRIBE
      then let cur = qvalue (nsSubscriptions ns) (edEntityId d) [];
               cur' = (if peer \<notin> set cur then cur @ [peer] else cur)
           in (ns\<lparr>nsSubscriptions := fmupd (edEntityId d) cur' (nsSubscriptions ns)\<rparr>, True)
      else (ns, False))"

text \<open>State, event and protocol events sent.\<close>

definition processCmdEvents ::
  "fb_lib \<Rightarrow> qt_lib \<Rightarrow> network_system \<Rightarrow> vein_event \<Rightarrow>
   network_system \<times> vein_event \<times> protocol_event list" where
  "processCmdEvents fb qt ns e =
     (let peer = cePeerId e; d = ceData e; i = vd_entityId d in
      if vd_origin d = EO_LOCAL \<and> vd_target d = ET_ALL
      then (case nsOperationMode ns of
              VNOM_PASS_THROUGH \<Rightarrow>
                (ns, e, [sendNetworkEvent (if peer \<noteq> null_uuid then [peer] else [])
                           (prepareEnvelope fb qt e)])
            | VNOM_SUBSCRIPTION \<Rightarrow>
                (let (ns1, isSubscription) =
                       (case d of
                          VEntity ed \<Rightarrow>
                            if ceSubtype e = NOTIFICATION then tryAddSubscription ed peer ns
                            else (ns, False)
                        | _ \<Rightarrow> (ns, False))
                 in if isSubscription then (ns1, accept e, [])
                    else if qcontains (nsSubscriptions ns1) i
                    then let subs = qvalue (nsSubscriptions ns1) i [];
                             receivers =
                               (if vd_type d = VCMP_INTROSPECTIONDATA_DATATYPE \<or>
                                   vd_type d = VCMP_REMOTEPROCEDUREDATA_DATATYPE
                                then [peer] else subs);
                             out = (if receivers \<noteq> []
                                    then [sendNetworkEvent receivers (prepareEnvelope fb qt e)]
                                    else []);
                             ns2 = (case d of
                                      VEntity ed \<Rightarrow>
                                        if eaCommand ed = ECMD_UNSUBSCRIBE
                                        then ns1\<lparr>nsSubscriptions :=
                                               fmupd i (removeAll peer subs) (nsSubscriptions ns1)\<rparr>
                                        else if eaCommand ed = ECMD_REMOVE
                                        then ns1\<lparr>nsSubscriptions := fmdrop i (nsSubscriptions ns1)\<rparr>
                                        else ns1
                                    | _ \<Rightarrow> ns1)
                         in (ns2, e, out)
                    else (ns1, e, [])))
      else (ns, e, []))"

text \<open>The loop over the entities when a peer has gone.\<close>

definition drop_subscriber ::
  "quuid \<Rightarrow> int \<Rightarrow> (int, quuid list) qmap \<Rightarrow> (int, quuid list) qmap" where
  "drop_subscriber peer i m =
     (let subs = qvalue m i [] in
      if peer \<in> set subs then fmupd i (removeAll peer subs) m else m)"

definition handleNetworkStatusEvent :: "network_status_event \<Rightarrow> network_system \<Rightarrow> network_system" where
  "handleNetworkStatusEvent s ns =
     (case nseStatus s of
        NSE_DISCONNECTED \<Rightarrow>
          ns\<lparr>nsSubscriptions :=
               fold (drop_subscriber (nsePeerId s)) (qkeys (nsSubscriptions ns)) (nsSubscriptions ns)\<rparr>
      | NSE_SOCKET_ERROR \<Rightarrow> ns)"

definition networkSystem_processEvent ::
  "fb_lib \<Rightarrow> qt_lib \<Rightarrow> network_system \<Rightarrow> app_event \<Rightarrow>
   (network_system \<times> app_event \<times> app_event list) option" where
  "networkSystem_processEvent fb qt ns ev =
     (case ev of
        ProtoEv p \<Rightarrow> map_option (\<lambda>es. (ns, ev, map CmdEv es)) (deserializeIncoming fb qt p)
      | CmdEv e \<Rightarrow>
          (let (ns', e', out) = processCmdEvents fb qt ns e in Some (ns', CmdEv e', map ProtoEv out))
      | StatusEv s \<Rightarrow> Some (handleNetworkStatusEvent s ns, ev, []))"

section \<open>Subscriptions\<close>

text \<open>The abstract state: who is subscribed to what. No peer is listed twice.\<close>

definition subs_abs :: "network_system \<Rightarrow> (int \<times> quuid) set" where
  "subs_abs ns = {(i, p). p \<in> set (qvalue (nsSubscriptions ns) i [])}"

definition subs_ok :: "network_system \<Rightarrow> bool" where
  "subs_ok ns \<longleftrightarrow> (\<forall>i. distinct (qvalue (nsSubscriptions ns) i []))"

lemma subs_abs_iff: "(i, p) \<in> subs_abs ns \<longleftrightarrow> p \<in> set (qvalue (nsSubscriptions ns) i [])"
  by (simp add: subs_abs_def)

lemma network_system_new_ok [inv_intros]: "subs_ok network_system_new"
  by (simp add: subs_ok_def network_system_new_def)

lemma drop_subscriber_value:
  "qvalue (drop_subscriber p i m) j [] = (if j = i then removeAll p (qvalue m j []) else qvalue m j [])"
  by (auto simp: drop_subscriber_def Let_def)

lemma drop_subscribers_value:
  "qvalue (fold (drop_subscriber p) is m) j [] =
     (if j \<in> set is then removeAll p (qvalue m j []) else qvalue m j [])"
  by (induction "is" arbitrary: m) (auto simp: drop_subscriber_value)

lemma drop_all_value:
  "qvalue (fold (drop_subscriber p) (qkeys m) m) j [] = removeAll p (qvalue m j [])"
  by (cases "j |\<in>| fmdom m") (simp_all add: drop_subscribers_value qvalue_None fmdom_notD)

text \<open>What an event means for the subscriptions.\<close>

definition event_subs :: "app_event \<Rightarrow> (int \<times> quuid) set \<Rightarrow> (int \<times> quuid) set" where
  "event_subs ev S =
     (case ev of
        StatusEv s \<Rightarrow>
          (if nseStatus s = NSE_DISCONNECTED then S - {(i, p). p = nsePeerId s} else S)
      | CmdEv e \<Rightarrow>
          (case ceData e of
             VEntity d \<Rightarrow>
               (if edOrigin d = EO_LOCAL \<and> edTarget d = ET_ALL
                then if ceSubtype e = NOTIFICATION \<and> eaCommand d = ECMD_SUBSCRIBE
                     then insert (edEntityId d, cePeerId e) S
                     else if eaCommand d = ECMD_UNSUBSCRIBE then S - {(edEntityId d, cePeerId e)}
                     else if eaCommand d = ECMD_REMOVE then S - {(i, p). i = edEntityId d}
                     else S
                else S)
           | _ \<Rightarrow> S)
      | ProtoEv p \<Rightarrow> S)"

text \<open>
  In subscription mode a command event changes only the list of its entity; the cases below are
  the whole effect.
\<close>

lemma processCmdEvents_subs:
  assumes "nsOperationMode ns = VNOM_SUBSCRIPTION"
  shows "qvalue (nsSubscriptions (fst (processCmdEvents fb qt ns e))) i [] =
    (case ceData e of
       VEntity d \<Rightarrow>
         (let subs = qvalue (nsSubscriptions ns) i [] in
          if edOrigin d = EO_LOCAL \<and> edTarget d = ET_ALL \<and> i = edEntityId d
          then if ceSubtype e = NOTIFICATION \<and> eaCommand d = ECMD_SUBSCRIBE
               then append_new (cePeerId e) subs
               else if eaCommand d = ECMD_UNSUBSCRIBE then removeAll (cePeerId e) subs
               else if eaCommand d = ECMD_REMOVE then [] else subs
          else subs)
     | _ \<Rightarrow> qvalue (nsSubscriptions ns) i [])"
proof (cases "ceData e")
  case (VEntity d)
  then show ?thesis
    using assms
    by (auto simp: processCmdEvents_def tryAddSubscription_def append_new_def Let_def qvalue_None
        fmdom_notD)
qed (use assms in \<open>simp_all add: processCmdEvents_def Let_def\<close>)

lemma networkSystem_subs_ok [inv_intros]:
  assumes "subs_ok ns" and "networkSystem_processEvent fb qt ns ev = Some (ns', ev', out)"
    and "nsOperationMode ns = VNOM_SUBSCRIPTION"
  shows "subs_ok ns'"
proof (cases ev)
  case (CmdEv e)
  then have "ns' = fst (processCmdEvents fb qt ns e)"
    using assms(2) by (simp add: networkSystem_processEvent_def split_beta)
  then show ?thesis
    using assms(1) processCmdEvents_subs [OF assms(3), of fb qt e]
    by (auto simp: subs_ok_def Let_def distinct_removeAll split: vein_data.splits)
next
  case (ProtoEv p)
  then show ?thesis using assms by (auto simp: networkSystem_processEvent_def)
next
  case (StatusEv s)
  then show ?thesis
    using assms
    by (auto simp: networkSystem_processEvent_def handleNetworkStatusEvent_def subs_ok_def
        drop_all_value distinct_removeAll split: network_status.splits)
qed

lemma processCmdEvents_mode [simp]:
  "nsOperationMode (fst (processCmdEvents fb qt ns e)) = nsOperationMode ns"
  by (auto simp: processCmdEvents_def tryAddSubscription_def Let_def split_beta
      split: operation_mode.splits vein_data.splits)

lemma network_mode_kept:
  "networkSystem_processEvent fb qt ns ev = Some (ns', ev', out) \<Longrightarrow>
   nsOperationMode ns' = nsOperationMode ns"
  by (auto simp: networkSystem_processEvent_def handleNetworkStatusEvent_def split_beta
      split: app_event.splits network_status.splits)

section \<open>The wire\<close>

lemma subtype_cast_code: "subtype_cast (subtype_code st) = st" if "st \<in> {NOTIFICATION, TRANSACTION}"
  using that by (auto simp: subtype_cast_def)

text \<open>Every payload is read back by its data type, with the local members reset.\<close>

lemma deserialize_serialize:
  "vd_wf qt d \<Longrightarrow> deserialize_data qt (vd_type d) (vd_serialize qt d) =
     Some (vd_setEventTarget ET_IRRELEVANT (vd_setEventOrigin EO_LOCAL d))"
  by (cases d)
     (simp_all add: deserialize_data_def datatype_ids cd_roundtrip ea_roundtrip id_roundtrip
       rd_roundtrip er_roundtrip setEventOrigin_def setEventTarget_def)

lemma vd_isValid_setters [simp]:
  "vd_isValid (vd_setEventTarget t d) = vd_isValid d" "vd_isValid (vd_setEventOrigin eo d) = vd_isValid d"
  by (cases d; simp add: setEventOrigin_def setEventTarget_def vein_defs cong: component_command.case_cong
      entity_command.case_cong)+

lemma vd_setters_absorb [simp]:
  "vd_setEventOrigin eo (vd_setEventTarget t (vd_setEventOrigin eo' d)) =
   vd_setEventTarget t (vd_setEventOrigin eo d)"
  by (cases d) (simp_all add: setEventOrigin_def setEventTarget_def)

section \<open>Properties\<close>

lemma envelope_read_back:
  assumes "vd_wf qt (ceData e)" and "vd_isValid (ceData e)"
    and "ceSubtype e \<in> {NOTIFICATION, TRANSACTION}"
    and "fb_streams fb [\<lparr> feCommand = subtype_code (ceSubtype e), feDataType = vd_type (ceData e),
           feEventData = Some (vd_serialize qt (ceData e)) \<rparr>]"
    and "\<not> peLocalOrigin p" and "peBuffer p = Some (prepareEnvelope fb qt e)"
  shows "deserializeIncoming fb qt p =
    Some [\<lparr> cePeerId = pePeerId p, ceSubtype = ceSubtype e,
            ceData = vd_setEventTarget ET_IRRELEVANT (vd_setEventOrigin EO_FOREIGN (ceData e)),
            ceAccepted = False \<rparr>]"
  using assms
  by (simp add: deserializeIncoming_def prepareEnvelope_def fb_streams_def deserialize_serialize
      subtype_cast_code vein_defs)

text \<open>
  C12. Round trip over the wire: a valid event put into an envelope on one side and received
  on the other side over a connection arrives as one event of the same subtype and content,
  marked as foreign, with the connection's peer as its sender.
\<close>

theorem envelope_roundtrip:
  assumes "vd_wf qt (ceData e)" and "vd_isValid (ceData e)"
    and "ceSubtype e \<in> {NOTIFICATION, TRANSACTION}"
    and "fb_streams fb [\<lparr> feCommand = subtype_code (ceSubtype e), feDataType = vd_type (ceData e),
           feEventData = Some (vd_serialize qt (ceData e)) \<rparr>]"
    and "\<not> peLocalOrigin p" and "peBuffer p = Some (prepareEnvelope fb qt e)"
  shows "deserializeIncoming fb qt p =
    Some [\<lparr> cePeerId = pePeerId p, ceSubtype = ceSubtype e,
            ceData = vd_setEventTarget ET_IRRELEVANT (vd_setEventOrigin EO_FOREIGN (ceData e)),
            ceAccepted = False \<rparr>]"
  using assms by (rule envelope_read_back)

definition fb_one :: "flat_event \<Rightarrow> fb_lib" where
  "fb_one fe = \<lparr> fbVerify = (\<lambda>bs. bs = [1]), fbEvents = (\<lambda>bs. Some [fe]), fbBuild = (\<lambda>es. [1]) \<rparr>"

lemma fb_one_streams [simp]: "fb_streams (fb_one fe) [fe]"
  by (simp add: fb_streams_def fb_one_def)

definition example_event :: vein_event where
  "example_event = commandEvent_new TRANSACTION
     (VComponent ((componentData_for 7 CCMD_SET)\<lparr>cdComponentName := ''U'', cdNewValue := QBool True\<rparr>))"

definition example_fb :: fb_lib where
  "example_fb = fb_one \<lparr> feCommand = 1, feDataType = 0,
     feEventData = Some (vd_serialize qt_ref (ceData example_event)) \<rparr>"

theorem envelope_roundtrip_witness:
  "deserializeIncoming example_fb qt_ref
     \<lparr> peLocalOrigin = False, peBuffer = Some (prepareEnvelope example_fb qt_ref example_event),
       peReceivers = [], pePeerId = Uuid 9 \<rparr> =
   Some [\<lparr> cePeerId = Uuid 9, ceSubtype = TRANSACTION,
           ceData = vd_setEventTarget ET_IRRELEVANT (vd_setEventOrigin EO_FOREIGN (ceData example_event)),
           ceAccepted = False \<rparr>]"
proof -
  have "ceSubtype example_event = TRANSACTION" "vd_type (ceData example_event) = 0"
    "vd_isValid (ceData example_event)"
    by (simp_all add: example_event_def vein_defs datatype_ids record_glue)
  moreover have "vd_wf qt_ref (ceData example_event)"
    by (simp add: example_event_def vein_defs record_glue cd_wf_def qstring_wf_def entity_id_wf_def)
  ultimately show ?thesis
    using envelope_roundtrip [of qt_ref example_event example_fb
        "\<lparr> peLocalOrigin = False, peBuffer = Some (prepareEnvelope example_fb qt_ref example_event),
           peReceivers = [], pePeerId = Uuid 9 \<rparr>"]
    by (simp add: example_fb_def)
qed

text \<open>
  C11. Subscriptions: in subscription mode the set of (entity, peer) pairs the network system
  keeps changes exactly as the events say: a local subscribe notification adds the sender's pair,
  an unsubscribe removes it, the removal of an entity removes all its pairs, the disconnection of
  a peer removes all of that peer's, and nothing else changes it.
\<close>

theorem subscriptions_refine:
  assumes "networkSystem_processEvent fb qt ns ev = Some (ns', ev', out)"
    and "nsOperationMode ns = VNOM_SUBSCRIPTION"
  shows "subs_abs ns' = event_subs ev (subs_abs ns)"
proof (cases ev)
  case (CmdEv e)
  then have ns': "ns' = fst (processCmdEvents fb qt ns e)"
    using assms(1) by (simp add: networkSystem_processEvent_def split_beta)
  have "(i, p) \<in> subs_abs ns' \<longleftrightarrow> (i, p) \<in> event_subs ev (subs_abs ns)" for i p
    by (auto simp: CmdEv event_subs_def subs_abs_iff ns' processCmdEvents_subs [OF assms(2)] Let_def
        split: vein_data.splits)
  then show ?thesis by auto
next
  case (ProtoEv p)
  then show ?thesis using assms by (auto simp: networkSystem_processEvent_def event_subs_def)
next
  case (StatusEv s)
  then show ?thesis
    using assms
    by (auto simp: networkSystem_processEvent_def handleNetworkStatusEvent_def event_subs_def
        subs_abs_def drop_all_value split: network_status.splits)
qed

theorem subscriptions_refine_witness:
  "subs_abs (fst (the (networkSystem_processEvent example_fb qt_ref network_system_new
      (CmdEv (setPeerId (Uuid 5) (commandEvent_new NOTIFICATION (VEntity (setEventTarget ET_ALL
         (setEntityId 7 (ea_setCommand ECMD_SUBSCRIBE entityData_new)))))))))) = {(7, Uuid 5)}"
    (is "subs_abs (fst (the (?run ?ev))) = _")
proof -
  obtain ns' ev' out where r: "?run ?ev = Some (ns', ev', out)"
    by (simp add: networkSystem_processEvent_def split_beta)
  then show ?thesis
    using subscriptions_refine [OF r]
    by (simp add: event_subs_def vein_defs record_glue network_system_new_def subs_abs_def)
qed

text \<open>
  Addressing: in subscription mode an event leaves the host only if it is of local origin,
  meant for all, and its entity has a subscription list; at most one envelope is sent for it.
  Introspection and procedure events go to the peer of the event alone, all other events to
  exactly the subscribers of the entity, none of them twice.
\<close>

theorem envelope_receivers:
  assumes "subs_ok ns" and "nsOperationMode ns = VNOM_SUBSCRIPTION"
    and "p \<in> set (snd (snd (processCmdEvents fb qt ns e)))"
  shows "peLocalOrigin p \<and> peBuffer p = Some (prepareEnvelope fb qt e) \<and>
    vd_origin (ceData e) = EO_LOCAL \<and> vd_target (ceData e) = ET_ALL \<and>
    qcontains (nsSubscriptions ns) (vd_entityId (ceData e)) \<and>
    length (snd (snd (processCmdEvents fb qt ns e))) = 1 \<and>
    (if vd_type (ceData e) \<in> {VCMP_INTROSPECTIONDATA_DATATYPE, VCMP_REMOTEPROCEDUREDATA_DATATYPE}
     then peReceivers p = [cePeerId e]
     else distinct (peReceivers p) \<and>
          set (peReceivers p) = {q. (vd_entityId (ceData e), q) \<in> subs_abs ns})"
  using assms
  by (cases "ceData e")
     (auto simp: processCmdEvents_def sendNetworkEvent_def tryAddSubscription_def vein_defs Let_def
       subs_abs_def subs_ok_def datatype_ids split: if_splits)

definition example_network :: network_system where
  "example_network = network_system_new\<lparr>nsSubscriptions := fmupd 7 [Uuid 5, Uuid 6] fmempty\<rparr>"

definition example_notify :: vein_event where
  "example_notify = commandEvent_new NOTIFICATION (VComponent (setEventTarget ET_ALL
     ((componentData_for 7 CCMD_SET)\<lparr>cdComponentName := ''U'', cdNewValue := QBool True\<rparr>)))"

theorem envelope_receivers_witness:
  "set (peReceivers (hd (snd (snd (processCmdEvents example_fb qt_ref example_network example_notify))))) =
     {Uuid 5, Uuid 6}"
proof -
  have out: "snd (snd (processCmdEvents example_fb qt_ref example_network example_notify)) \<noteq> []"
    by (simp add: processCmdEvents_def example_network_def example_notify_def network_system_new_def
        vein_defs record_glue Let_def datatype_ids)
  have net: "subs_ok example_network" "nsOperationMode example_network = VNOM_SUBSCRIPTION"
    "{q. (7, q) \<in> subs_abs example_network} = {Uuid 5, Uuid 6}"
    by (auto simp: subs_abs_def subs_ok_def example_network_def network_system_new_def
        split: if_splits)
  have "vd_entityId (ceData example_notify) = 7" "vd_type (ceData example_notify) = 0"
    by (simp_all add: example_notify_def vein_defs record_glue datatype_ids)
  then show ?thesis
    using envelope_receivers [OF net(1,2) list.set_sel(1) [OF out]] net(3)
    by (simp add: datatype_ids)
qed





section \<open>What a peer can send\<close>

lemma get_qint32_range [simp]: "int32_range (fst (get_qint32 st))"
  using sint_ge [of "fst (get_quint32 st)"] sint_lt [of "fst (get_quint32 st)"]
  by (simp add: get_qint32_def int32_range_def split_beta)

lemma setEntityId_typed:
  "int32_range i \<Longrightarrow> edEntityId d = -1 \<Longrightarrow> entity_id_wf (edEntityId (setEntityId i d))"
  by (auto simp: setEntityId_def entity_id_wf_def int32_range_def)

lemma setEntityId_target [simp]: "edTarget (setEntityId i d) = edTarget d"
  by (simp add: setEntityId_def)

text \<open>A fresh object that was read from any bytes has a 32-bit identifier and no target.\<close>

lemma deserialize_typed:
  assumes "deserialize_data qt t bs = Some d"
  shows "entity_id_wf (vd_entityId d) \<and> vd_target d = ET_IRRELEVANT"
  using assms
  by (auto simp: deserialize_data_def cd_deserialize_def ea_deserialize_def id_deserialize_def
      rd_deserialize_def er_deserialize_def Let_def split_beta event_data_new_def record_glue
      componentData_new_def entityData_new_def introspectionData_new_def rpcData_new_def
      errorData_new_def intro!: setEntityId_typed split: if_splits)

definition payload_typed :: "vein_data \<Rightarrow> bool" where
  "payload_typed vd \<longleftrightarrow>
     (case vd of
        VComponent d \<Rightarrow> cdCommand d \<in> {CCMD_ADD, CCMD_REMOVE, CCMD_SET, CCMD_FETCH}
      | VEntity d \<Rightarrow> eaCommand d \<in> {ECMD_ADD, ECMD_REMOVE, ECMD_SUBSCRIBE, ECMD_UNSUBSCRIBE}
      | VIntrospection d \<Rightarrow> idComponentValues d \<noteq> fmempty \<and> edEntityId d \<ge> 0
      | VError d \<Rightarrow> erOriginalData d \<notin> {None, Some []} \<and> erErrorDescription d \<noteq> ''''
      | VRpc d \<Rightarrow> rdProcedureName d \<noteq> '''' \<and> edEntityId d \<ge> 0 \<and> rdCommand d \<noteq> RPCMD_INVALID)"

lemma valid_payload_typed: "vd_isValid d \<Longrightarrow> payload_typed d"
  by (cases d) (auto simp: payload_typed_def vein_defs split: component_command.splits
      entity_command.splits option.splits)

definition received_typed :: "quuid \<Rightarrow> vein_event \<Rightarrow> bool" where
  "received_typed peer e \<longleftrightarrow>
     cePeerId e = peer \<and> \<not> ceAccepted e \<and> vd_origin (ceData e) = EO_FOREIGN \<and>
     vd_target (ceData e) = ET_IRRELEVANT \<and> entity_id_wf (vd_entityId (ceData e)) \<and>
     vd_isValid (ceData e) \<and> payload_typed (ceData e)"

lemma read_events_typed:
  "read_events qt peer fes = Some es \<Longrightarrow> list_all (received_typed peer) es"
proof (induction fes arbitrary: es)
  case (Cons fe fes)
  then obtain bs d es' where d: "feEventData fe = Some bs"
      "deserialize_data qt (feDataType fe) bs = Some d" "read_events qt peer fes = Some es'"
      "es = (if vd_isValid d
             then setPeerId peer (commandEvent_new (subtype_cast (feCommand fe))
                    (vd_setEventOrigin EO_FOREIGN d)) # es'
             else es')"
    by (auto split: option.splits)
  have "received_typed peer (setPeerId peer (commandEvent_new st (vd_setEventOrigin EO_FOREIGN d)))"
    if "vd_isValid d" for st
    using that deserialize_typed [OF d(2)]
    by (simp add: received_typed_def valid_payload_typed vd_isValid_setters commandEvent_new_def setPeerId_def)
  then show ?case using Cons.IH [OF d(3)] d(4) by simp
qed simp

lemma deserializeIncoming_typed:
  "deserializeIncoming fb qt p = Some es \<Longrightarrow> list_all (received_typed (pePeerId p)) es"
  using read_events_typed
  by (auto simp: deserializeIncoming_def Let_def split: if_splits option.splits)

text \<open>
  C18. Whatever bytes a peer sends, every event the network system takes from its envelope is
  well typed: it is marked as foreign, not yet accepted and without a target, its sender is the
  peer of the connection and not a claim of the envelope, its entity identifier is -1 or a
  non-negative 32-bit number, and its payload is valid by the class's own test. The command of a
  component or an entity is one of the four that have a meaning; introspection data have values and
  an entity, an error has data and a description, a call has a procedure, an entity and a command
  other than the invalid one. What is not checked stays open: the command of a call and the subtype
  of the event may be codes that stand for nothing.
\<close>

theorem received_events_typed:
  assumes "deserializeIncoming fb qt p = Some es"
  shows "list_all (received_typed (pePeerId p)) es"
  using assms by (rule deserializeIncoming_typed)

theorem received_events_typed_witness:
  "received_typed (Uuid 9) (hd (the (deserializeIncoming example_fb qt_ref
     \<lparr> peLocalOrigin = False, peBuffer = Some (prepareEnvelope example_fb qt_ref example_event),
       peReceivers = [], pePeerId = Uuid 9 \<rparr>)))"
proof -
  let ?p = "\<lparr> peLocalOrigin = False, peBuffer = Some (prepareEnvelope example_fb qt_ref example_event),
    peReceivers = [], pePeerId = Uuid 9 \<rparr>"
  have "ceSubtype example_event = TRANSACTION" "vd_type (ceData example_event) = 0"
    "vd_isValid (ceData example_event)" "vd_wf qt_ref (ceData example_event)"
    by (simp_all add: example_event_def vein_defs datatype_ids record_glue cd_wf_def qstring_wf_def
        entity_id_wf_def)
  then have "\<exists>e. deserializeIncoming example_fb qt_ref ?p = Some [e]"
    using envelope_read_back [of qt_ref example_event example_fb ?p]
    by (simp add: example_fb_def)
  then obtain e where "deserializeIncoming example_fb qt_ref ?p = Some [e]" by blast
  then show ?thesis using received_events_typed [of example_fb qt_ref ?p "[e]"] by simp
qed

end
