(* ===== verification/Tcp.thy ===== *)
theory Tcp
  imports NetworkSystem
begin

text \<open>
  network/vf-tcp and \<^verbatim>\<open>TcpSystem\<close> of network/vf-net2: the peer worker frames messages on a
  socket as \<^verbatim>\<open>QByteArray\<close>s and takes complete frames out of the received bytes; the server worker
  keeps the list of its clients; the TCP system gives each peer an identifier with its first
  message and exchanges protocol events with the peers. A socket is the bytes received and not
  yet consumed, the bytes written, and whether it is connected. The lemmas show that messages
  arrive whole and in order however the stream is cut into chunks.
\<close>

section \<open>TcpPeerWorker\<close>

record tcp_worker =
  twPeerId :: quuid
  twConnected :: bool
  twReceived :: bytes
  twWritten :: bytes

definition tcpPeerWorker_new :: tcp_worker where
  "tcpPeerWorker_new =
     \<lparr> twPeerId = null_uuid, twConnected = False, twReceived = [], twWritten = [] \<rparr>"

definition writeRaw :: "bytes \<Rightarrow> tcp_worker \<Rightarrow> tcp_worker" where
  "writeRaw bs w = w\<lparr>twWritten := twWritten w @ bs\<rparr>"

definition sendArray :: "qbytearray \<Rightarrow> tcp_worker \<Rightarrow> tcp_worker" where
  "sendArray a w =
     (if \<not> twConnected w then w else w\<lparr>twWritten := twWritten w @ put_qbytearray a\<rparr>)"

definition tw_setPeerId :: "quuid \<Rightarrow> tcp_worker \<Rightarrow> tcp_worker" where
  "tw_setPeerId i w = w\<lparr>twPeerId := i\<rparr>"

text \<open>
  One read: a failed read rolls the transaction back and yields the null array, as does a frame
  that holds the null array, which is consumed.
\<close>

definition readArray :: "bytes \<Rightarrow> qbytearray \<times> bytes" where
  "readArray bs =
     (let (v, rest, ok) = get_qbytearray (bs, True) in if ok then (v, rest) else (None, bs))"

lemma readArray_consumes: "readArray bs = (Some m, rest) \<Longrightarrow> length rest < length bs"
  by (auto simp: readArray_def get_qbytearray_def get_quint32_def Let_def split: if_splits)

text \<open>The loop of \<^verbatim>\<open>onReadyRead\<close>: the messages signalled and the bytes left.\<close>

function onReadyRead :: "bytes \<Rightarrow> bytes list \<times> bytes" where
  "onReadyRead bs =
     (case readArray bs of
        (None, rest) \<Rightarrow> ([], rest)
      | (Some m, rest) \<Rightarrow> (let (ms, r) = onReadyRead rest in (m # ms, r)))"
  by auto
termination by (relation "measure length") (simp_all, metis readArray_consumes)

declare onReadyRead.simps [simp del]

text \<open>Bytes arrive on the socket and \<^verbatim>\<open>readyRead\<close> is signalled.\<close>

definition receive :: "bytes \<Rightarrow> tcp_worker \<Rightarrow> tcp_worker \<times> bytes list" where
  "receive chunk w =
     (let (ms, r) = onReadyRead (twReceived w @ chunk) in (w\<lparr>twReceived := r\<rparr>, ms))"

fun receive_all :: "bytes list \<Rightarrow> tcp_worker \<Rightarrow> tcp_worker \<times> bytes list" where
  "receive_all [] w = (w, [])"
| "receive_all (c # cs) w =
     (let (w1, ms1) = receive c w; (w2, ms2) = receive_all cs w1 in (w2, ms1 @ ms2))"

section \<open>Framing\<close>

definition frame :: "bytes \<Rightarrow> bytes" where
  "frame m = put_qbytearray (Some m)"

definition frames :: "bytes list \<Rightarrow> bytes" where
  "frames ms = concat (map frame ms)"

definition message_ok :: "bytes \<Rightarrow> bool" where
  "message_ok m \<longleftrightarrow> length m < 2 ^ 32 - 1"

lemma frames_simps [simp]: "frames [] = []" "frames (m # ms) = frame m @ frames ms"
  by (simp_all add: frames_def)

lemma length_frame: "length (frame m) = 4 + length m"
  by (simp add: frame_def put_qbytearray_def)

lemma frame_nonempty [simp]: "frame m \<noteq> []"
  using length_frame [of m] by auto

lemma readArray_frame: "message_ok m \<Longrightarrow> readArray (frame m @ r) = (Some m, r)"
  using qba.get_put [of "Some m" r True]
  by (simp add: readArray_def frame_def message_ok_def qbytearray_wf_def)

lemma readArray_short:
  assumes "message_ok m" and "frame m = bs @ s" and "s \<noteq> []"
  shows "readArray bs = (None, bs)"
proof (cases "length bs < 4")
  case True
  then show ?thesis
    by (auto simp: readArray_def get_qbytearray_def get_quint32_def null_len_def)
next
  case False
  let ?n = "of_nat (length m) :: 32 word"
  have eq: "be32 ?n @ m = bs @ s"
    using assms(2) by (simp add: frame_def put_qbytearray_def)
  then have "take 4 (bs @ s) = be32 ?n" by (metis append_eq_conv_conj length_be32)
  then have head: "take 4 bs = be32 ?n" using False by simp
  then have "bs = be32 ?n @ drop 4 bs" by (metis append_take_drop_id)
  then have "get_quint32 (bs, True) = (?n, drop 4 bs, True)" by (metis get_quint32_be32)
  moreover have "m = drop 4 bs @ s"
    using eq head False
    by (metis append.assoc append_eq_append_conv append_take_drop_id)
  then have "length (drop 4 bs) < length m" using assms(3) by simp
  ultimately show ?thesis
    using assms(1)
    by (auto simp: readArray_def get_qbytearray_def message_ok_def of_nat32_not_null)
qed

text \<open>
  Reading a prefix of a stream of frames delivers the complete messages and keeps the rest.
\<close>

lemma onReadyRead_prefix:
  assumes "\<forall>m \<in> set ms. message_ok m" and "bs @ rest = frames ms"
  shows "\<exists>k r. onReadyRead bs = (take k ms, r) \<and> r @ rest = frames (drop k ms) \<and>
    (rest = [] \<longrightarrow> k = length ms)"
  using assms
proof (induction ms arbitrary: bs)
  case Nil
  then have "onReadyRead bs = ([], [])"
    by (subst onReadyRead.simps) (simp add: readArray_def get_qbytearray_def get_quint32_def null_len_def)
  then show ?case using Nil by simp
next
  case (Cons m ms)
  have m: "message_ok m" using Cons.prems(1) by simp
  have eq: "bs @ rest = frame m @ frames ms" using Cons.prems(2) by simp
  show ?case
  proof (cases "length (frame m) \<le> length bs")
    case True
    obtain us where "bs = frame m @ us \<and> us @ rest = frames ms \<or>
        bs @ us = frame m \<and> rest = us @ frames ms"
      using eq unfolding append_eq_append_conv2 by blast
    moreover have "us = []" if "bs @ us = frame m"
      using that True by (metis append.right_neutral append_eq_append_conv2 length_append
          le_antisym le_add1 append_eq_conv_conj take_all)
    ultimately obtain bs' where bs: "bs = frame m @ bs'" "bs' @ rest = frames ms"
      by fastforce
    obtain k r where IH: "onReadyRead bs' = (take k ms, r)" "r @ rest = frames (drop k ms)"
      "rest = [] \<longrightarrow> k = length ms"
      using Cons.IH [of bs'] Cons.prems(1) bs(2) by auto
    have "onReadyRead bs = (m # take k ms, r)"
      using IH(1) m bs(1) by (subst onReadyRead.simps) (simp add: readArray_frame)
    then show ?thesis using IH by (intro exI [of _ "Suc k"] exI [of _ r]) simp
  next
    case False
    obtain s where "bs = frame m @ s \<and> s @ rest = frames ms \<or>
        bs @ s = frame m \<and> rest = s @ frames ms"
      using eq unfolding append_eq_append_conv2 by blast
    then have s: "frame m = bs @ s" "rest = s @ frames ms" using False by auto
    then have "s \<noteq> []" using False by auto
    then have "onReadyRead bs = ([], bs)"
      using readArray_short [OF m s(1)] by (subst onReadyRead.simps) simp
    then show ?thesis using s \<open>s \<noteq> []\<close> by (intro exI [of _ 0] exI [of _ bs]) simp
  qed
qed

lemma receive_frames:
  assumes "\<forall>m \<in> set ms. message_ok m" and "twReceived w @ concat cs = frames ms" and "cs \<noteq> []"
  shows "receive_all cs w = (w\<lparr>twReceived := []\<rparr>, ms)"
  using assms
proof (induction cs arbitrary: w ms)
  case Nil
  then show ?case by simp
next
  case (Cons c cs)
  have "(twReceived w @ c) @ concat cs = frames ms" using Cons.prems(2) by simp
  then obtain k r where k: "onReadyRead (twReceived w @ c) = (take k ms, r)"
    "r @ concat cs = frames (drop k ms)" "concat cs = [] \<longrightarrow> k = length ms"
    using onReadyRead_prefix [OF Cons.prems(1)] by blast
  show ?case
  proof (cases "cs = []")
    case True
    then show ?thesis using k by (simp add: receive_def)
  next
    case False
    have "\<forall>m \<in> set (drop k ms). message_ok m"
      using Cons.prems(1) by (meson in_set_dropD)
    then have "receive_all cs (w\<lparr>twReceived := r\<rparr>) = (w\<lparr>twReceived := []\<rparr>, drop k ms)"
      using Cons.IH [of "drop k ms" "w\<lparr>twReceived := r\<rparr>"] k(2) False by simp
    then show ?thesis using k(1) by (simp add: receive_def)
  qed
qed

section \<open>Server worker and TcpSystem\<close>

text \<open>
  Peers are named by numbers; the map holds the worker of every peer that exists. Both lists of
  the TCP system and the list of the server worker name peers.
\<close>

type_synonym peer = nat

record tcp_system =
  tsWorkers :: "(peer, tcp_worker) qmap"
  tsClients :: "peer list"
  tsWaitingAuth :: "peer list"
  tsPeerList :: "(quuid, peer) qmap"

definition tcp_system_new :: tcp_system where
  "tcp_system_new =
     \<lparr> tsWorkers = fmempty, tsClients = [], tsWaitingAuth = [], tsPeerList = fmempty \<rparr>"

definition on_worker :: "peer \<Rightarrow> (tcp_worker \<Rightarrow> tcp_worker) \<Rightarrow> tcp_system \<Rightarrow> tcp_system" where
  "on_worker p f ts =
     (case fmlookup (tsWorkers ts) p of
        None \<Rightarrow> ts
      | Some w \<Rightarrow> ts\<lparr>tsWorkers := fmupd p (f w) (tsWorkers ts)\<rparr>)"

definition worker_id :: "tcp_system \<Rightarrow> peer \<Rightarrow> quuid" where
  "worker_id ts p = twPeerId (qvalue (tsWorkers ts) p tcpPeerWorker_new)"

definition sendMessage :: "peer \<Rightarrow> qbytearray \<Rightarrow> tcp_system \<Rightarrow> tcp_system" where
  "sendMessage p a ts = on_worker p (sendArray a) ts"

text \<open>"welcome" and "hello".\<close>

definition msg_welcome :: bytes where
  "msg_welcome = map of_char ''welcome''"

definition msg_hello :: bytes where
  "msg_hello = map of_char ''hello''"

definition onClientConnected :: "peer \<Rightarrow> tcp_system \<Rightarrow> tcp_system" where
  "onClientConnected p ts =
     sendMessage p (Some msg_welcome) (ts\<lparr>tsWaitingAuth := tsWaitingAuth ts @ [p]\<rparr>)"

text \<open>The server's side of a connection: the new peer's socket is connected already.\<close>

definition incomingConnection :: "peer \<Rightarrow> tcp_system \<Rightarrow> tcp_system" where
  "incomingConnection p ts =
     (let w = tcpPeerWorker_new\<lparr>twConnected := True\<rparr>;
          ts1 = ts\<lparr> tsWorkers := fmupd p w (tsWorkers ts), tsClients := tsClients ts @ [p] \<rparr>
      in onClientConnected p ts1)"

text \<open>The client's side: a peer is created, later its socket connects.\<close>

definition connectToServer :: "peer \<Rightarrow> tcp_system \<Rightarrow> tcp_system" where
  "connectToServer p ts = ts\<lparr>tsWorkers := fmupd p tcpPeerWorker_new (tsWorkers ts)\<rparr>"

definition onConnectionEstablished :: "peer \<Rightarrow> tcp_system \<Rightarrow> tcp_system" where
  "onConnectionEstablished p ts =
     sendMessage p (Some msg_hello)
       (on_worker p (\<lambda>w. w\<lparr>twConnected := True\<rparr>) (ts\<lparr>tsWaitingAuth := tsWaitingAuth ts @ [p]\<rparr>))"

definition onConnectionClosed :: "peer \<Rightarrow> tcp_system \<Rightarrow> tcp_system" where
  "onConnectionClosed p ts =
     ts\<lparr> tsWaitingAuth := removeAll p (tsWaitingAuth ts),
         tsPeerList := fmdrop (worker_id ts p) (tsPeerList ts) \<rparr>"

definition clientDisconnectedSRV :: "peer \<Rightarrow> tcp_system \<Rightarrow> tcp_system" where
  "clientDisconnectedSRV p ts = ts\<lparr>tsClients := removeAll p (tsClients ts)\<rparr>"

text \<open>
  A client of the server disconnects: the server worker's slot runs first, then the TCP
  system's, which reports the event and deletes the peer.
\<close>

definition onClientDisconnected :: "peer \<Rightarrow> tcp_system \<Rightarrow> tcp_system \<times> app_event list" where
  "onClientDisconnected p ts =
     (let i = worker_id ts p;
          ts1 = clientDisconnectedSRV p ts
      in (ts1\<lparr> tsWaitingAuth := removeAll p (tsWaitingAuth ts1),
               tsPeerList := fmdrop i (tsPeerList ts1),
               tsWorkers := fmdrop p (tsWorkers ts1) \<rparr>,
          [StatusEv (networkStatusEvent_new NSE_DISCONNECTED i)]))"

definition onMessageReceived ::
  "quuid \<Rightarrow> peer \<Rightarrow> qbytearray \<Rightarrow> tcp_system \<Rightarrow> tcp_system \<times> app_event list" where
  "onMessageReceived newId p buf ts =
     (let ts1 = (if p \<in> set (tsWaitingAuth ts)
                 then on_worker p (tw_setPeerId newId)
                        (ts\<lparr> tsPeerList := fmupd newId p (tsPeerList ts),
                             tsWaitingAuth := removeAll p (tsWaitingAuth ts) \<rparr>)
                 else ts)
      in (ts1, [ProtoEv (pe_setPeerId (worker_id ts1 p) (pe_setBuffer buf (protocolEvent_new False)))]))"

definition onSocketError :: "peer \<Rightarrow> int \<Rightarrow> tcp_system \<Rightarrow> app_event list" where
  "onSocketError p err ts =
     [StatusEv (nse_setError err (networkStatusEvent_new NSE_SOCKET_ERROR (worker_id ts p)))]"

text \<open>The peers a protocol event goes to, once per listed receiver that is known.\<close>

definition event_peers :: "tcp_system \<Rightarrow> protocol_event \<Rightarrow> peer list" where
  "event_peers ts pe =
     (if peReceivers pe = [] then qvalues (tsPeerList ts)
      else List.map_filter (fmlookup (tsPeerList ts)) (peReceivers pe))"

definition tcpSystem_processEvent ::
  "tcp_system \<Rightarrow> app_event \<Rightarrow> tcp_system \<times> app_event \<times> app_event list" where
  "tcpSystem_processEvent ts ev =
     (case ev of
        ProtoEv pe \<Rightarrow>
          (if peLocalOrigin pe
           then (fold (\<lambda>p. sendMessage p (peBuffer pe)) (event_peers ts pe) ts, ev, [])
           else (ts, ev, []))
      | _ \<Rightarrow> (ts, ev, []))"

text \<open>
  Bytes arrive at a peer: its messages go to the system one by one, the first of them possibly
  authenticating the peer (the identifiers are those \<^verbatim>\<open>createUuid\<close> would return).
\<close>

fun deliver_messages ::
  "(nat \<Rightarrow> quuid) \<Rightarrow> peer \<Rightarrow> bytes list \<Rightarrow> tcp_system \<Rightarrow> tcp_system \<times> app_event list" where
  "deliver_messages ids p [] ts = (ts, [])"
| "deliver_messages ids p (m # ms) ts =
     (let (ts1, out1) = onMessageReceived (ids (length ms)) p (Some m) ts;
          (ts2, out2) = deliver_messages ids p ms ts1
      in (ts2, out1 @ out2))"

definition socket_data ::
  "(nat \<Rightarrow> quuid) \<Rightarrow> peer \<Rightarrow> bytes \<Rightarrow> tcp_system \<Rightarrow> tcp_system \<times> app_event list" where
  "socket_data ids p chunk ts =
     (case fmlookup (tsWorkers ts) p of
        None \<Rightarrow> (ts, [])
      | Some w \<Rightarrow>
          (let (w', ms) = receive chunk w
           in deliver_messages ids p ms (ts\<lparr>tsWorkers := fmupd p w' (tsWorkers ts)\<rparr>)))"

section \<open>Invariant\<close>

text \<open>
  Every listed peer exists and carries the identifier it is listed under; a waiting peer exists,
  waits once and carries no identifier yet.
\<close>

definition tcp_ok :: "tcp_system \<Rightarrow> bool" where
  "tcp_ok ts \<longleftrightarrow>
     (\<forall>i p. fmlookup (tsPeerList ts) i = Some p \<longrightarrow>
        (\<exists>w. fmlookup (tsWorkers ts) p = Some w \<and> twPeerId w = i \<and> i \<noteq> null_uuid)) \<and>
     (\<forall>p \<in> set (tsWaitingAuth ts).
        \<exists>w. fmlookup (tsWorkers ts) p = Some w \<and> twPeerId w = null_uuid) \<and>
     distinct (tsWaitingAuth ts)"

lemma tcp_system_new_ok [inv_intros]: "tcp_ok tcp_system_new"
  by (simp add: tcp_ok_def tcp_system_new_def)

text \<open>Changing the traffic of a worker keeps the invariant.\<close>

lemma on_worker_ok:
  assumes "\<And>w. twPeerId (f w) = twPeerId w" and "tcp_ok ts"
  shows "tcp_ok (on_worker p f ts)"
  using assms by (fastforce simp: tcp_ok_def on_worker_def split: option.splits)

lemma sendMessage_ok [inv_intros]: "tcp_ok ts \<Longrightarrow> tcp_ok (sendMessage p a ts)"
  unfolding sendMessage_def by (rule on_worker_ok) (simp add: sendArray_def)

lemma onMessageReceived_ok [inv_intros]:
  assumes "tcp_ok ts" and "newId \<noteq> null_uuid" and "newId |\<notin>| fmdom (tsPeerList ts)"
  shows "tcp_ok (fst (onMessageReceived newId p buf ts))"
proof (cases "p \<in> set (tsWaitingAuth ts)")
  case True
  then obtain w where "fmlookup (tsWorkers ts) p = Some w" "twPeerId w = null_uuid"
    using assms(1) unfolding tcp_ok_def by blast
  then have res: "fst (onMessageReceived newId p buf ts) =
      ts\<lparr> tsWorkers := fmupd p (w\<lparr>twPeerId := newId\<rparr>) (tsWorkers ts),
          tsWaitingAuth := removeAll p (tsWaitingAuth ts),
          tsPeerList := fmupd newId p (tsPeerList ts) \<rparr>"
    using True
    by (cases ts) (simp add: onMessageReceived_def on_worker_def tw_setPeerId_def Let_def)
  have other: "q \<noteq> p \<and> (\<exists>v. fmlookup (tsWorkers ts) q = Some v \<and> twPeerId v = i \<and> i \<noteq> null_uuid)"
    if "fmlookup (tsPeerList ts) i = Some q" for i q
  proof -
    obtain v where "fmlookup (tsWorkers ts) q = Some v" "twPeerId v = i" "i \<noteq> null_uuid"
      using assms(1) \<open>fmlookup (tsPeerList ts) i = Some q\<close> unfolding tcp_ok_def by blast
    then show ?thesis
      using \<open>fmlookup (tsWorkers ts) p = Some w\<close> \<open>twPeerId w = null_uuid\<close> by auto
  qed
  have waiting: "\<exists>v. fmlookup (tsWorkers ts) q = Some v \<and> twPeerId v = null_uuid"
    if "q \<in> set (tsWaitingAuth ts)" for q
    using assms(1) that unfolding tcp_ok_def by blast
  have "distinct (tsWaitingAuth ts)" using assms(1) by (simp add: tcp_ok_def)
  then show ?thesis
    unfolding res tcp_ok_def using other waiting assms(2) by (auto simp: distinct_removeAll)
next
  case False
  then show ?thesis using assms by (simp add: onMessageReceived_def)
qed

lemma tcp_ok_drop_waiting:
  assumes "tcp_ok ts"
  shows "tcp_ok (ts\<lparr> tsWaitingAuth := removeAll p (tsWaitingAuth ts), tsPeerList := fmdrop i (tsPeerList ts) \<rparr>)"
  using assms by (simp add: tcp_ok_def distinct_removeAll)

lemma onConnectionClosed_ok [inv_intros]: "tcp_ok ts \<Longrightarrow> tcp_ok (onConnectionClosed p ts)"
  unfolding onConnectionClosed_def by (rule tcp_ok_drop_waiting)

text \<open>A disconnected client leaves no trace: its identifier and its worker are gone.\<close>

lemma onClientDisconnected_ok [inv_intros]:
  assumes "tcp_ok ts"
  shows "tcp_ok (fst (onClientDisconnected p ts))"
  using assms
  by (fastforce simp: tcp_ok_def onClientDisconnected_def clientDisconnectedSRV_def worker_id_def
      qvalue_def Let_def distinct_removeAll split: if_splits)

lemma incomingConnection_ok [inv_intros]:
  assumes "tcp_ok ts" and "p |\<notin>| fmdom (tsWorkers ts)"
  shows "tcp_ok (incomingConnection p ts)"
proof -
  have none: "fmlookup (tsWorkers ts) p = None" using assms(2) by (simp add: fmdom_notD)
  then have "p \<notin> set (tsWaitingAuth ts)"
    using assms(1) unfolding tcp_ok_def by fastforce
  moreover have "fmlookup (tsPeerList ts) i \<noteq> Some p" for i
    using assms(1) none unfolding tcp_ok_def by fastforce
  ultimately show ?thesis
    using assms(1) unfolding incomingConnection_def onClientConnected_def Let_def
    by (intro sendMessage_ok) (auto simp: tcp_ok_def tcpPeerWorker_new_def)
qed

lemma tcpSystem_processEvent_ok [inv_intros]:
  assumes "tcp_ok ts"
  shows "tcp_ok (fst (tcpSystem_processEvent ts ev))"
proof -
  have "tcp_ok (fold (\<lambda>p. sendMessage p a) ps ts)" for a ps
    using assms by (induction ps arbitrary: ts) (auto intro: inv_intros)
  then show ?thesis using assms by (simp add: tcpSystem_processEvent_def split: app_event.splits)
qed

section \<open>Delivery\<close>

lemma worker_sendMessage:
  "fmlookup (tsWorkers (sendMessage p a ts)) q =
     (if q = p then map_option (sendArray a) (fmlookup (tsWorkers ts) q)
      else fmlookup (tsWorkers ts) q)"
  by (auto simp: sendMessage_def on_worker_def split: option.splits)

lemma peerList_sendMessage [simp]: "tsPeerList (sendMessage p a ts) = tsPeerList ts"
  by (simp add: sendMessage_def on_worker_def split: option.splits)

lemma worker_sendMessages:
  "fmlookup (tsWorkers (fold (\<lambda>p. sendMessage p a) ps ts)) q =
     map_option ((sendArray a) ^^ count_list ps q) (fmlookup (tsWorkers ts) q)"
proof (induction ps arbitrary: ts)
  case Nil
  then show ?case by (simp add: option.map_id0 id_def [symmetric])
next
  case (Cons p ps)
  then show ?case
    by (cases "fmlookup (tsWorkers ts) q") (auto simp: worker_sendMessage funpow_swap1)
qed

text \<open>A peer is addressed when one of its identifiers is; in a valid state it has one at most.\<close>

definition addressed :: "tcp_system \<Rightarrow> protocol_event \<Rightarrow> peer \<Rightarrow> bool" where
  "addressed ts pe q \<longleftrightarrow>
     (\<exists>i. fmlookup (tsPeerList ts) i = Some q \<and> (peReceivers pe = [] \<or> i \<in> set (peReceivers pe)))"

lemma tcp_ok_one_id:
  "tcp_ok ts \<Longrightarrow> fmlookup (tsPeerList ts) i = Some q \<Longrightarrow> fmlookup (tsPeerList ts) j = Some q \<Longrightarrow> i = j"
  unfolding tcp_ok_def by (metis option.inject)

lemma count_map_filter:
  assumes "distinct xs" and "\<forall>i j. f i = Some q \<and> f j = Some q \<longrightarrow> i = j"
  shows "count_list (List.map_filter f xs) q = (if \<exists>i \<in> set xs. f i = Some q then 1 else 0)"
  using assms(1)
proof (induction xs)
  case Nil
  then show ?case by simp
next
  case (Cons x xs)
  then have "count_list (List.map_filter f xs) q = (if \<exists>i \<in> set xs. f i = Some q then 1 else 0)"
    by simp
  moreover have "\<not> (\<exists>i \<in> set xs. f i = Some q)" if "f x = Some q"
    using that assms(2) Cons.prems by auto
  ultimately show ?case by (cases "f x") auto
qed

lemma count_event_peers:
  assumes "tcp_ok ts" and "distinct (peReceivers pe)"
  shows "count_list (event_peers ts pe) q = (if addressed ts pe q then 1 else 0)"
proof -
  have inj: "\<forall>i j. fmlookup (tsPeerList ts) i = Some q \<and> fmlookup (tsPeerList ts) j = Some q \<longrightarrow> i = j"
    using tcp_ok_one_id [OF assms(1)] by blast
  show ?thesis
  proof (cases "peReceivers pe = []")
    case True
    have "(\<exists>i \<in> set (qkeys (tsPeerList ts)). fmlookup (tsPeerList ts) i = Some q) = addressed ts pe q"
      unfolding addressed_def Bex_def qkeys_lookup using True by blast
    moreover have "event_peers ts pe = List.map_filter (fmlookup (tsPeerList ts)) (qkeys (tsPeerList ts))"
      using True by (simp add: event_peers_def qvalues_def)
    ultimately show ?thesis
      using count_map_filter [OF distinct_qkeys [of "tsPeerList ts"] inj] by simp
  next
    case False
    then have "(\<exists>i \<in> set (peReceivers pe). fmlookup (tsPeerList ts) i = Some q) = addressed ts pe q"
      unfolding addressed_def by auto
    moreover have "event_peers ts pe = List.map_filter (fmlookup (tsPeerList ts)) (peReceivers pe)"
      using False by (simp add: event_peers_def)
    ultimately show ?thesis
      using count_map_filter [OF assms(2) inj] by simp
  qed
qed

lemma event_delivery:
  assumes "tcp_ok ts" and "distinct (peReceivers pe)" and "peLocalOrigin pe"
  shows "fmlookup (tsWorkers (fst (tcpSystem_processEvent ts (ProtoEv pe)))) q =
    map_option (\<lambda>w. if twConnected w \<and> addressed ts pe q
                    then w\<lparr>twWritten := twWritten w @ put_qbytearray (peBuffer pe)\<rparr> else w)
      (fmlookup (tsWorkers ts) q)"
  using assms(3)
  by (cases "fmlookup (tsWorkers ts) q")
     (simp_all add: tcpSystem_processEvent_def worker_sendMessages
       count_event_peers [OF assms(1,2)] sendArray_def)

section \<open>Properties\<close>

text \<open>
  C19. A connection delivers messages whole and in order: what one side sends on an open
  connection arrives at the other side as the same sequence of messages, nothing left over,
  however the byte stream is cut into chunks on the way.
\<close>

theorem connection_delivers:
  assumes "\<forall>m \<in> set ms. message_ok m" and "twConnected a" and "twWritten a = []"
    and "concat cs = twWritten (fold (\<lambda>m. sendArray (Some m)) ms a)" and "cs \<noteq> []"
    and "twReceived b = []"
  shows "receive_all cs b = (b, ms)"
proof -
  have "twWritten (fold (\<lambda>m. sendArray (Some m)) ms a) = twWritten a @ frames ms"
    using assms(2) by (induction ms arbitrary: a) (simp_all add: sendArray_def frame_def)
  then have "twReceived b @ concat cs = frames ms" using assms(3,4,6) by simp
  moreover have "b\<lparr>twReceived := []\<rparr> = b" using assms(6) by (cases b) simp
  ultimately show ?thesis using receive_frames [OF assms(1) _ assms(5), of b] by simp
qed

theorem connection_delivers_witness:
  "receive_all [[0, 0], [0, 2, 7], [8, 0, 0, 0, 0]] tcpPeerWorker_new = (tcpPeerWorker_new, [[7, 8], []])"
  using connection_delivers [of "[[7, 8], []]" "tcpPeerWorker_new\<lparr>twConnected := True\<rparr>"
      "[[0, 0], [0, 2, 7], [8, 0, 0, 0, 0]]" tcpPeerWorker_new]
  by (simp add: tcpPeerWorker_new_def message_ok_def sendArray_def put_qbytearray_def be32_def)

text \<open>
  Sending reaches exactly the addressed peers: a protocol event of local origin appends
  one frame with its buffer to the socket of every connected peer that is listed under one of the
  event's receivers (under any identifier, if none is named), and changes no other socket.
\<close>

theorem protocol_event_sent_to_addressed:
  assumes "tcp_ok ts" and "distinct (peReceivers pe)" and "peLocalOrigin pe"
  shows "fmlookup (tsWorkers (fst (tcpSystem_processEvent ts (ProtoEv pe)))) q =
    map_option (\<lambda>w. if twConnected w \<and> addressed ts pe q
                    then w\<lparr>twWritten := twWritten w @ put_qbytearray (peBuffer pe)\<rparr> else w)
      (fmlookup (tsWorkers ts) q)"
  using assms by (rule event_delivery)

definition example_tcp :: tcp_system where
  "example_tcp = \<lparr> tsWorkers = fmupd 2 (tcpPeerWorker_new\<lparr> twPeerId := Uuid 6, twConnected := True \<rparr>)
       (fmupd 1 (tcpPeerWorker_new\<lparr> twPeerId := Uuid 5, twConnected := True \<rparr>) fmempty),
     tsClients = [1, 2], tsWaitingAuth = [], tsPeerList = fmupd (Uuid 6) 2 (fmupd (Uuid 5) 1 fmempty) \<rparr>"

lemma example_tcp_ok [simp]: "tcp_ok example_tcp"
  by (auto simp: tcp_ok_def example_tcp_def tcpPeerWorker_new_def null_uuid_def)

theorem protocol_event_sent_to_addressed_witness:
  "fmlookup (tsWorkers (fst (tcpSystem_processEvent example_tcp
      (ProtoEv (sendNetworkEvent [Uuid 6] [7]))))) 2 =
     Some (tcpPeerWorker_new\<lparr> twPeerId := Uuid 6, twConnected := True, twWritten := [0, 0, 0, 1, 7] \<rparr>)"
  using protocol_event_sent_to_addressed [OF example_tcp_ok, of "sendNetworkEvent [Uuid 6] [7]" 2]
  by (simp add: sendNetworkEvent_def vein_defs addressed_def example_tcp_def tcpPeerWorker_new_def
      put_qbytearray_def be32_def)

text \<open>
  Peers are told apart: the first message of a waiting peer lists it under the fresh
  identifier and makes it known, every later message leaves the lists alone, and each message
  becomes one remote protocol event with the identifier under which its sender is listed.
\<close>

theorem message_identifies_peer:
  assumes "tcp_ok ts" and "newId \<noteq> null_uuid" and "newId |\<notin>| fmdom (tsPeerList ts)"
    and "p \<in> set (tsWaitingAuth ts) \<or> fmlookup (tsPeerList ts) i = Some p"
  shows "\<exists>ts' j. onMessageReceived newId p buf ts =
      (ts', [ProtoEv \<lparr> peLocalOrigin = False, peBuffer = buf, peReceivers = [], pePeerId = j \<rparr>]) \<and>
    tcp_ok ts' \<and> fmlookup (tsPeerList ts') j = Some p \<and> p \<notin> set (tsWaitingAuth ts') \<and>
    j = (if p \<in> set (tsWaitingAuth ts) then newId else i) \<and>
    (p \<in> set (tsWaitingAuth ts) \<or> ts' = ts)"
proof (cases "p \<in> set (tsWaitingAuth ts)")
  case True
  then obtain w where "fmlookup (tsWorkers ts) p = Some w"
    using assms(1) unfolding tcp_ok_def by blast
  then show ?thesis
    using True onMessageReceived_ok [OF assms(1-3), of p buf]
    by (auto simp: onMessageReceived_def on_worker_def tw_setPeerId_def worker_id_def vein_defs Let_def)
next
  case False
  then have i: "fmlookup (tsPeerList ts) i = Some p" using assms(4) by simp
  then have "worker_id ts p = i"
    using assms(1) unfolding tcp_ok_def worker_id_def qvalue_def by fastforce
  then show ?thesis
    using False i assms(1) by (simp add: onMessageReceived_def vein_defs Let_def)
qed

theorem message_identifies_peer_witness:
  "\<exists>ts' j. onMessageReceived (Uuid 7) 1 (Some [1]) (incomingConnection 1 tcp_system_new) =
      (ts', [ProtoEv \<lparr> peLocalOrigin = False, peBuffer = Some [1], peReceivers = [], pePeerId = j \<rparr>]) \<and>
    fmlookup (tsPeerList ts') (Uuid 7) = Some 1"
proof -
  let ?ts = "incomingConnection 1 tcp_system_new"
  have ok: "tcp_ok ?ts"
    by (intro inv_intros) (simp add: tcp_system_new_def)
  have "1 \<in> set (tsWaitingAuth ?ts)" "tsPeerList ?ts = fmempty"
    by (simp_all add: incomingConnection_def onClientConnected_def sendMessage_def on_worker_def
        tcp_system_new_def)
  then show ?thesis
    using message_identifies_peer [OF ok, of "Uuid 7" 1 "Uuid 0" "Some [1]"]
    by (auto simp: null_uuid_def)
qed

text \<open>
  A frame with the null array ends the loop: messages behind it wait for the next chunk.
\<close>

lemma null_frame_stalls: "onReadyRead (put_qbytearray None @ bs) = ([], bs)"
  using qba.get_put [of None bs True]
  by (subst onReadyRead.simps) (simp add: readArray_def qbytearray_wf_def)

end
