(* ===== verification/ServerStack.thy ===== *)
theory ServerStack
  imports SystemModule License VfCpp ServerStorage Introspection Tcp
begin

text \<open>
  server-libs/modman-base, \<^verbatim>\<open>ModuleEventHandler\<close> and \<^verbatim>\<open>ModuleManagerSetupFacade\<close>: the
  server's event handler with its two lists of systems, and the chain it dispatches events
  through: the modules' entities, then the system entity, introspection, store, licenses,
  network and TCP system. The chain interprets the locale \<open>event_chain\<close>.
\<close>

section \<open>ModuleEventHandler\<close>

record ('i, 'h) module_handler = "('i, 'h) handler_world" +
  mhModuleSystems :: "'i list"

definition mh_attach ::
  "'h \<Rightarrow> 'i \<Rightarrow> ('i, 'h) module_handler \<Rightarrow> ('i, 'h) module_handler option" where
  "mh_attach h i w =
     (if i |\<in>| fmdom (hwHandlerOf w) then None
      else Some (w\<lparr>hwHandlerOf := fmupd i h (hwHandlerOf w)\<rparr>))"

definition prependModuleSystem ::
  "'h \<Rightarrow> 'i \<Rightarrow> ('i, 'h) module_handler \<Rightarrow> ('i, 'h) module_handler option" where
  "prependModuleSystem h i w =
     (if i \<notin> set (mhModuleSystems w)
      then mh_attach h i (w\<lparr>mhModuleSystems := i # mhModuleSystems w\<rparr>) else Some w)"

definition addModuleSystem ::
  "'h \<Rightarrow> 'i \<Rightarrow> ('i, 'h) module_handler \<Rightarrow> ('i, 'h) module_handler option" where
  "addModuleSystem h i w =
     (if i \<notin> set (mhModuleSystems w)
      then mh_attach h i (w\<lparr>mhModuleSystems := mhModuleSystems w @ [i]\<rparr>) else Some w)"

definition clearModuleSystems :: "('i, 'h) module_handler \<Rightarrow> ('i, 'h) module_handler" where
  "clearModuleSystems w = w\<lparr>mhModuleSystems := []\<rparr>"

definition module_handler_ok :: "('i, 'h) module_handler \<Rightarrow> bool" where
  "module_handler_ok w \<longleftrightarrow>
     distinct (mhModuleSystems w) \<and> set (mhModuleSystems w) \<subseteq> fset (fmdom (hwHandlerOf w))"

lemma prependModuleSystem_ok [inv_intros]:
  "module_handler_ok w \<Longrightarrow> prependModuleSystem h i w = Some w' \<Longrightarrow> module_handler_ok w'"
  by (auto simp: module_handler_ok_def prependModuleSystem_def mh_attach_def split: if_splits)

lemma addModuleSystem_ok [inv_intros]:
  "module_handler_ok w \<Longrightarrow> addModuleSystem h i w = Some w' \<Longrightarrow> module_handler_ok w'"
  by (auto simp: module_handler_ok_def addModuleSystem_def mh_attach_def split: if_splits)

text \<open>Clearing leaves the systems attached: adding one of them again trips the assertion.\<close>

lemma cleared_module_stays_attached:
  assumes "module_handler_ok w" and "i \<in> set (mhModuleSystems w)"
  shows "addModuleSystem h i (clearModuleSystems w) = None"
  using assms by (auto simp: module_handler_ok_def addModuleSystem_def mh_attach_def clearModuleSystems_def)

section \<open>VfEventSystemCommandFilter\<close>

text \<open>
  The base class of systems that see the command events of one subtype only; \<open>f\<close> is the
  function its subclass implements.
\<close>

definition commandFilter_processEvent ::
  "event_subtype \<Rightarrow> ('s \<Rightarrow> vein_event \<Rightarrow> 's \<times> vein_event \<times> vein_event list) \<Rightarrow>
   ('s, app_event) process_event" where
  "commandFilter_processEvent st f s ev =
     (case ev of
        CmdEv e \<Rightarrow>
          (if ceSubtype e = st
           then let (s', e', out) = f s e in (s', CmdEv e', map CmdEv out)
           else (s, ev, []))
      | _ \<Rightarrow> (s, ev, []))"

section \<open>The server\<close>

text \<open>
  Calls handed to procedures wait until they are executed (\<open>ve_runCall\<close>). A system whose code
  runs into undefined behaviour takes the server down; nothing happens any more then.
\<close>

record server =
  svModules :: "vf_entity list"
  svCalls :: "(nat \<times> queued_call) list"
  svSystem :: system_module
  svStorage :: server_storage
  svLicense :: license_system
  svNet :: network_system
  svTcp :: tcp_system
  svDown :: bool

record stack_env =
  xeQt :: qt_lib
  xeSys :: system_env
  xeFb :: fb_lib

type_synonym proc = "(server, app_event) process_event"

definition app_accepted :: "app_event \<Rightarrow> bool" where
  "app_accepted ev = (case ev of CmdEv e \<Rightarrow> ceAccepted e | _ \<Rightarrow> False)"

text \<open>Systems other than network and TCP only look at command events.\<close>

definition on_command ::
  "(server \<Rightarrow> vein_event \<Rightarrow> server \<times> vein_event \<times> vein_event list) \<Rightarrow> proc" where
  "on_command f sv ev =
     (case ev of
        CmdEv e \<Rightarrow>
          (if svDown sv then (sv, ev, [])
           else let (sv', e', out) = f sv e in (sv', CmdEv e', map CmdEv out))
      | _ \<Rightarrow> (sv, ev, []))"

definition proc_module :: "stack_env \<Rightarrow> nat \<Rightarrow> proc" where
  "proc_module env k = on_command (\<lambda>sv e.
     (if k < length (svModules sv)
      then let (m, e', r) = ve_processEvent (xeQt env) e (svModules sv ! k)
           in (sv\<lparr> svModules := (svModules sv)[k := m],
                   svCalls := svCalls sv @ map (Pair k) (eoCalls r) \<rparr>, e', eoEvents r)
      else (sv, e, [])))"

definition proc_system :: "stack_env \<Rightarrow> proc" where
  "proc_system env = on_command (\<lambda>sv e.
     (case sm_processEvent (xeQt env) (xeSys env) e (svSystem sv) of
        None \<Rightarrow> (sv\<lparr>svDown := True\<rparr>, e, [])
      | Some (s', e', out, sigs) \<Rightarrow> (sv\<lparr>svSystem := s'\<rparr>, e', out)))"

definition proc_introspection :: "stack_env \<Rightarrow> proc" where
  "proc_introspection env = on_command (\<lambda>sv e.
     (sv, introspection_processEvent (xeQt env) (ssDb (svStorage sv)) (ssRpcNames (svStorage sv)) e))"

definition proc_storage :: "stack_env \<Rightarrow> proc" where
  "proc_storage env = on_command (\<lambda>sv e.
     (let (st, e', out, sigs) = ss_processEvent (xeQt env) (svStorage sv) e
      in (sv\<lparr>svStorage := st\<rparr>, e', out)))"

definition proc_license :: "stack_env \<Rightarrow> proc" where
  "proc_license env = on_command (\<lambda>sv e.
     (sv\<lparr>svLicense := fst (li_processEvent (xeQt env) e (svLicense sv))\<rparr>, e, []))"

definition proc_network :: "stack_env \<Rightarrow> proc" where
  "proc_network env sv ev =
     (if svDown sv then (sv, ev, [])
      else case networkSystem_processEvent (xeFb env) (xeQt env) (svNet sv) ev of
             None \<Rightarrow> (sv\<lparr>svDown := True\<rparr>, ev, [])
           | Some (ns, ev', out) \<Rightarrow> (sv\<lparr>svNet := ns\<rparr>, ev', out))"

definition proc_tcp :: proc where
  "proc_tcp sv ev =
     (if svDown sv then (sv, ev, [])
      else let (ts, ev', out) = tcpSystem_processEvent (svTcp sv) ev in (sv\<lparr>svTcp := ts\<rparr>, ev', out))"

definition core_procs :: "stack_env \<Rightarrow> proc list" where
  "core_procs env =
     [proc_system env, proc_introspection env, proc_storage env, proc_license env,
      proc_network env, proc_tcp]"

text \<open>The chain of a server with \<open>n\<close> module entities.\<close>

definition server_procs :: "stack_env \<Rightarrow> nat \<Rightarrow> proc list" where
  "server_procs env n = map (proc_module env) [0..<n] @ core_procs env"

lemma server_dispatch:
  "moduleCustomEvent app_accepted (map (proc_module env) [0..<n]) (core_procs env) =
   customEvent app_accepted (server_procs env n)"
  by (intro ext) (simp add: moduleCustomEvent_append server_procs_def)

section \<open>Invariant\<close>

definition server_inv :: "server \<Rightarrow> bool" where
  "server_inv sv \<longleftrightarrow>
     (\<forall>m \<in> set (svModules sv). entity_ok m) \<and> server_storage_ok (svStorage sv) \<and>
     subs_ok (svNet sv) \<and> nsOperationMode (svNet sv) = VNOM_SUBSCRIPTION \<and> tcp_ok (svTcp sv)"

lemma on_command_inv:
  assumes "\<And>e. server_inv (fst (f sv e))" and "server_inv sv"
  shows "server_inv (fst (on_command f sv ev))"
  using assms by (auto simp: on_command_def split_beta Let_def split: app_event.splits)


lemma server_procs_inv:
  assumes "p \<in> set (server_procs env n)" and "server_inv sv"
  shows "server_inv (fst (p sv ev))"
proof -
  have module: "server_inv (fst (proc_module env k sv ev))" for k
    unfolding proc_module_def
    using assms(2) ve_processEvent_ok
    by (intro on_command_inv)
       (auto simp: server_inv_def split_beta Let_def dest!: set_update_subset_insert [THEN subsetD])
  have system: "server_inv (fst (proc_system env sv ev))"
    unfolding proc_system_def using assms(2)
    by (intro on_command_inv) (auto simp: server_inv_def split: option.splits)
  have intro: "server_inv (fst (proc_introspection env sv ev))"
    unfolding proc_introspection_def using assms(2) by (intro on_command_inv) auto
  have storage: "server_inv (fst (proc_storage env sv ev))"
    unfolding proc_storage_def using assms(2) ss_processEvent_ok
    by (intro on_command_inv) (auto simp: server_inv_def split_beta Let_def)
  have license: "server_inv (fst (proc_license env sv ev))"
    unfolding proc_license_def using assms(2) by (intro on_command_inv) (auto simp: server_inv_def)
  have network: "server_inv (fst (proc_network env sv ev))"
    using assms(2) networkSystem_subs_ok network_mode_kept
    by (auto simp: proc_network_def server_inv_def split: option.splits)
  have tcp: "server_inv (fst (proc_tcp sv ev))"
    using assms(2) tcpSystem_processEvent_ok
    by (auto simp: proc_tcp_def server_inv_def split_beta)
  show ?thesis
    using assms(1) module system intro storage license network tcp
    by (auto simp: server_procs_def core_procs_def)
qed

interpretation server: event_chain app_accepted "server_procs env n" server_inv for env n
  by unfold_locales (rule server_procs_inv)

section \<open>What requests can do to the store\<close>

text \<open>
  Events the store does not change on, or that the chain does not turn into such: payloads it
  only reads for, and requests that are not notifications yet and that the system entity does
  not validate as commands to the store.
\<close>

definition system_setting :: "component_data \<Rightarrow> bool" where
  "system_setting d \<longleftrightarrow> edEntityId d = 0 \<and> cdCommand d = CCMD_SET \<and>
     cdComponentName d \<in> {''XSession'', ''ModulesPaused'', ''DevMode''}"

definition store_neutral :: "vein_event \<Rightarrow> bool" where
  "store_neutral e \<longleftrightarrow>
     (case ceData e of
        VComponent d \<Rightarrow>
          cdCommand d = CCMD_FETCH \<or> (ceSubtype e \<noteq> NOTIFICATION \<and> \<not> system_setting d)
      | VEntity d \<Rightarrow>
          eaCommand d \<in> {ECMD_SUBSCRIBE, ECMD_UNSUBSCRIBE} \<or> ceSubtype e \<noteq> NOTIFICATION
      | VRpc d \<Rightarrow> rdCommand d \<noteq> RPCMD_REGISTER \<or> edOrigin d \<noteq> EO_LOCAL
      | _ \<Rightarrow> True)"

definition app_neutral :: "app_event \<Rightarrow> bool" where
  "app_neutral ev = (case ev of CmdEv e \<Rightarrow> store_neutral e | _ \<Rightarrow> True)"

lemma neutral_accept [simp]: "store_neutral (accept e) = store_neutral e"
  by (cases "ceData e") (simp_all add: store_neutral_def accept_def)

lemma neutral_target [simp]:
  "store_neutral (e\<lparr>ceData := vd_setEventTarget t (ceData e)\<rparr>) = store_neutral e"
  by (cases "ceData e") (simp_all add: store_neutral_def system_setting_def setEventTarget_def)

lemma neutral_module:
  "store_neutral e \<Longrightarrow> store_neutral (fst (snd (ve_processEvent qt e m)))"
  by (auto simp: ve_processEvent_def ve_handleComponents_def ve_handleRpcs_def split_beta Let_def
      store_neutral_def [of "e\<lparr>ceData := VRpc d\<rparr>" for d] setEventTarget_def
      split: vein_data.splits option.splits)

lemma neutral_system:
  "store_neutral e \<Longrightarrow> sm_processEvent qt env e s = Some (s', e', out, sigs) \<Longrightarrow> store_neutral e'"
  by (auto simp: sm_processEvent_def sm_setComponent_def validated_def store_neutral_def
      system_setting_def vein_defs split_beta Let_def split: if_splits vein_data.splits)

lemma neutral_introspection:
  "store_neutral e \<Longrightarrow> store_neutral (fst (introspection_processEvent qt db rpcs e))"
  by (auto simp: introspection_processEvent_def Let_def split: vein_data.splits)

lemma neutral_storage:
  assumes "store_neutral e"
  shows "fst (ss_processEvent qt st e) = st" and "store_neutral (fst (snd (ss_processEvent qt st e)))"
proof -
  have "fst (ss_processEvent qt st e) = st \<and> store_neutral (fst (snd (ss_processEvent qt st e)))"
  proof (cases "ceData e")
    case (VComponent d)
    show ?thesis
    proof (cases "cdCommand d = CCMD_FETCH")
      case True
      then show ?thesis
        using VComponent
        by (simp add: ss_processEvent_def ss_processComponentData_def storage_error_def Let_def
            split_beta store_neutral_def fetched_def cd_setNewValue_def setEventTarget_def
            setEventOrigin_def accept_def split: option.split)
    next
      case False
      then have "ceSubtype e \<noteq> NOTIFICATION" using assms VComponent by (simp add: store_neutral_def)
      then show ?thesis using assms VComponent by (simp add: ss_processEvent_def)
    qed
  next
    case (VEntity d)
    then show ?thesis
      using assms
      by (cases "eaCommand d")
         (simp_all add: ss_processEvent_def ss_processEntityData_def store_neutral_def)
  next
    case (VRpc d)
    then show ?thesis
      using assms
      by (cases "edOrigin d = EO_LOCAL")
         (simp_all add: ss_processEvent_def ss_processRpcData_def store_neutral_def)
  qed (use assms in \<open>simp_all add: ss_processEvent_def\<close>)
  then show "fst (ss_processEvent qt st e) = st" "store_neutral (fst (snd (ss_processEvent qt st e)))"
    by simp_all
qed

lemma neutral_network:
  "store_neutral e \<Longrightarrow> store_neutral (fst (snd (processCmdEvents fb qt ns e)))"
  by (auto simp: processCmdEvents_def Let_def split_beta split: operation_mode.splits)

lemma neutral_on_command:
  assumes "\<And>e. store_neutral e \<Longrightarrow>
      svStorage (fst (f sv e)) = svStorage sv \<and> store_neutral (fst (snd (f sv e)))"
    and "app_neutral ev"
  shows "svStorage (fst (on_command f sv ev)) = svStorage sv \<and>
    app_neutral (fst (snd (on_command f sv ev)))"
  using assms by (auto simp: on_command_def app_neutral_def split_beta Let_def split: app_event.splits)

lemma neutral_proc:
  assumes "p \<in> set (server_procs env n)" and "app_neutral ev"
  shows "svStorage (fst (p sv ev)) = svStorage sv \<and> app_neutral (fst (snd (p sv ev)))"
proof -
  have "svStorage (fst (proc_module env k sv ev)) = svStorage sv \<and>
      app_neutral (fst (snd (proc_module env k sv ev)))" for k
    unfolding proc_module_def using assms(2) neutral_module
    by (intro neutral_on_command) (auto simp: split_beta Let_def)
  moreover have "svStorage (fst (proc_system env sv ev)) = svStorage sv \<and>
      app_neutral (fst (snd (proc_system env sv ev)))"
    unfolding proc_system_def using assms(2) neutral_system
    by (intro neutral_on_command) (auto split: option.splits)
  moreover have "svStorage (fst (proc_introspection env sv ev)) = svStorage sv \<and>
      app_neutral (fst (snd (proc_introspection env sv ev)))"
    unfolding proc_introspection_def using assms(2) neutral_introspection
    by (intro neutral_on_command) auto
  moreover have "svStorage (fst (proc_storage env sv ev)) = svStorage sv \<and>
      app_neutral (fst (snd (proc_storage env sv ev)))"
    unfolding proc_storage_def using assms(2) neutral_storage
    by (intro neutral_on_command) (auto simp: split_beta Let_def)
  moreover have "svStorage (fst (proc_license env sv ev)) = svStorage sv \<and>
      app_neutral (fst (snd (proc_license env sv ev)))"
    unfolding proc_license_def using assms(2) by (intro neutral_on_command) auto
  moreover have "svStorage (fst (proc_network env sv ev)) = svStorage sv \<and>
      app_neutral (fst (snd (proc_network env sv ev)))"
    using assms(2) neutral_network
    by (auto simp: proc_network_def app_neutral_def networkSystem_processEvent_def split_beta
        split: option.splits app_event.splits)
  moreover have "svStorage (fst (proc_tcp sv ev)) = svStorage sv \<and>
      app_neutral (fst (snd (proc_tcp sv ev)))"
    using assms(2) by (auto simp: proc_tcp_def tcpSystem_processEvent_def split: app_event.splits)
  ultimately show ?thesis using assms(1) by (auto simp: server_procs_def core_procs_def)
qed

lemma neutral_dispatch:
  "set ps \<subseteq> set (server_procs env n) \<Longrightarrow> app_neutral ev \<Longrightarrow>
   svStorage (fst (customEvent app_accepted ps sv ev)) = svStorage sv"
proof (induction ps arbitrary: sv ev)
  case Nil
  then show ?case by simp
next
  case (Cons p ps)
  obtain sv1 ev1 out1 where p: "p sv ev = (sv1, ev1, out1)" by (cases "p sv ev") auto
  have "svStorage sv1 = svStorage sv" "app_neutral ev1"
    using neutral_proc [of p env n ev sv] Cons.prems p by auto
  then show ?case using Cons.IH [of ev1 sv1] Cons.prems p by (auto split: prod.splits)
qed

text \<open>
  The other way round, what the store accepts is a notification, wherever it comes from: one that
  a client sends to set a component writes the value past the module that owns it. Modules react
  to transactions alone, as does the system entity, and the introspection to entity data, so the
  notification reaches the store as it is.
\<close>

lemma module_ignores_notification:
  assumes "ceSubtype e = NOTIFICATION" and "ceData e = VComponent d"
  shows "proc_module env k sv (CmdEv e) = (sv, CmdEv e, [])"
  using assms
  by (auto simp: proc_module_def on_command_def ve_processEvent_def ve_handleComponents_def
      no_output_def Let_def)

lemma modules_ignore_notification:
  assumes "ceSubtype e = NOTIFICATION" and "ceData e = VComponent d" and "\<not> ceAccepted e"
  shows "customEvent app_accepted (map (proc_module env) ks) sv (CmdEv e) =
    (sv, CmdEv e, [], length ks)"
  using assms by (induction ks) (simp_all add: module_ignores_notification app_accepted_def)

lemma storage_kept_after_store:
  "svStorage (fst (proc_license env sv ev)) = svStorage sv"
  "svStorage (fst (proc_network env sv ev)) = svStorage sv"
  "svStorage (fst (proc_tcp sv ev)) = svStorage sv"
  by (auto simp: proc_license_def proc_network_def proc_tcp_def on_command_def split_beta Let_def
      split: option.splits app_event.splits)

lemma foreign_notification_written:
  assumes st: "server_storage_ok (svStorage sv)" and up: "\<not> svDown sv"
    and e: "ceSubtype e = NOTIFICATION" "ceData e = VComponent d" "\<not> ceAccepted e"
    and d: "edOrigin d = EO_FOREIGN" "cdCommand d = CCMD_SET" "qv_valid (cdNewValue d)"
    and old: "spValue (db_abs (ssDb (svStorage sv))) (edEntityId d) (cdComponentName d) = Some v"
  shows "spValue (db_abs (ssDb (svStorage
      (fst (customEvent app_accepted (server_procs env n) sv (CmdEv e))))))
      (edEntityId d) (cdComponentName d) = Some (assign (xeQt env) v (cdNewValue d))"
proof -
  let ?r = "ss_processEvent (xeQt env) (svStorage sv) e"
  have req: "event_request e = Some (AssignValue (edEntityId d) (cdComponentName d) (cdNewValue d))"
    using e d by (simp add: event_request_def acceptableOrigin_def)
  have "svStorage (fst (customEvent app_accepted (server_procs env n) sv (CmdEv e))) = fst ?r"
    using up e
    by (simp add: server_procs_def core_procs_def customEvent_append split_beta Let_def
        modules_ignore_notification [OF e] app_accepted_def proc_system_def proc_introspection_def
        proc_storage_def on_command_def sm_processEvent_def introspection_processEvent_def
        storage_kept_after_store)
  moreover have "db_abs (ssDb (fst ?r)) = grant (xeQt env) (event_request e) (db_abs (ssDb (svStorage sv)))"
    using ss_okD [OF st] by (simp add: ss_processEvent_db db_grant_refines)
  ultimately show ?thesis using old by (simp add: req grant_def del: db_abs_sel)
qed

section \<open>Properties\<close>

text \<open>
  C4. The server keeps its invariants: whatever events wait in the queue of the event loop
  and whatever the systems send in answer, after any number of dispatched events the store is
  well formed, no peer is subscribed twice, every TCP peer is known by its identifier and every
  module's component is listed under its name.
\<close>

theorem server_invariant:
  assumes "server_inv sv"
  shows "server_inv (fst (run_events k app_accepted (server_procs env n) sv q))"
  using assms by (rule server.run_events_inv)

definition example_stack :: stack_env where
  "example_stack = \<lparr> xeQt = qt_ref, xeSys = example_env, xeFb = example_fb \<rparr>"

definition example_server :: server where
  "example_server = \<lparr> svModules = [], svCalls = [], svSystem = example_system,
     svStorage = server_storage_new\<lparr>ssDb := example_db\<rparr>,
     svLicense = license_system_new example_license_env 0 [], svNet = network_system_new,
     svTcp = tcp_system_new, svDown = False \<rparr>"

lemma example_server_inv: "server_inv example_server"
proof -
  have "db_ok example_db" unfolding example_db_def by (rule db_run_ok) (rule database_new_ok)
  then show ?thesis
    by (simp add: server_inv_def example_server_def network_system_new_ok tcp_system_new_ok
        server_storage_new_ok ss_ok_db) (simp add: network_system_new_def)
qed

theorem server_invariant_witness:
  "server_inv (fst (run_events 9 app_accepted (server_procs example_stack 0) example_server
     [CmdEv (setPeerId (Uuid 5) (subscriber_generateEvent 7))]))"
  using server_invariant [OF example_server_inv] by blast

text \<open>
  C5. A request of a client does not write the store itself: dispatching an event of foreign
  origin that is not a notification (a transaction, or an event with an unknown subtype) through
  the whole server chain leaves database and procedure lists as they are, unless it sets one of
  the three settings of the system entity. The statement covers the event itself, not those the
  systems send in answer to it; and it does not cover notifications of foreign origin, which the
  store takes like local ones (\<open>foreign_notification_written\<close>).
\<close>

theorem client_request_confined:
  assumes "ceSubtype e \<noteq> NOTIFICATION" and "vd_origin (ceData e) = EO_FOREIGN"
    and "\<And>d. ceData e = VComponent d \<Longrightarrow> \<not> system_setting d"
  shows "svStorage (fst (customEvent app_accepted (server_procs env n) sv (CmdEv e))) = svStorage sv"
proof -
  have "store_neutral e"
    using assms by (cases "ceData e") (auto simp: store_neutral_def)
  then show ?thesis by (intro neutral_dispatch [of _ env n]) (simp_all add: app_neutral_def)
qed

theorem client_request_confined_witness:
  "svStorage (fst (customEvent app_accepted (server_procs example_stack 0) example_server
     (CmdEv (commandEvent_new TRANSACTION (VEntity (setEventOrigin EO_FOREIGN
        (setEntityId 7 (ea_setCommand ECMD_REMOVE entityData_new)))))))) = svStorage example_server"
  by (rule client_request_confined) (simp_all add: commandEvent_new_def setEventOrigin_def)

end
