(* ===== verification/ClientStorage.thy ===== *)
theory ClientStorage
  imports ServerStorage
begin

text \<open>
  framework/vf-storage, \<^verbatim>\<open>ClientStorageEventSystem\<close>: the client's copy of the entities it has
  subscribed to. Introspection data creates an entity with its components and procedures,
  component notifications maintain it, the end of a subscription or the removal of the entity
  drops it; a call of a procedure that the entity does not have is refused.
\<close>

section \<open>State\<close>

record client_storage =
  csDb :: database
  csRpcNames :: "(int, string list) qmap"

definition client_storage_new :: client_storage where
  "client_storage_new = \<lparr> csDb = database_new, csRpcNames = fmempty \<rparr>"

definition cs_acceptableOrigin :: "event_origin \<Rightarrow> bool" where
  "cs_acceptableOrigin eo \<longleftrightarrow> eo \<in> {EO_LOCAL, EO_FOREIGN}"

type_synonym client_result =
  "client_storage \<times> vein_event \<times> vein_event list \<times> storage_signal list"

definition client_error :: "qt_lib \<Rightarrow> string \<Rightarrow> client_storage \<Rightarrow> vein_event \<Rightarrow> client_result" where
  "client_error qt msg st e = (let (e', out) = errorOut qt msg e in (st, e', out, []))"

section \<open>Handlers\<close>

definition insertRpc :: "int \<Rightarrow> string list \<Rightarrow> client_storage \<Rightarrow> client_storage" where
  "insertRpc i rpcs st = st\<lparr>csRpcNames := fmupd i rpcs (csRpcNames st)\<rparr>"

text \<open>The loop over the component map, in key order.\<close>

fun insert_values ::
  "qt_lib \<Rightarrow> int \<Rightarrow> qvariant_map \<Rightarrow> string list \<Rightarrow> database \<Rightarrow> database \<times> storage_signal list" where
  "insert_values qt i m [] db = (db, [])"
| "insert_values qt i m (c # cs) db =
     (let (db1, s1) = insertComponentValue qt i c (qvalue m c QInvalid) db;
          (db2, s2) = insert_values qt i m cs db1
      in (db2, s1 @ s2))"

definition cs_processIntrospectionData ::
  "qt_lib \<Rightarrow> introspection_data \<Rightarrow> client_storage \<Rightarrow> vein_event \<Rightarrow> client_result" where
  "cs_processIntrospectionData qt d st e =
     (let i = edEntityId d; m = idComponentValues d
      in if \<not> hasEntity (csDb st) i
         then let (db, sigs) = insert_values qt i m (qkeys m) (insertEntity i (csDb st))
              in (insertRpc i (idRpcNames d) (st\<lparr>csDb := db\<rparr>), e, [], sigs)
         else (st, e, [], []))"

definition cs_processComponentData ::
  "qt_lib \<Rightarrow> component_data \<Rightarrow> client_storage \<Rightarrow> vein_event \<Rightarrow> client_result" where
  "cs_processComponentData qt d st e =
     (let n = cdComponentName d;
          i = edEntityId d;
          db = csDb st;
          entity = findEntity db i;
          component = findInMap entity n;
          place = int_digits i @ '' '' @ n
      in case cdCommand d of
           CCMD_FETCH \<Rightarrow>
             (if entity = None
              then client_error qt
                     (''Cannot fetch component for not existing entity id: '' @ int_digits i) st e
              else (case component of
                      None \<Rightarrow>
                        client_error qt (''Cannot fetch not existing component: '' @ place) st e
                    | Some r \<Rightarrow>
                        (if hasStoredValue db i n
                         then let (db', sigs) = setValue qt r (cdNewValue d) db
                              in (st\<lparr>csDb := db'\<rparr>, e, [], sigs)
                         else let (db', sigs) = insertComponentValue qt i n (cdNewValue d) db
                              in (st\<lparr>csDb := db'\<rparr>, e, [], sigs))))
         | CCMD_REMOVE \<Rightarrow>
             (if entity = None
              then client_error qt
                     (''Cannot remove component for invalid entity id: '' @ int_digits i) st e
              else if component = None
              then client_error qt (''Cannot remove not existing component: '' @ place) st e
              else (st\<lparr>csDb := removeComponentValue i n db\<rparr>, e, [], []))
         | CCMD_SET \<Rightarrow>
             (if entity = None
              then client_error qt
                     (''Cannot set component for not existing entity id: '' @ int_digits i) st e
              else (case component of
                      None \<Rightarrow> client_error qt (''Cannot set not existing component: '' @ place) st e
                    | Some r \<Rightarrow> let (db', sigs) = setValue qt r (cdNewValue d) db
                               in (st\<lparr>csDb := db'\<rparr>, e, [], sigs)))
         | CCMD_ADD \<Rightarrow>
             (if entity = None
              then client_error qt
                     (''Cannot add component for not existing entity id: '' @ int_digits i) st e
              else if component \<noteq> None
              then client_error qt (''Cannot add existing component: '' @ place) st e
              else let (db', sigs) = insertComponentValue qt i n (cdNewValue d) db
                   in (st\<lparr>csDb := db'\<rparr>, e, [], sigs))
         | _ \<Rightarrow> (st, e, [], []))"

text \<open>
  The second look-up goes through \<^verbatim>\<open>operator[]\<close>, which inserts an empty list for an unknown
  entity; both errors are sent then.
\<close>

definition cs_processRpcData ::
  "qt_lib \<Rightarrow> rpc_data \<Rightarrow> client_storage \<Rightarrow> vein_event \<Rightarrow> client_result" where
  "cs_processRpcData qt d st e =
     (let n = rdProcedureName d; i = edEntityId d
      in if rdCommand d = RPCMD_CALL
         then let known = qcontains (csRpcNames st) i;
                  (e1, out1) = if \<not> known
                    then errorOut qt (''Cannot call RPC for non existing entity '' @ int_digits i) e
                    else (e, []);
                  names = qvalue (csRpcNames st) i [];
                  st1 = st\<lparr>csRpcNames := fmupd i names (csRpcNames st)\<rparr>;
                  (e2, out2) = if n \<notin> set names
                    then errorOut qt (''Cannot call non existing RPC '' @ n) e1
                    else (e1, [])
              in (st1, e2, out1 @ out2, [])
         else (st, e, [], []))"

definition cs_processEvent :: "qt_lib \<Rightarrow> client_storage \<Rightarrow> vein_event \<Rightarrow> client_result" where
  "cs_processEvent qt st e =
     (if cs_acceptableOrigin (vd_origin (ceData e))
      then (case ceSubtype e of
              NOTIFICATION \<Rightarrow>
                (case ceData e of
                   VIntrospection d \<Rightarrow> cs_processIntrospectionData qt d st e
                 | VComponent d \<Rightarrow> cs_processComponentData qt d st e
                 | VEntity d \<Rightarrow>
                     (if eaCommand d = ECMD_UNSUBSCRIBE \<or> eaCommand d = ECMD_REMOVE
                      then (st\<lparr> csDb := removeEntity (edEntityId d) (csDb st),
                               csRpcNames := fmdrop (edEntityId d) (csRpcNames st) \<rparr>, e, [], [])
                      else (st, e, [], []))
                 | _ \<Rightarrow> (st, e, [], []))
            | TRANSACTION \<Rightarrow>
                (case ceData e of
                   VRpc d \<Rightarrow> cs_processRpcData qt d st e
                 | _ \<Rightarrow> (st, e, [], []))
            | _ \<Rightarrow> (st, e, [], []))
      else (st, e, [], []))"

section \<open>The invariant\<close>

lemma insert_values_ok [inv_intros]: "db_ok db \<Longrightarrow> db_ok (fst (insert_values qt i m cs db))"
  by (induction cs arbitrary: db) (auto simp: split_beta Let_def intro: inv_intros)

lemma cs_processComponentData_ok:
  "db_ok (csDb st) \<Longrightarrow> db_ok (csDb (fst (cs_processComponentData qt d st e)))"
  by (simp add: cs_processComponentData_def client_error_def Let_def split_beta
      split: component_command.splits option.splits)
     (auto intro: inv_intros)

lemma cs_processRpcData_db [simp]: "csDb (fst (cs_processRpcData qt d st e)) = csDb st"
  by (simp add: cs_processRpcData_def Let_def split_beta)

lemma cs_processIntrospectionData_ok:
  "db_ok (csDb st) \<Longrightarrow> db_ok (csDb (fst (cs_processIntrospectionData qt d st e)))"
  by (simp add: cs_processIntrospectionData_def Let_def split_beta insertRpc_def)
     (auto intro: inv_intros)

lemma cs_processEvent_ok [inv_intros]:
  "db_ok (csDb st) \<Longrightarrow> db_ok (csDb (fst (cs_processEvent qt st e)))"
  by (auto simp: cs_processEvent_def cs_processComponentData_ok cs_processIntrospectionData_ok
      split: vein_data.splits event_subtype.splits intro: inv_intros)

section \<open>Introspection\<close>

lemma entities_insert_values:
  "i |\<in>| fmdom (dbEntities db) \<Longrightarrow>
   fmdom (dbEntities (fst (insert_values qt i m cs db))) = fmdom (dbEntities db)"
  by (induction cs arbitrary: db) (auto simp: split_beta Let_def finsert_absorb)

lemma value_insert_values:
  assumes "db_ok db" and "distinct cs" and "\<forall>c \<in> set cs. findFutureComponent db i c = None"
  shows "spValue (db_abs (fst (insert_values qt i m cs db))) i' c =
    (if i' = i \<and> c \<in> set cs then Some (qvalue m c QInvalid) else spValue (db_abs db) i' c)"
  using assms
proof (induction cs arbitrary: db)
  case Nil
  then show ?case by simp
next
  case (Cons a cs)
  let ?db1 = "fst (insertComponentValue qt i a (qvalue m a QInvalid) db)"
  have "db_ok ?db1" using Cons.prems(1) by (rule insertComponentValue_ok)
  moreover have "\<forall>c \<in> set cs. findFutureComponent ?db1 i c = None" using Cons.prems(3) by auto
  moreover have "spFuture (db_abs db) i a = None" using Cons.prems(3) by simp
  ultimately show ?case
    using Cons.IH [of ?db1] Cons.prems(2)
      abs_insertComponentValue [OF Cons.prems(1), of qt i a "qvalue m a QInvalid"]
    by (auto simp: Let_def split_beta simp del: db_abs_sel(2,3))
qed

section \<open>Component notifications\<close>

definition client_request :: "component_data \<Rightarrow> db_op option" where
  "client_request d =
     (case cdCommand d of
        CCMD_ADD \<Rightarrow> Some (InsertValue (edEntityId d) (cdComponentName d) (cdNewValue d))
      | CCMD_REMOVE \<Rightarrow> Some (RemoveValue (edEntityId d) (cdComponentName d))
      | CCMD_SET \<Rightarrow> Some (AssignValue (edEntityId d) (cdComponentName d) (cdNewValue d))
      | CCMD_FETCH \<Rightarrow> Some (AssignValue (edEntityId d) (cdComponentName d) (cdNewValue d))
      | _ \<Rightarrow> None)"

lemma cs_component_db:
  "csDb (fst (cs_processComponentData qt d st e)) = db_grant qt (client_request d) (csDb st)"
  using found_entity [of "csDb st" "edEntityId d" "cdComponentName d"]
  by (cases "findComponent (csDb st) (edEntityId d) (cdComponentName d)"; cases "cdCommand d")
     (simp_all add: cs_processComponentData_def client_error_def client_request_def
       hasStoredValue_def db_step_rules)

lemma client_error_sel [simp]:
  "fst (client_error qt msg st e) = st" "length (fst (snd (snd (client_error qt msg st e)))) = 1"
  by (simp_all add: client_error_def split_beta)

lemma cs_component_rpcs: "csRpcNames (fst (cs_processComponentData qt d st e)) = csRpcNames st"
  by (simp add: cs_processComponentData_def Let_def split_beta
      split: component_command.splits option.splits)

lemma cs_component_errors:
  "length (fst (snd (snd (cs_processComponentData qt d st e)))) =
     (case client_request d of
        None \<Rightarrow> 0
      | Some op \<Rightarrow> if request_ok (db_abs (csDb st)) op then 0 else 1)"
  using found_entity [of "csDb st" "edEntityId d" "cdComponentName d"]
  by (cases "findComponent (csDb st) (edEntityId d) (cdComponentName d)"; cases "cdCommand d")
     (auto simp add: cs_processComponentData_def client_request_def Let_def split_beta findEntity_iff
       hasStoredValue_def split: option.splits)

text \<open>
  What the client's store does differently from the server's on the same notification: it carries
  out a set with an invalid value, which the server drops, and it assigns a fetched value, for
  which the server is asked to answer.
\<close>

lemma client_and_server_request:
  assumes "ceSubtype e = NOTIFICATION" and "ceData e = VComponent d"
    and "cs_acceptableOrigin (edOrigin d)"
  shows "client_request d =
    (if cdCommand d = CCMD_FETCH \<or> cdCommand d = CCMD_SET \<and> \<not> qv_valid (cdNewValue d)
     then Some (AssignValue (edEntityId d) (cdComponentName d) (cdNewValue d))
     else event_request e)"
  using assms
  by (cases "cdCommand d")
     (simp_all add: client_request_def event_request_def acceptableOrigin_def cs_acceptableOrigin_def)

section \<open>Properties\<close>

lemma introspection_installs:
  assumes "db_ok (csDb st)" and "\<not> hasEntity (csDb st) (edEntityId d)"
    and "areFutureComponentsEmpty (csDb st)" and "ceSubtype e = NOTIFICATION"
    and "ceData e = VIntrospection d" and "cs_acceptableOrigin (edOrigin d)"
  shows "let st' = fst (cs_processEvent qt st e) in
    hasEntity (csDb st') i = (i = edEntityId d \<or> hasEntity (csDb st) i) \<and>
    spValue (db_abs (csDb st')) i c =
      (if i = edEntityId d then fmlookup (idComponentValues d) c
       else spValue (db_abs (csDb st)) i c) \<and>
    qvalue (csRpcNames st') i [] =
      (if i = edEntityId d then idRpcNames d else qvalue (csRpcNames st) i [])"
proof -
  let ?i = "edEntityId d" and ?m = "idComponentValues d"
  let ?db0 = "insertEntity ?i (csDb st)" and ?st' = "fst (cs_processEvent qt st e)"
  let ?db1 = "fst (insert_values qt ?i ?m (qkeys ?m) ?db0)"
  have st': "csDb ?st' = ?db1" "csRpcNames ?st' = fmupd ?i (idRpcNames d) (csRpcNames st)"
    using assms(2,4-6)
    by (simp_all add: cs_processEvent_def cs_processIntrospectionData_def insertRpc_def
        Let_def split_beta)
  have ok: "db_ok ?db0" using assms(1) by (rule insertEntity_ok)
  have fut: "\<forall>c \<in> set (qkeys ?m). findFutureComponent ?db0 ?i c = None"
    using assms(3) by (simp add: findFutureComponent_def findInMap_def areFutureComponentsEmpty_def insertEntity_def)
  have "hasEntity (csDb ?st') i = (i = ?i \<or> hasEntity (csDb st) i)"
    by (simp add: st' hasEntity_def entities_insert_values)
  moreover have "spValue (db_abs (csDb ?st')) i c =
      (if i = ?i then fmlookup ?m c else spValue (db_abs (csDb st)) i c)"
    using value_insert_values [OF ok distinct_qkeys fut, of qt ?m i c]
    by (auto simp: st' qvalue_def fmdom_notD split: option.splits)
  ultimately show ?thesis by (auto simp: st' Let_def)
qed

text \<open>
  Introspection data for an entity the client does not know yet creates exactly the
  entity described: its components hold the values of the map, its procedures are those listed,
  and every other entity is untouched.
\<close>

theorem client_introspection_installs:
  assumes "db_ok (csDb st)" and "\<not> hasEntity (csDb st) (edEntityId d)"
    and "areFutureComponentsEmpty (csDb st)" and "ceSubtype e = NOTIFICATION"
    and "ceData e = VIntrospection d" and "cs_acceptableOrigin (edOrigin d)"
  shows "let st' = fst (cs_processEvent qt st e) in
    hasEntity (csDb st') i = (i = edEntityId d \<or> hasEntity (csDb st) i) \<and>
    spValue (db_abs (csDb st')) i c =
      (if i = edEntityId d then fmlookup (idComponentValues d) c
       else spValue (db_abs (csDb st)) i c) \<and>
    qvalue (csRpcNames st') i [] =
      (if i = edEntityId d then idRpcNames d else qvalue (csRpcNames st) i [])"
  using assms by (rule introspection_installs)

definition example_introspection :: vein_event where
  "example_introspection = commandEvent_new NOTIFICATION
     (VIntrospection (introspectionData_new\<lparr> edEntityId := 7,
        idComponentValues := fmupd ''U'' (QInt 230) fmempty, idRpcNames := [''RPC_Start''] \<rparr>))"

theorem client_introspection_installs_witness:
  "spValue (db_abs (csDb (fst (cs_processEvent qt_ref client_storage_new example_introspection))))
     7 ''U'' = Some (QInt 230)"
  using client_introspection_installs
    [of client_storage_new "introspectionData_new\<lparr> edEntityId := 7,
        idComponentValues := fmupd ''U'' (QInt 230) fmempty, idRpcNames := [''RPC_Start''] \<rparr>"
      example_introspection qt_ref 7 "''U''"]
  by (simp add: client_storage_new_def example_introspection_def hasEntity_def database_new_ok
      areFutureComponentsEmpty_def cs_acceptableOrigin_def vein_defs record_glue Let_def
      database_new_def [THEN arg_cong, of dbEntities, simplified]
      database_new_def [THEN arg_cong, of dbFutures, simplified] del: db_abs_sel)

text \<open>
  C23. A notification about a component, of local or foreign origin, changes the values of the
  client's store by exactly the command it asks for where that is granted, and not at all
  otherwise: adding is granted where the entity exists and the component does not, removing and
  setting where the component exists, and a fetched value is assigned like a set one. The lists of
  procedures stay as they are; one error event is sent if the command is refused and none
  otherwise. The command is the one the server's store takes from the same event, with two
  exceptions: the answer to a fetch, and a set with an invalid value, which the server drops and
  the client carries out.
\<close>

theorem client_component_refines:
  assumes "db_ok (csDb st)" and "ceSubtype e = NOTIFICATION" and "ceData e = VComponent d"
    and "cs_acceptableOrigin (edOrigin d)"
  shows "let r = cs_processEvent qt st e; req = client_request d in
    db_abs (csDb (fst r)) = grant qt req (db_abs (csDb st)) \<and>
    csRpcNames (fst r) = csRpcNames st \<and>
    length (fst (snd (snd r))) =
      (case req of None \<Rightarrow> 0 | Some op \<Rightarrow> if request_ok (db_abs (csDb st)) op then 0 else 1) \<and>
    req = (if cdCommand d = CCMD_FETCH \<or> cdCommand d = CCMD_SET \<and> \<not> qv_valid (cdNewValue d)
           then Some (AssignValue (edEntityId d) (cdComponentName d) (cdNewValue d))
           else event_request e)"
  using assms client_and_server_request [OF assms(2-4)]
  by (simp add: cs_processEvent_def cs_component_db db_grant_refines cs_component_rpcs
      cs_component_errors)

text \<open>
  A client that mirrors entity 7 with its component \<open>U\<close> is told the new value 231, and then that
  the component is to be added once more.
\<close>

definition example_mirror :: client_storage where
  "example_mirror = client_storage_new\<lparr>csDb := db_run qt_ref
     [InsertEntity 7, InsertValue 7 ''U'' (QInt 230)] database_new\<rparr>"

definition example_update :: "component_command \<Rightarrow> qvariant \<Rightarrow> component_data" where
  "example_update c v = (componentData_for 7 c)\<lparr>cdComponentName := ''U'', cdNewValue := v\<rparr>"

theorem client_component_refines_witness:
  "let r = \<lambda>d. cs_processEvent qt_ref example_mirror (commandEvent_new NOTIFICATION (VComponent d))
   in spValue (db_abs (csDb (fst (r (example_update CCMD_SET (QInt 231)))))) 7 ''U'' = Some (QInt 231) \<and>
      fst (snd (snd (r (example_update CCMD_SET (QInt 231))))) = [] \<and>
      spValue (db_abs (csDb (fst (r (example_update CCMD_ADD (QInt 231)))))) 7 ''U'' = Some (QInt 230) \<and>
      length (fst (snd (snd (r (example_update CCMD_ADD (QInt 231)))))) = 1"
proof -
  let ?e = "\<lambda>c. commandEvent_new NOTIFICATION (VComponent (example_update c (QInt 231)))"
  let ?s = "db_abs (csDb example_mirror)"
  have mirror: "db_ok (csDb example_mirror)"
    unfolding example_mirror_def by simp (intro db_run_ok database_new_ok)
  have "cs_acceptableOrigin (edOrigin (example_update c (QInt 231)))" for c
    by (simp add: example_update_def vein_defs cs_acceptableOrigin_def record_glue)
  note run = client_component_refines [OF mirror _ _ this, of "?e c" c qt_ref for c]
  have stored: "spValue ?s 7 ''U'' = Some (QInt 230)" "7 \<in> spEntities ?s" by code_simp+
  have asked: "client_request (example_update CCMD_SET (QInt 231)) = Some (AssignValue 7 ''U'' (QInt 231))"
      "client_request (example_update CCMD_ADD (QInt 231)) = Some (InsertValue 7 ''U'' (QInt 231))"
      "assign qt_ref (QInt 230) (QInt 231) = QInt 231"
    by code_simp+
  show ?thesis
    using run [of CCMD_SET] run [of CCMD_ADD]
    unfolding Let_def asked
    by (simp add: stored asked grant_def commandEvent_new_def del: db_abs_sel)
qed

end
