(* ===== verification/SafeLoop.thy ===== *)
theory SafeLoop
  imports Prelude
begin

text \<open>
  convenient-code/lib/container_safe_delete_while_loop.h: a set of items that may be removed
  from while it is iterated over. The set is the list of its items in bucket order; the
  iterator is the item it points to (\<open>None\<close> is the end). Where an insertion lands in the bucket
  order is up to the hash, hence an argument of the operation. The order an unordered set
  chooses for a rehash, and the iterators it invalidates then, are outside the model.
\<close>

section \<open>The container\<close>

record 'a safe_set =
  slItems :: "'a list"
  slActual :: "'a option"
  slInIteration :: bool
  slToDelete :: "'a list"

definition safe_set_new :: "'a safe_set" where
  "safe_set_new = \<lparr> slItems = [], slActual = None, slInIteration = False, slToDelete = [] \<rparr>"

definition sl_addItem :: "nat \<Rightarrow> 'a \<Rightarrow> 'a safe_set \<Rightarrow> 'a safe_set" where
  "sl_addItem pos x c =
     (if x \<in> set (slItems c) then c
      else c\<lparr>slItems := take pos (slItems c) @ [x] @ drop pos (slItems c)\<rparr>)"

definition sl_removeItem :: "'a \<Rightarrow> 'a safe_set \<Rightarrow> 'a safe_set" where
  "sl_removeItem x c =
     (if \<not> slInIteration c then c\<lparr>slItems := removeAll x (slItems c)\<rparr>
      else c\<lparr>slToDelete := append_new x (slToDelete c)\<rparr>)"

text \<open>Setting the iterator to a position, given the items from there on.\<close>

definition head_of :: "'a list \<Rightarrow> 'a option" where
  "head_of xs = (case xs of [] \<Rightarrow> None | x # _ \<Rightarrow> Some x)"

fun after :: "'a \<Rightarrow> 'a list \<Rightarrow> 'a list" where
  "after x [] = []"
| "after x (y # ys) = (if x = y then ys else after x ys)"

definition getFirst :: "'a safe_set \<Rightarrow> 'a option \<times> 'a safe_set" where
  "getFirst c =
     (let c1 = c\<lparr>slActual := head_of (slItems c)\<rparr>
      in if slActual c1 \<noteq> None then (slActual c1, c1\<lparr>slInIteration := True\<rparr>) else (None, c1))"

definition ignoreDeleted :: "'a safe_set \<Rightarrow> 'a list \<Rightarrow> 'a list" where
  "ignoreDeleted c xs = dropWhile (\<lambda>y. y \<in> set (slToDelete c)) xs"

definition doDeletions :: "'a safe_set \<Rightarrow> 'a safe_set" where
  "doDeletions c = (fold sl_removeItem (slToDelete c) c)\<lparr>slToDelete := []\<rparr>"

definition getNext :: "'a safe_set \<Rightarrow> 'a option \<times> 'a safe_set" where
  "getNext c =
     (let c1 = (case slActual c of
                  None \<Rightarrow> c
                | Some x \<Rightarrow> c\<lparr>slActual := head_of (ignoreDeleted c (after x (slItems c)))\<rparr>)
      in if slActual c1 \<noteq> None then (slActual c1, c1)
         else (None, doDeletions (c1\<lparr>slInIteration := False\<rparr>)))"

section \<open>Iteration\<close>

text \<open>
  The loop \<^verbatim>\<open>for(item = getFirst(); item != 0; item = getNext())\<close>. Its body changes a state and
  adds or removes items of the container; a body that keeps adding items keeps the loop running,
  so the loop has fuel (\<open>None\<close>: not finished).
\<close>

datatype 'a set_op = AddAt nat 'a | Remove 'a

fun set_op_exec :: "'a set_op \<Rightarrow> 'a safe_set \<Rightarrow> 'a safe_set" where
  "set_op_exec (AddAt pos x) c = sl_addItem pos x c"
| "set_op_exec (Remove x) c = sl_removeItem x c"

type_synonym ('s, 'a) loop_body = "'s \<Rightarrow> 'a \<Rightarrow> 's \<times> 'a set_op list"

fun iterate ::
  "nat \<Rightarrow> ('s, 'a) loop_body \<Rightarrow> 'a option \<Rightarrow> 'a safe_set \<Rightarrow> 's \<Rightarrow> ('a safe_set \<times> 's) option" where
  "iterate n body None c s = Some (c, s)"
| "iterate 0 body (Some x) c s = None"
| "iterate (Suc n) body (Some x) c s =
     (let (s1, ops) = body s x;
          (nx, c1) = getNext (fold set_op_exec ops c)
      in iterate n body nx c1 s1)"

definition foreach ::
  "nat \<Rightarrow> ('s, 'a) loop_body \<Rightarrow> 'a safe_set \<Rightarrow> 's \<Rightarrow> ('a safe_set \<times> 's) option" where
  "foreach n body c s = (let (x, c1) = getFirst c in iterate n body x c1 s)"

section \<open>Specification\<close>

text \<open>
  The intended loop over a fixed list: an item is visited unless an earlier visit removed it.
  The result holds the state and the removed items.
\<close>

definition removed :: "'a set_op list \<Rightarrow> 'a set" where
  "removed ops = {x. Remove x \<in> set ops}"

fun visit :: "('s, 'a) loop_body \<Rightarrow> 'a list \<Rightarrow> 'a set \<Rightarrow> 's \<Rightarrow> 's \<times> 'a set" where
  "visit body [] dead s = (s, dead)"
| "visit body (x # xs) dead s =
     (if x \<in> dead then visit body xs dead s
      else let (s1, ops) = body s x in visit body xs (dead \<union> removed ops) s1)"

definition only_removes :: "('s, 'a) loop_body \<Rightarrow> bool" where
  "only_removes body \<longleftrightarrow> (\<forall>s x pos y. AddAt pos y \<notin> set (snd (body s x)))"

text \<open>A container between two iterations.\<close>

definition idle :: "'a safe_set \<Rightarrow> bool" where
  "idle c \<longleftrightarrow> distinct (slItems c) \<and> \<not> slInIteration c \<and> slToDelete c = []"

lemma safe_set_new_idle [inv_intros]: "idle safe_set_new"
  by (simp add: idle_def safe_set_new_def)

lemma sl_addItem_idle [inv_intros]: "idle c \<Longrightarrow> idle (sl_addItem pos x c)"
  by (auto simp: idle_def sl_addItem_def dest: in_set_takeD in_set_dropD set_take_disj_set_drop_if_distinct [of _ pos pos])

lemma sl_removeItem_idle [inv_intros]: "idle c \<Longrightarrow> idle (sl_removeItem x c)"
  by (simp add: idle_def sl_removeItem_def distinct_removeAll)

lemma items_addItem [simp]: "set (slItems (sl_addItem pos x c)) = insert x (set (slItems c))"
proof -
  have "set (take pos (slItems c)) \<union> set (drop pos (slItems c)) = set (slItems c)"
    by (metis append_take_drop_id set_append)
  then show ?thesis by (simp add: sl_addItem_def insert_absorb)
qed

lemma removes_during:
  assumes "slInIteration c" and "\<forall>pos y. AddAt pos y \<notin> set ops"
  shows "slItems (fold set_op_exec ops c) = slItems c \<and>
    slActual (fold set_op_exec ops c) = slActual c \<and>
    slInIteration (fold set_op_exec ops c) \<and>
    set (slToDelete (fold set_op_exec ops c)) = set (slToDelete c) \<union> removed ops"
  using assms
proof (induction ops arbitrary: c)
  case Nil
  then show ?case by (simp add: removed_def)
next
  case (Cons op ops)
  then obtain x where op: "op = Remove x" by (cases op) auto
  then show ?case
    using Cons.IH [of "sl_removeItem x c"] Cons.prems by (auto simp: sl_removeItem_def removed_def)
qed

lemma fold_removeItem:
  assumes "\<not> slInIteration c"
  shows "fold sl_removeItem xs c = c\<lparr>slItems := filter (\<lambda>y. y \<notin> set xs) (slItems c)\<rparr>"
  using assms
  by (induction xs arbitrary: c) (auto simp: sl_removeItem_def removeAll_filter intro: filter_cong)

lemma doDeletions_items:
  "\<not> slInIteration c \<Longrightarrow> doDeletions c =
     c\<lparr> slItems := filter (\<lambda>y. y \<notin> set (slToDelete c)) (slItems c), slToDelete := [] \<rparr>"
  by (simp add: doDeletions_def fold_removeItem)

lemma after_split: "distinct (pre @ x # post) \<Longrightarrow> after x (pre @ x # post) = post"
  by (induction pre) auto

lemma visit_skip: "visit body xs dead s = visit body (dropWhile (\<lambda>y. y \<in> dead) xs) dead s"
  by (induction xs) auto

lemma iterate_visit:
  assumes "only_removes body" and "distinct (pre @ x # post)" and "slItems c = pre @ x # post"
    and "slActual c = Some x" and "slInIteration c" and "length post < n"
    and "visit body (x # post) (set (slToDelete c) - {x}) s = (s', dead)"
    and "x \<notin> set (slToDelete c)"
  shows "\<exists>c'. iterate n body (Some x) c s = Some (c', s') \<and>
    slItems c' = filter (\<lambda>y. y \<notin> dead) (slItems c) \<and> \<not> slInIteration c' \<and> slToDelete c' = []"
  using assms
proof (induction n arbitrary: pre x post c s)
  case 0
  then show ?case by simp
next
  case (Suc n)
  obtain s1 ops where b: "body s x = (s1, ops)" by (cases "body s x") auto
  have "\<forall>pos y. AddAt pos y \<notin> set ops"
    using Suc.prems(1) b by (metis only_removes_def snd_conv)
  let ?c1 = "fold set_op_exec ops c" and ?d = "set (slToDelete c) \<union> removed ops"
  have c1: "slItems ?c1 = pre @ x # post" "slActual ?c1 = Some x" "slInIteration ?c1"
    "set (slToDelete ?c1) = ?d"
    using removes_during [OF Suc.prems(5) \<open>\<forall>pos y. AddAt pos y \<notin> set ops\<close>] Suc.prems(3,4) by auto
  let ?rest = "dropWhile (\<lambda>y. y \<in> ?d) post"
  have v: "visit body ?rest ?d s1 = (s', dead)"
    using Suc.prems(7,8) b visit_skip [of body post ?d s1] by simp
  have next_rest: "ignoreDeleted ?c1 (after x (slItems ?c1)) = ?rest"
    using after_split [OF Suc.prems(2)] by (simp add: ignoreDeleted_def c1)
  show ?case
  proof (cases ?rest)
    case Nil
    have "visit body [] ?d s1 = (s', dead)" using v by (simp only: Nil)
    then have fin: "dead = ?d" "s' = s1" by simp_all
    have "getNext ?c1 = (None, doDeletions (?c1\<lparr>slActual := None, slInIteration := False\<rparr>))"
      unfolding getNext_def c1(2) by (simp add: next_rest [unfolded Nil] head_of_def)
    then show ?thesis
      using fin c1 b by (simp add: doDeletions_items Suc.prems(3))
  next
    case (Cons y ys)
    then have y: "y \<notin> ?d" by (metis dropWhile_eq_Cons_conv)
    have post: "post = takeWhile (\<lambda>y. y \<in> ?d) post @ y # ys"
      using Cons by (metis takeWhile_dropWhile_id)
    let ?pre = "pre @ x # takeWhile (\<lambda>y. y \<in> ?d) post" and ?c2 = "?c1\<lparr>slActual := Some y\<rparr>"
    have items: "slItems ?c2 = ?pre @ y # ys" using c1 post by simp
    have "distinct (?pre @ y # ys)" using Suc.prems(2) post by (metis append.assoc append_Cons)
    moreover have "length ys < n" using Suc.prems(6) post
      by (metis Suc_less_eq add_Suc_right length_Cons length_append less_add_Suc2 order_less_trans
          not_less_eq linorder_neqE_nat)
    moreover have "visit body (y # ys) (set (slToDelete ?c2) - {y}) s1 = (s', dead)"
      using v Cons c1 y by simp
    ultimately obtain c' where "iterate n body (Some y) ?c2 s1 = Some (c', s')"
      "slItems c' = filter (\<lambda>y. y \<notin> dead) (slItems ?c2)" "\<not> slInIteration c'" "slToDelete c' = []"
      using Suc.IH [of ?pre y ys ?c2 s1] Suc.prems(1) items c1 y by auto
    moreover have "getNext ?c1 = (Some y, ?c2)"
      using next_rest Cons c1 by (simp add: getNext_def head_of_def)
    ultimately show ?thesis using b c1 Suc.prems(3) by auto
  qed
qed

lemma foreach_visit:
  assumes "idle c" and "only_removes body" and "length (slItems c) \<le> n"
    and "visit body (slItems c) {} s = (s', dead)"
  shows "\<exists>c'. foreach n body c s = Some (c', s') \<and> idle c' \<and>
    slItems c' = filter (\<lambda>y. y \<notin> dead) (slItems c)"
proof (cases "slItems c")
  case Nil
  then show ?thesis using assms by (auto simp: foreach_def getFirst_def head_of_def idle_def)
next
  case (Cons x xs)
  let ?c1 = "c\<lparr> slActual := Some x, slInIteration := True \<rparr>"
  have "\<exists>c'. iterate n body (Some x) ?c1 s = Some (c', s') \<and>
      slItems c' = filter (\<lambda>y. y \<notin> dead) (slItems ?c1) \<and> \<not> slInIteration c' \<and> slToDelete c' = []"
    using assms Cons by (intro iterate_visit [of body "[]" x xs]) (auto simp: idle_def)
  moreover have "getFirst c = (Some x, ?c1)" using Cons by (simp add: getFirst_def head_of_def)
  ultimately show ?thesis using assms(1) by (auto simp: foreach_def idle_def)
qed

section \<open>Properties\<close>

text \<open>
  C26. Removing items while the container is iterated over is safe: the loop ends, it visits
  in order exactly the items that no earlier visit has removed, each of them once, and afterwards
  the container is ready for the next iteration with exactly the removed items gone.
\<close>

theorem iteration_with_removals:
  assumes "idle c" and "only_removes body" and "length (slItems c) \<le> n"
    and "visit body (slItems c) {} s = (s', dead)"
  shows "\<exists>c'. foreach n body c s = Some (c', s') \<and> idle c' \<and>
    slItems c' = filter (\<lambda>y. y \<notin> dead) (slItems c)"
  using assms by (rule foreach_visit)

definition example_body :: "(nat list, nat) loop_body" where
  "example_body s x = (s @ [x], if x = 1 then [Remove 1, Remove 2] else [])"

theorem iteration_with_removals_witness:
  "\<exists>c'. foreach 3 example_body (safe_set_new\<lparr>slItems := [1, 2, 3]\<rparr>) [] = Some (c', [1, 3]) \<and>
    slItems c' = [3]"
proof -
  have "only_removes example_body" by (simp add: only_removes_def example_body_def)
  then show ?thesis
    using iteration_with_removals [of "safe_set_new\<lparr>slItems := [1, 2, 3]\<rparr>" example_body 3 "[]" "[1, 3]" "{1, 2}"]
    by (auto simp: idle_def safe_set_new_def example_body_def removed_def)
qed

text \<open>
  An item that is removed and added again within one iteration is nevertheless gone afterwards:
  the addition finds it still in the set and the deferred removal is not cancelled.
\<close>

lemma readded_item_lost:
  assumes "slInIteration c" and "x \<in> set (slItems c)"
  shows "x \<notin> set (slItems (doDeletions
    ((sl_addItem pos x (sl_removeItem x c))\<lparr>slInIteration := False\<rparr>)))"
  using assms by (simp add: sl_addItem_def sl_removeItem_def doDeletions_items)

end
