(* ===== verification/CmdHandler.thy ===== *)
theory CmdHandler
  imports SafeLoop VeinComponent
begin

text \<open>
  convenient-code/lib/command-event-handler: the handler that hands command events to the items
  registered for their entity, and the entity item that hands component events on to the items
  registered for their component. Items are objects of other classes, so what one does with an
  event, including the items it adds and removes while it is called, is an argument.
\<close>

section \<open>Items registered under a key\<close>

text \<open>
  \<^verbatim>\<open>QHash<Key, SafeDeleteSet>\<close>; \<open>key\<close> is the key an item reports. Looking up a missing key to
  add or remove an item inserts an empty container.
\<close>

type_synonym ('k, 'i) registry = "('k, 'i safe_set) qmap"

datatype 'i item_op = AddItem nat 'i | RemoveItem 'i

definition reg_container :: "('k, 'i) registry \<Rightarrow> 'k \<Rightarrow> 'i safe_set" where
  "reg_container r k = qvalue r k safe_set_new"

definition reg_addItem ::
  "('i \<Rightarrow> 'k) \<Rightarrow> nat \<Rightarrow> 'i \<Rightarrow> ('k, 'i) registry \<Rightarrow> ('k, 'i) registry" where
  "reg_addItem key pos x r = fmupd (key x) (sl_addItem pos x (reg_container r (key x))) r"

definition reg_removeItem ::
  "('i \<Rightarrow> 'k) \<Rightarrow> 'i \<Rightarrow> ('k, 'i) registry \<Rightarrow> ('k, 'i) registry" where
  "reg_removeItem key x r = fmupd (key x) (sl_removeItem x (reg_container r (key x))) r"

fun item_op_exec :: "('i \<Rightarrow> 'k) \<Rightarrow> 'i item_op \<Rightarrow> ('k, 'i) registry \<Rightarrow> ('k, 'i) registry" where
  "item_op_exec key (AddItem pos x) r = reg_addItem key pos x r"
| "item_op_exec key (RemoveItem x) r = reg_removeItem key x r"

text \<open>What an item does when called: the new outer state and the registrations it changes.\<close>

type_synonym ('s, 'i) item_call = "'s \<Rightarrow> 'i \<Rightarrow> 's \<times> 'i item_op list"

text \<open>
  The loop over the container of one key. The container is looked up again after each call,
  which is what the iterator into the hash amounts to.
\<close>

fun reg_iterate ::
  "nat \<Rightarrow> ('i \<Rightarrow> 'k) \<Rightarrow> ('s, 'i) item_call \<Rightarrow> 'k \<Rightarrow> 'i option \<Rightarrow> ('k, 'i) registry \<Rightarrow> 's \<Rightarrow>
   (('k, 'i) registry \<times> 's) option" where
  "reg_iterate n key call k None r s = Some (r, s)"
| "reg_iterate 0 key call k (Some x) r s = None"
| "reg_iterate (Suc n) key call k (Some x) r s =
     (let (s1, ops) = call s x;
          r1 = fold (item_op_exec key) ops r;
          (nx, c) = getNext (reg_container r1 k)
      in reg_iterate n key call k nx (fmupd k c r1) s1)"

definition reg_foreach ::
  "nat \<Rightarrow> ('i \<Rightarrow> 'k) \<Rightarrow> ('s, 'i) item_call \<Rightarrow> 'k \<Rightarrow> ('k, 'i) registry \<Rightarrow> 's \<Rightarrow>
   (('k, 'i) registry \<times> 's) option" where
  "reg_foreach n key call k r s =
     (let (x, c) = getFirst (reg_container r k) in reg_iterate n key call k x (fmupd k c r) s)"

section \<open>VfCmdEventHandler\<close>

record 'i cmd_handler =
  chItems :: "(int, 'i) registry"
  chFilter :: event_subtype

definition cmd_handler_new :: "event_subtype \<Rightarrow> 'i cmd_handler" where
  "cmd_handler_new f = \<lparr> chItems = fmempty, chFilter = f \<rparr>"

definition ch_addItem :: "('i \<Rightarrow> int) \<Rightarrow> nat \<Rightarrow> 'i \<Rightarrow> 'i cmd_handler \<Rightarrow> 'i cmd_handler" where
  "ch_addItem key pos x h = h\<lparr>chItems := reg_addItem key pos x (chItems h)\<rparr>"

definition ch_removeItem :: "('i \<Rightarrow> int) \<Rightarrow> 'i \<Rightarrow> 'i cmd_handler \<Rightarrow> 'i cmd_handler" where
  "ch_removeItem key x h = h\<lparr>chItems := reg_removeItem key x (chItems h)\<rparr>"

text \<open>The two virtual functions of an item, for all items at once.\<close>

record ('s, 'i) item_class =
  icEntityId :: "'i \<Rightarrow> int"
  icProcess :: "vein_event \<Rightarrow> ('s, 'i) item_call"
  icProcessError :: "vein_data \<Rightarrow> ('s, 'i) item_call"

text \<open>
  The original data of an error event; nothing for nested errors and unknown types. A null byte
  array is read like an empty one.
\<close>

definition original_data :: "qt_lib \<Rightarrow> error_data \<Rightarrow> vein_data option" where
  "original_data qt err =
     (let t = erOriginalDataType err;
          bs = (case erOriginalData err of None \<Rightarrow> [] | Some b \<Rightarrow> b)
      in if t = VCMP_COMPONENTDATA_DATATYPE
         then Some (VComponent (cd_deserialize qt bs componentData_new))
         else if t = VCMP_ENTITYDATA_DATATYPE
         then Some (VEntity (ea_deserialize bs entityData_new))
         else if t = VCMP_INTROSPECTIONDATA_DATATYPE
         then Some (VIntrospection (id_deserialize qt bs introspectionData_new))
         else if t = VCMP_REMOTEPROCEDUREDATA_DATATYPE
         then Some (VRpc (rd_deserialize qt bs rpcData_new))
         else None)"

definition handleErrorData ::
  "nat \<Rightarrow> qt_lib \<Rightarrow> ('s, 'i) item_class \<Rightarrow> error_data \<Rightarrow> int \<Rightarrow> 'i cmd_handler \<Rightarrow> 's \<Rightarrow>
   ('i cmd_handler \<times> 's) option" where
  "handleErrorData n qt ic err k h s =
     (case original_data qt err of
        None \<Rightarrow> Some (h, s)
      | Some od \<Rightarrow>
          map_option (\<lambda>(r, s'). (h\<lparr>chItems := r\<rparr>, s'))
            (reg_foreach n (icEntityId ic) (icProcessError ic od) k (chItems h) s))"

definition ch_processCommandEvent ::
  "nat \<Rightarrow> qt_lib \<Rightarrow> ('s, 'i) item_class \<Rightarrow> vein_event \<Rightarrow> 'i cmd_handler \<Rightarrow> 's \<Rightarrow>
   ('i cmd_handler \<times> 's) option" where
  "ch_processCommandEvent n qt ic e h s =
     (if ceSubtype e \<noteq> chFilter h then Some (h, s)
      else
        let k = vd_entityId (ceData e)
        in if \<not> qcontains (chItems h) k then Some (h, s)
           else
             (case ceData e of
                VError err \<Rightarrow> handleErrorData n qt ic err k h s
              | _ \<Rightarrow>
                  map_option (\<lambda>(r, s'). (h\<lparr>chItems := r\<rparr>, s'))
                    (reg_foreach n (icEntityId ic) (icProcess ic e) k (chItems h) s)))"

section \<open>VfEntityComponentEventItem\<close>

text \<open>The component items of one entity item, by component name.\<close>

record ('s, 'i) component_item_class =
  ccComponentName :: "'i \<Rightarrow> string"
  ccProcess :: "component_data \<Rightarrow> ('s, 'i) item_call"
  ccProcessError :: "component_data \<Rightarrow> ('s, 'i) item_call"

definition eci_addItem ::
  "('i \<Rightarrow> string) \<Rightarrow> nat \<Rightarrow> 'i \<Rightarrow> (string, 'i) registry \<Rightarrow> (string, 'i) registry" where
  "eci_addItem name pos x r = reg_addItem name pos x r"

definition eci_removeItem ::
  "('i \<Rightarrow> string) \<Rightarrow> 'i \<Rightarrow> (string, 'i) registry \<Rightarrow> (string, 'i) registry" where
  "eci_removeItem name x r = reg_removeItem name x r"

definition eci_processCommandEvent ::
  "nat \<Rightarrow> ('s, 'i) component_item_class \<Rightarrow> vein_event \<Rightarrow> (string, 'i) registry \<Rightarrow> 's \<Rightarrow>
   ((string, 'i) registry \<times> 's) option" where
  "eci_processCommandEvent n cc e r s =
     (case ceData e of
        VComponent d \<Rightarrow>
          (if qcontains r (cdComponentName d)
           then reg_foreach n (ccComponentName cc) (ccProcess cc d) (cdComponentName d) r s
           else Some (r, s))
      | _ \<Rightarrow> Some (r, s))"

definition eci_processErrorCommandEventData ::
  "nat \<Rightarrow> ('s, 'i) component_item_class \<Rightarrow> vein_data \<Rightarrow> (string, 'i) registry \<Rightarrow> 's \<Rightarrow>
   ((string, 'i) registry \<times> 's) option" where
  "eci_processErrorCommandEventData n cc od r s =
     (case od of
        VComponent d \<Rightarrow>
          (if qcontains r (cdComponentName d)
           then reg_foreach n (ccComponentName cc) (ccProcessError cc d) (cdComponentName d) r s
           else Some (r, s))
      | _ \<Rightarrow> Some (r, s))"

section \<open>Lemmas\<close>

lemma reg_container_fmupd [simp]:
  "reg_container (fmupd k c r) k' = (if k = k' then c else reg_container r k')"
  by (simp add: reg_container_def)

text \<open>What the registration changes of a call mean for the container of one key.\<close>

fun op_item :: "'i item_op \<Rightarrow> 'i" where
  "op_item (AddItem pos x) = x"
| "op_item (RemoveItem x) = x"

fun set_op_of :: "'i item_op \<Rightarrow> 'i set_op" where
  "set_op_of (AddItem pos x) = AddAt pos x"
| "set_op_of (RemoveItem x) = Remove x"

definition local_ops :: "('i \<Rightarrow> 'k) \<Rightarrow> 'k \<Rightarrow> 'i item_op list \<Rightarrow> 'i set_op list" where
  "local_ops key k ops = map set_op_of (filter (\<lambda>op. key (op_item op) = k) ops)"

definition local_call :: "('i \<Rightarrow> 'k) \<Rightarrow> 'k \<Rightarrow> ('s, 'i) item_call \<Rightarrow> ('s, 'i) loop_body" where
  "local_call key k call s x = (let (s1, ops) = call s x in (s1, local_ops key k ops))"

lemma container_item_ops:
  "reg_container (fold (item_op_exec key) ops r) k =
   fold set_op_exec (local_ops key k ops) (reg_container r k)"
proof (induction ops arbitrary: r)
  case Nil
  then show ?case by (simp add: local_ops_def)
next
  case (Cons op ops)
  then show ?case
    by (cases op) (auto simp: local_ops_def reg_addItem_def reg_removeItem_def)
qed

lemma reg_iterate_local:
  "map_option (\<lambda>(r', s'). (reg_container r' k, s')) (reg_iterate n key call k x r s) =
   iterate n (local_call key k call) x (reg_container r k) s"
proof (induction n arbitrary: x r s)
  case 0
  then show ?case by (cases x) auto
next
  case (Suc n)
  show ?case
  proof (cases x)
    case None
    then show ?thesis by simp
  next
    case (Some y)
    then show ?thesis
      using Suc by (simp add: local_call_def split_beta Let_def container_item_ops)
  qed
qed

lemma reg_foreach_local:
  "map_option (\<lambda>(r', s'). (reg_container r' k, s')) (reg_foreach n key call k r s) =
   foreach n (local_call key k call) (reg_container r k) s"
  by (simp add: reg_foreach_def foreach_def split_beta Let_def reg_iterate_local)

text \<open>The loop over the items of one key visits them as \<open>visit\<close> does.\<close>

lemma reg_foreach_visit:
  assumes "idle (reg_container r k)" and "only_removes (local_call key k call)"
    and "length (slItems (reg_container r k)) \<le> n"
    and "visit (local_call key k call) (slItems (reg_container r k)) {} s = (s', dead)"
  obtains r' where "reg_foreach n key call k r s = Some (r', s')" and "idle (reg_container r' k)"
    and "slItems (reg_container r' k) = filter (\<lambda>y. y \<notin> dead) (slItems (reg_container r k))"
proof -
  obtain c' where c': "foreach n (local_call key k call) (reg_container r k) s = Some (c', s')"
    "idle c'" "slItems c' = filter (\<lambda>y. y \<notin> dead) (slItems (reg_container r k))"
    using foreach_visit [OF assms] by auto
  then obtain r' where "reg_foreach n key call k r s = Some (r', s')" "reg_container r' k = c'"
    using reg_foreach_local [of k n key call r s] by (auto simp: map_option_eq_Some)
  then show ?thesis using that c' by simp
qed

text \<open>Containers of other keys lose items at most, when the items called only remove items.\<close>

definition call_removes :: "('s, 'i) item_call \<Rightarrow> bool" where
  "call_removes call \<longleftrightarrow> (\<forall>s x pos y. AddItem pos y \<notin> set (snd (call s x)))"

lemma call_removes_local: "call_removes call \<Longrightarrow> only_removes (local_call key k call)"
  unfolding call_removes_def only_removes_def local_call_def local_ops_def
  by (simp add: split_beta image_iff) (metis set_op.distinct(1) set_op_of.elims)

lemma removes_other:
  assumes "\<forall>pos y. AddItem pos y \<notin> set ops" and "idle (reg_container r j)"
  shows "idle (reg_container (fold (item_op_exec key) ops r) j) \<and>
    set (slItems (reg_container (fold (item_op_exec key) ops r) j)) \<subseteq> set (slItems (reg_container r j))"
  using assms
proof (induction ops arbitrary: r)
  case (Cons op ops)
  then obtain y where op: "op = RemoveItem y" by (cases op) auto
  have "idle (reg_container (reg_removeItem key y r) j) \<and>
      set (slItems (reg_container (reg_removeItem key y r) j)) \<subseteq> set (slItems (reg_container r j))"
    using Cons.prems(2) by (auto simp: reg_removeItem_def sl_removeItem_def idle_def distinct_removeAll)
  moreover have "\<forall>pos y. AddItem pos y \<notin> set ops" using Cons.prems(1) by simp
  ultimately show ?case
    using Cons.IH [of "reg_removeItem key y r"] op by (simp add: subset_iff)
qed simp

lemma reg_iterate_other:
  assumes "call_removes call" and "j \<noteq> k" and "idle (reg_container r j)"
    and "reg_iterate n key call k x r s = Some (r', s')"
  shows "idle (reg_container r' j) \<and>
    set (slItems (reg_container r' j)) \<subseteq> set (slItems (reg_container r j))"
  using assms(3,4)
proof (induction n arbitrary: x r s)
  case 0
  then show ?case by (cases x) auto
next
  case (Suc n)
  show ?case
  proof (cases x)
    case None
    then show ?thesis using Suc.prems by simp
  next
    case (Some y)
    obtain s1 ops where c: "call s y = (s1, ops)" by (cases "call s y") auto
    have "\<forall>pos y. AddItem pos y \<notin> set ops"
      using assms(1) c unfolding call_removes_def by (metis snd_conv)
    note r1 = removes_other [OF this Suc.prems(1), of key]
    obtain nx c1 where n: "getNext (reg_container (fold (item_op_exec key) ops r) k) = (nx, c1)"
      by (cases "getNext (reg_container (fold (item_op_exec key) ops r) k)") auto
    show ?thesis
      using Suc.IH [of "fmupd k c1 (fold (item_op_exec key) ops r)" nx s1] r1 Suc.prems(2) Some c n
        assms(2) by (simp add: subset_iff)
  qed
qed

lemma reg_foreach_other:
  assumes "call_removes call" and "j \<noteq> k" and "idle (reg_container r j)"
    and "reg_foreach n key call k r s = Some (r', s')"
  shows "idle (reg_container r' j) \<and>
    set (slItems (reg_container r' j)) \<subseteq> set (slItems (reg_container r j))"
proof -
  obtain x c where "getFirst (reg_container r k) = (x, c)" by fastforce
  then show ?thesis
    using reg_iterate_other [OF assms(1,2), of "fmupd k c r" n key x s r' s'] assms(2-4)
    by (simp add: reg_foreach_def)
qed

text \<open>The cause of an error event sent by \<open>errorOut\<close>, as its receiver reads it.\<close>

definition as_received :: "vein_data \<Rightarrow> vein_data" where
  "as_received d = vd_setEventOrigin EO_LOCAL (vd_setEventTarget ET_IRRELEVANT d)"

lemma original_data_cause:
  assumes "vd_type d \<noteq> VCMP_ERRORDATA_DATATYPE" and "vd_wf qt d"
    and "erOriginalDataType err = vd_type d" and "erOriginalData err = Some (vd_serialize qt d)"
  shows "original_data qt err = Some (as_received d)"
  using assms
  by (cases d) (auto simp: original_data_def datatype_ids as_received_def Let_def cd_roundtrip
      ea_roundtrip id_roundtrip rd_roundtrip setEventOrigin_def setEventTarget_def)

section \<open>Properties\<close>

text \<open>
  The handler delivers: a command event of the filtered subtype reaches the items
  registered for its entity, in order, each once and no other item, except items that an item
  called before has removed; whatever items of other entities are added or removed meanwhile.
  Afterwards the removed items are unregistered and the container is ready for the next event.
\<close>

theorem handler_delivers:
  fixes ic :: "('s, 'i) item_class" and e qt
  defines "k \<equiv> vd_entityId (ceData e)"
  defines "call \<equiv> local_call (icEntityId ic) k (icProcess ic e)"
  assumes "ceSubtype e = chFilter h" and "vd_type (ceData e) \<noteq> VCMP_ERRORDATA_DATATYPE"
    and "fmlookup (chItems h) k = Some c" and "idle c" and "length (slItems c) \<le> n"
    and "only_removes call" and "visit call (slItems c) {} s = (s', dead)"
  shows "\<exists>h' c'. ch_processCommandEvent n qt ic e h s = Some (h', s') \<and>
    reg_container (chItems h') k = c' \<and> idle c' \<and>
    slItems c' = filter (\<lambda>x. x \<notin> dead) (slItems c)"
proof -
  have c: "reg_container (chItems h) k = c" using assms(5) by (simp add: reg_container_def qvalue_def)
  obtain r' where r': "reg_foreach n (icEntityId ic) (icProcess ic e) k (chItems h) s = Some (r', s')"
    "idle (reg_container r' k)"
    "slItems (reg_container r' k) = filter (\<lambda>x. x \<notin> dead) (slItems c)"
    using reg_foreach_visit [of "chItems h" k "icEntityId ic" "icProcess ic e" n s s' dead] assms c
    by auto
  moreover have "ch_processCommandEvent n qt ic e h s = Some (h\<lparr>chItems := r'\<rparr>, s')"
    using assms(3-5) r'(1)
    by (cases "ceData e")
       (simp_all add: ch_processCommandEvent_def k_def fmlookup_dom_iff)
  ultimately show ?thesis by auto
qed

text \<open>An item is its number and entity; each notes its number, and item 1 removes item 2.\<close>

definition example_items :: "(nat list, nat \<times> int) item_class" where
  "example_items = \<lparr> icEntityId = snd,
     icProcess = (\<lambda>e s x. (s @ [fst x], if fst x = 1 then [RemoveItem (2, 7)] else [])),
     icProcessError = (\<lambda>d s x. (s @ [fst x], [])) \<rparr>"

definition example_handler :: "(nat \<times> int) cmd_handler" where
  "example_handler = ch_addItem snd 9 (3, 7) (ch_addItem snd 9 (2, 7) (ch_addItem snd 9 (1, 7)
     (ch_addItem snd 9 (4, 8) (cmd_handler_new NOTIFICATION))))"

lemma example_handler_items:
  "fmlookup (chItems example_handler) 7 = Some (safe_set_new\<lparr>slItems := [(1, 7), (2, 7), (3, 7)]\<rparr>)"
  by (simp add: example_handler_def ch_addItem_def reg_addItem_def cmd_handler_new_def
      sl_addItem_def safe_set_new_def reg_container_def)

lemma example_filter [simp]: "chFilter example_handler = NOTIFICATION"
  by (simp add: example_handler_def ch_addItem_def cmd_handler_new_def)

definition example_event :: vein_event where
  "example_event = commandEvent_new NOTIFICATION (VEntity (setEntityId 7 entityData_new))"

lemma example_event_fields [simp]:
  "ceSubtype example_event = NOTIFICATION" "vd_entityId (ceData example_event) = 7"
  "vd_type (ceData example_event) \<noteq> VCMP_ERRORDATA_DATATYPE" "vd_wf qt (ceData example_event)"
  by (simp_all add: example_event_def vein_defs datatype_ids record_glue ea_wf_def entity_id_wf_def)

lemma example_calls:
  "local_call snd 7 (icProcess example_items e) s x =
     (s @ [fst x], if fst x = 1 then [Remove (2, 7)] else [])"
  "local_call snd 7 (icProcessError example_items d) s x = (s @ [fst x], [])"
  "icEntityId example_items = snd"
  by (simp_all add: local_call_def example_items_def local_ops_def)

theorem handler_delivers_witness:
  "\<exists>h' c'. ch_processCommandEvent 3 qt_ref example_items example_event example_handler [] =
      Some (h', [1, 3]) \<and> reg_container (chItems h') 7 = c' \<and> idle c' \<and>
      slItems c' = [(1, 7), (3, 7)]"
  using handler_delivers [of example_event example_handler
      "safe_set_new\<lparr>slItems := [(1, 7), (2, 7), (3, 7)]\<rparr>" 3 example_items "[]" "[1, 3]"
      "{(2, 7)}" qt_ref]
  by (simp add: example_handler_items example_calls only_removes_def removed_def
      idle_def safe_set_new_def)

text \<open>
  A failed request is reported to the items of its entity: the event that
  \<open>errorOut\<close> answers an undeliverable event with makes every handler of notifications call the
  error function of each item registered for the entity, in order and once, with the data of
  the failed request.
\<close>

theorem error_reaches_items:
  fixes ic :: "('s, 'i) item_class" and cause :: vein_event and qt
  defines "k \<equiv> vd_entityId (ceData cause)"
  defines "call \<equiv> local_call (icEntityId ic) k (icProcessError ic (as_received (ceData cause)))"
  assumes "vd_type (ceData cause) \<noteq> VCMP_ERRORDATA_DATATYPE" and "vd_wf qt (ceData cause)"
    and "snd (errorOut qt msg cause) = [err]"
    and "chFilter h = NOTIFICATION" and "fmlookup (chItems h) k = Some c" and "idle c"
    and "length (slItems c) \<le> n" and "only_removes call"
    and "visit call (slItems c) {} s = (s', dead)"
  shows "\<exists>h' c'. ch_processCommandEvent n qt ic err h s = Some (h', s') \<and>
    reg_container (chItems h') k = c' \<and> idle c' \<and>
    slItems c' = filter (\<lambda>x. x \<notin> dead) (slItems c)"
proof -
  have "vd_entityId (ceData cause) \<ge> -1"
    using assms(3,4) by (cases "ceData cause")
      (simp_all add: cd_wf_def ea_wf_def id_wf_def rd_wf_def er_wf_def entity_id_wf_def)
  then obtain er where er: "ceData err = VError er" "ceSubtype err = NOTIFICATION"
    "edEntityId er = k" "original_data qt er = Some (as_received (ceData cause))"
    using errorOut_result [OF assms(3), of qt msg] assms(5)
      original_data_cause [OF assms(3,4)] k_def by auto
  have c: "reg_container (chItems h) k = c" using assms(7) by (simp add: reg_container_def qvalue_def)
  obtain r' where r': "reg_foreach n (icEntityId ic) (icProcessError ic (as_received (ceData cause)))
      k (chItems h) s = Some (r', s')" "idle (reg_container r' k)"
    "slItems (reg_container r' k) = filter (\<lambda>x. x \<notin> dead) (slItems c)"
    using reg_foreach_visit [of "chItems h" k "icEntityId ic"
        "icProcessError ic (as_received (ceData cause))" n s s' dead] assms c by auto
  moreover have "ch_processCommandEvent n qt ic err h s = Some (h\<lparr>chItems := r'\<rparr>, s')"
    using assms(6,7) r'(1) er
    by (simp add: ch_processCommandEvent_def handleErrorData_def fmlookup_dom_iff)
  ultimately show ?thesis by auto
qed

theorem error_reaches_items_witness:
  "\<exists>h' c'. ch_processCommandEvent 3 qt_ref example_items
      (hd (snd (errorOut qt_ref ''no entity'' example_event))) example_handler [] =
      Some (h', [1, 2, 3]) \<and> reg_container (chItems h') 7 = c' \<and> idle c' \<and>
      slItems c' = [(1, 7), (2, 7), (3, 7)]"
proof -
  have "snd (errorOut qt_ref ''no entity'' example_event) =
      [hd (snd (errorOut qt_ref ''no entity'' example_event))]"
    by (simp add: errorOut_def Let_def)
  from error_reaches_items [OF _ _ this, of example_handler
      "safe_set_new\<lparr>slItems := [(1, 7), (2, 7), (3, 7)]\<rparr>" 3 example_items "[]" "[1, 2, 3]" "{}"]
  show ?thesis
    by (simp add: example_handler_items example_calls only_removes_def removed_def
        idle_def safe_set_new_def)
qed

end
