(* ===== verification/ServerFlows.thy ===== *)
theory ServerFlows
  imports ServerStack ClientStorage CmdHandler
begin

text \<open>
  How single events travel through the server's chain: what the modules ignore, the path of a
  subscription and of a client's write, as lemmas for the properties that span components.
\<close>

section \<open>Steps of the chain\<close>

definition inert :: "qt_lib \<Rightarrow> vein_event \<Rightarrow> vf_entity \<Rightarrow> bool" where
  "inert qt e m \<longleftrightarrow> ve_processEvent qt e m = (m, e, no_output)"

lemma inert_other: "vd_entityId (ceData e) \<noteq> veEntityId m \<Longrightarrow> inert qt e m"
  by (simp add: inert_def ve_processEvent_def)

lemma inert_payload:
  "ceData e = VEntity d \<Longrightarrow> inert qt e m" "ceData e = VIntrospection idd \<Longrightarrow> inert qt e m"
  by (simp_all add: inert_def ve_processEvent_def)

lemma inert_notification:
  "ceData e = VComponent d \<Longrightarrow> ceSubtype e \<noteq> TRANSACTION \<Longrightarrow> inert qt e m"
  by (simp add: inert_def ve_processEvent_def ve_handleComponents_def)

lemma inert_step:
  "k < length (svModules sv) \<Longrightarrow> inert (xeQt env) e (svModules sv ! k) \<Longrightarrow>
   proc_module env k sv (CmdEv e) = (sv, CmdEv e, [])"
  by (simp add: inert_def proc_module_def on_command_def no_output_def)

lemma inert_modules:
  assumes "\<forall>k \<in> set ks. k < length (svModules sv) \<longrightarrow> inert (xeQt env) e (svModules sv ! k)"
    and "\<not> ceAccepted e"
  shows "customEvent app_accepted (map (proc_module env) ks) sv (CmdEv e) =
    (sv, CmdEv e, [], length ks)"
  using assms
proof (induction ks)
  case Nil
  then show ?case by simp
next
  case (Cons k ks)
  have "proc_module env k sv (CmdEv e) = (sv, CmdEv e, [])"
    using inert_step [of k sv env e] Cons.prems(1)
    by (cases "k < length (svModules sv)") (simp_all add: proc_module_def on_command_def)
  then show ?case using Cons by (simp add: app_accepted_def)
qed

text \<open>An event the modules ignore is dispatched to the core systems alone.\<close>

lemma dispatch_core:
  assumes "\<forall>m \<in> set (svModules sv). inert (xeQt env) e m" and "\<not> ceAccepted e"
  shows "customEvent app_accepted (server_procs env n) sv (CmdEv e) =
    (let (sv', ev', out, k) = customEvent app_accepted (core_procs env) sv (CmdEv e)
     in (sv', ev', out, n + k))"
  using inert_modules [of "[0..<n]" sv env e] assms
  by (simp add: server_procs_def customEvent_append split_beta Let_def)

lemmas proc_defs = proc_system_def proc_introspection_def proc_storage_def proc_license_def
  proc_network_def proc_tcp_def on_command_def app_accepted_def

section \<open>A subscription\<close>

definition initial_fetches :: "qt_lib \<Rightarrow> database \<Rightarrow> int \<Rightarrow> quuid \<Rightarrow> vein_event list" where
  "initial_fetches qt db i p =
     map (\<lambda>c. initial_fetch qt i p c (qvalue (component_values db i) c QInvalid))
       (qkeys (component_values db i))"

lemma subscribe_path_exact:
  assumes "\<not> svDown sv" and "nsOperationMode (svNet sv) = VNOM_SUBSCRIPTION"
    and "ceData e = VEntity d" and "ceSubtype e = TRANSACTION" and "\<not> ceAccepted e"
    and "eaCommand d = ECMD_SUBSCRIBE" and "getComponentList (ssDb (svStorage sv)) (edEntityId d) \<noteq> []"
  shows "customEvent app_accepted (server_procs env n) sv (CmdEv e) =
    (sv\<lparr>svNet := fst (tryAddSubscription d (cePeerId e) (svNet sv))\<rparr>, CmdEv (accept (validated e)),
     CmdEv (introspection_event (ssDb (svStorage sv)) (ssRpcNames (svStorage sv)) (edEntityId d)
       (cePeerId e)) #
     map CmdEv (initial_fetches (xeQt env) (ssDb (svStorage sv)) (edEntityId d) (cePeerId e)), n + 5)"
proof -
  let ?rest = "initial_fetches (xeQt env) (ssDb (svStorage sv)) (edEntityId d) (cePeerId e)"
  let ?d = "setEventTarget ET_ALL (setEventOrigin EO_LOCAL d)"
  have v: "ceData (validated e) = VEntity ?d" "ceSubtype (validated e) = NOTIFICATION"
    "cePeerId (validated e) = cePeerId e" "\<not> ceAccepted (validated e)"
    using assms(3,5) by (simp_all add: validated_def setEventSubtype_def)
  have d: "eaCommand ?d = ECMD_SUBSCRIBE" "edEntityId ?d = edEntityId d" "edOrigin ?d = EO_LOCAL"
    "edTarget ?d = ET_ALL"
    using assms(6) by (simp_all add: setEventTarget_def setEventOrigin_def)
  have sys: "sm_processEvent (xeQt env) (xeSys env) e (svSystem sv) =
      Some (svSystem sv, validated e, [], [])"
    using assms(3,4,6) by (simp add: sm_processEvent_def)
  have intro: "introspection_processEvent (xeQt env) (ssDb (svStorage sv))
      (ssRpcNames (svStorage sv)) (validated e) =
      (validated e, introspection_event (ssDb (svStorage sv)) (ssRpcNames (svStorage sv))
         (edEntityId d) (cePeerId e) # ?rest)"
    using assms(7) v d by (simp add: introspection_processEvent_def initial_fetches_def Let_def)
  have sto: "ss_processEvent (xeQt env) (svStorage sv) (validated e) =
      (svStorage sv, validated e, [], [])"
    using v d by (simp add: ss_processEvent_def ss_processEntityData_def)
  have lic: "li_processEvent (xeQt env) (validated e) (svLicense sv) = (svLicense sv, False)"
    using v by (simp add: li_processEvent_def)
  have net: "networkSystem_processEvent (xeFb env) (xeQt env) (svNet sv) (CmdEv (validated e)) =
      Some (fst (tryAddSubscription d (cePeerId e) (svNet sv)), CmdEv (accept (validated e)), [])"
    using assms(2,6) v d
    by (simp add: networkSystem_processEvent_def processCmdEvents_def tryAddSubscription_def Let_def)
  have "customEvent app_accepted (core_procs env) sv (CmdEv e) =
    (sv\<lparr>svNet := fst (tryAddSubscription d (cePeerId e) (svNet sv))\<rparr>, CmdEv (accept (validated e)),
     map CmdEv (introspection_event (ssDb (svStorage sv)) (ssRpcNames (svStorage sv)) (edEntityId d)
       (cePeerId e) # ?rest), 5)"
    using assms(1,5) v(4) by (simp add: core_procs_def proc_defs sys intro sto lic net accept_def)
  then show ?thesis
    using dispatch_core [of sv env e n] inert_payload(1) [OF assms(3)] assms(5) by auto
qed

lemma subscribe_path:
  assumes "\<not> svDown sv" and "nsOperationMode (svNet sv) = VNOM_SUBSCRIPTION"
    and "ceData e = VEntity d" and "ceSubtype e = TRANSACTION" and "\<not> ceAccepted e"
    and "eaCommand d = ECMD_SUBSCRIBE" and "getComponentList (ssDb (svStorage sv)) (edEntityId d) \<noteq> []"
  shows "\<exists>rest. customEvent app_accepted (server_procs env n) sv (CmdEv e) =
    (sv\<lparr>svNet := fst (tryAddSubscription d (cePeerId e) (svNet sv))\<rparr>, CmdEv (accept (validated e)),
     CmdEv (introspection_event (ssDb (svStorage sv)) (ssRpcNames (svStorage sv)) (edEntityId d)
       (cePeerId e)) # rest, n + 5)"
  using subscribe_path_exact [OF assms] by blast

text \<open>The introspection event, when it is its turn, goes to the subscriber alone.\<close>

lemma introspection_sent:
  assumes "nsOperationMode ns = VNOM_SUBSCRIPTION" and "(i, q) \<in> subs_abs ns" and "0 \<le> i"
  shows "snd (snd (processCmdEvents fb qt ns (introspection_event db rpcs i p))) =
    [sendNetworkEvent [p] (prepareEnvelope fb qt (introspection_event db rpcs i p))]"
proof -
  have "qcontains (nsSubscriptions ns) i"
    using assms(2)
    by (cases "fmlookup (nsSubscriptions ns) i") (simp_all add: subs_abs_iff qvalue_def fmlookup_dom_iff)
  then show ?thesis
    using assms(1,3)
    by (simp add: processCmdEvents_def introspection_event_data datatype_ids Let_def)
qed

text \<open>The whole way of the introspection event through the chain.\<close>

lemma introspection_path:
  fixes p :: quuid
  assumes "\<not> svDown sv" and "nsOperationMode (svNet sv) = VNOM_SUBSCRIPTION"
    and "(i, q) \<in> subs_abs (svNet sv)" and "0 \<le> i"
  defines "e \<equiv> introspection_event (ssDb (svStorage sv)) (ssRpcNames (svStorage sv)) i p"
  shows "customEvent app_accepted (server_procs env n) sv (CmdEv e) =
    (sv, CmdEv e, [ProtoEv (sendNetworkEvent [p] (prepareEnvelope (xeFb env) (xeQt env) e))], n + 6)"
proof -
  obtain x where e: "ceData e = VIntrospection x" "ceSubtype e = NOTIFICATION" "\<not> ceAccepted e"
    by (simp add: e_def introspection_event_data [OF assms(4)])
  have sys: "sm_processEvent (xeQt env) (xeSys env) e (svSystem sv) = Some (svSystem sv, e, [], [])"
    using e by (simp add: sm_processEvent_def)
  have intro: "introspection_processEvent (xeQt env) db rpcs e = (e, [])" for db rpcs
    using e by (simp add: introspection_processEvent_def)
  have sto: "ss_processEvent (xeQt env) (svStorage sv) e = (svStorage sv, e, [], [])"
    using e by (simp add: ss_processEvent_def)
  have lic: "li_processEvent (xeQt env) e (svLicense sv) = (svLicense sv, False)"
    using e by (simp add: li_processEvent_def)
  have state: "fst (processCmdEvents (xeFb env) (xeQt env) (svNet sv) e) = svNet sv"
    "fst (snd (processCmdEvents (xeFb env) (xeQt env) (svNet sv) e)) = e"
    using assms(2) e by (simp_all add: processCmdEvents_def Let_def)
  have out: "snd (snd (processCmdEvents (xeFb env) (xeQt env) (svNet sv) e)) =
      [sendNetworkEvent [p] (prepareEnvelope (xeFb env) (xeQt env) e)]"
    unfolding e_def using assms(2-4) by (rule introspection_sent)
  have net: "networkSystem_processEvent (xeFb env) (xeQt env) (svNet sv) (CmdEv e) =
      Some (svNet sv, CmdEv e, [ProtoEv (sendNetworkEvent [p] (prepareEnvelope (xeFb env) (xeQt env) e))])"
    using state out by (simp add: networkSystem_processEvent_def split_beta)
  have "customEvent app_accepted (core_procs env) sv (CmdEv e) =
    (sv, CmdEv e, [ProtoEv (sendNetworkEvent [p] (prepareEnvelope (xeFb env) (xeQt env) e))], 6)"
    using assms(1) e(3)
    by (simp add: core_procs_def proc_defs sys intro sto lic net tcpSystem_processEvent_def)
  then show ?thesis
    using dispatch_core [of sv env e n] inert_payload(2) [OF e(1)] e(3) by simp
qed

lemma subscription_mode [simp]:
  "nsOperationMode (fst (tryAddSubscription d p ns)) = nsOperationMode ns"
  by (simp add: tryAddSubscription_def Let_def)

lemma subscribed_after:
  "eaCommand d = ECMD_SUBSCRIBE \<Longrightarrow>
   subs_abs (fst (tryAddSubscription d p ns)) = insert (edEntityId d, p) (subs_abs ns)"
  by (auto simp: tryAddSubscription_def subs_abs_def Let_def split: if_splits)

section \<open>A write of a client\<close>

lemma write_accepted:
  assumes "\<not> svDown sv" and "j < length (svModules sv)" and "svModules sv ! j = m"
    and "\<And>i. i < length (svModules sv) \<Longrightarrow> i \<noteq> j \<Longrightarrow> veEntityId (svModules sv ! i) \<noteq> veEntityId m"
    and "ceData e = VComponent d" and "ceSubtype e = TRANSACTION" and "\<not> ceAccepted e"
    and "edEntityId d = veEntityId m" and "cdCommand d = CCMD_SET"
    and "fmlookup (veComponents m) (cdComponentName d) = Some c" and "\<not> fcReadOnly c"
    and "\<not> qtEq (xeQt env) (cdNewValue d) (fcValue c)"
  defines "c1 \<equiv> c\<lparr>fcValue := cdNewValue d\<rparr>"
  shows "customEvent app_accepted (server_procs env (length (svModules sv))) sv (CmdEv e) =
    (sv\<lparr>svModules := (svModules sv)[j := m\<lparr>veComponents :=
          fmupd (cdComponentName d) c1 (veComponents m)\<rparr>]\<rparr>,
     CmdEv (accept e), [CmdEv (fc_sendNotification CCMD_SET c1)], Suc j)"
proof -
  let ?n = "length (svModules sv)"
  have split: "[0..<?n] = [0..<j] @ j # [Suc j..<?n]"
    using assms(2) upt_add_eq_append [of 0 j "?n - j"] by (simp add: upt_conv_Cons)
  have pre: "customEvent app_accepted (map (proc_module env) [0..<j]) sv (CmdEv e) =
      (sv, CmdEv e, [], j)"
  proof -
    have "inert (xeQt env) e (svModules sv ! k)" if "k < j" for k
    proof -
      have "veEntityId (svModules sv ! k) \<noteq> veEntityId m" using that assms(2) by (intro assms(4)) auto
      then show ?thesis using assms(5,8) by (intro inert_other) simp
    qed
    then show ?thesis using inert_modules [of "[0..<j]" sv env e] assms(7) by simp
  qed
  have "fc_setValueFromVein (xeQt env) (cdNewValue d) c =
      (c1, [fc_sendNotification CCMD_SET c1], [cdNewValue d])"
    using assms(11,12) by (simp add: fc_setValueFromVein_def fc_setValue_def c1_def Let_def)
  then have step: "proc_module env j sv (CmdEv e) =
      (sv\<lparr>svModules := (svModules sv)[j := m\<lparr>veComponents :=
            fmupd (cdComponentName d) c1 (veComponents m)\<rparr>]\<rparr>,
       CmdEv (accept e), [CmdEv (fc_sendNotification CCMD_SET c1)])"
    using assms(1-3) ve_processEvent_component [OF assms(5,8,6,9,10), of "xeQt env"]
    by (simp add: proc_module_def on_command_def no_output_def)
  have post: "customEvent app_accepted (map (proc_module env) [Suc j..<?n] @ core_procs env) sv'
      (CmdEv (accept e)) = (sv', CmdEv (accept e), [], 0)" for sv'
    by (simp add: app_accepted_def accept_def)
  show ?thesis
    using pre step post assms(7)
    by (simp add: server_procs_def split customEvent_append app_accepted_def Let_def split_beta
        append_assoc [symmetric] del: append_assoc)
qed

text \<open>The notification reaches store, licenses and network; the chain does not accept it.\<close>

lemma notification_path:
  assumes "\<not> svDown sv" and "nsOperationMode (svNet sv) = VNOM_SUBSCRIPTION"
    and "ceData e = VComponent d" and "ceSubtype e = NOTIFICATION" and "\<not> ceAccepted e"
    and "edOrigin d = EO_LOCAL" and "edTarget d = ET_ALL" and "cdCommand d = CCMD_SET"
    and "qv_valid (cdNewValue d)"
    and "findComponent (ssDb (svStorage sv)) (edEntityId d) (cdComponentName d) = Some r"
  defines "subs \<equiv> qvalue (nsSubscriptions (svNet sv)) (edEntityId d) []"
  shows "customEvent app_accepted (server_procs env n) sv (CmdEv e) =
    (sv\<lparr> svStorage := (svStorage sv)\<lparr>ssDb := fst (setValue (xeQt env) r (cdNewValue d)
             (ssDb (svStorage sv)))\<rparr>,
         svLicense := fst (li_processEvent (xeQt env) e (svLicense sv)) \<rparr>, CmdEv e,
     (if subs = [] then [] else
       [ProtoEv (sendNetworkEvent subs (prepareEnvelope (xeFb env) (xeQt env) e))]), n + 6)"
proof -
  have sys: "sm_processEvent (xeQt env) (xeSys env) e (svSystem sv) = Some (svSystem sv, e, [], [])"
    using assms(4) by (simp add: sm_processEvent_def)
  have intro: "introspection_processEvent (xeQt env) db rpcs e = (e, [])" for db rpcs
    using assms(3) by (simp add: introspection_processEvent_def)
  obtain em where "findEntity (ssDb (svStorage sv)) (edEntityId d) = Some em"
    "findInMap (Some em) (cdComponentName d) = Some r"
    using assms(10)
    by (auto simp: findComponent_def findInMap_def findEntity_def split: option.splits)
  then have sto: "ss_processEvent (xeQt env) (svStorage sv) e =
      ((svStorage sv)\<lparr>ssDb := fst (setValue (xeQt env) r (cdNewValue d) (ssDb (svStorage sv)))\<rparr>, e, [],
       snd (setValue (xeQt env) r (cdNewValue d) (ssDb (svStorage sv))))"
    using assms(3,4,6,8,9)
    by (simp add: ss_processEvent_def ss_processComponentData_def acceptableOrigin_def split_beta
        Let_def)
  have net: "networkSystem_processEvent (xeFb env) (xeQt env) (svNet sv) (CmdEv e) =
      Some (svNet sv, CmdEv e, if subs = [] then []
        else [ProtoEv (sendNetworkEvent subs (prepareEnvelope (xeFb env) (xeQt env) e))])"
    using assms(2,3,6,7)
    by (simp add: networkSystem_processEvent_def processCmdEvents_def subs_def datatype_ids Let_def
        qvalue_None fmdom_notD)
  have "customEvent app_accepted (core_procs env) sv (CmdEv e) =
    (sv\<lparr> svStorage := (svStorage sv)\<lparr>ssDb := fst (setValue (xeQt env) r (cdNewValue d)
             (ssDb (svStorage sv)))\<rparr>,
         svLicense := fst (li_processEvent (xeQt env) e (svLicense sv)) \<rparr>, CmdEv e,
     (if subs = [] then [] else
       [ProtoEv (sendNetworkEvent subs (prepareEnvelope (xeFb env) (xeQt env) e))]), 6)"
    using assms(1,5)
    by (simp add: core_procs_def proc_defs sys intro sto net tcpSystem_processEvent_def)
  then show ?thesis
    using dispatch_core [of sv env e n] inert_notification [OF assms(3)] assms(4,5) by simp
qed

lemma client_write_steps:
  assumes "server_inv sv" and "\<not> svDown sv" and "j < length (svModules sv)"
    and "svModules sv ! j = m"
    and "distinct (map veEntityId (svModules sv))"
    and "ceData e = VComponent d" and "ceSubtype e = TRANSACTION" and "\<not> ceAccepted e"
    and "edEntityId d = veEntityId m" and "0 \<le> veEntityId m" and "cdCommand d = CCMD_SET"
    and "fmlookup (veComponents m) (cdComponentName d) = Some c" and "\<not> fcReadOnly c"
    and "fcEntityId c = veEntityId m"
    and "\<not> qtEq (xeQt env) (cdNewValue d) (fcValue c)" and "qv_valid (cdNewValue d)"
    and "findComponent (ssDb (svStorage sv)) (veEntityId m) (cdComponentName d) = Some r"
  shows "\<exists>sv1 sv2 note payload out subs k l.
    customEvent app_accepted (server_procs env (length (svModules sv))) sv (CmdEv e) =
      (sv1, CmdEv (accept e), [CmdEv note], k) \<and>
    svStorage sv1 = svStorage sv \<and>
    customEvent app_accepted (server_procs env (length (svModules sv))) sv1 (CmdEv note) =
      (sv2, CmdEv note, out, l) \<and>
    ceData note = VComponent payload \<and> cdCommand payload = CCMD_SET \<and>
    edEntityId payload = veEntityId m \<and> cdComponentName payload = cdComponentName d \<and>
    cdNewValue payload = cdNewValue d \<and>
    fmlookup (veComponents (svModules sv2 ! j)) (cdComponentName d) =
      Some (c\<lparr>fcValue := cdNewValue d\<rparr>) \<and>
    db_abs (ssDb (svStorage sv2)) =
      spec_exec (xeQt env) (AssignValue (veEntityId m) (cdComponentName d) (cdNewValue d))
        (db_abs (ssDb (svStorage sv))) \<and>
    distinct subs \<and> set subs = {p. (veEntityId m, p) \<in> subs_abs (svNet sv)} \<and>
    out = (if subs = [] then []
           else [ProtoEv (sendNetworkEvent subs (prepareEnvelope (xeFb env) (xeQt env) note))]) \<and>
    svTcp sv2 = svTcp sv \<and> \<not> svDown sv2"
proof -
  let ?n = "length (svModules sv)" and ?i = "veEntityId m" and ?c = "c\<lparr>fcValue := cdNewValue d\<rparr>"
  let ?sv1 = "sv\<lparr>svModules := (svModules sv)[j := m\<lparr>veComponents :=
          fmupd (cdComponentName d) ?c (veComponents m)\<rparr>]\<rparr>"
  let ?note = "fc_sendNotification CCMD_SET ?c" and ?subs = "qvalue (nsSubscriptions (svNet sv)) ?i []"
  have inv: "entity_ok m" "db_ok (ssDb (svStorage sv))" "subs_ok (svNet sv)"
    "nsOperationMode (svNet sv) = VNOM_SUBSCRIPTION"
    using assms(1,3,4) by (auto simp: server_inv_def ss_okD)
  then have name: "fcName c = cdComponentName d" using assms(12) by (simp add: entity_ok_def)
  have first: "customEvent app_accepted (server_procs env ?n) sv (CmdEv e) =
      (?sv1, CmdEv (accept e), [CmdEv ?note], Suc j)"
  proof (rule write_accepted [OF assms(2-4)])
    show "veEntityId (svModules sv ! i) \<noteq> veEntityId m" if "i < length (svModules sv)" "i \<noteq> j" for i
      using nth_eq_iff_index_eq [OF assms(5), of i j] that assms(3,4) by simp
  qed (use assms in simp_all)
  obtain pl where pl: "ceData ?note = VComponent pl" "cdCommand pl = CCMD_SET"
    "cdComponentName pl = cdComponentName d" "cdNewValue pl = cdNewValue d" "edOrigin pl = EO_LOCAL"
    "edTarget pl = ET_ALL" "edEntityId pl = ?i"
    using fc_sendNotification_data(2) [of CCMD_SET ?c] assms(10,14) name by auto
  have fresh: "ceSubtype ?note = NOTIFICATION" "\<not> ceAccepted ?note"
    by (simp_all add: fc_sendNotification_def vein_defs)
  let ?db = "fst (setValue (xeQt env) r (cdNewValue d) (ssDb (svStorage sv)))"
  obtain sv2 where second: "customEvent app_accepted (server_procs env ?n) ?sv1 (CmdEv ?note) =
      (sv2, CmdEv ?note, if ?subs = [] then []
         else [ProtoEv (sendNetworkEvent ?subs (prepareEnvelope (xeFb env) (xeQt env) ?note))], ?n + 6)"
    and sv2: "svModules sv2 = svModules ?sv1" "ssDb (svStorage sv2) = ?db" "svTcp sv2 = svTcp sv"
      "\<not> svDown sv2"
    using notification_path [of ?sv1 ?note pl r env ?n] assms(2,16,17) inv(4) pl fresh by auto
  show ?thesis
  proof (intro exI conjI)
    show "db_abs (ssDb (svStorage sv2)) = spec_exec (xeQt env)
        (AssignValue ?i (cdComponentName d) (cdNewValue d)) (db_abs (ssDb (svStorage sv)))"
      unfolding sv2 using inv(2) assms(17) by (rule abs_setValue)
    show "fmlookup (veComponents (svModules sv2 ! j)) (cdComponentName d) = Some ?c"
      using assms(3) by (simp add: sv2)
    show "distinct ?subs" using inv(3) by (simp add: subs_ok_def)
    show "ceData ?note = VComponent pl" "cdCommand pl = CCMD_SET" by (fact pl)+
  qed (use first second pl sv2(3,4) in \<open>simp_all add: subs_abs_iff\<close>)
qed

text \<open>An envelope of the server itself passes everything but the TCP system.\<close>

lemma protocol_path:
  assumes "\<not> svDown sv" and "peLocalOrigin pe"
  shows "\<exists>k. customEvent app_accepted (server_procs env n) sv (ProtoEv pe) =
    (sv\<lparr>svTcp := fst (tcpSystem_processEvent (svTcp sv) (ProtoEv pe))\<rparr>, ProtoEv pe, [], k)"
proof -
  have "customEvent app_accepted (map (proc_module env) ks) sv (ProtoEv pe) =
      (sv, ProtoEv pe, [], length ks)" for ks
    by (induction ks) (simp_all add: proc_module_def on_command_def app_accepted_def)
  then show ?thesis
    using assms
    by (simp add: server_procs_def customEvent_append core_procs_def proc_defs
        networkSystem_processEvent_def deserializeIncoming_def tcpSystem_processEvent_def Let_def)
qed

section \<open>Publishing an entity\<close>

definition store_events :: "qt_lib \<Rightarrow> vein_event list \<Rightarrow> server_storage \<Rightarrow> server_storage" where
  "store_events qt es st = fold (\<lambda>e st. fst (ss_processEvent qt st e)) es st"

lemma store_events_simps [simp]:
  "store_events qt [] st = st"
  "store_events qt (e # es) st = store_events qt es (fst (ss_processEvent qt st e))"
  by (simp_all add: store_events_def)

lemma component_add_request:
  "0 \<le> i \<Longrightarrow> event_request (server_component_add i n v) = Some (InsertValue i n v)"
  by (auto simp: event_request_def server_component_add_def vein_defs record_glue acceptableOrigin_def
      qv_valid_def)

lemma entity_add_request: "0 \<le> i \<Longrightarrow> event_request (server_entity_add i) = Some (InsertEntity i)"
  by (simp add: event_request_def server_entity_add_def vein_defs record_glue acceptableOrigin_def)

lemma store_event_abs:
  "server_storage_ok st \<Longrightarrow>
   db_abs (ssDb (fst (ss_processEvent qt st e))) = grant qt (event_request e) (db_abs (ssDb st))"
  using ss_okD by (simp add: ss_processEvent_db db_grant_refines)

lemma store_adds:
  fixes f :: "string \<Rightarrow> qvariant" and qt :: qt_lib
  assumes "server_storage_ok st" and "0 \<le> i" and "i \<in> spEntities (db_abs (ssDb st))" and "distinct ns"
    and "\<forall>n \<in> set ns. spValue (db_abs (ssDb st)) i n = None \<and> spFuture (db_abs (ssDb st)) i n = None"
  defines "st' \<equiv> store_events qt (map (\<lambda>n. server_component_add i n (f n)) ns) st"
  shows "spEntities (db_abs (ssDb st')) = spEntities (db_abs (ssDb st)) \<and>
    (\<forall>i' c. spValue (db_abs (ssDb st')) i' c =
      (if i' = i \<and> c \<in> set ns then Some (f c) else spValue (db_abs (ssDb st)) i' c))"
  unfolding st'_def using assms(1-5)
proof (induction ns arbitrary: st)
  case Nil
  then show ?case by (simp del: db_abs_sel)
next
  case (Cons n ns)
  let ?st = "fst (ss_processEvent qt st (server_component_add i n (f n)))"
  have abs: "db_abs (ssDb ?st) = spec_exec qt (InsertValue i n (f n)) (db_abs (ssDb st))"
    using Cons.prems
    by (simp add: store_event_abs component_add_request grant_def del: db_abs_sel spec_exec.simps)
  have "server_storage_ok ?st" using Cons.prems(1) by (rule ss_processEvent_ok)
  moreover have "\<forall>c \<in> set ns. spValue (db_abs (ssDb ?st)) i c = None \<and> spFuture (db_abs (ssDb ?st)) i c = None"
    using Cons.prems(4,5) by (simp add: abs del: db_abs_sel) auto
  moreover have "i \<in> spEntities (db_abs (ssDb ?st))" by (simp add: abs del: db_abs_sel)
  ultimately show ?case
    using Cons.IH [of ?st] Cons.prems by (auto simp: abs simp del: db_abs_sel)
qed

end
