(* ===== verification/ClientStack.thy ===== *)
theory ClientStack
  imports Actors CmdHandler Tcp
begin

text \<open>
  convenient-code/lib/vf_core_stack_client: the event loop of a client. Its handler holds the
  network system in pass-through mode, the TCP system and the command event handler; the stack
  itself creates throw-away items that subscribe and unsubscribe entities. Items and event
  systems that the application adds are arguments, as is what they do with an event. Slots that
  the application connects to the stack's signals are not modelled: the signals are recorded, and
  nothing happens between a signal and the next item of the loop it is emitted in. A slot that
  calls the stack back or runs the event loop there is outside the theorems, and
  \<open>nested_loop_meets_null\<close> shows why that matters.
\<close>

section \<open>Items\<close>

text \<open>
  An item is an object with an address. Throw-away items belong to the stack; the rest are the
  application's. Nobody reads the components of a throw-away subscriber, which is why it keeps
  none here.
\<close>

datatype item_kind = SubscriberItem | UnsubscriberItem | ForeignItem

record client_item =
  ciPtr :: nat
  ciEntityId :: int
  ciKind :: item_kind

datatype stack_signal = StackSubscribed bool int | StackUnsubscribed bool int

text \<open>
  What the slots of the stack see besides the registrations: the pending items by address, the
  signals emitted so far, the state of the application's objects. \<open>spNull\<close>: a slot used a
  null item.
\<close>

record 'u stack_pending =
  spPending :: "(nat, client_item) qmap"
  spSignals :: "stack_signal list"
  spUser :: 'u
  spNull :: bool

definition onSubscribed ::
  "bool \<Rightarrow> nat \<Rightarrow> 'u stack_pending \<Rightarrow> 'u stack_pending \<times> client_item item_op list" where
  "onSubscribed ok sender s =
     (case fmlookup (spPending s) sender of
        None \<Rightarrow> (s\<lparr>spNull := True\<rparr>, [])
      | Some item \<Rightarrow>
          (s\<lparr> spPending := fmdrop sender (spPending s),
              spSignals := spSignals s @ [StackSubscribed ok (ciEntityId item)] \<rparr>,
           [RemoveItem item]))"

definition onUnsubscribed ::
  "bool \<Rightarrow> nat \<Rightarrow> 'u stack_pending \<Rightarrow> 'u stack_pending \<times> client_item item_op list" where
  "onUnsubscribed ok sender s =
     (case fmlookup (spPending s) sender of
        None \<Rightarrow> (s\<lparr>spNull := True\<rparr>, [])
      | Some item \<Rightarrow>
          (s\<lparr> spPending := fmdrop sender (spPending s),
              spSignals := spSignals s @ [StackUnsubscribed ok (ciEntityId item)] \<rparr>,
           [RemoveItem item]))"

text \<open>The slots that the signals of a throw-away item are connected to.\<close>

fun run_slots ::
  "nat \<Rightarrow> actor_signal list \<Rightarrow> 'u stack_pending \<Rightarrow> 'u stack_pending \<times> client_item item_op list" where
  "run_slots p [] s = (s, [])"
| "run_slots p (g # gs) s =
     (let (s1, ops1) = (case g of
                          SigSubscribed ok i \<Rightarrow> onSubscribed ok p s
                        | SigUnsubscribed ok i \<Rightarrow> onUnsubscribed ok p s
                        | _ \<Rightarrow> (s, []));
          (s2, ops2) = run_slots p gs s1
      in (s2, ops1 @ ops2))"

text \<open>The signals a throw-away item emits for an event and for the data of a failed request.\<close>

definition item_signals :: "int \<Rightarrow> vein_event \<Rightarrow> client_item \<Rightarrow> actor_signal list" where
  "item_signals qEventType e x =
     (case ciKind x of
        SubscriberItem \<Rightarrow>
          snd (subscriber_event e \<lparr> suEntityId = ciEntityId x, suComponents = fmempty \<rparr>)
      | UnsubscriberItem \<Rightarrow> unsubscriber_event qEventType (ciEntityId x) e
      | ForeignItem \<Rightarrow> [])"

definition item_error_signals :: "vein_data \<Rightarrow> client_item \<Rightarrow> actor_signal list" where
  "item_error_signals od x =
     (case ciKind x of
        SubscriberItem \<Rightarrow>
          subscriber_error od \<lparr> suEntityId = ciEntityId x, suComponents = fmempty \<rparr>
      | UnsubscriberItem \<Rightarrow> unsubscriber_error (ciEntityId x) od
      | ForeignItem \<Rightarrow> [])"

definition item_body ::
  "(client_item \<Rightarrow> actor_signal list) \<Rightarrow> ('u, client_item) item_call \<Rightarrow>
   ('u stack_pending, client_item) item_call" where
  "item_body sigs foreign s x =
     (if ciKind x = ForeignItem
      then let (u, ops) = foreign (spUser s) x in (s\<lparr>spUser := u\<rparr>, ops)
      else run_slots (ciPtr x) (sigs x) s)"

text \<open>The application: its items' virtual functions and its event systems, by number.\<close>

record 'u client_app =
  apQt :: qt_lib
  apFb :: fb_lib
  apEventType :: int
  apItem :: "vein_event \<Rightarrow> ('u, client_item) item_call"
  apItemError :: "vein_data \<Rightarrow> ('u, client_item) item_call"
  apSystem :: "nat \<Rightarrow> ('u, app_event) process_event"

definition client_items :: "'u client_app \<Rightarrow> ('u stack_pending, client_item) item_class" where
  "client_items ap =
     \<lparr> icEntityId = ciEntityId,
       icProcess = (\<lambda>e. item_body (item_signals (apEventType ap) e) (apItem ap e)),
       icProcessError = (\<lambda>od. item_body (item_error_signals od) (apItemError ap od)) \<rparr>"

section \<open>VfCoreStackClient\<close>

text \<open>The systems of the event handler: the three of the stack, and the application's.\<close>

datatype stack_system = NetSystem | TcpSystem | CmdHandlerSystem | AppSystem nat

record 'u core_client =
  ksHandler :: "(stack_system, unit) handler_world"
  ksItems :: "client_item cmd_handler"
  ksNet :: network_system
  ksTcp :: tcp_system
  ksPending :: "'u stack_pending"
  ksDown :: bool

text \<open>The constructor (\<open>init\<close>); the handler of command events filters notifications.\<close>

definition core_client_init :: "'u \<Rightarrow> 'u core_client option" where
  "core_client_init u =
     (case Option.bind (addSubsystem () NetSystem \<lparr> hwSubsystems = [], hwHandlerOf = fmempty \<rparr>)
             (\<lambda>w. Option.bind (addSubsystem () TcpSystem w) (addSubsystem () CmdHandlerSystem)) of
        None \<Rightarrow> None
      | Some w \<Rightarrow> Some
          \<lparr> ksHandler = w, ksItems = cmd_handler_new NOTIFICATION,
            ksNet = setOperationMode VNOM_PASS_THROUGH network_system_new, ksTcp = tcp_system_new,
            ksPending = \<lparr> spPending = fmempty, spSignals = [], spUser = u, spNull = False \<rparr>,
            ksDown = False \<rparr>)"

definition kc_connectToServer :: "peer \<Rightarrow> 'u core_client \<Rightarrow> 'u core_client" where
  "kc_connectToServer p k = k\<lparr>ksTcp := connectToServer p (ksTcp k)\<rparr>"

definition kc_addItem :: "nat \<Rightarrow> client_item \<Rightarrow> 'u core_client \<Rightarrow> 'u core_client" where
  "kc_addItem pos x k = k\<lparr>ksItems := ch_addItem ciEntityId pos x (ksItems k)\<rparr>"

text \<open>
  The new item's address and its place in the container's bucket order are inputs; the event
  goes to the queue of the application.
\<close>

definition subscribeEntity ::
  "nat \<Rightarrow> nat \<Rightarrow> int \<Rightarrow> 'u core_client \<Rightarrow> 'u core_client \<times> app_event list" where
  "subscribeEntity ptr pos i k =
     (let x = \<lparr> ciPtr = ptr, ciEntityId = i, ciKind = SubscriberItem \<rparr>;
          p = ksPending k;
          k1 = k\<lparr>ksPending := p\<lparr>spPending := fmupd ptr x (spPending p)\<rparr>\<rparr>
      in (kc_addItem pos x k1, [CmdEv (subscriber_generateEvent i)]))"

definition unsubscribeEntity ::
  "nat \<Rightarrow> nat \<Rightarrow> int \<Rightarrow> 'u core_client \<Rightarrow> 'u core_client \<times> app_event list" where
  "unsubscribeEntity ptr pos i k =
     (let x = \<lparr> ciPtr = ptr, ciEntityId = i, ciKind = UnsubscriberItem \<rparr>;
          p = ksPending k;
          k1 = k\<lparr>ksPending := p\<lparr>spPending := fmupd ptr x (spPending p)\<rparr>\<rparr>
      in (kc_addItem pos x k1, [CmdEv (unsubscriber_generateEvent i)]))"

definition appendEventSystem :: "nat \<Rightarrow> 'u core_client \<Rightarrow> 'u core_client option" where
  "appendEventSystem n k =
     map_option (\<lambda>w. k\<lparr>ksHandler := w\<rparr>) (addSubsystem () (AppSystem n) (ksHandler k))"

definition prependEventSystem :: "nat \<Rightarrow> 'u core_client \<Rightarrow> 'u core_client option" where
  "prependEventSystem n k =
     map_option (\<lambda>w. k\<lparr>ksHandler := w\<rparr>) (prependSubsystem () (AppSystem n) (ksHandler k))"

section \<open>Dispatch\<close>

text \<open>
  The network system fails on an unreadable envelope (\<open>ksDown\<close>); nothing happens any more then.
  The loop over the items of an entity is given as many rounds as there are items, which is
  enough while items are only removed; a longer loop counts as a failure here, too.
\<close>

definition client_network :: "'u client_app \<Rightarrow> ('u core_client, app_event) process_event" where
  "client_network ap k ev =
     (case networkSystem_processEvent (apFb ap) (apQt ap) (ksNet k) ev of
        None \<Rightarrow> (k\<lparr>ksDown := True\<rparr>, ev, [])
      | Some (ns, ev', out) \<Rightarrow> (k\<lparr>ksNet := ns\<rparr>, ev', out))"

definition client_tcp :: "('u core_client, app_event) process_event" where
  "client_tcp k ev =
     (let (ts, ev', out) = tcpSystem_processEvent (ksTcp k) ev in (k\<lparr>ksTcp := ts\<rparr>, ev', out))"

definition item_rounds :: "client_item cmd_handler \<Rightarrow> vein_event \<Rightarrow> nat" where
  "item_rounds h e = length (slItems (reg_container (chItems h) (vd_entityId (ceData e))))"

definition client_handler :: "'u client_app \<Rightarrow> ('u core_client, app_event) process_event" where
  "client_handler ap k ev =
     (case ev of
        CmdEv e \<Rightarrow>
          (case ch_processCommandEvent (item_rounds (ksItems k) e) (apQt ap) (client_items ap) e
                  (ksItems k) (ksPending k) of
             None \<Rightarrow> (k\<lparr>ksDown := True\<rparr>, ev, [])
           | Some (h, s) \<Rightarrow> (k\<lparr> ksItems := h, ksPending := s \<rparr>, ev, []))
      | _ \<Rightarrow> (k, ev, []))"

definition client_app_system ::
  "'u client_app \<Rightarrow> nat \<Rightarrow> ('u core_client, app_event) process_event" where
  "client_app_system ap n k ev =
     (let (u, ev', out) = apSystem ap n (spUser (ksPending k)) ev
      in (k\<lparr>ksPending := (ksPending k)\<lparr>spUser := u\<rparr>\<rparr>, ev', out))"

definition client_proc ::
  "'u client_app \<Rightarrow> stack_system \<Rightarrow> ('u core_client, app_event) process_event" where
  "client_proc ap sys k ev =
     (if ksDown k then (k, ev, [])
      else case sys of
             NetSystem \<Rightarrow> client_network ap k ev
           | TcpSystem \<Rightarrow> client_tcp k ev
           | CmdHandlerSystem \<Rightarrow> client_handler ap k ev
           | AppSystem n \<Rightarrow> client_app_system ap n k ev)"

definition client_accepted :: "app_event \<Rightarrow> bool" where
  "client_accepted ev = (case ev of CmdEv e \<Rightarrow> ceAccepted e | _ \<Rightarrow> False)"

definition client_procs ::
  "'u client_app \<Rightarrow> 'u core_client \<Rightarrow> ('u core_client, app_event) process_event list" where
  "client_procs ap k = map (client_proc ap) (hwSubsystems (ksHandler k))"

section \<open>Visiting the items of an entity\<close>

definition slot_signals :: "actor_signal list \<Rightarrow> bool" where
  "slot_signals sigs \<longleftrightarrow>
     sigs = [] \<or> (\<exists>ok i. sigs = [SigSubscribed ok i]) \<or> (\<exists>ok i. sigs = [SigUnsubscribed ok i])"

definition reported :: "client_item \<Rightarrow> actor_signal list \<Rightarrow> stack_signal list" where
  "reported x sigs = List.map_filter
     (\<lambda>g. case g of
            SigSubscribed ok i \<Rightarrow> Some (StackSubscribed ok (ciEntityId x))
          | SigUnsubscribed ok i \<Rightarrow> Some (StackUnsubscribed ok (ciEntityId x))
          | _ \<Rightarrow> None) sigs"

lemma reported_simps [simp]:
  "reported x [] = []"
  "reported x [SigSubscribed ok i] = [StackSubscribed ok (ciEntityId x)]"
  "reported x [SigUnsubscribed ok i] = [StackUnsubscribed ok (ciEntityId x)]"
  by (simp_all add: reported_def List.map_filter_def)

text \<open>What a call of a throw-away item amounts to: nothing for an application's item.\<close>

definition throw_away :: "(client_item \<Rightarrow> actor_signal list) \<Rightarrow> bool" where
  "throw_away sigs \<longleftrightarrow>
     (\<forall>x. slot_signals (sigs x) \<and> (ciKind x = ForeignItem \<longrightarrow> sigs x = []))"

definition foreign_only :: "('u, client_item) item_call \<Rightarrow> bool" where
  "foreign_only call \<longleftrightarrow>
     (\<forall>s x. \<forall>op \<in> set (snd (call s x)). \<exists>y. op = RemoveItem y \<and> ciKind y = ForeignItem)"

lemma throw_away_signals [simp]: "throw_away (item_signals t e)" "throw_away (item_error_signals od)"
  by (auto simp: throw_away_def slot_signals_def item_signals_def item_error_signals_def
      subscriber_event_def unsubscriber_event_def subscriber_error_def unsubscriber_error_def
      split: item_kind.splits vein_data.splits)

lemma run_slots_pending:
  assumes "slot_signals sigs" and "fmlookup (spPending s) (ciPtr x) = Some x"
  shows "run_slots (ciPtr x) sigs s =
    (if sigs = [] then (s, [])
     else (s\<lparr> spPending := fmdrop (ciPtr x) (spPending s), spSignals := spSignals s @ reported x sigs \<rparr>,
           [RemoveItem x]))"
  using assms by (auto simp: slot_signals_def onSubscribed_def onUnsubscribed_def)

definition drop_pending ::
  "client_item list \<Rightarrow> (nat, client_item) qmap \<Rightarrow> (nat, client_item) qmap" where
  "drop_pending xs m = fold (\<lambda>x. fmdrop (ciPtr x)) xs m"

lemma drop_pending_lookup:
  "fmlookup (drop_pending xs m) p = (if p \<in> ciPtr ` set xs then None else fmlookup m p)"
  by (induction xs arbitrary: m) (auto simp: drop_pending_def)

lemma foreign_removes:
  assumes "foreign_only foreign" and "ciKind y \<noteq> ForeignItem"
  shows "y \<notin> removed (local_ops ciEntityId j (snd (foreign u x)))"
proof
  assume "y \<in> removed (local_ops ciEntityId j (snd (foreign u x)))"
  then obtain op where "op \<in> set (snd (foreign u x))" "set_op_of op = Remove y"
    by (auto simp: removed_def local_ops_def)
  then show False using assms unfolding foreign_only_def by fastforce
qed

lemma body_foreign:
  assumes "ciKind x = ForeignItem" and "foreign (spUser s) x = (u, ops)"
  shows "local_call ciEntityId j (item_body sigs foreign) s x =
    (s\<lparr>spUser := u\<rparr>, local_ops ciEntityId j ops)"
  using assms by (simp add: local_call_def item_body_def)

lemma body_own:
  assumes "ciKind x \<noteq> ForeignItem" and "fmlookup (spPending s) (ciPtr x) = Some x"
    and "slot_signals (sigs x)" and "ciEntityId x = j"
  shows "local_call ciEntityId j (item_body sigs foreign) s x =
    (if sigs x = [] then (s, [])
     else (s\<lparr> spPending := fmdrop (ciPtr x) (spPending s),
              spSignals := spSignals s @ reported x (sigs x) \<rparr>, [Remove x]))"
  using assms by (simp add: local_call_def item_body_def run_slots_pending local_ops_def)

lemma visit_items:
  assumes "throw_away sigs" and "foreign_only foreign"
    and "distinct xs" and "\<forall>x \<in> set xs. ciEntityId x = j"
    and "\<forall>x \<in> set xs. ciKind x \<noteq> ForeignItem \<longrightarrow>
           fmlookup (spPending s) (ciPtr x) = Some x \<and> x \<notin> dead"
    and "visit (local_call ciEntityId j (item_body sigs foreign)) xs dead s = (s', dead')"
  shows "spNull s' = spNull s \<and>
    spSignals s' = spSignals s @ concat (map (\<lambda>x. reported x (sigs x)) xs) \<and>
    spPending s' = drop_pending (filter (\<lambda>x. sigs x \<noteq> []) xs) (spPending s) \<and>
    (\<forall>y. ciKind y \<noteq> ForeignItem \<longrightarrow> (y \<in> dead' \<longleftrightarrow> y \<in> dead \<or> y \<in> set xs \<and> sigs y \<noteq> []))"
  using assms(3-)
proof (induction xs arbitrary: s dead)
  case Nil
  then show ?case by (simp add: drop_pending_def)
next
  case (Cons x xs)
  show ?case
  proof (cases "ciKind x = ForeignItem")
    case foreign: True
    then have x: "sigs x = []" using assms(1) by (simp add: throw_away_def)
    show ?thesis
    proof (cases "x \<in> dead")
      case True
      then show ?thesis using Cons foreign x by auto
    next
      case False
      obtain u ops where f: "foreign (spUser s) x = (u, ops)" by (cases "foreign (spUser s) x") auto
      then have ops: "y \<notin> removed (local_ops ciEntityId j ops)" if "ciKind y \<noteq> ForeignItem" for y
        using foreign_removes [OF assms(2) that, of j "spUser s" x] by simp
      have "visit (local_call ciEntityId j (item_body sigs foreign)) xs
          (dead \<union> removed (local_ops ciEntityId j ops)) (s\<lparr>spUser := u\<rparr>) = (s', dead')"
        using Cons.prems(4) False by (simp add: body_foreign [of x foreign s u ops, OF foreign f])
      from Cons.IH [OF _ _ _ this] show ?thesis using Cons.prems ops foreign x by auto
    qed
  next
    case own: False
    then have x: "fmlookup (spPending s) (ciPtr x) = Some x" "x \<notin> dead" "slot_signals (sigs x)"
      using Cons.prems assms(1) by (auto simp: throw_away_def)
    show ?thesis
    proof (cases "sigs x = []")
      case True
      then have "visit (local_call ciEntityId j (item_body sigs foreign)) xs dead s = (s', dead')"
        using Cons.prems(2,4) x True body_own [where sigs = sigs and j = j, OF own x(1,3)]
        by (simp add: removed_def)
      from Cons.IH [OF _ _ _ this] show ?thesis using Cons.prems True by auto
    next
      case False
      let ?s1 = "s\<lparr> spPending := fmdrop (ciPtr x) (spPending s),
        spSignals := spSignals s @ reported x (sigs x) \<rparr>"
      have "visit (local_call ciEntityId j (item_body sigs foreign)) xs (insert x dead) ?s1 =
          (s', dead')"
        using Cons.prems(2,4) x False body_own [where sigs = sigs and j = j, OF own x(1,3)]
        by (simp add: removed_def)
      moreover have "\<forall>y \<in> set xs. ciKind y \<noteq> ForeignItem \<longrightarrow>
          fmlookup (spPending ?s1) (ciPtr y) = Some y \<and> y \<notin> insert x dead"
      proof (intro ballI impI)
        fix y
        assume y: "y \<in> set xs" "ciKind y \<noteq> ForeignItem"
        then have p: "fmlookup (spPending s) (ciPtr y) = Some y" "y \<notin> dead"
          using Cons.prems(3) by simp_all
        moreover have "y \<noteq> x" using y(1) Cons.prems(1) by auto
        moreover from this have "ciPtr y \<noteq> ciPtr x" using p(1) x(1) by (metis option.inject)
        ultimately show "fmlookup (spPending ?s1) (ciPtr y) = Some y \<and> y \<notin> insert x dead" by simp
      qed
      moreover have "distinct xs" "\<forall>x \<in> set xs. ciEntityId x = j" using Cons.prems by simp_all
      ultimately have
        "spNull s' = spNull ?s1 \<and>
         spSignals s' = spSignals ?s1 @ concat (map (\<lambda>x. reported x (sigs x)) xs) \<and>
         spPending s' = drop_pending (filter (\<lambda>x. sigs x \<noteq> []) xs) (spPending ?s1) \<and>
         (\<forall>y. ciKind y \<noteq> ForeignItem \<longrightarrow>
            (y \<in> dead' \<longleftrightarrow> y \<in> insert x dead \<or> y \<in> set xs \<and> sigs y \<noteq> []))"
        using Cons.IH by blast
      then show ?thesis using False by (auto simp: drop_pending_def)
    qed
  qed
qed

section \<open>Invariant\<close>

text \<open>
  Every throw-away item that is registered is pending under its address, which is why the
  slots find it. While an event is handled, application items do not register items, and they
  take out application items only.
\<close>

definition app_ok :: "'u client_app \<Rightarrow> bool" where
  "app_ok ap \<longleftrightarrow> (\<forall>e. foreign_only (apItem ap e)) \<and> (\<forall>od. foreign_only (apItemError ap od))"

definition items_ok :: "(int, client_item) registry \<Rightarrow> (nat, client_item) qmap \<Rightarrow> bool" where
  "items_ok r m \<longleftrightarrow>
     (\<forall>j. idle (reg_container r j) \<and>
          (\<forall>x \<in> set (slItems (reg_container r j)).
             ciEntityId x = j \<and> (ciKind x \<noteq> ForeignItem \<longrightarrow> fmlookup m (ciPtr x) = Some x)))"

lemma items_okD:
  assumes "items_ok r m"
  shows "idle (reg_container r j)"
    and "x \<in> set (slItems (reg_container r j)) \<Longrightarrow> ciEntityId x = j"
    and "x \<in> set (slItems (reg_container r j)) \<Longrightarrow> ciKind x \<noteq> ForeignItem \<Longrightarrow>
      fmlookup m (ciPtr x) = Some x"
  using assms by (auto simp: items_ok_def)

lemma run_slots_removes: "AddItem pos y \<notin> set (snd (run_slots p gs s))"
  by (induction gs arbitrary: s)
     (auto simp: split_beta Let_def onSubscribed_def onUnsubscribed_def
       split: actor_signal.splits option.splits)

lemma item_body_removes: "foreign_only foreign \<Longrightarrow> call_removes (item_body sigs foreign)"
  unfolding call_removes_def foreign_only_def item_body_def
  by (auto simp: split_beta Let_def run_slots_removes)

text \<open>An item that was pending and is not among the answered ones stays pending.\<close>

lemma drop_pending_keeps:
  assumes "fmlookup m (ciPtr x) = Some x" and "\<forall>y \<in> set ys. fmlookup m (ciPtr y) = Some y"
    and "x \<notin> set ys"
  shows "fmlookup (drop_pending ys m) (ciPtr x) = Some x"
proof -
  have "ciPtr x \<notin> ciPtr ` set ys" using assms by (metis imageE option.inject)
  then show ?thesis using assms(1) by (simp add: drop_pending_lookup)
qed

lemma loop_items:
  fixes j :: int
  assumes ok: "items_ok r (spPending s)" and sigs: "throw_away sigs" and foreign: "foreign_only foreign"
  defines "xs \<equiv> slItems (reg_container r j)"
  obtains r' s' where
    "reg_foreach (length xs) ciEntityId (item_body sigs foreign) j r s = Some (r', s')"
    and "items_ok r' (spPending s')" and "spNull s' = spNull s"
    and "spSignals s' = spSignals s @ concat (map (\<lambda>x. reported x (sigs x)) xs)"
    and "spPending s' = drop_pending (filter (\<lambda>x. sigs x \<noteq> []) xs) (spPending s)"
proof -
  obtain s' dead where v: "visit (local_call ciEntityId j (item_body sigs foreign)) xs {} s = (s', dead)"
    by fastforce
  have xs: "distinct xs" "\<forall>x \<in> set xs. ciEntityId x = j"
    "\<forall>x \<in> set xs. ciKind x \<noteq> ForeignItem \<longrightarrow> fmlookup (spPending s) (ciPtr x) = Some x \<and> x \<notin> {}"
    using items_okD [OF ok] by (auto simp: xs_def idle_def)
  note s' = visit_items [OF sigs foreign xs v]
  note removes = item_body_removes [OF foreign, of sigs]
  obtain r' where r': "reg_foreach (length xs) ciEntityId (item_body sigs foreign) j r s = Some (r', s')"
    "idle (reg_container r' j)" "slItems (reg_container r' j) = filter (\<lambda>y. y \<notin> dead) xs"
    using reg_foreach_visit [OF items_okD(1) [OF ok] call_removes_local [OF removes], of j "length xs"] v
    unfolding xs_def by blast
  have answered: "\<forall>y \<in> set (filter (\<lambda>x. sigs x \<noteq> []) xs). fmlookup (spPending s) (ciPtr y) = Some y"
    using xs(3) sigs by (auto simp: throw_away_def)
  have "items_ok r' (spPending s')"
    unfolding items_ok_def
  proof (intro allI)
    fix i
    have i: "idle (reg_container r' i) \<and>
        (\<forall>x \<in> set (slItems (reg_container r' i)). x \<in> set (slItems (reg_container r i)) \<and>
           (ciKind x \<noteq> ForeignItem \<longrightarrow> x \<notin> set (filter (\<lambda>x. sigs x \<noteq> []) xs)))"
    proof (cases "i = j")
      case True
      then show ?thesis using r' s' xs(1) by (auto simp: xs_def)
    next
      case False
      note other = reg_foreach_other [OF removes False items_okD(1) [OF ok] r'(1)]
      have "x \<notin> set xs" if "x \<in> set (slItems (reg_container r i))" for x
        using items_okD(2) [OF ok that] xs(2) False by blast
      then show ?thesis using other by auto
    qed
    moreover have "fmlookup (spPending s') (ciPtr x) = Some x"
      if "x \<in> set (slItems (reg_container r i))" "ciKind x \<noteq> ForeignItem"
        "x \<notin> set (filter (\<lambda>x. sigs x \<noteq> []) xs)" for x
      using drop_pending_keeps [OF items_okD(3) [OF ok that(1,2)] answered that(3)] s' by simp
    ultimately show "idle (reg_container r' i) \<and>
        (\<forall>x \<in> set (slItems (reg_container r' i)).
           ciEntityId x = i \<and> (ciKind x \<noteq> ForeignItem \<longrightarrow> fmlookup (spPending s') (ciPtr x) = Some x))"
      using items_okD(2) [OF ok] by blast
  qed
  then show ?thesis using that r'(1) s' by blast
qed

section \<open>A command event at the handler\<close>

text \<open>The signals an event causes at a throw-away item.\<close>

definition caused_signals :: "'u client_app \<Rightarrow> vein_event \<Rightarrow> client_item \<Rightarrow> actor_signal list" where
  "caused_signals ap e x =
     (if ceSubtype e \<noteq> NOTIFICATION then []
      else case ceData e of
             VError er \<Rightarrow>
               (case original_data (apQt ap) er of
                  None \<Rightarrow> []
                | Some od \<Rightarrow> item_error_signals od x)
           | _ \<Rightarrow> item_signals (apEventType ap) e x)"

definition entity_items :: "'u core_client \<Rightarrow> int \<Rightarrow> client_item list" where
  "entity_items k i = slItems (reg_container (chItems (ksItems k)) i)"

definition core_ok :: "'u core_client \<Rightarrow> bool" where
  "core_ok k \<longleftrightarrow>
     chFilter (ksItems k) = NOTIFICATION \<and>
     items_ok (chItems (ksItems k)) (spPending (ksPending k)) \<and> \<not> spNull (ksPending k) \<and>
     handler_ok (ksHandler k) \<and> nsOperationMode (ksNet k) = VNOM_PASS_THROUGH \<and> tcp_ok (ksTcp k)"

lemma no_signals [simp]: "concat (map (\<lambda>x. reported x []) xs) = []"
  by (induction xs) simp_all

lemma drop_no_pending [simp]: "drop_pending [] m = m"
  by (simp add: drop_pending_def)

text \<open>The effect of a command event: what is reported, and which items are pending no more.\<close>

definition handled :: "'u client_app \<Rightarrow> vein_event \<Rightarrow> 'u core_client \<Rightarrow> 'u core_client \<Rightarrow> bool" where
  "handled ap e k k' \<longleftrightarrow>
     core_ok k' \<and> ksHandler k' = ksHandler k \<and> ksNet k' = ksNet k \<and> ksTcp k' = ksTcp k \<and>
     ksDown k' = ksDown k \<and>
     (let xs = entity_items k (vd_entityId (ceData e)) in
      spSignals (ksPending k') = spSignals (ksPending k) @
        concat (map (\<lambda>x. reported x (caused_signals ap e x)) xs) \<and>
      spPending (ksPending k') =
        drop_pending (filter (\<lambda>x. caused_signals ap e x \<noteq> []) xs) (spPending (ksPending k)))"

lemma handler_unchanged:
  assumes "core_ok k" and "\<forall>x \<in> set (entity_items k (vd_entityId (ceData e))). caused_signals ap e x = []"
  shows "handled ap e k k"
proof -
  have "map (\<lambda>x. reported x (caused_signals ap e x)) (entity_items k (vd_entityId (ceData e))) =
      map (\<lambda>x. reported x []) (entity_items k (vd_entityId (ceData e)))"
    using assms(2) by simp
  moreover have "filter (\<lambda>x. caused_signals ap e x \<noteq> []) (entity_items k (vd_entityId (ceData e))) = []"
    using assms(2) by (simp add: filter_empty_conv)
  ultimately show ?thesis using assms(1) by (simp add: handled_def Let_def)
qed

lemma handler_loop:
  assumes "core_ok k" and "throw_away sigs" and "foreign_only foreign"
    and "\<forall>x. caused_signals ap e x = sigs x"
  obtains r s where
    "reg_foreach (item_rounds (ksItems k) e) ciEntityId (item_body sigs foreign)
       (vd_entityId (ceData e)) (chItems (ksItems k)) (ksPending k) = Some (r, s)"
    and "handled ap e k (k\<lparr> ksItems := (ksItems k)\<lparr>chItems := r\<rparr>, ksPending := s \<rparr>)"
proof -
  have "items_ok (chItems (ksItems k)) (spPending (ksPending k))"
    using assms(1) by (simp add: core_ok_def)
  from loop_items [OF this assms(2,3), of "vd_entityId (ceData e)"]
  obtain r' s' where
    "reg_foreach (item_rounds (ksItems k) e) ciEntityId (item_body sigs foreign)
       (vd_entityId (ceData e)) (chItems (ksItems k)) (ksPending k) = Some (r', s')"
    "items_ok r' (spPending s')" "spNull s' = spNull (ksPending k)"
    "spSignals s' = spSignals (ksPending k) @
       concat (map (\<lambda>x. reported x (sigs x)) (entity_items k (vd_entityId (ceData e))))"
    "spPending s' = drop_pending (filter (\<lambda>x. sigs x \<noteq> [])
       (entity_items k (vd_entityId (ceData e)))) (spPending (ksPending k))"
    unfolding item_rounds_def entity_items_def by blast
  then show ?thesis
    using assms(1,4) by (intro that [of r' s']) (simp_all add: handled_def core_ok_def)
qed

lemma not_error_case:
  "\<forall>er. vd \<noteq> VError er \<Longrightarrow> (case vd of VError er \<Rightarrow> f er | _ \<Rightarrow> b) = b"
  by (cases vd) simp_all

lemma handler_step:
  assumes ok: "core_ok k" and app: "app_ok ap"
  obtains k' where "client_handler ap k (CmdEv e) = (k', CmdEv e, [])" and "handled ap e k k'"
proof (cases "ceSubtype e = NOTIFICATION \<and> qcontains (chItems (ksItems k)) (vd_entityId (ceData e))")
  case False
  have "caused_signals ap e x = []" if "x \<in> set (entity_items k (vd_entityId (ceData e)))" for x
    using that False
    by (auto simp: caused_signals_def entity_items_def reg_container_def qvalue_None fmdom_notD
        safe_set_new_def)
  then have "handled ap e k k" using handler_unchanged [OF ok] by blast
  moreover have "client_handler ap k (CmdEv e) = (k, CmdEv e, [])"
    using ok False by (auto simp: client_handler_def ch_processCommandEvent_def core_ok_def)
  ultimately show ?thesis by (rule that [rotated])
next
  case True
  then have filter: "\<not> ceSubtype e \<noteq> chFilter (ksItems k)" "ceSubtype e = NOTIFICATION"
    "qcontains (chItems (ksItems k)) (vd_entityId (ceData e))"
    using ok by (simp_all add: core_ok_def)
  show ?thesis
  proof (cases "\<exists>er. ceData e = VError er")
    case True
    then obtain er where VError: "ceData e = VError er" by blast
    show ?thesis
    proof (cases "original_data (apQt ap) er")
      case None
      then have "handled ap e k k" using handler_unchanged [OF ok] VError by (simp add: caused_signals_def)
      moreover have "client_handler ap k (CmdEv e) = (k, CmdEv e, [])"
        using filter VError None
        by (simp add: client_handler_def ch_processCommandEvent_def handleErrorData_def)
      ultimately show ?thesis by (rule that [rotated])
    next
      case (Some od)
      have "\<forall>x. caused_signals ap e x = item_error_signals od x"
        using filter VError Some by (simp add: caused_signals_def)
      from handler_loop [OF ok throw_away_signals(2) _ this, of "apItemError ap od"] app
      obtain r s where rs: "reg_foreach (item_rounds (ksItems k) e) ciEntityId
          (item_body (item_error_signals od) (apItemError ap od)) (vd_entityId (ceData e))
          (chItems (ksItems k)) (ksPending k) = Some (r, s)"
        "handled ap e k (k\<lparr> ksItems := (ksItems k)\<lparr>chItems := r\<rparr>, ksPending := s \<rparr>)"
        unfolding app_ok_def by blast
      then show ?thesis
        using filter VError Some
        by (intro that [OF _ rs(2)])
          (simp add: client_handler_def ch_processCommandEvent_def handleErrorData_def client_items_def)
    qed
  next
    case False
    then have "\<forall>x. caused_signals ap e x = item_signals (apEventType ap) e x"
      using filter by (simp add: caused_signals_def split: vein_data.splits)
    from handler_loop [OF ok throw_away_signals(1) _ this, of "apItem ap e"] app
    obtain r s where rs: "reg_foreach (item_rounds (ksItems k) e) ciEntityId
        (item_body (item_signals (apEventType ap) e) (apItem ap e)) (vd_entityId (ceData e))
        (chItems (ksItems k)) (ksPending k) = Some (r, s)"
      "handled ap e k (k\<lparr> ksItems := (ksItems k)\<lparr>chItems := r\<rparr>, ksPending := s \<rparr>)"
      unfolding app_ok_def by blast
    then show ?thesis
      using filter False
      by (intro that [OF _ rs(2)])
        (simp add: client_handler_def ch_processCommandEvent_def client_items_def Let_def not_error_case)
  qed
qed

section \<open>The event loop of the client\<close>

lemma client_proc_ok:
  assumes "core_ok k" and "app_ok ap"
  shows "core_ok (fst (client_proc ap sys k ev))"
proof -
  have "core_ok (fst (client_network ap k ev))"
    using assms(1) network_mode_kept
    by (auto simp: client_network_def core_ok_def split: option.splits)
  moreover have "core_ok (fst (client_tcp k ev))"
    using assms(1) tcpSystem_processEvent_ok
    by (auto simp: client_tcp_def core_ok_def split_beta)
  moreover have "core_ok (fst (client_handler ap k ev))"
  proof (cases ev)
    case (CmdEv e)
    then show ?thesis using handler_step [OF assms] by (metis fst_conv handled_def)
  qed (use assms(1) in \<open>simp_all add: client_handler_def\<close>)
  moreover have "core_ok (fst (client_app_system ap n k ev))" for n
    using assms(1) by (auto simp: client_app_system_def core_ok_def split_beta)
  ultimately show ?thesis using assms(1) by (simp add: client_proc_def split: stack_system.split)
qed

interpretation client: event_chain client_accepted "client_procs ap k0" "\<lambda>k. app_ok ap \<longrightarrow> core_ok k"
  for ap k0
  by unfold_locales (use client_proc_ok in \<open>auto simp: client_procs_def\<close>)

lemma core_client_init_ok:
  "core_client_init u = Some k \<Longrightarrow> core_ok k"
  by (auto simp: core_client_init_def addSubsystem_def attach_def core_ok_def handler_ok_def
      cmd_handler_new_def setOperationMode_def tcp_system_new_ok items_ok_def reg_container_def
      idle_def safe_set_new_def split: option.splits)

lemma addItem_items:
  "reg_container (chItems (ch_addItem ciEntityId pos x h)) j =
     (if j = ciEntityId x then sl_addItem pos x (reg_container (chItems h) j)
      else reg_container (chItems h) j)"
  by (simp add: ch_addItem_def reg_addItem_def)

text \<open>A throw-away item at a fresh address keeps the invariant.\<close>

lemma throw_away_added_ok:
  assumes "core_ok k" and "ciPtr x |\<notin>| fmdom (spPending (ksPending k))"
  shows "core_ok (kc_addItem pos x
    (k\<lparr>ksPending := (ksPending k)\<lparr>spPending := fmupd (ciPtr x) x (spPending (ksPending k))\<rparr>\<rparr>))"
proof -
  let ?m = "spPending (ksPending k)"
  have ok: "items_ok (chItems (ksItems k)) ?m" using assms(1) by (simp add: core_ok_def)
  have "ciPtr y \<noteq> ciPtr x" if "fmlookup ?m (ciPtr y) = Some y" for y
    using that assms(2) by (auto simp: fmdom_notD)
  then have keeps: "fmlookup (fmupd (ciPtr x) x ?m) (ciPtr y) = Some y"
    if "fmlookup ?m (ciPtr y) = Some y \<or> y = x" for y
    using that by fastforce
  let ?c = "\<lambda>j. reg_container (chItems (ch_addItem ciEntityId pos x (ksItems k))) j"
  have "items_ok (chItems (ch_addItem ciEntityId pos x (ksItems k))) (fmupd (ciPtr x) x ?m)"
    unfolding items_ok_def
  proof (intro allI conjI ballI impI)
    fix j
    show "idle (?c j)" by (simp add: addItem_items items_okD(1) [OF ok] sl_addItem_idle)
    fix y
    assume "y \<in> set (slItems (?c j))"
    then have y: "y \<in> set (slItems (reg_container (chItems (ksItems k)) j)) \<or> y = x \<and> j = ciEntityId x"
      by (auto simp: addItem_items split: if_splits)
    then show "ciEntityId y = j" using items_okD(2) [OF ok] by blast
    assume "ciKind y \<noteq> ForeignItem"
    then show "fmlookup (fmupd (ciPtr x) x ?m) (ciPtr y) = Some y"
      using y items_okD(3) [OF ok] by (intro keeps) blast
  qed
  then show ?thesis
    using assms(1) by (simp add: core_ok_def kc_addItem_def) (simp add: ch_addItem_def)
qed

lemma subscribeEntity_ok:
  assumes "core_ok k" and "ptr |\<notin>| fmdom (spPending (ksPending k))"
  shows "core_ok (fst (subscribeEntity ptr pos i k))" and "core_ok (fst (unsubscribeEntity ptr pos i k))"
  using throw_away_added_ok [OF assms(1), of "\<lparr> ciPtr = ptr, ciEntityId = i, ciKind = SubscriberItem \<rparr>" pos]
    throw_away_added_ok [OF assms(1), of "\<lparr> ciPtr = ptr, ciEntityId = i, ciKind = UnsubscriberItem \<rparr>" pos]
    assms(2)
  by (simp_all add: subscribeEntity_def unsubscribeEntity_def Let_def)

text \<open>An unsubscription is reported only when it fails: a success leaves its item in place.\<close>

lemma unsubscription_never_reported:
  assumes "ciKind x = UnsubscriberItem" and "1000 \<le> apEventType ap" and "\<forall>er. ceData e \<noteq> VError er"
  shows "caused_signals ap e x = []"
  using assms
  by (simp add: caused_signals_def not_error_case item_signals_def unsubscriber_event_def datatype_ids)

section \<open>A subscription and its answer\<close>

definition plain_stack :: "'u core_client \<Rightarrow> bool" where
  "plain_stack k \<longleftrightarrow> hwSubsystems (ksHandler k) = [NetSystem, TcpSystem, CmdHandlerSystem]"

lemma plain_procs:
  "plain_stack k \<Longrightarrow> client_procs ap k =
     [client_proc ap NetSystem, client_proc ap TcpSystem, client_proc ap CmdHandlerSystem]"
  by (simp add: plain_stack_def client_procs_def)

text \<open>A request of the client is written to the sockets of the peers and nowhere else.\<close>

lemma request_path:
  assumes "core_ok k" and "\<not> ksDown k" and "plain_stack k"
    and "ceSubtype e = TRANSACTION" and "\<not> ceAccepted e" and "cePeerId e = null_uuid"
    and "vd_origin (ceData e) = EO_LOCAL" and "vd_target (ceData e) = ET_ALL"
  shows "run_events 3 client_accepted (client_procs ap k) k [CmdEv e] =
    (k\<lparr>ksTcp := fst (tcpSystem_processEvent (ksTcp k)
       (ProtoEv (sendNetworkEvent [] (prepareEnvelope (apFb ap) (apQt ap) e))))\<rparr>, [])"
proof -
  have "networkSystem_processEvent (apFb ap) (apQt ap) (ksNet k) (CmdEv e) =
      Some (ksNet k, CmdEv e, [ProtoEv (sendNetworkEvent [] (prepareEnvelope (apFb ap) (apQt ap) e))])"
    using assms by (simp add: networkSystem_processEvent_def processCmdEvents_def core_ok_def)
  moreover have "chFilter (ksItems k) = NOTIFICATION" using assms(1) by (simp add: core_ok_def)
  ultimately show ?thesis
    using assms(2,4,5)
    by (simp add: numeral_3_eq_3 plain_procs [OF assms(3)] client_proc_def client_network_def client_tcp_def
        client_handler_def ch_processCommandEvent_def client_accepted_def tcpSystem_processEvent_def
        networkSystem_processEvent_def deserializeIncoming_def sendNetworkEvent_def vein_defs Let_def)
qed

text \<open>An event received from the server passes on to the command event handler.\<close>

lemma answer_path:
  assumes "core_ok k" and "app_ok ap" and "\<not> ksDown k" and "plain_stack k"
    and "deserializeIncoming (apFb ap) (apQt ap) p = Some [e]"
  obtains k' where
    "run_events 3 client_accepted (client_procs ap k) k [ProtoEv p] = (k', [])"
    and "handled ap e k k'"
proof -
  have local: "\<not> peLocalOrigin p" using assms(5) by (auto simp: deserializeIncoming_def)
  have e: "\<not> ceAccepted e" "vd_origin (ceData e) = EO_FOREIGN"
    using deserializeIncoming_typed [OF assms(5)] by (simp_all add: received_typed_def)
  obtain k' where k': "client_handler ap k (CmdEv e) = (k', CmdEv e, [])" "handled ap e k k'"
    using handler_step [OF assms(1,2)] by blast
  have "networkSystem_processEvent (apFb ap) (apQt ap) (ksNet k) (CmdEv e) = Some (ksNet k, CmdEv e, [])"
    using e by (simp add: networkSystem_processEvent_def processCmdEvents_def Let_def)
  then have "run_events 3 client_accepted (client_procs ap k) k [ProtoEv p] = (k', [])"
    using assms(3,5) local e(1) k'(1)
    by (simp add: numeral_3_eq_3 plain_procs [OF assms(4)] client_proc_def client_network_def client_tcp_def
        client_accepted_def tcpSystem_processEvent_def networkSystem_processEvent_def
        client_handler_def [of ap k "ProtoEv p"])
  then show ?thesis using that k'(2) by blast
qed

lemma concat_replicate:
  "concat (map (\<lambda>x. if P x then [c] else []) xs) = replicate (length (filter P xs)) c"
  by (induction xs) simp_all

lemma introspection_signals:
  assumes "ceSubtype e = NOTIFICATION" and "ceData e = VIntrospection d"
  shows "caused_signals ap e x =
    (if ciKind x = SubscriberItem then [SigSubscribed (id_isValid d) (ciEntityId x)] else [])"
  using assms
  by (cases "ciKind x")
     (simp_all add: caused_signals_def item_signals_def subscriber_event_def unsubscriber_event_def)

lemma introspection_reported:
  assumes "handled ap e k k'" and "core_ok k"
    and "ceSubtype e = NOTIFICATION" and "ceData e = VIntrospection d"
  shows "spSignals (ksPending k') = spSignals (ksPending k) @
      replicate (length (filter (\<lambda>x. ciKind x = SubscriberItem) (entity_items k (edEntityId d))))
        (StackSubscribed (id_isValid d) (edEntityId d))"
    and "spPending (ksPending k') = drop_pending
      (filter (\<lambda>x. ciKind x = SubscriberItem) (entity_items k (edEntityId d))) (spPending (ksPending k))"
proof -
  let ?xs = "entity_items k (edEntityId d)" and ?c = "StackSubscribed (id_isValid d) (edEntityId d)"
  have "ciEntityId x = edEntityId d" if "x \<in> set ?xs" for x
    using assms(2) that items_okD(2) unfolding core_ok_def entity_items_def by blast
  then have "map (\<lambda>x. reported x (caused_signals ap e x)) ?xs =
      map (\<lambda>x. if ciKind x = SubscriberItem then [?c] else []) ?xs"
    by (simp add: introspection_signals [OF assms(3,4)])
  then have "concat (map (\<lambda>x. reported x (caused_signals ap e x)) ?xs) =
      replicate (length (filter (\<lambda>x. ciKind x = SubscriberItem) ?xs)) ?c"
    by (simp only: concat_replicate)
  moreover have "filter (\<lambda>x. caused_signals ap e x \<noteq> []) ?xs =
      filter (\<lambda>x. ciKind x = SubscriberItem) ?xs"
    by (simp add: introspection_signals [OF assms(3,4)])
  ultimately show
    "spSignals (ksPending k') = spSignals (ksPending k) @
       replicate (length (filter (\<lambda>x. ciKind x = SubscriberItem) ?xs)) ?c"
    "spPending (ksPending k') = drop_pending (filter (\<lambda>x. ciKind x = SubscriberItem) ?xs)
       (spPending (ksPending k))"
    using assms(1,4) by (simp_all add: handled_def Let_def)
qed

lemma subscriber_added:
  assumes "core_ok k" and "ptr |\<notin>| fmdom (spPending (ksPending k))"
  shows "length (filter (\<lambda>x. ciKind x = SubscriberItem) (entity_items (fst (subscribeEntity ptr pos i k)) i)) =
      Suc (length (filter (\<lambda>x. ciKind x = SubscriberItem) (entity_items k i)))"
    and "\<lparr> ciPtr = ptr, ciEntityId = i, ciKind = SubscriberItem \<rparr> \<in>
      set (entity_items (fst (subscribeEntity ptr pos i k)) i)"
proof -
  let ?x = "\<lparr> ciPtr = ptr, ciEntityId = i, ciKind = SubscriberItem \<rparr>"
  have "?x \<notin> set (entity_items k i)"
    using assms items_okD(3) [of "chItems (ksItems k)" "spPending (ksPending k)" ?x i]
    by (auto simp: core_ok_def entity_items_def fmdom_notD)
  then have items: "entity_items (fst (subscribeEntity ptr pos i k)) i =
      take pos (entity_items k i) @ [?x] @ drop pos (entity_items k i)"
    by (simp add: entity_items_def subscribeEntity_def kc_addItem_def addItem_items sl_addItem_def Let_def)
  then show "?x \<in> set (entity_items (fst (subscribeEntity ptr pos i k)) i)" by simp
  have "length (filter P (take pos xs)) + length (filter P (drop pos xs)) = length (filter P xs)"
    for P and xs :: "client_item list"
    by (metis append_take_drop_id filter_append length_append)
  then show "length (filter (\<lambda>x. ciKind x = SubscriberItem)
      (entity_items (fst (subscribeEntity ptr pos i k)) i)) =
      Suc (length (filter (\<lambda>x. ciKind x = SubscriberItem) (entity_items k i)))"
    unfolding items by simp
qed

section \<open>Properties\<close>

text \<open>
  What an application can do with a stack: create it, subscribe and unsubscribe (new items have
  addresses of their own), register items and event systems, let the sockets work and run the
  event loop on any events.
\<close>

inductive core_reach :: "'u client_app \<Rightarrow> 'u core_client \<Rightarrow> bool" for ap where
  reach_init: "core_client_init u = Some k \<Longrightarrow> core_reach ap k"
| reach_subscribe:
    "core_reach ap k \<Longrightarrow> ptr |\<notin>| fmdom (spPending (ksPending k)) \<Longrightarrow>
     core_reach ap (fst (subscribeEntity ptr pos i k))"
| reach_unsubscribe:
    "core_reach ap k \<Longrightarrow> ptr |\<notin>| fmdom (spPending (ksPending k)) \<Longrightarrow>
     core_reach ap (fst (unsubscribeEntity ptr pos i k))"
| reach_item:
    "core_reach ap k \<Longrightarrow> ciKind x = ForeignItem \<Longrightarrow> core_reach ap (kc_addItem pos x k)"
| reach_append: "core_reach ap k \<Longrightarrow> appendEventSystem n k = Some k' \<Longrightarrow> core_reach ap k'"
| reach_prepend: "core_reach ap k \<Longrightarrow> prependEventSystem n k = Some k' \<Longrightarrow> core_reach ap k'"
| reach_sockets: "core_reach ap k \<Longrightarrow> tcp_ok ts \<Longrightarrow> core_reach ap (k\<lparr>ksTcp := ts\<rparr>)"
| reach_events:
    "core_reach ap k \<Longrightarrow>
     core_reach ap (fst (run_events n client_accepted (client_procs ap k) k q))"

lemma foreign_added_ok:
  assumes "core_ok k" and "ciKind x = ForeignItem"
  shows "core_ok (kc_addItem pos x k)"
proof -
  have ok: "items_ok (chItems (ksItems k)) (spPending (ksPending k))"
    using assms(1) by (simp add: core_ok_def)
  then have "items_ok (chItems (ch_addItem ciEntityId pos x (ksItems k))) (spPending (ksPending k))"
    using assms(2) by (auto simp: items_ok_def addItem_items sl_addItem_idle)
  then show ?thesis
    using assms(1) by (simp add: core_ok_def kc_addItem_def) (simp add: ch_addItem_def)
qed

lemma core_reach_ok:
  assumes "core_reach ap k" and "app_ok ap"
  shows "core_ok k"
  using assms(1)
proof (induction rule: core_reach.induct)
  case (reach_init u k)
  then show ?case by (rule core_client_init_ok)
next
  case (reach_events k n q)
  then show ?case using client.run_events_inv [of ap k n k q] assms(2) by blast
next
  case (reach_append k n k')
  then show ?case
    by (auto simp: appendEventSystem_def core_ok_def intro: addSubsystem_ok)
next
  case (reach_prepend k n k')
  then show ?case
    by (auto simp: prependEventSystem_def core_ok_def intro: prependSubsystem_ok)
next
  case (reach_sockets k ts)
  then show ?case by (simp add: core_ok_def)
qed (simp_all add: subscribeEntity_ok foreign_added_ok)

text \<open>
  What the slots do while the container is iterated: the first item of the container reports its
  subscription, the slot takes it out of the pending items and marks it for removal. If the
  application now runs the event loop inside the signal and another introspection of the entity
  arrives, the nested iteration starts at the marked item again, which reports once more, and
  the slot takes a null item.
\<close>

lemma nested_loop_meets_null:
  assumes "slItems c = x # xs" and "slInIteration c" and "ciKind x = SubscriberItem"
    and "fmlookup (spPending s) (ciPtr x) = Some x"
    and "ceData e = VIntrospection d" and "ceData e' = VIntrospection d'"
    and "item_body (item_signals t e) foreign s x = (s1, ops)"
  shows "ops = [RemoveItem x]" and "fst (SafeLoop.getFirst (sl_removeItem x c)) = Some x"
    and "spNull (fst (item_body (item_signals t e') foreign s1 x))"
  using assms
  by (auto simp: item_body_def item_signals_def subscriber_event_def onSubscribed_def
      sl_removeItem_def SafeLoop.getFirst_def head_of_def Let_def)

text \<open>
  C17. The slots of the client stack never touch a null item, as long as nothing interferes with
  the loop they run in: the application creates the stack, subscribes and unsubscribes, registers
  items and event systems and works its sockets between events, not from slots inside a dispatch;
  its own items, while they are called for an event, register no items and take out none of the
  stack's. Then, whatever events arrive in whatever order, every signal of a throw-away item finds
  that item pending, and every registered throw-away item is listed under its entity and pending
  under its address.
\<close>

theorem throw_away_items_pending:
  assumes "core_reach ap k" and "app_ok ap"
  shows "\<not> spNull (ksPending k) \<and>
    (\<forall>i. list_all (\<lambda>x. ciEntityId x = i \<and>
       (ciKind x = ForeignItem \<or> fmlookup (spPending (ksPending k)) (ciPtr x) = Some x)) (entity_items k i))"
proof -
  note ok = core_reach_ok [OF assms]
  then have items: "items_ok (chItems (ksItems k)) (spPending (ksPending k))" "\<not> spNull (ksPending k)"
    by (simp_all add: core_ok_def)
  then show ?thesis using items_okD(2,3) [OF items(1)] unfolding list_all_iff entity_items_def by blast
qed

definition quiet_app :: "unit client_app" where
  "quiet_app = \<lparr> apQt = qt_ref, apFb = example_fb, apEventType = 1001,
     apItem = (\<lambda>e s x. (s, [])), apItemError = (\<lambda>od s x. (s, [])),
     apSystem = (\<lambda>n s ev. (s, ev, [])) \<rparr>"

lemma quiet_app_ok [simp]: "app_ok quiet_app"
  by (simp add: app_ok_def quiet_app_def foreign_only_def)

definition example_client :: "unit core_client" where
  "example_client = the (core_client_init ())"

lemma example_client_init: "core_client_init () = Some example_client"
  by (simp add: example_client_def core_client_init_def addSubsystem_def attach_def)

theorem throw_away_items_pending_witness:
  "\<not> spNull (ksPending (fst (run_events 9 client_accepted
     (client_procs quiet_app (fst (subscribeEntity 1 0 7 example_client)))
     (fst (subscribeEntity 1 0 7 example_client)) (snd (subscribeEntity 1 0 7 example_client)))))"
proof -
  have "1 |\<notin>| fmdom (spPending (ksPending example_client))"
    by (simp add: example_client_def core_client_init_def addSubsystem_def attach_def)
  then have "core_reach quiet_app (fst (subscribeEntity 1 0 7 example_client))"
    by (intro reach_subscribe reach_init [OF example_client_init])
  from throw_away_items_pending [OF reach_events [OF this] quiet_app_ok] show ?thesis by blast
qed

text \<open>The first half: the call enqueues one event, and three turns later it is written.\<close>

lemma subscription_sent:
  assumes "core_reach ap k" and "app_ok ap" and "\<not> ksDown k" and "plain_stack k"
    and "ptr |\<notin>| fmdom (spPending (ksPending k))"
    and "subscribeEntity ptr pos i k = (k1, q)"
  shows "run_events 3 client_accepted (client_procs ap k1) k1 q =
    (k1\<lparr>ksTcp := fst (tcpSystem_processEvent (ksTcp k) (ProtoEv (sendNetworkEvent []
       (prepareEnvelope (apFb ap) (apQt ap) (subscriber_generateEvent i)))))\<rparr>, [])"
    and "core_ok k1" and "\<not> ksDown k1" and "plain_stack k1"
    and "ksTcp k1 = ksTcp k" and "spSignals (ksPending k1) = spSignals (ksPending k)"
proof -
  note ok = core_reach_ok [OF assms(1,2)]
  have k1: "k1 = fst (subscribeEntity ptr pos i k)" and q: "q = [CmdEv (subscriber_generateEvent i)]"
    using assms(6) by (auto simp: subscribeEntity_def Let_def)
  have same: "ksTcp k1 = ksTcp k" "ksDown k1 = ksDown k" "ksHandler k1 = ksHandler k"
    "spSignals (ksPending k1) = spSignals (ksPending k)"
    by (simp_all add: k1 subscribeEntity_def kc_addItem_def Let_def)
  show ok1: "core_ok k1" unfolding k1 by (rule subscribeEntity_ok [OF ok assms(5)])
  show ready: "\<not> ksDown k1" "plain_stack k1" using assms(3,4) same by (simp_all add: plain_stack_def)
  show "ksTcp k1 = ksTcp k" "spSignals (ksPending k1) = spSignals (ksPending k)" using same by simp_all
  show "run_events 3 client_accepted (client_procs ap k1) k1 q =
    (k1\<lparr>ksTcp := fst (tcpSystem_processEvent (ksTcp k) (ProtoEv (sendNetworkEvent []
       (prepareEnvelope (apFb ap) (apQt ap) (subscriber_generateEvent i)))))\<rparr>, [])"
    unfolding q same(1) [symmetric]
    by (rule request_path [OF ok1 ready])
       (simp_all add: subscriber_generateEvent_def entity_event_data_def vein_defs null_uuid_def)
qed

lemma subscription_steps:
  assumes "core_reach ap k" and "app_ok ap" and "\<not> ksDown k" and "plain_stack k"
    and "ptr |\<notin>| fmdom (spPending (ksPending k))"
    and "subscribeEntity ptr pos i k = (k1, q)"
    and "run_events 3 client_accepted (client_procs ap k1) k1 q = (k2, q2)"
    and "deserializeIncoming (apFb ap) (apQt ap) p = Some [e]"
    and "ceSubtype e = NOTIFICATION" and "ceData e = VIntrospection d" and "edEntityId d = i"
    and "run_events 3 client_accepted (client_procs ap k2) k2 [ProtoEv p] = (k3, q3)"
  shows "q2 = [] \<and> q3 = [] \<and>
    (\<forall>peer. fmlookup (tsWorkers (ksTcp k2)) peer =
       map_option (\<lambda>w. if twConnected w \<and> peer |\<in>| fmran (tsPeerList (ksTcp k))
          then w\<lparr>twWritten := twWritten w @
                 put_qbytearray (Some (prepareEnvelope (apFb ap) (apQt ap) (subscriber_generateEvent i)))\<rparr>
          else w) (fmlookup (tsWorkers (ksTcp k)) peer)) \<and>
    spSignals (ksPending k3) = spSignals (ksPending k) @
      replicate (Suc (length (filter (\<lambda>x. ciKind x = SubscriberItem) (entity_items k i))))
        (StackSubscribed (id_isValid d) i) \<and>
    ptr |\<notin>| fmdom (spPending (ksPending k3))"
proof -
  let ?e = "subscriber_generateEvent i"
  let ?pe = "sendNetworkEvent [] (prepareEnvelope (apFb ap) (apQt ap) ?e)"
  note ok = core_reach_ok [OF assms(1,2)]
  note sent = subscription_sent [OF assms(1-6)]
  have k1: "k1 = fst (subscribeEntity ptr pos i k)" using assms(6) by simp
  have ok1: "core_ok k1" by (rule sent(2))
  have k2: "k2 = k1\<lparr>ksTcp := fst (tcpSystem_processEvent (ksTcp k1) (ProtoEv ?pe))\<rparr>" "q2 = []"
    using assms(7) sent(1,5) by simp_all
  have ok2: "core_ok k2"
    using ok1 tcpSystem_processEvent_ok by (simp add: k2(1) core_ok_def)
  have ready2: "\<not> ksDown k2" "plain_stack k2" using sent(3,4) by (simp_all add: k2(1) plain_stack_def)
  obtain k' where k': "run_events 3 client_accepted (client_procs ap k2) k2 [ProtoEv p] = (k', [])"
    "handled ap e k2 k'"
    using answer_path [OF ok2 assms(2) ready2 assms(8)] by blast
  then have k3: "k3 = k'" "q3 = []" using assms(12) by simp_all
  have items: "entity_items k2 i = entity_items k1 i" "ksPending k2 = ksPending k1"
    by (simp_all add: k2(1) entity_items_def)
  note reports = introspection_reported [OF k'(2) ok2 assms(9,10), unfolded assms(11) items]
  have "fmlookup (tsWorkers (ksTcp k2)) peer =
       map_option (\<lambda>w. if twConnected w \<and> peer |\<in>| fmran (tsPeerList (ksTcp k))
          then w\<lparr>twWritten := twWritten w @
                 put_qbytearray (Some (prepareEnvelope (apFb ap) (apQt ap) ?e))\<rparr>
          else w) (fmlookup (tsWorkers (ksTcp k)) peer)" for peer
  proof -
    have pe: "distinct (peReceivers ?pe)" "peLocalOrigin ?pe"
      "peBuffer ?pe = Some (prepareEnvelope (apFb ap) (apQt ap) ?e)"
      by (simp_all add: sendNetworkEvent_def vein_defs)
    have "addressed (ksTcp k) ?pe peer \<longleftrightarrow> peer |\<in>| fmran (tsPeerList (ksTcp k))"
      by (simp add: addressed_def sendNetworkEvent_def vein_defs fmlookup_ran_iff)
    moreover have "tcp_ok (ksTcp k1)" using ok1 by (simp add: core_ok_def)
    ultimately show ?thesis
      using event_delivery [OF _ pe(1,2), of "ksTcp k1" peer, unfolded pe(3)]
      by (simp add: k2(1) sent(5))
  qed
  moreover have "ptr |\<notin>| fmdom (spPending (ksPending k3))"
  proof -
    have "ptr \<in> ciPtr ` set (filter (\<lambda>x. ciKind x = SubscriberItem) (entity_items k1 i))"
      using subscriber_added(2) [OF ok assms(5), where pos = pos and i = i] unfolding k1 by (force simp: image_iff)
    then have "fmlookup (spPending (ksPending k3)) ptr = None"
      using reports(2) by (simp add: k3 drop_pending_lookup)
    then show ?thesis by (simp add: fmlookup_dom_iff)
  qed
  ultimately show ?thesis
    using k2(2) k3 reports(1) sent(6) subscriber_added(1) [OF ok assms(5), where pos = pos and i = i]
    by (simp add: k1 [symmetric])
qed

text \<open>
  C14. A subscription of the client is sent and, once answered, reported and cleaned up: after
  three rounds of the event loop every connected peer has been written the subscribe event of
  the entity as one frame; when the introspection of the entity arrives, three more rounds emit
  one \<open>sigSubscribed\<close> for this subscription (and one for every earlier one of the entity that
  still waits), with the validity of the introspection as its result, the item is pending no
  more, and no event is left.
\<close>

theorem subscription_answered:
  assumes "core_reach ap k" and "app_ok ap" and "\<not> ksDown k" and "plain_stack k"
    and "ptr |\<notin>| fmdom (spPending (ksPending k))"
    and "subscribeEntity ptr pos i k = (k1, q)"
    and "run_events 3 client_accepted (client_procs ap k1) k1 q = (k2, q2)"
    and "deserializeIncoming (apFb ap) (apQt ap) p = Some [e]"
    and "ceSubtype e = NOTIFICATION" and "ceData e = VIntrospection d" and "edEntityId d = i"
    and "run_events 3 client_accepted (client_procs ap k2) k2 [ProtoEv p] = (k3, q3)"
  shows "q2 = [] \<and> q3 = [] \<and>
    (\<forall>peer. fmlookup (tsWorkers (ksTcp k2)) peer =
       map_option (\<lambda>w. if twConnected w \<and> peer |\<in>| fmran (tsPeerList (ksTcp k))
          then w\<lparr>twWritten := twWritten w @
                 put_qbytearray (Some (prepareEnvelope (apFb ap) (apQt ap) (subscriber_generateEvent i)))\<rparr>
          else w) (fmlookup (tsWorkers (ksTcp k)) peer)) \<and>
    spSignals (ksPending k3) = spSignals (ksPending k) @
      replicate (Suc (length (filter (\<lambda>x. ciKind x = SubscriberItem) (entity_items k i))))
        (StackSubscribed (id_isValid d) i) \<and>
    ptr |\<notin>| fmdom (spPending (ksPending k3))"
  using assms by (rule subscription_steps)

definition example_answer :: introspection_data where
  "example_answer = \<lparr> edOrigin = EO_LOCAL, edTarget = ET_ALL, edEntityId = 7,
     idComponentValues = fmupd ''a'' (QBool True) fmempty, idRpcNames = [] \<rparr>"

definition answer_app :: "unit client_app" where
  "answer_app = quiet_app\<lparr>apFb := fb_one \<lparr> feCommand = 0, feDataType = 2,
     feEventData = Some (id_serialize qt_ref example_answer) \<rparr>\<rparr>"

definition answer_event :: vein_event where
  "answer_event = commandEvent_new NOTIFICATION (VIntrospection example_answer)"

definition answer_envelope :: protocol_event where
  "answer_envelope = \<lparr> peLocalOrigin = False,
     peBuffer = Some (prepareEnvelope (apFb answer_app) qt_ref answer_event), peReceivers = [],
     pePeerId = Uuid 5 \<rparr>"

lemma answer_envelope_read:
  "deserializeIncoming (apFb answer_app) (apQt answer_app) answer_envelope =
     Some [\<lparr> cePeerId = Uuid 5, ceSubtype = NOTIFICATION,
             ceData = VIntrospection (example_answer\<lparr> edOrigin := EO_FOREIGN, edTarget := ET_IRRELEVANT \<rparr>),
             ceAccepted = False \<rparr>]"
proof -
  have "vd_wf qt_ref (ceData answer_event)" "vd_isValid (ceData answer_event)"
    by (simp_all add: answer_event_def example_answer_def id_wf_def entity_id_wf_def qstringlist_wf_def
        vein_defs)
  then show ?thesis
    using envelope_read_back [of qt_ref answer_event "apFb answer_app" answer_envelope]
    by (simp add: answer_app_def answer_event_def answer_envelope_def quiet_app_def
        setEventOrigin_def setEventTarget_def vein_defs datatype_ids)
qed

theorem subscription_answered_witness:
  "\<exists>k2 k3. run_events 3 client_accepted (client_procs answer_app k2) k2 [ProtoEv answer_envelope] = (k3, []) \<and>
     spSignals (ksPending k3) = [StackSubscribed True 7]"
proof -
  let ?k = "example_client\<lparr>ksTcp := example_tcp\<rparr>"
  have k: "core_reach answer_app ?k"
    by (intro reach_sockets reach_init [OF example_client_init] example_tcp_ok)
  have app: "app_ok answer_app" using quiet_app_ok by (simp add: answer_app_def app_ok_def)
  have fresh: "\<not> ksDown ?k" "plain_stack ?k" "1 |\<notin>| fmdom (spPending (ksPending ?k))"
    "entity_items ?k 7 = []" "spSignals (ksPending ?k) = []"
    by (simp_all add: example_client_def core_client_init_def addSubsystem_def attach_def
        plain_stack_def entity_items_def cmd_handler_new_def reg_container_def safe_set_new_def)
  obtain k1 q where s: "subscribeEntity 1 0 7 ?k = (k1, q)" by fastforce
  obtain k2 q2 where r2: "run_events 3 client_accepted (client_procs answer_app k1) k1 q = (k2, q2)"
    by fastforce
  obtain k3 q3 where r3:
    "run_events 3 client_accepted (client_procs answer_app k2) k2 [ProtoEv answer_envelope] = (k3, q3)"
    by fastforce
  have "id_isValid (example_answer\<lparr> edOrigin := EO_FOREIGN, edTarget := ET_IRRELEVANT \<rparr>)"
    by (simp add: example_answer_def vein_defs)
  then show ?thesis
    using subscription_answered [OF k app fresh(1-3) s r2 answer_envelope_read _ _ _ r3] r3 fresh(4,5)
    by (auto simp: example_answer_def)
qed

end
