(* ===== verification/ClientServer.thy ===== *)
theory ClientServer
  imports ServerFlows ClientStack
begin

text \<open>
  A client and a server at the two ends of a connection: what one side writes to its socket is
  what the other side receives. The lemmas follow a subscription from the client's call through
  both event loops and back.
\<close>

section \<open>One frame arrives\<close>

lemma onReadyRead_frame: "message_ok m \<Longrightarrow> onReadyRead (frame m) = ([m], [])"
proof -
  assume m: "message_ok m"
  have "readArray [] = (None, [])" by (simp add: readArray_def get_qbytearray_def get_quint32_def)
  then have "onReadyRead [] = ([], [])" by (subst onReadyRead.simps) simp
  then show ?thesis using readArray_frame [OF m, of "[]"] by (subst onReadyRead.simps) simp
qed

lemma frame_received:
  assumes "fmlookup (tsWorkers ts) p = Some w" and "twReceived w = []" and "message_ok m"
    and "p \<notin> set (tsWaitingAuth ts)"
  shows "socket_data ids p (frame m) ts =
    (ts, [ProtoEv (pe_setPeerId (twPeerId w) (pe_setBuffer (Some m) (protocolEvent_new False)))])"
proof -
  have w: "w\<lparr>twReceived := []\<rparr> = w" using assms(2) by (cases w) simp
  have "fmupd p w (tsWorkers ts) = tsWorkers ts"
    using assms(1) by (intro fmap_ext) auto
  then show ?thesis
    using assms
    by (simp add: w socket_data_def receive_def onReadyRead_frame onMessageReceived_def worker_id_def
        qvalue_def)
qed

section \<open>The server's event loop\<close>

text \<open>An envelope from a peer becomes its events.\<close>

lemma foreign_path:
  assumes "\<not> svDown sv" and "deserializeIncoming (xeFb env) (xeQt env) p = Some es" and "es \<noteq> []"
  shows "\<exists>k. customEvent app_accepted (server_procs env n) sv (ProtoEv p) =
    (sv, ProtoEv p, map CmdEv es, k)"
proof -
  have local: "\<not> peLocalOrigin p" using assms(2,3) by (auto simp: deserializeIncoming_def)
  have "customEvent app_accepted (map (proc_module env) ks) sv (ProtoEv p) =
      (sv, ProtoEv p, [], length ks)" for ks
    by (induction ks) (simp_all add: proc_module_def on_command_def app_accepted_def)
  then show ?thesis
    using assms local
    by (simp add: server_procs_def customEvent_append core_procs_def proc_defs
        networkSystem_processEvent_def tcpSystem_processEvent_def Let_def)
qed

text \<open>A notification about a component leaves network and TCP system alone.\<close>

definition component_note :: "app_event \<Rightarrow> bool" where
  "component_note ev \<longleftrightarrow> (\<exists>e d. ev = CmdEv e \<and> ceSubtype e = NOTIFICATION \<and> ceData e = VComponent d)"

definition same_net :: "server \<Rightarrow> server \<Rightarrow> bool" where
  "same_net sv sv' \<longleftrightarrow> svDown sv' = svDown sv \<and> svTcp sv' = svTcp sv \<and> svNet sv' = svNet sv"

lemma storage_component:
  assumes "ceSubtype e = NOTIFICATION" and "ceData e = VComponent d"
  obtains d' where "ceSubtype (fst (snd (ss_processEvent qt st e))) = NOTIFICATION"
    and "ceData (fst (snd (ss_processEvent qt st e))) = VComponent d'"
proof -
  have "ceSubtype (fst (snd (ss_processEvent qt st e))) = NOTIFICATION \<and>
      (\<exists>d'. ceData (fst (snd (ss_processEvent qt st e))) = VComponent d')"
    using assms
    by (simp add: ss_processEvent_def ss_processComponentData_def storage_error_def Let_def split_beta
        accept_def split: component_command.split option.split)
  then show ?thesis using that by blast
qed

lemma component_note_proc:
  assumes "p \<in> set (core_procs env)" and "\<not> svDown sv" and "component_note ev"
  shows "same_net sv (fst (p sv ev)) \<and> component_note (fst (snd (p sv ev)))"
proof -
  obtain e d where e: "ev = CmdEv e" "ceSubtype e = NOTIFICATION" "ceData e = VComponent d"
    using assms(3) by (auto simp: component_note_def)
  have net: "fst (processCmdEvents fb qt ns e) = ns" "fst (snd (processCmdEvents fb qt ns e)) = e" for fb qt ns
    using e by (simp_all add: processCmdEvents_def Let_def split: operation_mode.split)
  obtain d' where st: "ceSubtype (fst (snd (ss_processEvent (xeQt env) (svStorage sv) e))) = NOTIFICATION"
    "ceData (fst (snd (ss_processEvent (xeQt env) (svStorage sv) e))) = VComponent d'"
    by (rule storage_component [OF e(2,3)])
  have "same_net sv (fst (proc_storage env sv ev)) \<and> component_note (fst (snd (proc_storage env sv ev)))"
    using assms(2) e(1) st
    by (simp add: proc_storage_def on_command_def same_net_def component_note_def split_beta Let_def)
  moreover have "same_net sv (fst (p sv ev)) \<and> component_note (fst (snd (p sv ev)))"
    if "p \<noteq> proc_storage env"
    using assms(1,2) e net that
    by (auto simp: core_procs_def proc_system_def proc_introspection_def proc_license_def
        proc_network_def proc_tcp_def on_command_def same_net_def component_note_def
        sm_processEvent_def introspection_processEvent_def networkSystem_processEvent_def
        tcpSystem_processEvent_def split_beta Let_def)
  ultimately show ?thesis by blast
qed

lemma component_note_chain:
  "set ps \<subseteq> set (core_procs env) \<Longrightarrow> \<not> svDown sv \<Longrightarrow> component_note ev \<Longrightarrow>
   same_net sv (fst (customEvent app_accepted ps sv ev))"
proof (induction ps arbitrary: sv ev)
  case Nil
  then show ?case by (simp add: same_net_def)
next
  case (Cons p ps)
  obtain sv1 ev1 out1 where p: "p sv ev = (sv1, ev1, out1)" by (cases "p sv ev") auto
  then have s1: "same_net sv sv1" "component_note ev1"
    using component_note_proc [of p env sv ev] Cons.prems by auto
  then have "same_net sv1 (fst (customEvent app_accepted ps sv1 ev1))"
    using Cons by (simp add: same_net_def)
  then show ?case using p s1(1) by (simp add: same_net_def split_beta)
qed

lemma component_note_dispatch:
  assumes "\<not> svDown sv" and "component_note ev"
  shows "same_net sv (fst (customEvent app_accepted (server_procs env n) sv ev))"
proof (cases "app_accepted ev")
  case True
  then show ?thesis by (simp add: same_net_def)
next
  case False
  obtain e d where e: "ev = CmdEv e" "ceSubtype e = NOTIFICATION" "ceData e = VComponent d"
    using assms(2) by (auto simp: component_note_def)
  then have "\<forall>m \<in> set (svModules sv). inert (xeQt env) e m" "\<not> ceAccepted e"
    using False inert_notification by (auto simp: app_accepted_def)
  then show ?thesis
    using component_note_chain [OF subset_refl assms, of env] dispatch_core [of sv env e n]
    by (simp add: e(1) split_beta Let_def)
qed

text \<open>Waiting notifications about components are worked off before what waits behind them.\<close>

lemma component_notes_run:
  assumes "\<forall>ev \<in> set evs. component_note ev" and "\<not> svDown sv"
  shows "\<exists>sv' outs. run_events (length evs + k) app_accepted (server_procs env n) sv (evs @ q) =
      run_events k app_accepted (server_procs env n) sv' (q @ outs) \<and> same_net sv sv'"
  using assms
proof (induction evs arbitrary: sv q)
  case Nil
  then show ?case by (intro exI [of _ sv] exI [of _ "[]"]) (simp add: same_net_def)
next
  case (Cons ev evs)
  obtain sv1 ev1 out1 j where c: "customEvent app_accepted (server_procs env n) sv ev = (sv1, ev1, out1, j)"
    by (cases "customEvent app_accepted (server_procs env n) sv ev") auto
  then have s1: "same_net sv sv1"
    using component_note_dispatch [of sv ev env n] Cons.prems by simp
  then obtain sv' outs where "run_events (length evs + k) app_accepted (server_procs env n) sv1
      (evs @ q @ out1) = run_events k app_accepted (server_procs env n) sv' ((q @ out1) @ outs)"
      "same_net sv1 sv'"
    using Cons.IH [of sv1 "q @ out1"] Cons.prems by (auto simp: same_net_def)
  then show ?case
    using c s1 by (intro exI [of _ sv'] exI [of _ "out1 @ outs"]) (simp add: same_net_def)
qed

lemma initial_fetches_notes:
  "\<forall>ev \<in> set (map CmdEv (initial_fetches qt db i p)). component_note ev"
  by (auto simp: initial_fetches_def initial_fetch_def component_note_def commandEvent_new_def
      setPeerId_def)

text \<open>
  A subscription request and the answer to it: the first event takes three turns to become the
  answer's envelope, which waits behind one notification for each component.
\<close>

lemma server_answers:
  assumes "server_inv sv" and "\<not> svDown sv"
    and "deserializeIncoming (xeFb env) (xeQt env) p = Some [e]"
    and "ceData e = VEntity d" and "ceSubtype e = TRANSACTION" and "\<not> ceAccepted e"
    and "eaCommand d = ECMD_SUBSCRIBE" and "0 \<le> edEntityId d"
    and "getComponentList (ssDb (svStorage sv)) (edEntityId d) \<noteq> []"
  defines "db \<equiv> ssDb (svStorage sv)"
  defines "answer \<equiv> introspection_event db (ssRpcNames (svStorage sv)) (edEntityId d) (cePeerId e)"
  shows "\<exists>sv' rest.
    run_events (length (qkeys (component_values db (edEntityId d))) + 4) app_accepted (server_procs env n) sv
      [ProtoEv p] = (sv', rest) \<and>
    subs_abs (svNet sv') = insert (edEntityId d, cePeerId e) (subs_abs (svNet sv)) \<and>
    svTcp sv' = fst (tcpSystem_processEvent (svTcp sv)
      (ProtoEv (sendNetworkEvent [cePeerId e] (prepareEnvelope (xeFb env) (xeQt env) answer))))"
proof -
  let ?ps = "server_procs env n" and ?i = "edEntityId d"
  let ?fetches = "initial_fetches (xeQt env) db ?i (cePeerId e)"
  let ?out = "ProtoEv (sendNetworkEvent [cePeerId e] (prepareEnvelope (xeFb env) (xeQt env) answer))"
  define sv1 where "sv1 = sv\<lparr>svNet := fst (tryAddSubscription d (cePeerId e) (svNet sv))\<rparr>"
  have mode: "nsOperationMode (svNet sv) = VNOM_SUBSCRIPTION" using assms(1) by (simp add: server_inv_def)
  have subs: "subs_abs (svNet sv1) = insert (?i, cePeerId e) (subs_abs (svNet sv))"
    using subscribed_after [OF assms(7)] by (simp add: sv1_def)
  have sv1: "\<not> svDown sv1" "nsOperationMode (svNet sv1) = VNOM_SUBSCRIPTION"
    "svTcp sv1 = svTcp sv" "svStorage sv1 = svStorage sv"
    using assms(2) mode by (simp_all add: sv1_def)
  obtain a where first: "customEvent app_accepted ?ps sv (ProtoEv p) = (sv, ProtoEv p, [CmdEv e], a)"
    using foreign_path [OF assms(2,3)] by auto
  obtain b ev where second: "customEvent app_accepted ?ps sv (CmdEv e) =
      (sv1, ev, CmdEv answer # map CmdEv ?fetches, b)"
    using subscribe_path_exact [OF assms(2) mode assms(4-7,9), of env n]
    unfolding sv1_def answer_def db_def by blast
  have third: "customEvent app_accepted ?ps sv1 (CmdEv answer) = (sv1, CmdEv answer, [?out], n + 6)"
    using introspection_path [OF sv1(1,2) _ assms(8), of "cePeerId e" env n "cePeerId e"] subs
    unfolding answer_def db_def by (simp add: sv1(4))
  obtain sv2 outs where flush: "run_events (length (map CmdEv ?fetches) + 1) app_accepted ?ps sv1
      (map CmdEv ?fetches @ [?out]) = run_events 1 app_accepted ?ps sv2 ([?out] @ outs)" "same_net sv1 sv2"
    using component_notes_run [OF initial_fetches_notes sv1(1)] by blast
  then have sv2: "\<not> svDown sv2" "svTcp sv2 = svTcp sv" "svNet sv2 = svNet sv1"
    using sv1 flush(2) by (simp_all add: same_net_def)
  obtain c where last: "customEvent app_accepted ?ps sv2 ?out =
      (sv2\<lparr>svTcp := fst (tcpSystem_processEvent (svTcp sv2) ?out)\<rparr>, ?out, [], c)"
    using protocol_path [OF sv2(1), of "sendNetworkEvent [cePeerId e] (prepareEnvelope (xeFb env) (xeQt env) answer)"]
    by (auto simp: sendNetworkEvent_def vein_defs)
  have len: "length ?fetches = length (qkeys (component_values db ?i))" by (simp add: initial_fetches_def)
  have "run_events (length ?fetches + 4) app_accepted ?ps sv [ProtoEv p] =
      run_events (length ?fetches + 1) app_accepted ?ps sv1 (map CmdEv ?fetches @ [?out])"
    using first second third by (simp add: eval_nat_numeral)
  also have "\<dots> = (sv2\<lparr>svTcp := fst (tcpSystem_processEvent (svTcp sv2) ?out)\<rparr>, outs)"
    using flush(1) last by simp
  finally show ?thesis using subs sv2 len by simp
qed

section \<open>Both ends of a connection\<close>

text \<open>An open connection on which nothing is under way: the peer is listed under its identifier.\<close>

definition open_connection :: "tcp_system \<Rightarrow> peer \<Rightarrow> quuid \<Rightarrow> bool" where
  "open_connection ts p i \<longleftrightarrow>
     (\<exists>w. fmlookup (tsWorkers ts) p = Some w \<and> twConnected w \<and> twReceived w = [] \<and> twWritten w = [] \<and>
          twPeerId w = i) \<and>
     fmlookup (tsPeerList ts) i = Some p \<and> p \<notin> set (tsWaitingAuth ts)"

definition written :: "tcp_system \<Rightarrow> peer \<Rightarrow> bytes" where
  "written ts p = twWritten (qvalue (tsWorkers ts) p tcpPeerWorker_new)"

text \<open>An event that can be put into an envelope and sent in one frame.\<close>

definition transmissible :: "fb_lib \<Rightarrow> qt_lib \<Rightarrow> vein_event \<Rightarrow> bool" where
  "transmissible fb qt e \<longleftrightarrow>
     vd_wf qt (ceData e) \<and>
     fb_streams fb [\<lparr> feCommand = subtype_code (ceSubtype e), feDataType = vd_type (ceData e),
       feEventData = Some (vd_serialize qt (ceData e)) \<rparr>] \<and>
     message_ok (prepareEnvelope fb qt e)"

text \<open>
  A subscription over the wire: the client subscribes and runs its event loop, the bytes on its
  socket reach the server, the server runs its event loop until the answer is written, the bytes
  on its socket reach the client, the client runs its event loop. \<open>p\<close> is the server as the
  client's peer, \<open>q\<close> the client as the server's peer.
\<close>

definition subscription_session ::
  "(nat \<Rightarrow> quuid) \<Rightarrow> (nat \<Rightarrow> quuid) \<Rightarrow> 'u client_app \<Rightarrow> stack_env \<Rightarrow> nat \<Rightarrow> nat \<Rightarrow> nat \<Rightarrow> int \<Rightarrow> peer \<Rightarrow> peer \<Rightarrow>
   'u core_client \<Rightarrow> server \<Rightarrow> 'u core_client \<times> server" where
  "subscription_session idsC idsS ap env n ptr pos i p q k sv =
     (let (k1, evs1) = subscribeEntity ptr pos i k;
          (k2, _) = run_events 3 client_accepted (client_procs ap k1) k1 evs1;
          (ts, evs2) = socket_data idsS q (written (ksTcp k2) p) (svTcp sv);
          turns = length (qkeys (component_values (ssDb (svStorage sv)) i)) + 4;
          (sv1, _) = run_events turns app_accepted (server_procs env n) (sv\<lparr>svTcp := ts\<rparr>) evs2;
          (ts', evs3) = socket_data idsC p (written (svTcp sv1) q) (ksTcp k2);
          (k3, _) = run_events 3 client_accepted (client_procs ap k2) (k2\<lparr>ksTcp := ts'\<rparr>) evs3
      in (k3, sv1))"

lemma open_connection_received:
  assumes "open_connection ts p i" and "message_ok m"
  shows "socket_data ids p (frame m) ts =
    (ts, [ProtoEv (pe_setPeerId i (pe_setBuffer (Some m) (protocolEvent_new False)))])"
  using assms frame_received [of ts p _ m ids] by (auto simp: open_connection_def)

lemma received_envelope:
  assumes "transmissible fb qt e" and "vd_isValid (ceData e)" and "ceSubtype e \<in> {NOTIFICATION, TRANSACTION}"
  shows "deserializeIncoming fb qt
      (pe_setPeerId i (pe_setBuffer (Some (prepareEnvelope fb qt e)) (protocolEvent_new False))) =
    Some [\<lparr> cePeerId = i, ceSubtype = ceSubtype e,
            ceData = vd_setEventTarget ET_IRRELEVANT (vd_setEventOrigin EO_FOREIGN (ceData e)),
            ceAccepted = False \<rparr>]"
  using envelope_read_back [of qt e fb
      "pe_setPeerId i (pe_setBuffer (Some (prepareEnvelope fb qt e)) (protocolEvent_new False))"] assms
  by (simp add: transmissible_def vein_defs)

lemma sent_frame:
  assumes "tcp_ok ts" and "open_connection ts p i"
  shows "written (fst (tcpSystem_processEvent ts (ProtoEv (sendNetworkEvent [i] m)))) p = frame m"
    and "written (fst (tcpSystem_processEvent ts (ProtoEv (sendNetworkEvent [] m)))) p = frame m"
proof -
  obtain w where w: "fmlookup (tsWorkers ts) p = Some w" "twConnected w" "twWritten w = []"
    "fmlookup (tsPeerList ts) i = Some p"
    using assms(2) by (auto simp: open_connection_def)
  have "written (fst (tcpSystem_processEvent ts (ProtoEv (sendNetworkEvent rs m)))) p = frame m"
    if "rs = [i] \<or> rs = []" for rs
  proof -
    have pe: "peLocalOrigin (sendNetworkEvent rs m)" "peBuffer (sendNetworkEvent rs m) = Some m"
      "distinct (peReceivers (sendNetworkEvent rs m))" "addressed ts (sendNetworkEvent rs m) p"
      using that w(4) by (auto simp: sendNetworkEvent_def vein_defs addressed_def)
    show ?thesis
      using event_delivery [OF assms(1) pe(3,1), of p, unfolded pe(2)] w pe(4)
      by (simp add: written_def qvalue_def frame_def)
  qed
  then show "written (fst (tcpSystem_processEvent ts (ProtoEv (sendNetworkEvent [i] m)))) p = frame m"
    "written (fst (tcpSystem_processEvent ts (ProtoEv (sendNetworkEvent [] m)))) p = frame m" by blast+
qed

lemma sent_keeps_reading:
  assumes "fmlookup (tsWorkers ts) p = Some w"
  shows "\<exists>w'. fmlookup (tsWorkers (fst (tcpSystem_processEvent ts ev))) p = Some w' \<and>
    twReceived w' = twReceived w \<and> twPeerId w' = twPeerId w \<and>
    tsWaitingAuth (fst (tcpSystem_processEvent ts ev)) = tsWaitingAuth ts"
proof -
  have "\<exists>w'. fmlookup (tsWorkers (fold (\<lambda>p. sendMessage p a) ps ts)) p = Some w' \<and>
      twReceived w' = twReceived w \<and> twPeerId w' = twPeerId w \<and>
      tsWaitingAuth (fold (\<lambda>p. sendMessage p a) ps ts) = tsWaitingAuth ts" for a ps
    using assms
  proof (induction ps arbitrary: ts w)
    case (Cons x ps)
    obtain w1 where "fmlookup (tsWorkers (sendMessage x a ts)) p = Some w1"
      "twReceived w1 = twReceived w" "twPeerId w1 = twPeerId w"
      using Cons.prems by (cases "p = x") (auto simp: worker_sendMessage sendArray_def)
    moreover have "tsWaitingAuth (sendMessage x a ts) = tsWaitingAuth ts"
      by (simp add: sendMessage_def on_worker_def split: option.split)
    ultimately show ?case using Cons.IH [of "sendMessage x a ts" w1] by simp
  qed simp
  then show ?thesis using assms by (simp add: tcpSystem_processEvent_def split: app_event.split)
qed

text \<open>The answer's payload on its way: only origin and target change.\<close>

lemma introspection_answer_data:
  "ceSubtype (introspection_event db rpcs i u) = NOTIFICATION"
  "0 \<le> i \<Longrightarrow> \<exists>d. vd_setEventTarget ET_IRRELEVANT (vd_setEventOrigin EO_FOREIGN
      (ceData (introspection_event db rpcs i u))) = VIntrospection d \<and> edEntityId d = i \<and>
      id_isValid d = vd_isValid (ceData (introspection_event db rpcs i u))"
  by (simp_all add: introspection_event_def id_isValid_def vein_defs record_glue)

lemma introspection_answer_valid:
  assumes "getComponentList db i \<noteq> []" and "0 \<le> i"
  shows "vd_isValid (ceData (introspection_event db rpcs i u))"
proof -
  have "component_values db i \<noteq> fmempty"
    using assms(1) qkeys_component_values [of db i] by (auto simp: qkeys_lookup)
  then show ?thesis using assms(2) by (simp add: introspection_event_data id_isValid_def)
qed

lemma request_data:
  "ceSubtype (subscriber_generateEvent i) = TRANSACTION"
  "0 \<le> i \<Longrightarrow> vd_isValid (ceData (subscriber_generateEvent i))"
  "0 \<le> i \<Longrightarrow> \<exists>d. vd_setEventTarget ET_IRRELEVANT (vd_setEventOrigin EO_FOREIGN
      (ceData (subscriber_generateEvent i))) = VEntity d \<and> edEntityId d = i \<and> eaCommand d = ECMD_SUBSCRIBE"
  by (simp_all add: subscriber_generateEvent_def entity_event_data_def ea_isValid_def vein_defs
      record_glue)

lemma session_steps:
  assumes client: "core_reach ap k" "app_ok ap" "\<not> ksDown k" "plain_stack k"
      "ptr |\<notin>| fmdom (spPending (ksPending k))"
    and server: "server_inv sv" "\<not> svDown sv" "getComponentList (ssDb (svStorage sv)) i \<noteq> []" "0 \<le> i"
    and conn: "open_connection (ksTcp k) p j" "open_connection (svTcp sv) q u"
    and libs: "apQt ap = xeQt env" "apFb ap = xeFb env"
      "transmissible (xeFb env) (xeQt env) (subscriber_generateEvent i)"
      "transmissible (xeFb env) (xeQt env)
         (introspection_event (ssDb (svStorage sv)) (ssRpcNames (svStorage sv)) i u)"
    and session: "subscription_session idsC idsS ap env n ptr pos i p q k sv = (k3, sv1)"
  shows "subs_abs (svNet sv1) = insert (i, u) (subs_abs (svNet sv)) \<and>
    spSignals (ksPending k3) = spSignals (ksPending k) @
      replicate (Suc (length (filter (\<lambda>x. ciKind x = SubscriberItem) (entity_items k i))))
        (StackSubscribed True i) \<and>
    ptr |\<notin>| fmdom (spPending (ksPending k3))"
proof -
  let ?fb = "xeFb env" and ?qt = "xeQt env"
  let ?req = "prepareEnvelope ?fb ?qt (subscriber_generateEvent i)"
  let ?answer = "introspection_event (ssDb (svStorage sv)) (ssRpcNames (svStorage sv)) i u"
  let ?ans = "prepareEnvelope ?fb ?qt ?answer"
  let ?ts = "fst (tcpSystem_processEvent (ksTcp k) (ProtoEv (sendNetworkEvent [] ?req)))"
  let ?turns = "length (qkeys (component_values (ssDb (svStorage sv)) i)) + 4"
  have valid: "vd_isValid (ceData ?answer)" by (rule introspection_answer_valid [OF server(3,4)])
  let ?in = "\<lambda>i m. pe_setPeerId i (pe_setBuffer (Some m) (protocolEvent_new False))"
  obtain k1 evs1 where s: "subscribeEntity ptr pos i k = (k1, evs1)" by fastforce
  let ?k2 = "k1\<lparr>ksTcp := ?ts\<rparr>"
  have run1: "run_events 3 client_accepted (client_procs ap k1) k1 evs1 = (?k2, [])"
    using subscription_sent(1) [OF client s] libs by simp
  have ok: "tcp_ok (ksTcp k)" "tcp_ok (svTcp sv)"
    using core_reach_ok [OF client(1,2)] server(1) by (simp_all add: core_ok_def server_inv_def)
  have msgs: "message_ok ?req" "message_ok ?ans" using libs by (simp_all add: transmissible_def)
  have arrive: "socket_data idsS q (written ?ts p) (svTcp sv) = (svTcp sv, [ProtoEv (?in u ?req)])"
    unfolding sent_frame(2) [OF ok(1) conn(1)] by (rule open_connection_received [OF conn(2) msgs(1)])
  obtain d where d: "vd_setEventTarget ET_IRRELEVANT (vd_setEventOrigin EO_FOREIGN
      (ceData (subscriber_generateEvent i))) = VEntity d" "edEntityId d = i" "eaCommand d = ECMD_SUBSCRIBE"
    using request_data(3) [OF server(4)] by blast
  have "deserializeIncoming ?fb ?qt (?in u ?req) = Some [\<lparr> cePeerId = u, ceSubtype = TRANSACTION,
      ceData = VEntity d, ceAccepted = False \<rparr>]"
    using received_envelope [OF libs(3), of u] server(4) by (simp add: request_data d(1))
  from server_answers [OF server(1,2) this, of d n] obtain sv' rest where
    sv': "run_events ?turns app_accepted (server_procs env n) sv [ProtoEv (?in u ?req)] = (sv', rest)"
      "subs_abs (svNet sv') = insert (i, u) (subs_abs (svNet sv))"
      "svTcp sv' = fst (tcpSystem_processEvent (svTcp sv) (ProtoEv (sendNetworkEvent [u] ?ans)))"
    using server d by auto
  obtain w where w: "fmlookup (tsWorkers ?ts) p = Some w" "twReceived w = []"
    "p \<notin> set (tsWaitingAuth ?ts)"
    using conn(1) sent_keeps_reading [of "ksTcp k" p _ "ProtoEv (sendNetworkEvent [] ?req)"]
    unfolding open_connection_def by metis
  have returned: "socket_data idsC p (written (svTcp sv') q) ?ts =
      (?ts, [ProtoEv (?in (twPeerId w) ?ans)])"
    unfolding sv'(3) sent_frame(1) [OF ok(2) conn(2)]
    by (rule frame_received [OF w(1,2) msgs(2) w(3)])
  obtain a where a: "vd_setEventTarget ET_IRRELEVANT (vd_setEventOrigin EO_FOREIGN (ceData ?answer)) =
      VIntrospection a" "edEntityId a = i" "id_isValid a"
    using introspection_answer_data(2) [OF server(4)] valid by metis
  have read: "deserializeIncoming (apFb ap) (apQt ap) (?in (twPeerId w) ?ans) =
      Some [\<lparr> cePeerId = twPeerId w, ceSubtype = NOTIFICATION, ceData = VIntrospection a, ceAccepted = False \<rparr>]"
    using received_envelope [OF libs(4) valid, of "twPeerId w"]
    by (simp add: libs(1,2) introspection_answer_data(1) a(1))
  obtain k3' q3 where run3: "run_events 3 client_accepted (client_procs ap ?k2) ?k2
      [ProtoEv (?in (twPeerId w) ?ans)] = (k3', q3)" by fastforce
  have "(k3, sv1) = (k3', sv')"
    using session s run1 arrive sv'(1) returned run3
    by (simp add: subscription_session_def split_beta Let_def)
  then show ?thesis
    using subscription_steps [OF client s run1 read _ _ _ run3] a sv'(2) by simp
qed

end
