(* ===== verification/Recorder.thy ===== *)
theory Recorder
  imports Database "HOL-Library.Signed_Division"
begin

text \<open>
  framework/vf-storage/lib/recorder: a recorder that stores the values of a list of components
  whenever its trigger component takes the trigger value, and an interpolation that averages
  blocks of the records of another recorder. Floating-point arithmetic and the conversion of a
  variant to \<^verbatim>\<open>float\<close> are the fields of \<open>float_lib\<close>; the current time is an input; a null
  \<^verbatim>\<open>QDateTime\<close> is \<open>None\<close>, any other the milliseconds since the epoch. The times of a block are added
  in a 32-bit \<^verbatim>\<open>int\<close>; its overflow is undefined behaviour, which is \<open>None\<close>.
\<close>

section \<open>Types\<close>

record 'f float_lib =
  flZero :: 'f
  flAdd :: "'f \<Rightarrow> 'f \<Rightarrow> 'f"
  flDivInt :: "'f \<Rightarrow> nat \<Rightarrow> 'f"
  flOfVariant :: "qvariant \<Rightarrow> 'f"

record record_component =
  rcComponentName :: string
  rcLabel :: string

type_synonym record_entity_components = "(int, record_component list) qmap"

record record_entity_component =
  recEntityId :: int
  recComponent :: record_component

definition toSequence :: "record_entity_components \<Rightarrow> record_entity_component list" where
  "toSequence p =
     concat (map (\<lambda>i. map (\<lambda>c. \<lparr> recEntityId = i, recComponent = c \<rparr>) (qvalue p i [])) (qkeys p))"

record 'f record_entry =
  reTimeDiffToFirstInMs :: int
  reValues :: "'f list"

record 'f record_data =
  rdComponentInfo :: record_entity_components
  rdTimeOfFirstRecord :: "int option"
  rdRecordedData :: "'f record_entry list"

definition record_data_new :: "record_entity_components \<Rightarrow> 'f record_data" where
  "record_data_new p =
     \<lparr> rdComponentInfo = p, rdTimeOfFirstRecord = None, rdRecordedData = [] \<rparr>"

definition resetRecords :: "'f record_data \<Rightarrow> 'f record_data" where
  "resetRecords d = d\<lparr> rdTimeOfFirstRecord := None, rdRecordedData := [] \<rparr>"

section \<open>StorageRecorder\<close>

text \<open>\<open>srLogging\<close>: the slot is connected to the signal of the trigger component.\<close>

record 'f storage_recorder =
  srData :: "'f record_data"
  srTriggerComponent :: component_ref
  srTriggerVal :: qvariant
  srValuesRecorded :: "component_ref list"
  srLogging :: bool

fun future_components ::
  "record_entity_component list \<Rightarrow> database \<Rightarrow> component_ref list \<times> database" where
  "future_components [] db = ([], db)"
| "future_components (x # xs) db =
     (let (r, db1) = getFutureComponent (recEntityId x) (rcComponentName (recComponent x)) db;
          (rs, db2) = future_components xs db1
      in (r # rs, db2))"

definition storageRecorder_new ::
  "record_entity_components \<Rightarrow> int \<Rightarrow> string \<Rightarrow> qvariant \<Rightarrow> database \<Rightarrow>
   'f storage_recorder \<times> database" where
  "storageRecorder_new p trigEntity trigComponent trigVal db =
     (let (r, db1) = getFutureComponent trigEntity trigComponent db;
          (rs, db2) = future_components (toSequence p) db1
      in (\<lparr> srData = record_data_new p, srTriggerComponent = r, srTriggerVal = trigVal,
            srValuesRecorded = rs, srLogging = False \<rparr>, db2))"

definition stopLogging :: "'f storage_recorder \<Rightarrow> 'f storage_recorder" where
  "stopLogging s = s\<lparr>srLogging := False\<rparr>"

text \<open>Result: the recorder and the counts it emits with \<^verbatim>\<open>sigRecordCountChanged\<close>.\<close>

definition startLogging :: "'f storage_recorder \<Rightarrow> 'f storage_recorder \<times> nat list" where
  "startLogging s =
     (let s1 = (stopLogging s)\<lparr>srLogging := True\<rparr>
      in if length (rdRecordedData (srData s1)) > 0
         then (s1\<lparr>srData := resetRecords (srData s1)\<rparr>, [0])
         else (s1, []))"

text \<open>A 64-bit difference stored in a 32-bit \<^verbatim>\<open>int\<close>.\<close>

definition narrow32 :: "int \<Rightarrow> int" where
  "narrow32 i = sint (word_of_int i :: 32 word)"

definition createRecordEntry ::
  "'f float_lib \<Rightarrow> database \<Rightarrow> int \<Rightarrow> 'f storage_recorder \<Rightarrow> 'f record_entry" where
  "createRecordEntry fl db now s =
     \<lparr> reTimeDiffToFirstInMs =
         narrow32 (now - (case rdTimeOfFirstRecord (srData s) of None \<Rightarrow> 0 | Some t \<Rightarrow> t)),
       reValues = map (\<lambda>r. flOfVariant fl (getValue db r)) (srValuesRecorded s) \<rparr>"

definition onTrigger ::
  "qt_lib \<Rightarrow> 'f float_lib \<Rightarrow> database \<Rightarrow> int \<Rightarrow> int \<Rightarrow> qvariant \<Rightarrow> 'f storage_recorder \<Rightarrow>
   'f storage_recorder \<times> nat list" where
  "onTrigger qt fl db t1 t2 v s =
     (if qtEq qt v (srTriggerVal s)
      then let d = srData s;
               d1 = (if rdTimeOfFirstRecord d = None then d\<lparr>rdTimeOfFirstRecord := Some t1\<rparr> else d);
               s1 = s\<lparr>srData := d1\<rparr>;
               d2 = d1\<lparr>rdRecordedData := rdRecordedData d1 @ [createRecordEntry fl db t2 s1]\<rparr>
           in (s1\<lparr>srData := d2\<rparr>, [length (rdRecordedData d2)])
      else (s, []))"

text \<open>Delivery of a component's signal to the recorder.\<close>

fun recorder_signal ::
  "qt_lib \<Rightarrow> 'f float_lib \<Rightarrow> database \<Rightarrow> int \<Rightarrow> int \<Rightarrow> storage_signal \<Rightarrow> 'f storage_recorder \<Rightarrow>
   'f storage_recorder \<times> nat list" where
  "recorder_signal qt fl db t1 t2 (SigValueChange r v) s =
     (if srLogging s \<and> r = srTriggerComponent s then onTrigger qt fl db t1 t2 v s else (s, []))"
| "recorder_signal qt fl db t1 t2 (SigValueSet r v) s = (s, [])"

section \<open>StorageRecorderInterpolation\<close>

record 'f interpolation =
  ipData :: "'f record_data"
  ipFactor :: int
  ipCount :: nat

definition interpolation_new :: "record_entity_components \<Rightarrow> int \<Rightarrow> 'f interpolation" where
  "interpolation_new p f = \<lparr> ipData = record_data_new p, ipFactor = f, ipCount = 0 \<rparr>"

text \<open>Arithmetic of \<^verbatim>\<open>int\<close>: results that 32 bits do not hold, and division by zero, are undefined.\<close>

definition int32 :: "int \<Rightarrow> int option" where
  "int32 i = (if - (2 ^ 31) \<le> i \<and> i < 2 ^ 31 then Some i else None)"

definition div32 :: "int \<Rightarrow> int \<Rightarrow> int option" where
  "div32 a b = (if b = 0 then None else int32 (a sdiv b))"

fun sum32 :: "int \<Rightarrow> int list \<Rightarrow> int option" where
  "sum32 acc [] = Some acc"
| "sum32 acc (t # ts) = Option.bind (int32 (acc + t)) (\<lambda>acc'. sum32 acc' ts)"

definition calculateTimeDiffAverage :: "int \<Rightarrow> int list \<Rightarrow> int option" where
  "calculateTimeDiffAverage factor ts = Option.bind (sum32 0 ts) (\<lambda>addedVals. div32 addedVals factor)"

definition calculateValuesAverage :: "'f float_lib \<Rightarrow> 'f list list \<Rightarrow> 'f list" where
  "calculateValuesAverage fl vss =
     (if vss = [] then []
      else map (\<lambda>i. flDivInt fl (foldl (\<lambda>acc vs. flAdd fl acc (vs ! i)) (flZero fl) vss) (length vss))
             [0..<length (hd vss)])"

definition appendToRecordData ::
  "int \<Rightarrow> int \<Rightarrow> 'f list \<Rightarrow> 'f record_data \<Rightarrow> 'f record_data" where
  "appendToRecordData now timeDiff vs d =
     (let d1 = d\<lparr>rdRecordedData := rdRecordedData d @
                   [\<lparr> reTimeDiffToFirstInMs = timeDiff, reValues = vs \<rparr>]\<rparr>
      in if rdTimeOfFirstRecord d1 = None then d1\<lparr>rdTimeOfFirstRecord := Some now\<rparr> else d1)"

text \<open>The average of the records between two indices.\<close>

definition average_of :: "'f float_lib \<Rightarrow> int \<Rightarrow> 'f record_entry list \<Rightarrow> 'f record_entry option" where
  "average_of fl factor es =
     map_option (\<lambda>t. \<lparr> reTimeDiffToFirstInMs = t, reValues = calculateValuesAverage fl (map reValues es) \<rparr>)
       (calculateTimeDiffAverage factor (map reTimeDiffToFirstInMs es))"

definition calculateJsonAverage ::
  "'f float_lib \<Rightarrow> int \<Rightarrow> 'f record_entry list \<Rightarrow> nat \<Rightarrow> nat \<Rightarrow> 'f interpolation \<Rightarrow>
   'f interpolation option"
where
  "calculateJsonAverage fl now recorded startIdx endIdx ip =
     (let es = map (\<lambda>i. recorded ! i) [startIdx..<endIdx];
          vs = calculateValuesAverage fl (map reValues es)
      in map_option (\<lambda>t. ip\<lparr>ipData := appendToRecordData now t vs (ipData ip)\<rparr>)
           (calculateTimeDiffAverage (ipFactor ip) (map reTimeDiffToFirstInMs es)))"

text \<open>
  Result: the interpolation and the counts it emits itself. The remainder of a division by zero is
  undefined.
\<close>

definition onNewValueRecorded ::
  "'f float_lib \<Rightarrow> int \<Rightarrow> 'f record_entry list \<Rightarrow> nat \<Rightarrow> 'f interpolation \<Rightarrow>
   ('f interpolation \<times> nat list) option" where
  "onNewValueRecorded fl now recorded count ip =
     (if count = 0 then Some (ip\<lparr> ipData := resetRecords (ipData ip), ipCount := 0 \<rparr>, [])
      else if ipFactor ip = 0 then None
      else if int count smod ipFactor ip = 0
      then if count \<le> ipCount ip then Some (ip, [])
           else map_option (\<lambda>ip1. (ip1\<lparr>ipCount := count\<rparr>, [length (rdRecordedData (ipData ip1))]))
                  (calculateJsonAverage fl now recorded (ipCount ip) count ip)
      else Some (ip, []))"

text \<open>A run of the recorder: \<open>onNewValueRecorded\<close> after each of the records that arrive.\<close>

fun interpolation_run ::
  "'f float_lib \<Rightarrow> int \<Rightarrow> 'f record_entry list \<Rightarrow> nat \<Rightarrow> 'f interpolation \<Rightarrow> 'f interpolation option" where
  "interpolation_run fl now recorded 0 ip = Some ip"
| "interpolation_run fl now recorded (Suc n) ip =
     Option.bind (interpolation_run fl now recorded n ip) (\<lambda>ip'.
       map_option fst (onNewValueRecorded fl now (take (Suc n) recorded) (Suc n) ip'))"

section \<open>Lemmas\<close>

lemma map_nth_slice: "b \<le> length xs \<Longrightarrow> map (\<lambda>i. xs ! i) [a..<b] = take (b - a) (drop a xs)"
  by (rule nth_equalityI) auto

lemma those_snoc: "those (xs @ [x]) = Option.bind (those xs) (\<lambda>ys. map_option (\<lambda>y. ys @ [y]) x)"
proof (induction xs)
  case (Cons y xs)
  then show ?case by (cases y; cases "those xs"; cases x) auto
qed (simp split: option.split)

lemma smod_pos: "0 < f \<Longrightarrow> int n smod int f = int (n mod f)"
  by (cases "n = 0") (simp_all add: signed_modulo_int_def zmod_int)

text \<open>What the interpolation holds, in terms of the averages of the blocks; \<open>None\<close> if one of them is.\<close>

lemma interpolation_run_shape:
  assumes f: "0 < f" "ipFactor ip = int f" and fresh: "ipCount ip = 0" "rdRecordedData (ipData ip) = []"
    and n: "n \<le> length recorded"
  defines "block \<equiv> \<lambda>k. take f (drop (k * f) recorded)"
  shows "case interpolation_run fl now recorded n ip of
      None \<Rightarrow> those (map (\<lambda>k. average_of fl (int f) (block k)) [0..<n div f]) = None
    | Some ip' \<Rightarrow> ipFactor ip' = int f \<and> ipCount ip' = n div f * f \<and>
        those (map (\<lambda>k. average_of fl (int f) (block k)) [0..<n div f]) = Some (rdRecordedData (ipData ip'))"
  using n
proof (induction n)
  case 0
  then show ?case using f fresh by simp
next
  case (Suc n)
  let ?run = "interpolation_run fl now recorded n ip"
  let ?avs = "\<lambda>n. those (map (\<lambda>k. average_of fl (int f) (block k)) [0..<n div f])"
  show ?case
  proof (cases "Suc n mod f = 0")
    case False
    then have "Suc n div f = n div f" by (simp add: div_Suc)
    then show ?thesis
      using False Suc f by (auto simp: onNewValueRecorded_def smod_pos simp del: of_nat_Suc split: option.splits)
  next
    case True
    then have d: "Suc n div f = Suc (n div f)" by (simp add: div_Suc)
    then have sn: "Suc (n div f) * f = Suc n" using True by (metis div_mod_decomp add_0_right)
    have len: "Suc n - n div f * f = f" using sn by simp
    have later: "\<not> Suc n \<le> n div f * f"
      by (metis div_times_less_eq_dividend not_less_eq_eq)
    have es: "map (\<lambda>i. take (Suc n) recorded ! i) [n div f * f..<Suc n] = block (n div f)"
      using Suc.prems len unfolding block_def by (subst map_nth_slice) (simp_all add: drop_take)
    have avs: "?avs (Suc n) = Option.bind (?avs n) (\<lambda>ys. map_option (\<lambda>y. ys @ [y]) (average_of fl (int f) (block (n div f))))"
      by (simp add: d those_snoc)
    show ?thesis
    proof (cases ?run)
      case None
      then show ?thesis using Suc avs by simp
    next
      case (Some ip')
      then have IH: "ipFactor ip' = int f" "ipCount ip' = n div f * f" "?avs n = Some (rdRecordedData (ipData ip'))"
        using Suc by simp_all
      have "calculateJsonAverage fl now (take (Suc n) recorded) (ipCount ip') (Suc n) ip' =
          map_option (\<lambda>e. ip'\<lparr>ipData := appendToRecordData now (reTimeDiffToFirstInMs e) (reValues e) (ipData ip')\<rparr>)
            (average_of fl (int f) (block (n div f)))"
        using es by (simp add: calculateJsonAverage_def IH average_of_def Let_def option.map_comp comp_def del: upt_Suc)
      then show ?thesis
        using True IH avs later f Some sn d
        by (cases "average_of fl (int f) (block (n div f))")
           (simp_all add: onNewValueRecorded_def smod_pos appendToRecordData_def Let_def del: of_nat_Suc)
    qed
  qed
qed

lemma interpolation_exact:
  assumes "0 < f" and "n \<le> length recorded"
  shows "map_option (\<lambda>ip. rdRecordedData (ipData ip))
      (interpolation_run fl now recorded n (interpolation_new p (int f))) =
    those (map (\<lambda>k. average_of fl (int f) (take f (drop (k * f) recorded))) [0..<n div f])"
  using interpolation_run_shape [of f "interpolation_new p (int f)" n recorded fl now] assms
  by (auto simp: interpolation_new_def record_data_new_def split: option.splits)

text \<open>Times that are not negative: the sum is right until it leaves the 32 bits.\<close>

lemma sum32_nonneg:
  "\<forall>t \<in> set ts. 0 \<le> t \<Longrightarrow> 0 \<le> acc \<Longrightarrow> acc < 2 ^ 31 \<Longrightarrow>
   sum32 acc ts = (if acc + sum_list ts < 2 ^ 31 then Some (acc + sum_list ts) else None)"
proof (induction ts arbitrary: acc)
  case (Cons t ts)
  have "0 \<le> sum_list ts" using Cons.prems(1) by (intro sum_list_nonneg) simp
  then show ?case using Cons by (auto simp: int32_def)
qed simp

lemma average_nonneg:
  assumes "\<forall>t \<in> set ts. 0 \<le> t" and "0 < f"
  shows "calculateTimeDiffAverage (int f) ts =
    (if sum_list ts < 2 ^ 31 then Some (sum_list ts div int f) else None)"
proof -
  have "0 \<le> sum_list ts" using assms(1) by (intro sum_list_nonneg) simp
  moreover from this have "sum_list ts div int f \<le> sum_list ts" "0 \<le> sum_list ts div int f"
    using assms(2) zdiv_mono2 [of "sum_list ts" 1 "int f"] by (simp_all add: pos_imp_zdiv_nonneg_iff)
  moreover have "sum_list ts sdiv int f = sum_list ts div int f"
    using calculation(1) assms(2) by (cases "sum_list ts = 0") (simp_all add: signed_divide_int_def)
  ultimately show ?thesis
    using sum32_nonneg [OF assms(1), of 0] assms(2)
    by (simp add: calculateTimeDiffAverage_def div32_def int32_def)
qed

lemma those_eq_Some: "those (map g xs) = (if \<forall>x \<in> set xs. g x \<noteq> None then Some (map (the \<circ> g) xs) else None)"
  by (induction xs) (auto split: option.split)

lemma future_components_ok [inv_intros]: "db_ok db \<Longrightarrow> db_ok (snd (future_components xs db))"
  by (induction xs arbitrary: db) (auto simp: split_beta Let_def intro: inv_intros)

section \<open>Properties\<close>

definition block_of :: "nat \<Rightarrow> 'f record_entry list \<Rightarrow> nat \<Rightarrow> 'f record_entry list" where
  "block_of factor recorded k = take factor (drop (k * factor) recorded)"

definition block_time :: "'f record_entry list \<Rightarrow> int" where
  "block_time es = sum_list (map reTimeDiffToFirstInMs es)"

text \<open>
  C33. Interpolation by a positive factor, over records of which none is older than the first: after
  n records of the other recorder the interpolation holds exactly n div factor records, and record
  k has the mean time and the mean values of the k-th block of factor records, none skipped and none
  used twice; unless the times of one of these blocks add up to more than a 32-bit int holds,
  although each time and the mean fit: then, and only then, the addition overflows, which is
  undefined behaviour.
\<close>

theorem interpolation_blocks:
  assumes "0 < factor" and "n \<le> length recorded"
    and "\<forall>e \<in> set recorded. 0 \<le> reTimeDiffToFirstInMs e"
  shows "map_option (\<lambda>ip. rdRecordedData (ipData ip))
      (interpolation_run fl now recorded n (interpolation_new p (int factor))) =
    (if \<forall>k \<in> {0..<n div factor}. block_time (block_of factor recorded k) < 2 ^ 31
     then Some (map (\<lambda>k. \<lparr> reTimeDiffToFirstInMs = block_time (block_of factor recorded k) div int factor,
                 reValues = calculateValuesAverage fl (map reValues (block_of factor recorded k)) \<rparr>)
               [0..<n div factor])
     else None)"
proof -
  have "average_of fl (int factor) (block_of factor recorded k) =
      (if block_time (block_of factor recorded k) < 2 ^ 31
       then Some \<lparr> reTimeDiffToFirstInMs = block_time (block_of factor recorded k) div int factor,
                   reValues = calculateValuesAverage fl (map reValues (block_of factor recorded k)) \<rparr>
       else None)" for k
  proof -
    have "\<forall>t \<in> set (map reTimeDiffToFirstInMs (block_of factor recorded k)). 0 \<le> t"
      using assms(3) by (auto simp: block_of_def dest!: in_set_takeD in_set_dropD)
    from average_nonneg [OF this assms(1)] show ?thesis by (simp add: average_of_def block_time_def)
  qed
  then show ?thesis
    unfolding interpolation_exact [OF assms(1,2)] block_of_def [symmetric] those_eq_Some by auto
qed

definition int_float_lib :: "int float_lib" where
  "int_float_lib = \<lparr> flZero = 0, flAdd = (+), flDivInt = (\<lambda>x n. x div int n),
     flOfVariant = (\<lambda>v. case v of QInt i \<Rightarrow> i | _ \<Rightarrow> 0) \<rparr>"

theorem interpolation_blocks_witness:
  "map_option (\<lambda>ip. rdRecordedData (ipData ip)) (interpolation_run int_float_lib 5
      [\<lparr> reTimeDiffToFirstInMs = 0, reValues = [2] \<rparr>, \<lparr> reTimeDiffToFirstInMs = 10, reValues = [4] \<rparr>,
       \<lparr> reTimeDiffToFirstInMs = 20, reValues = [9] \<rparr>] 3 (interpolation_new fmempty (int 2))) =
   Some [\<lparr> reTimeDiffToFirstInMs = 5, reValues = [3] \<rparr>]"
  using interpolation_blocks [of 2 3 "[\<lparr> reTimeDiffToFirstInMs = 0, reValues = [2] \<rparr>,
      \<lparr> reTimeDiffToFirstInMs = 10, reValues = [4] \<rparr>, \<lparr> reTimeDiffToFirstInMs = 20, reValues = [9] \<rparr>]"
      int_float_lib 5 fmempty]
  by (simp add: block_time_def block_of_def calculateValuesAverage_def int_float_lib_def)

text \<open>Sixty records from ten hours after the first: each time fits, their sum does not.\<close>

lemma block_sum_overflows:
  "calculateTimeDiffAverage 60 (replicate 60 36000000) = None"
  using average_nonneg [of "replicate 60 36000000" 60] by (simp add: sum_list_replicate)

definition notified :: "component_ref \<Rightarrow> qt_lib \<Rightarrow> qvariant \<Rightarrow> storage_signal \<Rightarrow> bool" where
  "notified r qt trig sig \<longleftrightarrow> (\<exists>v. sig = SigValueChange r v \<and> qtEq qt v trig)"

text \<open>A history: the signals with the database and the two clock readings at their time.\<close>

fun recorder_run ::
  "qt_lib \<Rightarrow> 'f float_lib \<Rightarrow> (database \<times> int \<times> int \<times> storage_signal) list \<Rightarrow> 'f storage_recorder \<Rightarrow>
   'f storage_recorder" where
  "recorder_run qt fl [] s = s"
| "recorder_run qt fl ((db, t1, t2, sig) # h) s =
     recorder_run qt fl h (fst (recorder_signal qt fl db t1 t2 sig s))"

definition triggers ::
  "component_ref \<Rightarrow> qt_lib \<Rightarrow> qvariant \<Rightarrow> (database \<times> int \<times> int \<times> storage_signal) list \<Rightarrow>
   (database \<times> int \<times> int \<times> storage_signal) list" where
  "triggers r qt trig h = filter (\<lambda>(db, t1, t2, sig). notified r qt trig sig) h"

definition snapshot ::
  "'f float_lib \<Rightarrow> int \<Rightarrow> component_ref list \<Rightarrow> database \<times> int \<times> int \<times> storage_signal \<Rightarrow>
   'f record_entry" where
  "snapshot fl first rs = (\<lambda>(db, t1, t2, sig).
     \<lparr> reTimeDiffToFirstInMs = narrow32 (t2 - first),
       reValues = map (\<lambda>r. flOfVariant fl (getValue db r)) rs \<rparr>)"

lemma recorder_signal_ignored:
  "\<not> notified (srTriggerComponent s) qt (srTriggerVal s) sig \<Longrightarrow>
   recorder_signal qt fl db t1 t2 sig s = (s, [])"
  by (cases sig) (auto simp: notified_def onTrigger_def)

lemma recorder_signal_taken:
  assumes "notified (srTriggerComponent s) qt (srTriggerVal s) sig" and "srLogging s"
  shows "fst (recorder_signal qt fl db t1 t2 sig s) =
    (let first = (case rdTimeOfFirstRecord (srData s) of None \<Rightarrow> t1 | Some t \<Rightarrow> t)
     in s\<lparr>srData := (srData s)\<lparr> rdTimeOfFirstRecord := Some first,
          rdRecordedData := rdRecordedData (srData s) @
            [snapshot fl first (srValuesRecorded s) (db, t1, t2, sig)] \<rparr>\<rparr>)"
  using assms
  by (auto simp: notified_def onTrigger_def createRecordEntry_def snapshot_def Let_def
      split: option.splits)

lemma recorder_run_from:
  assumes "srLogging s" and "rdTimeOfFirstRecord (srData s) = Some first"
  shows "rdRecordedData (srData (recorder_run qt fl h s)) = rdRecordedData (srData s) @
    map (snapshot fl first (srValuesRecorded s))
      (triggers (srTriggerComponent s) qt (srTriggerVal s) h)"
  using assms
proof (induction h arbitrary: s)
  case Nil
  then show ?case by (simp add: triggers_def)
next
  case (Cons x h)
  obtain db t1 t2 sig where x: "x = (db, t1, t2, sig)" by (cases x) auto
  show ?case
  proof (cases "notified (srTriggerComponent s) qt (srTriggerVal s) sig")
    case True
    then show ?thesis
      using Cons.prems Cons.IH [of "fst (recorder_signal qt fl db t1 t2 sig s)"]
      by (simp add: x recorder_signal_taken triggers_def)
  next
    case False
    then show ?thesis
      using Cons.prems Cons.IH [of s] by (simp add: x recorder_signal_ignored triggers_def)
  qed
qed

lemma recorder_run_fresh:
  assumes "srLogging s" and "rdTimeOfFirstRecord (srData s) = None"
    and "rdRecordedData (srData s) = []"
  shows "rdRecordedData (srData (recorder_run qt fl h s)) =
    (let ts = triggers (srTriggerComponent s) qt (srTriggerVal s) h
     in map (snapshot fl (fst (snd (hd ts))) (srValuesRecorded s)) ts)"
  using assms
proof (induction h arbitrary: s)
  case Nil
  then show ?case by (simp add: triggers_def)
next
  case (Cons x h)
  obtain db t1 t2 sig where x: "x = (db, t1, t2, sig)" by (cases x) auto
  show ?case
  proof (cases "notified (srTriggerComponent s) qt (srTriggerVal s) sig")
    case True
    then show ?thesis
      using Cons.prems recorder_run_from [of "fst (recorder_signal qt fl db t1 t2 sig s)" t1 qt fl h]
      by (simp add: x recorder_signal_taken triggers_def)
  next
    case False
    then show ?thesis
      using Cons.prems Cons.IH [of s] by (simp add: x recorder_signal_ignored triggers_def)
  qed
qed

text \<open>
  C32. A recorder started on any earlier state holds, after any history of signals, exactly
  one record per change of its trigger component to the trigger value, in order: the values its
  components had then, in the order of the request, and the time since the first of them.
\<close>

theorem recorder_records_triggers:
  assumes "rdTimeOfFirstRecord (srData s) = None \<or> rdRecordedData (srData s) \<noteq> []"
  shows "rdRecordedData (srData (recorder_run qt fl h (fst (startLogging s)))) =
    (let ts = triggers (srTriggerComponent s) qt (srTriggerVal s) h
     in map (snapshot fl (fst (snd (hd ts))) (srValuesRecorded s)) ts)"
  using recorder_run_fresh [of "fst (startLogging s)" qt fl h] assms
  by (auto simp: startLogging_def stopLogging_def resetRecords_def Let_def)

definition example_recorder :: "int storage_recorder \<times> database" where
  "example_recorder = storageRecorder_new (fmupd 7 [\<lparr> rcComponentName = ''U'', rcLabel = ''u'' \<rparr>] fmempty)
     7 ''T'' (QInt 1) (db_run qt_ref [InsertEntity 7, InsertValue 7 ''U'' (QInt 230)] database_new)"

theorem recorder_records_triggers_witness:
  "rdRecordedData (srData (recorder_run qt_ref int_float_lib
      [(snd example_recorder, 5, 6, SigValueChange 1 (QInt 1)),
       (snd example_recorder, 7, 8, SigValueChange 1 (QInt 0)),
       (snd example_recorder, 9, 9, SigValueChange 1 (QInt 1))]
      (fst (startLogging (fst example_recorder))))) =
   [\<lparr> reTimeDiffToFirstInMs = 1, reValues = [230] \<rparr>, \<lparr> reTimeDiffToFirstInMs = 4, reValues = [230] \<rparr>]"
proof -
  have *: "rdTimeOfFirstRecord (srData (fst example_recorder)) = None"
    "srTriggerComponent (fst example_recorder) = 1" "srTriggerVal (fst example_recorder) = QInt 1"
    "srValuesRecorded (fst example_recorder) = [0]" "getValue (snd example_recorder) 0 = QInt 230"
    by code_simp+
  show ?thesis
    using recorder_records_triggers [of "fst example_recorder" qt_ref int_float_lib
        "[(snd example_recorder, 5, 6, SigValueChange 1 (QInt 1)),
          (snd example_recorder, 7, 8, SigValueChange 1 (QInt 0)),
          (snd example_recorder, 9, 9, SigValueChange 1 (QInt 1))]"]
    by (simp add: * triggers_def notified_def snapshot_def narrow32_def int_float_lib_def)
qed

end
