(* ===== verification/QmlEntity.thy ===== *)
theory QmlEntity
  imports Actors
begin

text \<open>
  client-libs/vf-qml, \<^verbatim>\<open>EntityComponentMap\<close> and \<^verbatim>\<open>EntityDictionary\<close>: an entity as QML sees it,
  a map of properties with the entity's component values, and the directory of these objects by
  entity identifier and by name. The properties are those of \<^verbatim>\<open>QQmlPropertyMap\<close>: a key that has
  been inserted stays, clearing it leaves an invalid value. The directory holds pointers; they
  are numbers here, the objects themselves belong to \<^verbatim>\<open>VeinQml\<close>.
\<close>

section \<open>EntityComponentMap\<close>

datatype data_state = ECM_NONE | ECM_PENDING | ECM_READY | ECM_REMOVED

record entity_map =
  emEntityId :: int
  emIntrospectionValues :: qvariant_map
  emIntrospectionRpcNames :: "string list"
  emState :: data_state
  emValues :: qvariant_map
  emPending :: "(quuid, string) qmap"

datatype em_signal =
    SigEntityComplete int
  | SigRpcResult quuid qvariant_map
  | SigRpcProgress quuid qvariant_map

definition em_new :: "int \<Rightarrow> qvariant_map \<Rightarrow> string list \<Rightarrow> entity_map" where
  "em_new i values rpcs =
     \<lparr> emEntityId = i, emIntrospectionValues = values, emIntrospectionRpcNames = rpcs,
       emState = ECM_NONE, emValues = fmempty, emPending = fmempty \<rparr>"

definition em_insert :: "string \<Rightarrow> qvariant \<Rightarrow> entity_map \<Rightarrow> entity_map" where
  "em_insert n v m = m\<lparr>emValues := fmupd n v (emValues m)\<rparr>"

definition em_clear :: "string \<Rightarrow> entity_map \<Rightarrow> entity_map" where
  "em_clear n m = (if qcontains (emValues m) n then em_insert n QInvalid m else m)"

definition em_processComponentData :: "component_data \<Rightarrow> entity_map \<Rightarrow> entity_map" where
  "em_processComponentData d m =
     (case cdCommand d of
        CCMD_ADD \<Rightarrow> em_insert (cdComponentName d) (cdNewValue d) m
      | CCMD_SET \<Rightarrow> em_insert (cdComponentName d) (cdNewValue d) m
      | CCMD_REMOVE \<Rightarrow> em_clear (cdComponentName d) m
      | _ \<Rightarrow> m)"

definition em_processRpcData :: "qt_lib \<Rightarrow> rpc_data \<Rightarrow> entity_map \<Rightarrow> entity_map \<times> em_signal list" where
  "em_processRpcData qt d m =
     (let ident = call_id qt d
      in if qcontains (emPending m) ident
         then (case rdCommand d of
                 RPCMD_RESULT \<Rightarrow>
                   (m\<lparr>emPending := fmdrop ident (emPending m)\<rparr>,
                    [SigRpcResult ident (rdInvokationData d)])
               | RPCMD_PROGRESS \<Rightarrow> (m, [SigRpcProgress ident (rdInvokationData d)])
               | _ \<Rightarrow> (m, []))
         else (m, []))"

definition em_loadEntityData :: "entity_map \<Rightarrow> entity_map \<times> em_signal list" where
  "em_loadEntityData m =
     (let values = emIntrospectionValues m;
          m1 = fold (\<lambda>n. em_insert n (qvalue values n QInvalid)) (qkeys values) m
      in (m1\<lparr>emState := ECM_READY\<rparr>, [SigEntityComplete (emEntityId m)]))"

definition em_setState :: "data_state \<Rightarrow> entity_map \<Rightarrow> entity_map \<times> em_signal list" where
  "em_setState st m =
     (let m1 = m\<lparr>emState := st\<rparr>
      in if st = ECM_PENDING then em_loadEntityData m1 else (m1, []))"

definition em_hasComponent :: "entity_map \<Rightarrow> string \<Rightarrow> bool" where
  "em_hasComponent m n = (if emState m \<noteq> ECM_READY then False else qcontains (emValues m) n)"

definition em_propertyCount :: "entity_map \<Rightarrow> nat" where
  "em_propertyCount m = length (qkeys (emValues m))"

definition em_rpc_event :: "int \<Rightarrow> string \<Rightarrow> qvariant_map \<Rightarrow> vein_event" where
  "em_rpc_event i n params = commandEvent_new TRANSACTION (VRpc
     (rd_setInvokationData params (rd_setProcedureName n (setEventTarget ET_ALL
       (setEventOrigin EO_LOCAL (rd_setCommand RPCMD_CALL (setEntityId i rpcData_new)))))))"

text \<open>
  \<open>ids\<close> are the identifiers that \<^verbatim>\<open>createUuid\<close> returns; the loop takes the first that is not
  pending (\<open>None\<close>: it is still looking). An unknown procedure yields the null identifier.
\<close>

definition em_invokeRPC ::
  "quuid list \<Rightarrow> string \<Rightarrow> qvariant_map \<Rightarrow> entity_map \<Rightarrow>
   (entity_map \<times> quuid \<times> vein_event list) option" where
  "em_invokeRPC ids n params m =
     (if n \<in> set (emIntrospectionRpcNames m)
      then (case find (\<lambda>i. \<not> qcontains (emPending m) i) ids of
              None \<Rightarrow> None
            | Some ident \<Rightarrow>
                Some (m\<lparr>emPending := fmupd ident n (emPending m)\<rparr>, ident,
                  [em_rpc_event (emEntityId m) n (fmupd s_parameterString (QMapV params)
                     (fmupd s_callIdString (QUuidV ident) fmempty))]))
      else Some (m, null_uuid, []))"

text \<open>The command is the one of a call, as the source remarks.\<close>

definition em_cancelRPCInvokation :: "quuid \<Rightarrow> entity_map \<Rightarrow> vein_event list" where
  "em_cancelRPCInvokation ident m =
     (if qcontains (emPending m) ident
      then [em_rpc_event (emEntityId m) (qvalue (emPending m) ident '''')
              (fmupd s_callIdString (QUuidV ident) fmempty)]
      else [])"

text \<open>What QML writes: the property keeps the value returned, the wish goes to the server.\<close>

definition em_updateValue ::
  "qt_lib \<Rightarrow> string \<Rightarrow> qvariant \<Rightarrow> entity_map \<Rightarrow> qvariant \<times> vein_event list" where
  "em_updateValue qt n v m =
     (let old = qvalue (emValues m) n QInvalid
      in if \<not> qv_valid v then (old, [])
         else if \<not> qtEq qt old v then (old, [setter_generateEvent qt (emEntityId m) n old v])
         else (old, []))"

section \<open>EntityDictionary\<close>

record entity_dict =
  dcById :: "(int, string \<times> nat) qmap"
  dcByName :: "(string, nat) qmap"

definition entity_dict_new :: entity_dict where
  "entity_dict_new = \<lparr> dcById = fmempty, dcByName = fmempty \<rparr>"

definition dict_insert :: "int \<Rightarrow> nat \<Rightarrow> entity_dict \<Rightarrow> entity_dict \<times> bool" where
  "dict_insert i p d =
     (if \<not> qcontains (dcById d) i then (d\<lparr>dcById := fmupd i ('''', p) (dcById d)\<rparr>, True)
      else (d, False))"

definition dict_setEntityName :: "int \<Rightarrow> string \<Rightarrow> entity_dict \<Rightarrow> entity_dict \<times> bool" where
  "dict_setEntityName i n d =
     (if n = '''' then (d, False)
      else case fmlookup (dcById d) i of
             None \<Rightarrow> (d, False)
           | Some (old, p) \<Rightarrow>
               (if old = n then (d, True)
                else if qcontains (dcByName d) n then (d, False)
                else if old \<noteq> '''' then (d, False)
                else (\<lparr> dcById = fmupd i (n, p) (dcById d), dcByName = fmupd n p (dcByName d) \<rparr>, True)))"

definition dict_getEntityList :: "entity_dict \<Rightarrow> int list" where
  "dict_getEntityList d = qkeys (dcById d)"

definition dict_nameFromId :: "entity_dict \<Rightarrow> int \<Rightarrow> string" where
  "dict_nameFromId d i = fst (qvalue (dcById d) i ('''', 0))"

definition dict_findByName :: "entity_dict \<Rightarrow> string \<Rightarrow> nat option" where
  "dict_findByName d n = fmlookup (dcByName d) n"

definition dict_findById :: "entity_dict \<Rightarrow> int \<Rightarrow> nat option" where
  "dict_findById d i = map_option snd (fmlookup (dcById d) i)"

text \<open>Taking an unknown entity yields an empty name and the null pointer.\<close>

definition dict_remove :: "int \<Rightarrow> entity_dict \<Rightarrow> entity_dict \<times> nat option" where
  "dict_remove i d =
     (\<lparr> dcById = fmdrop i (dcById d), dcByName = fmdrop (dict_nameFromId d i) (dcByName d) \<rparr>,
      dict_findById d i)"

text \<open>The destructor has the entity maps of all entries deleted later.\<close>

definition dict_destroyed :: "entity_dict \<Rightarrow> entity_dict \<times> nat list" where
  "dict_destroyed d = (d\<lparr>dcById := fmempty\<rparr>, map snd (qvalues (dcById d)))"

lemma dict_destroyed_maps: "p \<in> set (snd (dict_destroyed d)) \<longleftrightarrow> (\<exists>i. dict_findById d i = Some p)"
proof -
  have "p \<in> set (snd (dict_destroyed d)) \<longleftrightarrow> (\<exists>x. (\<exists>i. fmlookup (dcById d) i = Some x) \<and> snd x = p)"
    by (auto simp: dict_destroyed_def set_qvalues fmlookup_ran_iff image_iff Bex_def)
  then show ?thesis by (auto simp: dict_findById_def)
qed

section \<open>Lemmas on entity maps\<close>

lemma em_insert_sel [simp]:
  "emValues (em_insert n v m) = fmupd n v (emValues m)" "emEntityId (em_insert n v m) = emEntityId m"
  "emState (em_insert n v m) = emState m" "emPending (em_insert n v m) = emPending m"
  by (simp_all add: em_insert_def)

lemma em_clear_sel [simp]:
  "fmlookup (emValues (em_clear n m)) c =
     (if c = n then map_option (\<lambda>_. QInvalid) (fmlookup (emValues m) c) else fmlookup (emValues m) c)"
  "emEntityId (em_clear n m) = emEntityId m" "emState (em_clear n m) = emState m"
  by (cases "fmlookup (emValues m) n"; simp add: em_clear_def qcontains_def del: qcontains_iff)+

text \<open>What a component notification makes of the value shown for \<open>c\<close>.\<close>

definition shown :: "component_data \<Rightarrow> string \<Rightarrow> qvariant option \<Rightarrow> qvariant option" where
  "shown d c v =
     (if cdComponentName d \<noteq> c then v
      else case cdCommand d of
             CCMD_ADD \<Rightarrow> Some (cdNewValue d)
           | CCMD_SET \<Rightarrow> Some (cdNewValue d)
           | CCMD_REMOVE \<Rightarrow> map_option (\<lambda>_. QInvalid) v
           | _ \<Rightarrow> v)"

lemma em_processComponentData_value:
  "fmlookup (emValues (em_processComponentData d m)) c = shown d c (fmlookup (emValues m) c)"
  by (simp add: em_processComponentData_def shown_def split: component_command.split)

lemma em_processComponentData_sel [simp]:
  "emEntityId (em_processComponentData d m) = emEntityId m"
  "emState (em_processComponentData d m) = emState m"
  by (simp_all add: em_processComponentData_def split: component_command.split)

lemma em_processRpcData_sel [simp]:
  "emEntityId (fst (em_processRpcData qt d m)) = emEntityId m"
  "emState (fst (em_processRpcData qt d m)) = emState m"
  "emValues (fst (em_processRpcData qt d m)) = emValues m"
  by (simp_all add: em_processRpcData_def Let_def split: rpc_command.split)

lemma em_inserts_sel:
  "emEntityId (fold (\<lambda>n. em_insert n (f n)) ns m) = emEntityId m"
  "fmlookup (emValues (fold (\<lambda>n. em_insert n (f n)) ns m)) c =
     (if c \<in> set ns then Some (f c) else fmlookup (emValues m) c)"
  by (induction ns arbitrary: m) auto

lemma em_load:
  "emEntityId (fst (em_setState ECM_PENDING (em_new i values rpcs))) = i"
  "emState (fst (em_setState ECM_PENDING (em_new i values rpcs))) = ECM_READY"
  "snd (em_setState ECM_PENDING (em_new i values rpcs)) = [SigEntityComplete i]"
  by (simp_all add: em_setState_def em_loadEntityData_def em_new_def em_inserts_sel Let_def)

lemma em_load_values: "emValues (fst (em_setState ECM_PENDING (em_new i values rpcs))) = values"
proof (rule fmap_ext)
  fix c
  show "fmlookup (emValues (fst (em_setState ECM_PENDING (em_new i values rpcs)))) c = fmlookup values c"
    by (cases "fmlookup values c")
       (simp_all add: em_setState_def em_loadEntityData_def em_new_def em_inserts_sel Let_def qvalue_def
         fmdomI fmdom_notI)
qed

lemma em_invokeRPC_sel:
  assumes "em_invokeRPC ids n params m = Some (m', ident, out)"
  shows "emEntityId m' = emEntityId m" and "emState m' = emState m" and "emValues m' = emValues m"
  using assms by (auto simp: em_invokeRPC_def split: if_splits option.splits)

text \<open>A call gets an identifier of its own, and its result is reported once.\<close>

lemma em_invokeRPC_fresh:
  assumes "em_invokeRPC ids n params m = Some (m', ident, out)" and "out \<noteq> []"
  shows "\<not> qcontains (emPending m) ident" and "emPending m' = fmupd ident n (emPending m)"
  using assms by (auto simp: em_invokeRPC_def find_Some_iff split: if_splits option.splits)

lemma em_result_once:
  assumes "rdCommand d = RPCMD_RESULT"
  shows "snd (em_processRpcData qt d (fst (em_processRpcData qt d m))) = []"
  using assms by (simp add: em_processRpcData_def Let_def)

section \<open>The directory\<close>

definition dict_ok :: "entity_dict \<Rightarrow> bool" where
  "dict_ok d \<longleftrightarrow>
     (\<forall>n p. fmlookup (dcByName d) n = Some p \<longleftrightarrow> n \<noteq> '''' \<and> (\<exists>i. fmlookup (dcById d) i = Some (n, p))) \<and>
     (\<forall>i j p n n'. fmlookup (dcById d) i = Some (n, p) \<longrightarrow> fmlookup (dcById d) j = Some (n', p) \<longrightarrow> i = j)"

lemma dict_okD:
  assumes "dict_ok d"
  shows "fmlookup (dcByName d) n = Some p \<longleftrightarrow> n \<noteq> '''' \<and> (\<exists>i. fmlookup (dcById d) i = Some (n, p))"
    and "fmlookup (dcById d) i = Some (n, p) \<Longrightarrow> fmlookup (dcById d) j = Some (n', p) \<Longrightarrow> i = j"
  using assms unfolding dict_ok_def by blast+

text \<open>Names of entities are unique.\<close>

lemma dict_names:
  assumes "dict_ok d" and "fmlookup (dcById d) i = Some (n, p)" and "fmlookup (dcById d) j = Some (n, q)"
    and "n \<noteq> ''''"
  shows "i = j"
proof -
  have "fmlookup (dcByName d) n = Some p" "fmlookup (dcByName d) n = Some q"
    using assms by (auto simp: dict_okD(1))
  then show ?thesis using dict_okD(2) [OF assms(1,2)] assms(3) by simp
qed

lemma dict_new_ok [inv_intros]: "dict_ok entity_dict_new"
  by (simp add: dict_ok_def entity_dict_new_def)

lemma dict_okI:
  assumes "\<And>n p. fmlookup (dcByName d) n = Some p \<Longrightarrow> n \<noteq> '''' \<and> (\<exists>i. fmlookup (dcById d) i = Some (n, p))"
    and "\<And>i n p. fmlookup (dcById d) i = Some (n, p) \<Longrightarrow> n \<noteq> '''' \<Longrightarrow> fmlookup (dcByName d) n = Some p"
    and "\<And>i j n n' p. fmlookup (dcById d) i = Some (n, p) \<Longrightarrow> fmlookup (dcById d) j = Some (n', p) \<Longrightarrow> i = j"
  shows "dict_ok d"
  unfolding dict_ok_def using assms by blast

lemma dict_insert_ok:
  assumes "dict_ok d" and "\<And>i n q. fmlookup (dcById d) i = Some (n, q) \<Longrightarrow> q \<noteq> p"
  shows "dict_ok (fst (dict_insert i p d))"
proof (cases "fmlookup (dcById d) i")
  case None
  let ?d = "d\<lparr>dcById := fmupd i ('''', p) (dcById d)\<rparr>"
  have "dict_ok ?d"
  proof (rule dict_okI)
    fix n q
    assume "fmlookup (dcByName ?d) n = Some q"
    then obtain j where "n \<noteq> ''''" "fmlookup (dcById d) j = Some (n, q)"
      using dict_okD(1) [OF assms(1), of n q] by auto
    moreover from this have "j \<noteq> i" using None by auto
    ultimately have "n \<noteq> '''' \<and> fmlookup (dcById ?d) j = Some (n, q)" by simp
    then show "n \<noteq> '''' \<and> (\<exists>j. fmlookup (dcById ?d) j = Some (n, q))" by blast
  next
    fix j n q
    assume "fmlookup (dcById ?d) j = Some (n, q)" "n \<noteq> ''''"
    then show "fmlookup (dcByName ?d) n = Some q"
      using dict_okD(1) [OF assms(1), of n q] by (auto split: if_splits)
  next
    fix j k n n' q
    assume "fmlookup (dcById ?d) j = Some (n, q)" "fmlookup (dcById ?d) k = Some (n', q)"
    then show "j = k"
      using dict_okD(2) [OF assms(1), of j n q k n'] assms(2) by (auto split: if_splits)
  qed
  then show ?thesis using None by (simp add: dict_insert_def fmdom_notI)
next
  case (Some x)
  then show ?thesis using assms(1) by (simp add: dict_insert_def fmdomI)
qed

lemma dict_setEntityName_ok:
  assumes "dict_ok d"
  shows "dict_ok (fst (dict_setEntityName i n d))"
proof (cases "\<exists>p. fmlookup (dcById d) i = Some ('''', p) \<and> n \<noteq> '''' \<and> fmlookup (dcByName d) n = None")
  case True
  then obtain p where p: "fmlookup (dcById d) i = Some ('''', p)" "n \<noteq> ''''" "fmlookup (dcByName d) n = None"
    by blast
  then have d': "fst (dict_setEntityName i n d) =
      \<lparr> dcById = fmupd i (n, p) (dcById d), dcByName = fmupd n p (dcByName d) \<rparr>"
    by (simp add: dict_setEntityName_def qcontains_def del: qcontains_iff)
  have unused: "fmlookup (dcById d) j \<noteq> Some (n, q)" for j q
    using dict_okD(1) [OF assms, of n q] p by auto
  show ?thesis
    unfolding dict_ok_def d' using assms p unused unfolding dict_ok_def
    by (auto split: if_splits) (metis option.inject prod.inject)+
next
  case False
  then show ?thesis
    using assms
    by (auto simp: dict_setEntityName_def qcontains_def simp del: qcontains_iff split: option.splits)
qed

lemma dict_remove_ok:
  assumes "dict_ok d"
  shows "dict_ok (fst (dict_remove i d))"
proof (cases "fmlookup (dcById d) i")
  case None
  then have "fst (dict_remove i d) = d"
    using dict_okD(1) [OF assms, of "''''"]
    by (cases "fmlookup (dcByName d) ''''")
       (auto simp: dict_remove_def dict_nameFromId_def qvalue_def intro!: entity_dict.equality fmap_ext)
  then show ?thesis using assms by simp
next
  case (Some x)
  obtain n p where x: "x = (n, p)" by (cases x)
  then have "n \<noteq> '''' \<Longrightarrow> fmlookup (dcById d) j = Some (n, q) \<Longrightarrow> j = i" for j q
    using dict_names [OF assms] Some by blast
  then show ?thesis
    using assms Some x unfolding dict_ok_def dict_remove_def dict_nameFromId_def
    by (auto simp: qvalue_def split: if_splits)
qed

end
