(* ===== verification/VeinQml.thy ===== *)
theory VeinQml
  imports QmlEntity
begin

text \<open>
  client-libs/vf-qml, \<^verbatim>\<open>VeinQml\<close>: the event system behind QML. It counts the subscriptions of
  the user interface, creates an \<^verbatim>\<open>EntityComponentMap\<close> when the introspection of an entity
  arrives, feeds it with notifications, and announces that it is loaded when every subscribed
  entity is there. The objects are a heap of entity maps that only grows, as destroyed objects
  are not used again. What the user interface and the network do is an inductive step relation.
\<close>

section \<open>State and operations\<close>

datatype connection_state = VQ_IDLE | VQ_LOADED | VQ_DISCONNECTED | VQ_ERROR

record vein_qml =
  vqState :: connection_state
  vqRefs :: "(int, 32 word) qmap"
  vqResolved :: "int fset"
  vqDict :: entity_dict
  vqHeap :: "entity_map list"

definition vein_qml_new :: vein_qml where
  "vein_qml_new = \<lparr> vqState = VQ_IDLE, vqRefs = fmempty, vqResolved = {||},
     vqDict = entity_dict_new, vqHeap = [] \<rparr>"

datatype vq_signal =
    SigStateChanged connection_state
  | SigSystemEntityAvailable
  | SigMap int em_signal

definition vq_getEntityById :: "int \<Rightarrow> vein_qml \<Rightarrow> entity_map option" where
  "vq_getEntityById i s = map_option (\<lambda>p. vqHeap s ! p) (dict_findById (vqDict s) i)"

definition vq_getEntity :: "string \<Rightarrow> vein_qml \<Rightarrow> entity_map option" where
  "vq_getEntity n s = map_option (\<lambda>p. vqHeap s ! p) (dict_findByName (vqDict s) n)"

definition vq_hasEntity :: "string \<Rightarrow> vein_qml \<Rightarrow> bool" where
  "vq_hasEntity n s \<longleftrightarrow> dict_findByName (vqDict s) n \<noteq> None"

definition vq_getEntityList :: "vein_qml \<Rightarrow> int list" where
  "vq_getEntityList s = dict_getEntityList (vqDict s)"

definition vq_update :: "nat \<Rightarrow> entity_map \<Rightarrow> vein_qml \<Rightarrow> vein_qml" where
  "vq_update p m s = s\<lparr>vqHeap := (vqHeap s)[p := m]\<rparr>"

text \<open>The counter has 32 bits and wraps.\<close>

definition entitySubscribeById :: "int \<Rightarrow> vein_qml \<Rightarrow> vein_qml \<times> vein_event list" where
  "entitySubscribeById i s =
     (s\<lparr>vqRefs := fmupd i (qvalue (vqRefs s) i 0 + 1) (vqRefs s)\<rparr>,
      if dict_findById (vqDict s) i = None then [subscriber_generateEvent i] else [])"

definition vq_removeEntity :: "int \<Rightarrow> vein_qml \<Rightarrow> vein_qml" where
  "vq_removeEntity i s =
     (let (d, ptr) = dict_remove i (vqDict s);
          s1 = s\<lparr> vqRefs := fmdrop i (vqRefs s), vqResolved := vqResolved s |-| {|i|}, vqDict := d \<rparr>
      in case ptr of
           None \<Rightarrow> s1
         | Some p \<Rightarrow> vq_update p (fst (em_setState ECM_REMOVED (vqHeap s1 ! p))) s1)"

definition entityUnsubscribeById :: "int \<Rightarrow> vein_qml \<Rightarrow> vein_qml \<times> vein_event list" where
  "entityUnsubscribeById i s =
     (let n = qvalue (vqRefs s) i 0;
          (n1, s1) = (if 0 < n then (n - 1, s\<lparr>vqRefs := fmupd i (n - 1) (vqRefs s)\<rparr>) else (n, s))
      in if n1 = 0 then (vq_removeEntity i s1, [unsubscriber_generateEvent i]) else (s1, []))"

definition vq_onEntityLoaded :: "int \<Rightarrow> vein_qml \<Rightarrow> vein_qml \<times> vq_signal list" where
  "vq_onEntityLoaded i s =
     (if qcontains (vqRefs s) i
      then let s1 = s\<lparr>vqResolved := finsert i (vqResolved s)\<rparr>;
               sig0 = (if i = 0 then [SigSystemEntityAvailable] else [])
           in if vqState s1 \<noteq> VQ_LOADED \<and> fmdom (vqRefs s1) |\<subseteq>| vqResolved s1
              then (s1\<lparr>vqState := VQ_LOADED\<rparr>, sig0 @ [SigStateChanged VQ_LOADED])
              else (s1, sig0)
      else (s, []))"

definition vq_checkSessionLeave ::
  "qt_lib \<Rightarrow> component_data \<Rightarrow> vein_qml \<Rightarrow> vein_qml \<times> vq_signal list" where
  "vq_checkSessionLeave qt d s =
     (if edEntityId d \<noteq> 0 then (s, [])
      else if cdComponentName d \<noteq> ''Session'' then (s, [])
      else if qtToString qt (cdNewValue d) = '''' \<and> vqState s \<noteq> VQ_IDLE
      then (s\<lparr>vqState := VQ_IDLE\<rparr>, [SigStateChanged VQ_IDLE])
      else (s, []))"

definition vq_introspection ::
  "qt_lib \<Rightarrow> introspection_data \<Rightarrow> vein_qml \<Rightarrow> vein_qml \<times> vq_signal list" where
  "vq_introspection qt d s =
     (let i = edEntityId d; values = idComponentValues d
      in if dict_findById (vqDict s) i = None
         then let p = length (vqHeap s);
                  m = em_new i values (idRpcNames d);
                  d1 = fst (dict_insert i p (vqDict s));
                  d2 = (if qcontains values ''EntityName''
                        then fst (dict_setEntityName i
                               (qtToString qt (qvalue values ''EntityName'' QInvalid)) d1)
                        else d1);
                  (m1, esigs) = em_setState ECM_PENDING m;
                  s1 = s\<lparr> vqDict := d2, vqHeap := vqHeap s @ [m1] \<rparr>
              in (if SigEntityComplete i \<in> set esigs then vq_onEntityLoaded i s1 else (s1, []))
         else (s, []))"

definition vq_processEvent :: "qt_lib \<Rightarrow> vein_event \<Rightarrow> vein_qml \<Rightarrow> vein_qml \<times> vq_signal list" where
  "vq_processEvent qt e s =
     (if ceSubtype e = NOTIFICATION
      then (case ceData e of
              VComponent d \<Rightarrow>
                vq_checkSessionLeave qt d
                  (case dict_findById (vqDict s) (edEntityId d) of
                     None \<Rightarrow> s
                   | Some p \<Rightarrow> vq_update p (em_processComponentData d (vqHeap s ! p)) s)
            | VEntity d \<Rightarrow>
                ((if eaCommand d = ECMD_REMOVE then vq_removeEntity (edEntityId d) s else s), [])
            | VError d \<Rightarrow> (s, [])
            | VIntrospection d \<Rightarrow> vq_introspection qt d s
            | VRpc d \<Rightarrow>
                (case dict_findById (vqDict s) (edEntityId d) of
                   None \<Rightarrow> (s, [])
                 | Some p \<Rightarrow>
                     let (m, sigs) = em_processRpcData qt d (vqHeap s ! p)
                     in (vq_update p m s, map (SigMap (edEntityId d)) sigs)))
      else (s, []))"

section \<open>Steps\<close>

datatype vq_input =
    QmlEvent vein_event
  | QmlSubscribe int
  | QmlUnsubscribe int
  | QmlWrite int string qvariant
  | QmlInvoke int "quuid list" string qvariant_map
  | QmlCancel int quuid

inductive vq_step ::
  "qt_lib \<Rightarrow> vein_qml \<Rightarrow> vq_input \<Rightarrow> vein_qml \<Rightarrow> vein_event list \<Rightarrow> vq_signal list \<Rightarrow> bool"
  for qt :: qt_lib where
  Event: "vq_processEvent qt e s = (s', sigs) \<Longrightarrow> vq_step qt s (QmlEvent e) s' [] sigs"
| Subscribe: "entitySubscribeById i s = (s', out) \<Longrightarrow> vq_step qt s (QmlSubscribe i) s' out []"
| Unsubscribe: "entityUnsubscribeById i s = (s', out) \<Longrightarrow> vq_step qt s (QmlUnsubscribe i) s' out []"
| Write: "dict_findById (vqDict s) i = Some p \<Longrightarrow> em_updateValue qt n v (vqHeap s ! p) = (old, out) \<Longrightarrow>
    qcontains (emValues (vqHeap s ! p)) n \<Longrightarrow>
    vq_step qt s (QmlWrite i n v) (vq_update p (em_insert n old (vqHeap s ! p)) s) out []"
| Invoke: "dict_findById (vqDict s) i = Some p \<Longrightarrow>
    em_invokeRPC ids n ps (vqHeap s ! p) = Some (m, ident, out) \<Longrightarrow>
    vq_step qt s (QmlInvoke i ids n ps) (vq_update p m s) out []"
| Cancel: "dict_findById (vqDict s) i = Some p \<Longrightarrow> out = em_cancelRPCInvokation ident (vqHeap s ! p) \<Longrightarrow>
    vq_step qt s (QmlCancel i ident) s out []"

inductive_cases vq_eventE: "vq_step qt s (QmlEvent e) s' out sigs"
inductive_cases vq_subscribeE: "vq_step qt s (QmlSubscribe i) s' out sigs"
inductive_cases vq_unsubscribeE: "vq_step qt s (QmlUnsubscribe i) s' out sigs"
inductive_cases vq_writeE: "vq_step qt s (QmlWrite i n v) s' out sigs"
inductive_cases vq_invokeE: "vq_step qt s (QmlInvoke i ids n ps) s' out sigs"
inductive_cases vq_cancelE: "vq_step qt s (QmlCancel i ident) s' out sigs"

lemma vq_exec:
  "vq_step qt s (QmlEvent e) (fst (vq_processEvent qt e s)) [] (snd (vq_processEvent qt e s))"
  "vq_step qt s (QmlSubscribe i) (fst (entitySubscribeById i s)) (snd (entitySubscribeById i s)) []"
  "vq_step qt s (QmlUnsubscribe i) (fst (entityUnsubscribeById i s)) (snd (entityUnsubscribeById i s)) []"
  by (simp_all add: vq_step.Event vq_step.Subscribe vq_step.Unsubscribe)

lemmas vq_cases = vq_eventE vq_subscribeE vq_unsubscribeE vq_writeE vq_invokeE vq_cancelE

text \<open>An input determines the step.\<close>

lemma vq_step_deterministic:
  "vq_step qt s x s1 out1 sigs1 \<Longrightarrow> vq_step qt s x s2 out2 sigs2 \<Longrightarrow> s2 = s1 \<and> out2 = out1 \<and> sigs2 = sigs1"
  by (induction rule: vq_step.induct) (auto elim: vq_cases)

inductive vq_steps :: "qt_lib \<Rightarrow> vein_qml \<Rightarrow> vq_input list \<Rightarrow> vein_qml \<Rightarrow> bool"
  for qt :: qt_lib where
  Done: "vq_steps qt s [] s"
| More: "vq_step qt s x s1 out sigs \<Longrightarrow> vq_steps qt s1 xs s2 \<Longrightarrow> vq_steps qt s (x # xs) s2"

inductive vq_reach :: "qt_lib \<Rightarrow> vein_qml \<Rightarrow> bool" for qt :: qt_lib where
  Init: "vq_reach qt vein_qml_new"
| Step: "vq_reach qt s \<Longrightarrow> vq_step qt s x s' out sigs \<Longrightarrow> vq_reach qt s'"

section \<open>Invariant\<close>

text \<open>
  The directory is consistent, an entity's object is the one of its identifier and ready to be
  used, and what counts as resolved is subscribed and there.
\<close>

definition vq_ok :: "vein_qml \<Rightarrow> bool" where
  "vq_ok s \<longleftrightarrow>
     dict_ok (vqDict s) \<and>
     (\<forall>i n p. fmlookup (dcById (vqDict s)) i = Some (n, p) \<longrightarrow> p < length (vqHeap s) \<and>
        emEntityId (vqHeap s ! p) = i \<and> emState (vqHeap s ! p) = ECM_READY) \<and>
     vqResolved s |\<subseteq>| fmdom (vqRefs s) \<and> vqResolved s |\<subseteq>| fmdom (dcById (vqDict s))"

lemma vq_okD:
  assumes "vq_ok s" and "fmlookup (dcById (vqDict s)) i = Some (n, p)"
  shows "p < length (vqHeap s)" and "emEntityId (vqHeap s ! p) = i" and "emState (vqHeap s ! p) = ECM_READY"
  using assms unfolding vq_ok_def by blast+

lemma findById_Some: "dict_findById d i = Some p \<longleftrightarrow> (\<exists>n. fmlookup (dcById d) i = Some (n, p))"
  by (auto simp: dict_findById_def)

lemma findById_None: "dict_findById d i = None \<longleftrightarrow> fmlookup (dcById d) i = None"
  by (simp add: dict_findById_def)

lemma vq_new_ok [inv_intros]: "vq_ok vein_qml_new"
  by (simp add: vq_ok_def vein_qml_new_def dict_new_ok) (simp add: entity_dict_new_def)

text \<open>Updating an object that keeps its identifier and state.\<close>

lemma vq_update_ok:
  assumes "vq_ok s" and "dict_findById (vqDict s) i = Some p"
    and "emEntityId m = emEntityId (vqHeap s ! p)" and "emState m = emState (vqHeap s ! p)"
  shows "vq_ok (vq_update p m s)"
proof -
  have "p < length (vqHeap s)" using assms(1,2) vq_okD(1) by (auto simp: findById_Some)
  then have "emEntityId ((vqHeap s)[p := m] ! q) = emEntityId (vqHeap s ! q)"
    "emState ((vqHeap s)[p := m] ! q) = emState (vqHeap s ! q)" for q
    using assms(3,4) by (cases "q = p"; simp)+
  then show ?thesis using assms(1) by (auto simp: vq_ok_def vq_update_def)
qed

lemma vq_subscribe_ok: "vq_ok s \<Longrightarrow> vq_ok (fst (entitySubscribeById i s))"
  by (auto simp: vq_ok_def entitySubscribeById_def)

lemma vq_removeEntity_fields:
  "vqRefs (vq_removeEntity i s) = fmdrop i (vqRefs s)"
  "vqResolved (vq_removeEntity i s) = vqResolved s |-| {|i|}"
  "vqDict (vq_removeEntity i s) = fst (dict_remove i (vqDict s))"
  "length (vqHeap (vq_removeEntity i s)) = length (vqHeap s)"
  "(\<And>n. fmlookup (dcById (vqDict s)) i \<noteq> Some (n, q)) \<Longrightarrow> vqHeap (vq_removeEntity i s) ! q = vqHeap s ! q"
  by (auto simp: vq_removeEntity_def vq_update_def dict_remove_def findById_Some split_beta Let_def
      split: option.split)

lemma vq_removeEntity_ok: 
  assumes "vq_ok s"
  shows "vq_ok (vq_removeEntity i s)"
proof -
  have "p < length (vqHeap s) \<and> emEntityId (vqHeap (vq_removeEntity i s) ! p) = j \<and>
      emState (vqHeap (vq_removeEntity i s) ! p) = ECM_READY"
    if "fmlookup (dcById (fst (dict_remove i (vqDict s)))) j = Some (n, p)" for j n p
  proof -
    have j: "j \<noteq> i" "fmlookup (dcById (vqDict s)) j = Some (n, p)"
      using that by (auto simp: dict_remove_def split: if_splits)
    have "fmlookup (dcById (vqDict s)) i \<noteq> Some (n', p)" for n'
      using j assms dict_okD(2) [of "vqDict s" i n' p j n] unfolding vq_ok_def by blast
    then show ?thesis using vq_okD [OF assms j(2)] by (simp add: vq_removeEntity_fields(5))
  qed
  then show ?thesis
    using assms dict_remove_ok [of "vqDict s" i]
    unfolding vq_ok_def vq_removeEntity_fields by (auto simp: dict_remove_def)
qed

lemma vq_unsubscribe_ok: "vq_ok s \<Longrightarrow> vq_ok (fst (entityUnsubscribeById i s))"
proof -
  assume ok: "vq_ok s"
  then have "vq_ok (s\<lparr>vqRefs := fmupd i n (vqRefs s)\<rparr>)" for n by (auto simp: vq_ok_def)
  then show "vq_ok (fst (entityUnsubscribeById i s))"
    using ok by (auto simp: entityUnsubscribeById_def Let_def intro: vq_removeEntity_ok)
qed

lemma vq_onEntityLoaded_ok:
  "vq_ok s \<Longrightarrow> i |\<in>| fmdom (dcById (vqDict s)) \<Longrightarrow> vq_ok (fst (vq_onEntityLoaded i s))"
  by (auto simp: vq_ok_def vq_onEntityLoaded_def Let_def)

lemma setEntityName_byId:
  "fmlookup (dcById (fst (dict_setEntityName i n d))) j = Some (n', p) \<Longrightarrow>
   \<exists>n0. fmlookup (dcById d) j = Some (n0, p)"
  "fmdom (dcById (fst (dict_setEntityName i n d))) = fmdom (dcById d)"
  by (auto simp: dict_setEntityName_def fmdomI split: option.splits if_splits)

text \<open>The state an introspection leads to before its completion is handled.\<close>

lemma vq_introspection_step:
  assumes "vq_ok s" and "dict_findById (vqDict s) (edEntityId d) = None"
  shows "\<exists>s1 n. vq_introspection qt d s = vq_onEntityLoaded (edEntityId d) s1 \<and> vq_ok s1 \<and>
    fmlookup (dcById (vqDict s1)) (edEntityId d) = Some (n, length (vqHeap s)) \<and>
    vqHeap s1 = vqHeap s @ [fst (em_setState ECM_PENDING (em_new (edEntityId d) (idComponentValues d)
      (idRpcNames d)))] \<and>
    (\<forall>j. j \<noteq> edEntityId d \<longrightarrow> dict_findById (vqDict s1) j = dict_findById (vqDict s) j) \<and>
    vqRefs s1 = vqRefs s \<and> vqResolved s1 = vqResolved s \<and> vqState s1 = vqState s"
proof -
  let ?i = "edEntityId d" and ?p = "length (vqHeap s)"
  let ?m = "fst (em_setState ECM_PENDING (em_new ?i (idComponentValues d) (idRpcNames d)))"
  define d1 where "d1 = fst (dict_insert ?i ?p (vqDict s))"
  define d2 where "d2 = (if qcontains (idComponentValues d) ''EntityName''
      then fst (dict_setEntityName ?i (qtToString qt (qvalue (idComponentValues d) ''EntityName'' QInvalid)) d1)
      else d1)"
  let ?s1 = "s\<lparr> vqDict := d2, vqHeap := vqHeap s @ [?m] \<rparr>"
  have new: "fmlookup (dcById (vqDict s)) ?i = None" using assms(2) by (simp add: findById_None)
  have ptr: "q < ?p" if "fmlookup (dcById (vqDict s)) j = Some (n, q)" for j n q
    using vq_okD(1) [OF assms(1) that] .
  have d1: "dcById d1 = fmupd ?i ('''', ?p) (dcById (vqDict s))"
    using new by (simp add: d1_def dict_insert_def fmdom_notI)
  have "dict_ok d1"
    unfolding d1_def using assms(1) ptr by (intro dict_insert_ok) (fastforce simp: vq_ok_def)+
  then have d2ok: "dict_ok d2" by (simp add: d2_def dict_setEntityName_ok)
  have origin: "\<exists>n0. fmlookup (dcById d1) j = Some (n0, q)" if "fmlookup (dcById d2) j = Some (n, q)" for j n q
    using that setEntityName_byId(1) by (auto simp: d2_def split: if_splits)
  have dom: "fmdom (dcById d2) = finsert ?i (fmdom (dcById (vqDict s)))"
    by (simp add: d2_def setEntityName_byId(2) d1)
  have m: "emEntityId ?m = ?i" "emState ?m = ECM_READY" by (simp_all add: em_load)
  have ok: "vq_ok ?s1"
    unfolding vq_ok_def
  proof (intro conjI allI impI)
    fix j n q
    assume "fmlookup (dcById (vqDict ?s1)) j = Some (n, q)"
    then obtain n0 where "fmlookup (dcById d1) j = Some (n0, q)" using origin by fastforce
    then have "(j = ?i \<and> q = ?p) \<or> (j \<noteq> ?i \<and> fmlookup (dcById (vqDict s)) j = Some (n0, q))"
      by (auto simp: d1 split: if_splits)
    then show "q < length (vqHeap ?s1)" "emEntityId (vqHeap ?s1 ! q) = j"
      "emState (vqHeap ?s1 ! q) = ECM_READY"
      using m vq_okD [OF assms(1)] by (auto simp: nth_append less_Suc_eq)
  qed (use assms(1) d2ok dom in \<open>auto simp: vq_ok_def\<close>)
  obtain n q where q: "fmlookup (dcById d2) ?i = Some (n, q)"
    using dom by (metis finsertI1 fmlookup_dom_iff surj_pair)
  moreover obtain n0 where "fmlookup (dcById d1) ?i = Some (n0, q)" using origin [OF q] by blast
  ultimately have ptr2: "fmlookup (dcById d2) ?i = Some (n, ?p)" by (simp add: d1)
  have other: "dict_findById d2 j = dict_findById (vqDict s) j" if "j \<noteq> ?i" for j
  proof (cases "fmlookup (dcById d2) j")
    case None
    then have "fmlookup (dcById (vqDict s)) j = None"
      using dom that by (metis finsertCI fmdom_notD fmdom_notI)
    then show ?thesis using None by (simp add: dict_findById_def)
  next
    case (Some x)
    then obtain n1 n2 q1 where "x = (n1, q1)" "fmlookup (dcById d1) j = Some (n2, q1)"
      using origin by (metis surj_pair)
    then show ?thesis using Some that by (simp add: dict_findById_def d1)
  qed
  have "vq_introspection qt d s = vq_onEntityLoaded ?i ?s1"
    using assms(2) by (simp add: vq_introspection_def Let_def split_beta d1_def d2_def em_load)
  then show ?thesis using ok ptr2 other by (intro exI conjI) (assumption | simp)+
qed

lemma vq_introspection_ok:
  assumes "vq_ok s"
  shows "vq_ok (fst (vq_introspection qt d s))"
proof (cases "dict_findById (vqDict s) (edEntityId d)")
  case None
  then show ?thesis
    using vq_introspection_step [OF assms, of d qt] by (auto intro!: vq_onEntityLoaded_ok fmdomI)
next
  case (Some p)
  then show ?thesis using assms by (simp add: vq_introspection_def Let_def)
qed

lemma vq_checkSessionLeave_fields [simp]:
  "vqDict (fst (vq_checkSessionLeave qt d s)) = vqDict s"
  "vqHeap (fst (vq_checkSessionLeave qt d s)) = vqHeap s"
  "vqRefs (fst (vq_checkSessionLeave qt d s)) = vqRefs s"
  "vqResolved (fst (vq_checkSessionLeave qt d s)) = vqResolved s"
  by (simp_all add: vq_checkSessionLeave_def)

lemma vq_processEvent_ok [inv_intros]:
  assumes "vq_ok s"
  shows "vq_ok (fst (vq_processEvent qt e s))"
proof -
  have leave: "vq_ok t \<Longrightarrow> vq_ok (fst (vq_checkSessionLeave qt d t))" for d t by (simp add: vq_ok_def)
  show ?thesis
    using assms vq_introspection_ok vq_removeEntity_ok
    by (auto simp: vq_processEvent_def split_beta Let_def intro!: leave
        intro: vq_update_ok split: vein_data.split option.split)
qed

lemma vq_step_ok: "vq_step qt s x s' out sigs \<Longrightarrow> vq_ok s \<Longrightarrow> vq_ok s'"
proof (induction rule: vq_step.induct)
  case (Event e s s' sigs)
  then show ?case using vq_processEvent_ok [of s qt e] by simp
next
  case (Subscribe i s s' out)
  then show ?case using vq_subscribe_ok [of s i] by simp
next
  case (Unsubscribe i s s' out)
  then show ?case using vq_unsubscribe_ok [of s i] by simp
next
  case (Invoke s i p ids n ps m ident out)
  then show ?case using em_invokeRPC_sel by (blast intro: vq_update_ok)
qed (auto intro: vq_update_ok)

lemma vq_reach_ok: "vq_reach qt s \<Longrightarrow> vq_ok s"
  by (induction rule: vq_reach.induct) (auto intro: inv_intros vq_step_ok)

section \<open>Which entities are announced\<close>

lemma vq_onEntityLoaded_loaded:
  assumes "SigStateChanged VQ_LOADED \<in> set (snd (vq_onEntityLoaded i s))"
  shows "fmdom (vqRefs (fst (vq_onEntityLoaded i s))) |\<subseteq>| vqResolved (fst (vq_onEntityLoaded i s))"
    and "vqState (fst (vq_onEntityLoaded i s)) = VQ_LOADED"
  using assms by (auto simp: vq_onEntityLoaded_def Let_def split: if_splits)

lemma vq_loaded_source:
  assumes "vq_ok s" and "vq_step qt s x s' out sigs" and "SigStateChanged VQ_LOADED \<in> set sigs"
  shows "\<exists>i s1. vq_onEntityLoaded i s1 = (s', sigs)"
proof -
  obtain e where x: "x = QmlEvent e" and e: "vq_processEvent qt e s = (s', sigs)"
    using assms(2,3) by (cases rule: vq_step.cases) auto
  have "\<exists>d. ceData e = VIntrospection d \<and> vq_introspection qt d s = (s', sigs)"
    using e assms(3)
    by (auto simp: vq_processEvent_def vq_checkSessionLeave_def Let_def split_beta
        split: if_splits vein_data.splits option.splits)
  then obtain d where d: "vq_introspection qt d s = (s', sigs)" by blast
  then have "dict_findById (vqDict s) (edEntityId d) = None"
    using assms(3) by (auto simp: vq_introspection_def Let_def split: if_splits)
  then show ?thesis using vq_introspection_step [OF assms(1), of d qt] d by metis
qed

section \<open>What is shown\<close>

text \<open>
  An input that drops the object of entity \<open>i\<close>: the notification that the entity was removed,
  and an unsubscription when the entity's counter of subscriptions does not exceed one. The
  counter is followed along the inputs at its width.
\<close>

definition removes_entity :: "int \<Rightarrow> vq_input \<Rightarrow> bool" where
  "removes_entity i x =
     (case x of
        QmlEvent e \<Rightarrow>
          (case ceData e of
             VEntity d \<Rightarrow>
               ceSubtype e = NOTIFICATION \<and> eaCommand d = ECMD_REMOVE \<and> edEntityId d = i
           | _ \<Rightarrow> False)
      | _ \<Rightarrow> False)"

definition drops :: "int \<Rightarrow> 32 word \<Rightarrow> vq_input \<Rightarrow> bool" where
  "drops i w x \<longleftrightarrow> x = QmlUnsubscribe i \<and> w \<le> 1 \<or> removes_entity i x"

definition counter_after :: "int \<Rightarrow> vq_input \<Rightarrow> 32 word \<Rightarrow> 32 word" where
  "counter_after i x w =
     (if x = QmlSubscribe i then w + 1 else if x = QmlUnsubscribe i then w - 1 else w)"

fun never_dropped :: "int \<Rightarrow> vq_input list \<Rightarrow> 32 word \<Rightarrow> bool" where
  "never_dropped i [] w = True"
| "never_dropped i (x # xs) w = (\<not> drops i w x \<and> never_dropped i xs (counter_after i x w))"

text \<open>The value a property shows after an input, from the value before.\<close>

definition shown_after :: "int \<Rightarrow> string \<Rightarrow> vq_input \<Rightarrow> qvariant option \<Rightarrow> qvariant option" where
  "shown_after i c x v =
     (case x of
        QmlEvent e \<Rightarrow>
          (case ceData e of
             VComponent d \<Rightarrow>
               if ceSubtype e = NOTIFICATION \<and> edEntityId d = i then shown d c v else v
           | _ \<Rightarrow> v)
      | _ \<Rightarrow> v)"

lemma getEntityById_Some:
  "vq_getEntityById i s = Some m \<longleftrightarrow> (\<exists>n p. fmlookup (dcById (vqDict s)) i = Some (n, p) \<and> m = vqHeap s ! p)"
  by (auto simp: vq_getEntityById_def dict_findById_def)

lemma getEntityById_update:
  assumes "vq_ok s" and "dict_findById (vqDict s) j = Some p"
  shows "vq_getEntityById i (vq_update p m s) = (if i = j then Some m else vq_getEntityById i s)"
proof -
  obtain n where n: "fmlookup (dcById (vqDict s)) j = Some (n, p)" using assms(2) by (auto simp: findById_Some)
  have "q \<noteq> p" if "fmlookup (dcById (vqDict s)) i = Some (n', q)" "i \<noteq> j" for n' q
    using that n assms(1) dict_okD(2) unfolding vq_ok_def by blast
  then show ?thesis
    using n vq_okD(1) [OF assms(1) n]
    by (cases "fmlookup (dcById (vqDict s)) i")
       (auto simp: vq_getEntityById_def vq_update_def dict_findById_def)
qed

lemma updated_entity:
  assumes "vq_ok s" and "dict_findById (vqDict s) j = Some p" and "vq_getEntityById i s = Some m"
  shows "vq_getEntityById i (vq_update p m' s) = Some (if i = j then m' else m)"
    and "i = j \<Longrightarrow> m = vqHeap s ! p"
  using assms by (auto simp: getEntityById_update) (auto simp: vq_getEntityById_def)

lemma getEntityById_remove:
  assumes "vq_ok s" and "i \<noteq> j"
  shows "vq_getEntityById i (vq_removeEntity j s) = vq_getEntityById i s"
proof (cases "fmlookup (dcById (vqDict s)) i")
  case None
  then show ?thesis
    by (simp add: vq_getEntityById_def vq_removeEntity_fields dict_findById_def dict_remove_def)
next
  case (Some x)
  obtain n p where x: "x = (n, p)" by (cases x)
  have "fmlookup (dcById (vqDict s)) j \<noteq> Some (n', p)" for n'
    using Some x assms dict_okD(2) [of "vqDict s" i n p j n'] unfolding vq_ok_def by blast
  then show ?thesis
    using Some x assms(2)
    by (simp add: vq_getEntityById_def vq_removeEntity_fields dict_findById_def dict_remove_def)
qed

lemma getEntityById_loaded [simp]:
  "vq_getEntityById i (fst (vq_onEntityLoaded j s)) = vq_getEntityById i s"
  by (simp add: vq_getEntityById_def vq_onEntityLoaded_def Let_def)

lemma getEntityById_introspection:
  assumes "vq_ok s" and "vq_getEntityById i s = Some m"
  shows "vq_getEntityById i (fst (vq_introspection qt d s)) = Some m"
proof (cases "dict_findById (vqDict s) (edEntityId d)")
  case None
  then have "i \<noteq> edEntityId d" using assms(2) by (auto simp: vq_getEntityById_def)
  moreover obtain p where "dict_findById (vqDict s) i = Some p" "m = vqHeap s ! p" "p < length (vqHeap s)"
    using assms(2) vq_okD(1) [OF assms(1)] by (auto simp: getEntityById_Some dict_findById_def)
  moreover obtain s1 n1 where "vq_introspection qt d s = vq_onEntityLoaded (edEntityId d) s1"
    "vqHeap s1 = vqHeap s @ n1" "\<forall>j. j \<noteq> edEntityId d \<longrightarrow> dict_findById (vqDict s1) j = dict_findById (vqDict s) j"
    using vq_introspection_step [OF assms(1) None, of qt] by blast
  ultimately have "vq_getEntityById i s1 = Some m"
    by (simp add: vq_getEntityById_def nth_append)
  then show ?thesis using \<open>vq_introspection qt d s = vq_onEntityLoaded (edEntityId d) s1\<close> by simp
next
  case (Some p)
  then show ?thesis using assms(2) by (simp add: vq_introspection_def Let_def)
qed

text \<open>An input that does not drop the entity changes what it shows by \<open>shown_after\<close>.\<close>

lemma event_shown:
  assumes "vq_ok s" and "vq_getEntityById i s = Some m" and "\<not> removes_entity i (QmlEvent e)"
  shows "\<exists>m'. vq_getEntityById i (fst (vq_processEvent qt e s)) = Some m' \<and>
    fmlookup (emValues m') c = shown_after i c (QmlEvent e) (fmlookup (emValues m) c)"
proof (cases "ceSubtype e = NOTIFICATION")
  case False
  then show ?thesis using assms(2) by (auto simp: vq_processEvent_def shown_after_def split: vein_data.split)
next
  case nt: True
  show ?thesis
  proof (cases "ceData e")
    case (VComponent d)
    have leave: "vq_getEntityById i (fst (vq_checkSessionLeave qt d t)) = vq_getEntityById i t" for t
      by (simp add: vq_getEntityById_def)
    show ?thesis
    proof (cases "dict_findById (vqDict s) (edEntityId d)")
      case None
      then have "i \<noteq> edEntityId d" using assms(2) by (auto simp: vq_getEntityById_def)
      then show ?thesis
        using None VComponent nt assms(2) by (simp add: vq_processEvent_def shown_after_def leave)
    next
      case (Some p)
      then show ?thesis
        using VComponent nt updated_entity [OF assms(1) Some assms(2)]
        by (auto simp: vq_processEvent_def shown_after_def leave em_processComponentData_value)
    qed
  next
    case (VEntity d)
    then show ?thesis
      using nt assms getEntityById_remove [OF assms(1), of i "edEntityId d"]
      by (auto simp: vq_processEvent_def shown_after_def removes_entity_def)
  next
    case (VIntrospection d)
    then show ?thesis
      using nt getEntityById_introspection [OF assms(1,2), of qt d]
      by (simp add: vq_processEvent_def shown_after_def)
  next
    case (VRpc d)
    then show ?thesis
      using nt assms(2) updated_entity [OF assms(1) _ assms(2)]
      by (cases "dict_findById (vqDict s) (edEntityId d)")
         (auto simp: vq_processEvent_def shown_after_def split_beta Let_def)
  qed (use nt assms(2) in \<open>simp_all add: vq_processEvent_def shown_after_def\<close>)
qed

lemma step_shown:
  assumes "vq_step qt s x s' out sigs" and "vq_ok s" and "vq_getEntityById i s = Some m"
    and "\<not> drops i (qvalue (vqRefs s) i 0) x"
  shows "\<exists>m'. vq_getEntityById i s' = Some m' \<and>
    fmlookup (emValues m') c = shown_after i c x (fmlookup (emValues m) c)"
  using assms
proof (cases rule: vq_step.cases)
  case (Event e)
  then show ?thesis using event_shown [OF assms(2,3), of e qt c] assms(4) by (simp add: drops_def)
next
  case (Subscribe j)
  then show ?thesis using assms(3) by (auto simp: entitySubscribeById_def shown_after_def vq_getEntityById_def)
next
  case (Unsubscribe j)
  have "vq_ok (s\<lparr>vqRefs := fmupd j n (vqRefs s)\<rparr>)" for n using assms(2) by (auto simp: vq_ok_def)
  moreover have "vq_getEntityById i (s\<lparr>vqRefs := r\<rparr>) = vq_getEntityById i s" for r
    by (simp add: vq_getEntityById_def)
  ultimately have "vq_getEntityById i s' = vq_getEntityById i s"
    using Unsubscribe assms(2,4)
    by (cases "j = i")
       (auto simp: entityUnsubscribeById_def drops_def Let_def getEntityById_remove split: if_splits)
  then show ?thesis using Unsubscribe assms(3) by (simp add: shown_after_def)
next
  case (Write j p n v old)
  then have old: "old = qvalue (emValues (vqHeap s ! p)) n QInvalid"
    by (auto simp: em_updateValue_def Let_def split: if_splits)
  have "fmupd n old (emValues (vqHeap s ! p)) = emValues (vqHeap s ! p)"
    using Write(6) by (intro fmap_ext) (auto simp: old qvalue_def fmlookup_dom_iff)
  then show ?thesis
    using Write updated_entity [OF assms(2) Write(4) assms(3)] by (auto simp: shown_after_def)
next
  case (Invoke j p ids n ps m' ident)
  then show ?thesis
    using em_invokeRPC_sel(3) [OF Invoke(5)] updated_entity [OF assms(2) Invoke(4) assms(3)]
    by (auto simp: shown_after_def)
next
  case (Cancel j p ident)
  then show ?thesis using assms(3) by (simp add: shown_after_def)
qed

lemma refs_loaded [simp]: "vqRefs (fst (vq_onEntityLoaded i s)) = vqRefs s"
  by (simp add: vq_onEntityLoaded_def Let_def)

lemma refs_introspection [simp]: "vqRefs (fst (vq_introspection qt d s)) = vqRefs s"
  by (simp add: vq_introspection_def Let_def split_beta)

lemma refs_update [simp]: "vqRefs (vq_update p m s) = vqRefs s"
  by (simp add: vq_update_def)

lemma step_counter:
  assumes "vq_step qt s x s' out sigs" and "\<not> drops i (qvalue (vqRefs s) i 0) x"
  shows "qvalue (vqRefs s') i 0 = counter_after i x (qvalue (vqRefs s) i 0)"
  using assms
proof (cases rule: vq_step.cases)
  case (Event e)
  then have s': "s' = fst (vq_processEvent qt e s)" by simp
  show ?thesis
    using assms(2) unfolding s' Event(1)
    by (auto simp: vq_processEvent_def drops_def removes_entity_def counter_after_def split_beta Let_def
        vq_removeEntity_fields split: vein_data.split option.split)
next
  case (Subscribe j)
  then show ?thesis by (auto simp: entitySubscribeById_def counter_after_def)
next
  case (Unsubscribe j)
  then show ?thesis
    using assms(2)
    by (auto simp: entityUnsubscribeById_def drops_def counter_after_def Let_def vq_removeEntity_fields
        not_le word_gt_0 split: if_splits)
qed (simp_all add: counter_after_def)

lemma steps_shown:
  assumes "vq_steps qt s xs s'" and "vq_ok s" and "vq_getEntityById i s = Some m"
    and "never_dropped i xs (qvalue (vqRefs s) i 0)"
  shows "\<exists>m'. vq_getEntityById i s' = Some m' \<and>
    fmlookup (emValues m') c = fold (shown_after i c) xs (fmlookup (emValues m) c)"
  using assms
proof (induction arbitrary: m rule: vq_steps.induct)
  case (Done s)
  then show ?case by simp
next
  case (More s x s1 out sigs xs s2)
  obtain m1 where m1: "vq_getEntityById i s1 = Some m1"
    "fmlookup (emValues m1) c = shown_after i c x (fmlookup (emValues m) c)"
    using step_shown [OF More.hyps(1), of i m c] More.prems by auto
  have "never_dropped i xs (qvalue (vqRefs s1) i 0)"
    using More.prems(3) step_counter [OF More.hyps(1)] by simp
  then show ?case
    using More.IH [OF vq_step_ok [OF More.hyps(1)] m1(1)] More.prems m1(2) by simp
qed

section \<open>The subscription counter\<close>

text \<open>An unbounded counter of the subscriptions of entity \<open>i\<close>, as the specification.\<close>

fun count_after :: "int \<Rightarrow> vq_input \<Rightarrow> nat \<Rightarrow> nat" where
  "count_after i (QmlSubscribe j) n = (if j = i then n + 1 else n)"
| "count_after i (QmlUnsubscribe j) n = (if j = i then n - 1 else n)"
| "count_after i x n = (if removes_entity i x then 0 else n)"

lemma word_count_inc: "unat (w :: 32 word) < 2 ^ 32 - 1 \<Longrightarrow> unat (w + 1) = unat w + 1"
  by (subst unat_plus_simple [THEN iffD1]) (simp_all add: word_le_nat_alt unat_word_ariths)

lemma word_count_dec: "0 < w \<Longrightarrow> unat ((w :: 32 word) - 1) = unat w - 1"
  by (subst unat_sub) (simp_all add: word_le_nat_alt unat_gt_0 Suc_leI word_gt_0)

lemma step_count:
  assumes "vq_step qt s x s' out sigs" and "unat (qvalue (vqRefs s) i 0) < 2 ^ 32 - 1"
  shows "unat (qvalue (vqRefs s') i 0) = count_after i x (unat (qvalue (vqRefs s) i 0))"
  using assms
proof (cases rule: vq_step.cases)
  case (Event e)
  then have s': "s' = fst (vq_processEvent qt e s)" by simp
  show ?thesis
    unfolding s' Event(1)
    by (auto simp: vq_processEvent_def removes_entity_def split_beta Let_def vq_removeEntity_fields
        split: vein_data.split option.split)
next
  case (Subscribe j)
  then show ?thesis using assms(2) word_count_inc by (auto simp: entitySubscribeById_def)
next
  case (Unsubscribe j)
  have "w \<noteq> 0 \<Longrightarrow> w - 1 = 0 \<Longrightarrow> unat w - Suc 0 = 0" for w :: "32 word"
    using word_count_dec [of w] by (simp add: word_gt_0)
  then show ?thesis
    using Unsubscribe word_count_dec
    by (auto simp: entityUnsubscribeById_def Let_def vq_removeEntity_fields word_gt_0 split: if_splits)
qed (simp_all add: removes_entity_def)

lemma count_after_le: "count_after i x n \<le> n + 1"
  by (cases x) auto

lemma steps_count:
  assumes "vq_steps qt s xs s'" and "unat (qvalue (vqRefs s) i 0) + length xs < 2 ^ 32"
  shows "unat (qvalue (vqRefs s') i 0) = fold (count_after i) xs (unat (qvalue (vqRefs s) i 0))"
  using assms
proof (induction rule: vq_steps.induct)
  case (Done s)
  then show ?case by simp
next
  case (More s x s1 out sigs xs s2)
  have "unat (qvalue (vqRefs s1) i 0) = count_after i x (unat (qvalue (vqRefs s) i 0))"
    using More.hyps(1) More.prems by (intro step_count) auto
  then show ?case
    using More.IH More.prems count_after_le [of i x "unat (qvalue (vqRefs s) i 0)"] by simp
qed

section \<open>Findings\<close>

text \<open>
  An entity can be known without being counted, as its introspection may answer a subscription
  of somebody else in the process. Subscribing to it then sends nothing, no introspection will
  come, and as long as it is subscribed the loaded state is not reached by any other entity.
\<close>

lemma known_entity_blocks_loading:
  assumes "vq_ok s" and "dict_findById (vqDict s) i = Some p" and "\<not> qcontains (vqRefs s) i"
    and "entitySubscribeById i s = (s', out)"
  shows "out = []" and "vq_introspection qt d s' = (s', []) \<or> edEntityId d \<noteq> i"
    and "j \<noteq> i \<Longrightarrow> SigStateChanged VQ_LOADED \<notin> set (snd (vq_onEntityLoaded j s'))"
proof -
  have "i |\<notin>| vqResolved s" using assms(1,3) by (auto simp: vq_ok_def)
  then show "j \<noteq> i \<Longrightarrow> SigStateChanged VQ_LOADED \<notin> set (snd (vq_onEntityLoaded j s'))"
    using assms(4) by (auto simp: entitySubscribeById_def vq_onEntityLoaded_def Let_def)
  show "out = []" using assms(2,4) by (simp add: entitySubscribeById_def)
  have "dict_findById (vqDict s') i = Some p" using assms(2,4) by (auto simp: entitySubscribeById_def)
  then show "vq_introspection qt d s' = (s', []) \<or> edEntityId d \<noteq> i"
    by (auto simp: vq_introspection_def Let_def)
qed

section \<open>Properties\<close>

text \<open>
  C15. The QML client announces that it is loaded only when that is so: whatever the user
  interface and the network have done before, when the state changes to loaded, every entity
  that is subscribed has its object in the directory, of the right identifier and ready to be
  used.
\<close>

theorem qml_loaded_complete:
  assumes "vq_reach qt s" and "vq_step qt s x s' out sigs" and "SigStateChanged VQ_LOADED \<in> set sigs"
    and "qcontains (vqRefs s') i"
  shows "\<exists>m. vq_getEntityById i s' = Some m \<and> emEntityId m = i \<and> emState m = ECM_READY"
proof -
  have ok: "vq_ok s'" using assms(1,2) by (blast intro: vq_reach_ok vq_step_ok)
  obtain j s1 where "vq_onEntityLoaded j s1 = (s', sigs)"
    using vq_loaded_source [OF vq_reach_ok [OF assms(1)] assms(2,3)] by blast
  then have "fmdom (vqRefs s') |\<subseteq>| vqResolved s'"
    using vq_onEntityLoaded_loaded(1) [of j s1] assms(3) by simp
  then have "i |\<in>| fmdom (dcById (vqDict s'))" using assms(4) ok by (auto simp: vq_ok_def)
  then obtain n p where "fmlookup (dcById (vqDict s')) i = Some (n, p)" by (auto simp: fmlookup_dom_iff)
  then show ?thesis using vq_okD [OF ok] by (auto simp: getEntityById_Some)
qed

definition qml_introspection :: vein_event where
  "qml_introspection = commandEvent_new NOTIFICATION (VIntrospection
     \<lparr> edOrigin = EO_FOREIGN, edTarget = ET_IRRELEVANT, edEntityId = 7,
       idComponentValues = fmupd ''EntityName'' (QStr ''Meter'') (fmupd ''U'' (QInt 230) fmempty),
       idRpcNames = [] \<rparr>)"

definition qml_subscribed :: vein_qml where
  "qml_subscribed = fst (entitySubscribeById 7 vein_qml_new)"

definition qml_loaded :: vein_qml where
  "qml_loaded = fst (vq_processEvent qt_ref qml_introspection qml_subscribed)"

lemmas qml_example_defs = qml_subscribed_def qml_loaded_def qml_introspection_def vein_qml_new_def
  entity_dict_new_def entitySubscribeById_def vq_processEvent_def vq_introspection_def
  dict_insert_def dict_setEntityName_def dict_findById_def vq_onEntityLoaded_def commandEvent_new_def

lemma qml_example_reach: "vq_reach qt_ref qml_subscribed" "vq_reach qt_ref qml_loaded"
proof -
  show sub: "vq_reach qt_ref qml_subscribed"
    unfolding qml_subscribed_def by (rule vq_reach.Step [OF vq_reach.Init vq_exec(2)])
  show "vq_reach qt_ref qml_loaded"
    unfolding qml_loaded_def by (rule vq_reach.Step [OF sub vq_exec(1)])
qed

lemma qml_example_loaded:
  "snd (vq_processEvent qt_ref qml_introspection qml_subscribed) = [SigStateChanged VQ_LOADED]"
  "qvalue (vqRefs qml_loaded) 7 0 = 1"
  by (simp_all add: qml_example_defs Let_def em_load split_beta)

theorem qml_loaded_complete_witness:
  "\<exists>m. vq_getEntityById 7 qml_loaded = Some m \<and> emEntityId m = 7 \<and> emState m = ECM_READY"
proof -
  have "vq_step qt_ref qml_subscribed (QmlEvent qml_introspection) qml_loaded [] [SigStateChanged VQ_LOADED]"
    using vq_exec(1) [of qt_ref qml_subscribed qml_introspection] qml_example_loaded(1)
    by (simp add: qml_loaded_def)
  moreover have "qcontains (vqRefs qml_loaded) 7"
    using qml_example_loaded(2) by (auto simp: qvalue_def fmdomI split: option.splits)
  ultimately show ?thesis by (intro qml_loaded_complete [OF qml_example_reach(1)]) auto
qed

text \<open>
  C16. QML shows what the notifications say: from the state an entity is in, whatever happens
  that does not drop it (its removal, or an unsubscription when the 32-bit counter of its
  subscriptions is at most one), in any order and mixed with writes, calls and events of other entities,
  its property for a component has the value of the last notification for that component, an
  invalid one after its removal, and the value it had if there was none. In particular a write
  from QML does not change what is shown before the server confirms it.
\<close>

theorem qml_values_follow_notifications:
  assumes "vq_reach qt s" and "vq_steps qt s xs s'" and "vq_getEntityById i s = Some m"
    and "never_dropped i xs (qvalue (vqRefs s) i 0)"
  shows "\<exists>m'. vq_getEntityById i s' = Some m' \<and>
    fmlookup (emValues m') c = fold (shown_after i c) xs (fmlookup (emValues m) c)"
  using assms(2) vq_reach_ok [OF assms(1)] assms(3,4) by (rule steps_shown)

definition qml_set :: "qvariant \<Rightarrow> vein_event" where
  "qml_set v = commandEvent_new NOTIFICATION (VComponent
     \<lparr> edOrigin = EO_FOREIGN, edTarget = ET_IRRELEVANT, edEntityId = 7, cdCommand = CCMD_SET,
       cdComponentName = ''U'', cdNewValue = v, cdOldValue = QInvalid \<rparr>)"

theorem qml_values_follow_notifications_witness:
  "\<exists>s' m'. vq_steps qt_ref qml_loaded [QmlEvent (qml_set (QInt 1)), QmlSubscribe 9, QmlSubscribe 7,
       QmlUnsubscribe 7, QmlEvent (qml_set (QInt 2))] s' \<and>
     vq_getEntityById 7 s' = Some m' \<and> fmlookup (emValues m') ''U'' = Some (QInt 2)"
proof -
  obtain m where m: "vq_getEntityById 7 qml_loaded = Some m"
    by (simp add: vq_getEntityById_def qml_example_defs Let_def em_load split_beta)
  let ?s1 = "fst (vq_processEvent qt_ref (qml_set (QInt 1)) qml_loaded)"
  let ?s2 = "fst (entitySubscribeById 7 (fst (entitySubscribeById 9 ?s1)))"
  let ?s3 = "fst (entityUnsubscribeById 7 ?s2)"
  let ?xs = "[QmlEvent (qml_set (QInt 1)), QmlSubscribe 9, QmlSubscribe 7, QmlUnsubscribe 7,
    QmlEvent (qml_set (QInt 2))]"
  have steps: "vq_steps qt_ref qml_loaded ?xs (fst (vq_processEvent qt_ref (qml_set (QInt 2)) ?s3))"
    by (rule vq_steps.More, rule vq_exec)+ (rule vq_steps.Done)
  have "never_dropped 7 ?xs (qvalue (vqRefs qml_loaded) 7 0)"
    by (simp add: qml_example_loaded(2) drops_def removes_entity_def counter_after_def qml_set_def
        commandEvent_new_def word_le_nat_alt)
  from qml_values_follow_notifications [OF qml_example_reach(2) steps m this, of "''U''"]
  show ?thesis using steps
    by (auto simp: shown_after_def shown_def qml_set_def commandEvent_new_def)
qed

text \<open>
  C39. The 32-bit subscription counter counts: starting anywhere, as long as fewer inputs come
  than the counter can still take, it equals the unbounded count of subscriptions of the entity
  minus the ends of subscriptions, which is zero again once the entity was dropped.
\<close>

theorem qml_subscription_counter:
  assumes "vq_steps qt s xs s'" and "unat (qvalue (vqRefs s) i 0) + length xs < 2 ^ 32"
  shows "unat (qvalue (vqRefs s') i 0) = fold (count_after i) xs (unat (qvalue (vqRefs s) i 0))"
  using assms by (rule steps_count)

theorem qml_subscription_counter_witness:
  "\<exists>s'. vq_steps qt_ref qml_loaded [QmlSubscribe 7, QmlSubscribe 7, QmlUnsubscribe 7] s' \<and>
     unat (qvalue (vqRefs s') 7 0) = 2"
proof -
  let ?s1 = "fst (entitySubscribeById 7 qml_loaded)" and ?xs = "[QmlSubscribe 7, QmlSubscribe 7, QmlUnsubscribe 7]"
  let ?s3 = "fst (entityUnsubscribeById 7 (fst (entitySubscribeById 7 ?s1)))"
  have steps: "vq_steps qt_ref qml_loaded ?xs ?s3"
    by (rule vq_steps.More, rule vq_exec)+ (rule vq_steps.Done)
  have "unat (qvalue (vqRefs qml_loaded) 7 0) = 1" using qml_example_loaded(2) by simp
  then have "unat (qvalue (vqRefs ?s3) 7 0) = 2"
    using qml_subscription_counter [OF steps, of 7] by simp
  then show ?thesis using steps by blast
qed

end
