(* ===== verification/Tasks.thy ===== *)
theory Tasks
  imports Actors
begin

text \<open>
  convenient-code/lib/tasks: the actors of clients as tasks, and the tasks composed of them that
  read and write one component, read an entity and call a procedure. Tasks, containers of tasks
  and time limits come from a library outside the repository: how a container runs its tasks and
  how a time limit ends one are the fields of \<open>task_lib\<close>, their documented behaviour is
  \<open>task_lib_ok\<close>.
\<close>

section \<open>Tasks\<close>

text \<open>
  A task is what happens between \<^verbatim>\<open>start\<close> and \<^verbatim>\<open>finishTask\<close>. Answers are inputs: the event
  of the server, or the data of the failed request, that reaches the task's item. A task without
  an answer does not finish by itself (\<open>None\<close>). The world holds the events sent and what the
  shared pointers of the tasks refer to.
\<close>

datatype task_answer = NoAnswer | AnswerEvent vein_event | AnswerError vein_data

record task_world =
  twSent :: "vein_event list"
  twComponentNames :: "string list"
  twValue :: qvariant
  twValues :: "qvariant list"
  twRpcSuccessful :: bool
  twRpcResult :: qvariant
  twRpcErrorMsg :: string

type_synonym bare_task = "task_world \<Rightarrow> task_world \<times> bool option"
type_synonym task = "task_world \<Rightarrow> task_world \<times> bool"

definition send_event :: "vein_event \<Rightarrow> task_world \<Rightarrow> task_world" where
  "send_event e w = w\<lparr>twSent := twSent w @ [e]\<rparr>"

record task_lib =
  tlSequence :: "task list \<Rightarrow> task"       \<comment> \<open>\<^verbatim>\<open>TaskContainerSequence\<close>\<close>
  tlParallel :: "task list \<Rightarrow> task"       \<comment> \<open>\<^verbatim>\<open>TaskContainerParallel\<close>\<close>
  tlTimeout :: "int \<Rightarrow> bool option \<Rightarrow> bool" \<comment> \<open>\<^verbatim>\<open>TaskDecoratorTimeout\<close>\<close>

definition with_timeout :: "task_lib \<Rightarrow> int \<Rightarrow> bare_task \<Rightarrow> task" where
  "with_timeout lib t f w = (let (w', r) = f w in (w', tlTimeout lib t r))"

text \<open>
  Documented: a sequence starts each task when the one before has succeeded and fails with the
  first that fails; a positive time limit turns a task that does not finish into a failure.
\<close>

definition task_lib_ok :: "task_lib \<Rightarrow> bool" where
  "task_lib_ok lib \<longleftrightarrow>
     (\<forall>f w. tlSequence lib [f] w = f w) \<and>
     (\<forall>f g fs w. tlSequence lib (f # g # fs) w =
        (let (w', ok) = f w in if ok then tlSequence lib (g # fs) w' else (w', False))) \<and>
     (\<forall>t r. 0 < t \<longrightarrow> tlTimeout lib t r = (r = Some True))"

section \<open>One actor\<close>

text \<open>\<^verbatim>\<open>TaskClientEntitySubscribe\<close>.\<close>

definition subscribe_signals :: "int \<Rightarrow> task_answer \<Rightarrow> subscriber \<times> actor_signal list" where
  "subscribe_signals i ans =
     (let s = \<lparr> suEntityId = i, suComponents = fmempty \<rparr> in
      case ans of
        NoAnswer \<Rightarrow> (s, [])
      | AnswerEvent e \<Rightarrow> subscriber_event e s
      | AnswerError od \<Rightarrow> (s, subscriber_error od s))"

definition task_subscribe :: "int \<Rightarrow> task_answer \<Rightarrow> bare_task" where
  "task_subscribe i ans w =
     (let w1 = send_event (subscriber_generateEvent i) w;
          (s, sigs) = subscribe_signals i ans
      in case sigs of
           SigSubscribed ok j # _ \<Rightarrow> (w1\<lparr>twComponentNames := getComponentNames s\<rparr>, Some ok)
         | _ \<Rightarrow> (w1, None))"

text \<open>
  \<^verbatim>\<open>TaskClientComponentFetcher\<close>. Its entity item hands it the events of its component; \<open>put\<close>
  stores into the shared value of this task.
\<close>

definition component_answer ::
  "string \<Rightarrow> (component_data \<Rightarrow> actor_signal list) \<Rightarrow> (component_data \<Rightarrow> actor_signal list) \<Rightarrow>
   task_answer \<Rightarrow> actor_signal list" where
  "component_answer n onEvent onError ans =
     (case ans of
        NoAnswer \<Rightarrow> []
      | AnswerEvent e \<Rightarrow>
          (case ceData e of VComponent d \<Rightarrow> if cdComponentName d = n then onEvent d else [] | _ \<Rightarrow> [])
      | AnswerError od \<Rightarrow>
          (case od of VComponent d \<Rightarrow> if cdComponentName d = n then onError d else [] | _ \<Rightarrow> []))"

definition task_fetcher ::
  "(qvariant \<Rightarrow> task_world \<Rightarrow> task_world) \<Rightarrow> int \<Rightarrow> string \<Rightarrow> task_answer \<Rightarrow> bare_task" where
  "task_fetcher put i n ans w =
     (let w1 = send_event (fetcher_generateEvent i n) w
      in case component_answer n fetcher_component fetcher_error ans of
           SigGetFinish ok v # _ \<Rightarrow> (put v w1, Some ok)
         | _ \<Rightarrow> (w1, None))"

text \<open>\<^verbatim>\<open>TaskClientComponentSetter\<close>; it is connected before it starts the setter.\<close>

definition task_setter ::
  "qt_lib \<Rightarrow> int \<Rightarrow> string \<Rightarrow> qvariant \<Rightarrow> qvariant \<Rightarrow> task_answer \<Rightarrow> bare_task" where
  "task_setter qt i n oldV newV ans w =
     (let (out, sigs) = startSetComponent qt i n oldV newV;
          w1 = fold send_event out w
      in case sigs @ component_answer n setter_component setter_error ans of
           SigSetFinish ok # _ \<Rightarrow> (w1, Some ok)
         | _ \<Rightarrow> (w1, None))"

text \<open>\<^verbatim>\<open>TaskClientRPCInvoker\<close>; the identifier is what \<^verbatim>\<open>createUuid\<close> returned.\<close>

definition task_rpc ::
  "qt_lib \<Rightarrow> quuid \<Rightarrow> int \<Rightarrow> string \<Rightarrow> qvariant_map \<Rightarrow> task_answer \<Rightarrow> bare_task" where
  "task_rpc qt ident i n params ans w =
     (let (s, out) = invokeRPC qt client_rpc_generateEvent ident n params
                       \<lparr> riEntityId = i, riPendingRPCs = {||} \<rparr>;
          w1 = fold send_event out w;
          sigs = (case ans of
                    NoAnswer \<Rightarrow> []
                  | AnswerEvent e \<Rightarrow> snd (invoker_event qt e s)
                  | AnswerError od \<Rightarrow> snd (invoker_error qt od s))
      in case sigs of
           SigRPCFinished ok m # _ \<Rightarrow>
             (w1\<lparr> twRpcSuccessful :=
                    qtEq qt (qvalue m s_resultCodeString QInvalid) (QInt RPC_SUCCESS),
                  twRpcResult := qvalue m s_returnString QInvalid,
                  twRpcErrorMsg := qtToString qt (qvalue m s_errorMessageString QInvalid) \<rparr>,
              Some ok)
         | _ \<Rightarrow> (w1, None))"

text \<open>\<^verbatim>\<open>TaskRpcTaskWrapper\<close>: the end of the wrapped task is announced with the call, then queued.\<close>

datatype wrapper_signal = SigRpcFinished bool quuid | FinishQueued bool

definition wrapper_onFinished :: "quuid \<Rightarrow> bool \<Rightarrow> wrapper_signal list" where
  "wrapper_onFinished callId ok = [SigRpcFinished ok callId, FinishQueued ok]"

section \<open>Composed tasks\<close>

definition put_value :: "qvariant \<Rightarrow> task_world \<Rightarrow> task_world" where
  "put_value v w = w\<lparr>twValue := v\<rparr>"

text \<open>\<^verbatim>\<open>TaskSimpleVeinGetter\<close>: subscribe, then fetch. Its value starts as the invalid variant.\<close>

definition simple_getter ::
  "task_lib \<Rightarrow> int \<Rightarrow> int \<Rightarrow> string \<Rightarrow> task_answer \<Rightarrow> task_answer \<Rightarrow> task" where
  "simple_getter lib t i n subAns getAns w =
     tlSequence lib
       [with_timeout lib t (task_subscribe i subAns),
        with_timeout lib t (task_fetcher put_value i n getAns)] (w\<lparr>twValue := QInvalid\<rparr>)"

text \<open>
  \<^verbatim>\<open>TaskSimpleVeinEntityGetter\<close>: subscribe, then fetch all components in parallel, each into a
  value of its own (\<open>k\<close> is its place). \<open>getAns\<close> holds the answers by component.
\<close>

definition put_nth :: "nat \<Rightarrow> qvariant \<Rightarrow> task_world \<Rightarrow> task_world" where
  "put_nth k v w = w\<lparr>twValues := (twValues w)[k := v]\<rparr>"

fun entity_fetchers ::
  "task_lib \<Rightarrow> int \<Rightarrow> int \<Rightarrow> (string \<Rightarrow> task_answer) \<Rightarrow> nat \<Rightarrow> string list \<Rightarrow> task list" where
  "entity_fetchers lib t i getAns k [] = []"
| "entity_fetchers lib t i getAns k (n # ns) =
     with_timeout lib t (task_fetcher (put_nth k) i n (getAns n)) #
     entity_fetchers lib t i getAns (Suc k) ns"

definition entity_getter ::
  "task_lib \<Rightarrow> int \<Rightarrow> int \<Rightarrow> task_answer \<Rightarrow> (string \<Rightarrow> task_answer) \<Rightarrow> task" where
  "entity_getter lib t i subAns getAns w =
     (let (w1, ok) = with_timeout lib t (task_subscribe i subAns) (w\<lparr> twComponentNames := [], twValues := [] \<rparr>)
      in if ok
         then tlParallel lib (entity_fetchers lib t i getAns 0 (twComponentNames w1))
                (w1\<lparr>twValues := map (\<lambda>n. QInvalid) (twComponentNames w1)\<rparr>)
         else (w1, False))"

text \<open>\<^verbatim>\<open>TaskSimpleVeinRPCInvoker\<close>: subscribe, then call.\<close>

definition simple_rpc_invoker ::
  "qt_lib \<Rightarrow> task_lib \<Rightarrow> int \<Rightarrow> quuid \<Rightarrow> int \<Rightarrow> string \<Rightarrow> qvariant_map \<Rightarrow> task_answer \<Rightarrow> task_answer \<Rightarrow>
   task" where
  "simple_rpc_invoker qt lib t ident i n params subAns rpcAns w =
     tlSequence lib
       [with_timeout lib t (task_subscribe i subAns),
        with_timeout lib t (task_rpc qt ident i n params rpcAns)] w"

text \<open>
  \<^verbatim>\<open>TaskSimpleVeinSetter\<close>: subscribe and fetch, then set. If the component holds a JSON object or
  a map, the new value is read as JSON text; text that is no JSON fails, and for any document
  that is not an object \<^verbatim>\<open>QJsonDocument::object\<close> is the empty object.
\<close>

datatype json_doc = JsonObject qvariant_map | JsonArray "qvariant list"

record json_lib =
  jlFromJson :: "string \<Rightarrow> json_doc option"        \<comment> \<open>\<^verbatim>\<open>fromJson(s.toUtf8())\<close>, \<open>None\<close>: null\<close>
  jlIsObject :: "qvariant \<Rightarrow> bool"                 \<comment> \<open>type \<^verbatim>\<open>QJsonObject\<close> or \<^verbatim>\<open>QVariantMap\<close>\<close>
  jlObject :: "qvariant_map \<Rightarrow> qvariant"           \<comment> \<open>\<^verbatim>\<open>QVariant(QJsonObject)\<close>\<close>

fun json_object :: "json_doc \<Rightarrow> qvariant_map" where
  "json_object (JsonObject m) = m"
| "json_object (JsonArray vs) = fmempty"

definition value_to_send :: "qt_lib \<Rightarrow> json_lib \<Rightarrow> qvariant \<Rightarrow> qvariant \<Rightarrow> qvariant option" where
  "value_to_send qt js oldV newV =
     (if jlIsObject js oldV
      then map_option (\<lambda>doc. jlObject js (json_object doc)) (jlFromJson js (qtToString qt newV))
      else Some newV)"

definition simple_setter ::
  "qt_lib \<Rightarrow> json_lib \<Rightarrow> task_lib \<Rightarrow> int \<Rightarrow> int \<Rightarrow> string \<Rightarrow> qvariant \<Rightarrow> task_answer \<Rightarrow> task_answer \<Rightarrow>
   task_answer \<Rightarrow> task" where
  "simple_setter qt js lib t i n newV subAns getAns setAns w =
     (let (w1, ok) = simple_getter lib t i n subAns getAns w
      in if ok
         then case value_to_send qt js (twValue w1) newV of
                None \<Rightarrow> (w1, False)
              | Some v \<Rightarrow>
                  tlSequence lib [with_timeout lib t (task_setter qt i n (twValue w1) v setAns)] w1
         else (w1, ok))"

section \<open>Answers\<close>

text \<open>The answers with which a task succeeds.\<close>

definition subscription_confirmed :: "task_answer \<Rightarrow> bool" where
  "subscription_confirmed ans =
     (case ans of
        AnswerEvent e \<Rightarrow> (case ceData e of VIntrospection d \<Rightarrow> id_isValid d | _ \<Rightarrow> False)
      | _ \<Rightarrow> False)"

definition fetched_value :: "string \<Rightarrow> task_answer \<Rightarrow> qvariant option" where
  "fetched_value n ans =
     (case ans of
        AnswerEvent e \<Rightarrow>
          (case ceData e of
             VComponent d \<Rightarrow>
               if cdComponentName d = n \<and> cdCommand d = CCMD_FETCH then Some (cdNewValue d) else None
           | _ \<Rightarrow> None)
      | _ \<Rightarrow> None)"

definition set_confirmed :: "string \<Rightarrow> task_answer \<Rightarrow> bool" where
  "set_confirmed n ans =
     (case ans of
        AnswerEvent e \<Rightarrow>
          (case ceData e of VComponent d \<Rightarrow> cdComponentName d = n \<and> cdCommand d = CCMD_SET | _ \<Rightarrow> False)
      | _ \<Rightarrow> False)"

lemma with_timeout_ok:
  "task_lib_ok lib \<Longrightarrow> 0 < t \<Longrightarrow>
   with_timeout lib t f w = (fst (f w), snd (f w) = Some True)"
  by (simp add: with_timeout_def task_lib_ok_def split_beta)

lemma subscribe_answers:
  "snd (subscribe_signals i ans) =
     (if subscription_confirmed ans then [SigSubscribed True i] else snd (subscribe_signals i ans)) \<and>
   (\<not> subscription_confirmed ans \<longrightarrow>
      snd (subscribe_signals i ans) = [] \<or> snd (subscribe_signals i ans) = [SigSubscribed False i])"
  by (auto simp: subscribe_signals_def subscription_confirmed_def subscriber_event_def
      subscriber_error_def Let_def split: task_answer.split vein_data.split)

lemma subscribe_outcome:
  assumes "task_lib_ok lib" and "0 < t"
  obtains names where "with_timeout lib t (task_subscribe i ans) w =
    (w\<lparr> twSent := twSent w @ [subscriber_generateEvent i], twComponentNames := names \<rparr>,
     subscription_confirmed ans)"
proof -
  have keep: "w\<lparr>twSent := x\<rparr> = w\<lparr> twSent := x, twComponentNames := twComponentNames w \<rparr>" for x
    by (cases w) simp
  show ?thesis
  proof (cases "snd (subscribe_signals i ans) = []")
    case True
    then have "\<not> subscription_confirmed ans" using subscribe_answers [of i ans] by auto
    then show ?thesis
      using True keep
      by (intro that [of "twComponentNames w"])
        (simp add: with_timeout_ok [OF assms] task_subscribe_def send_event_def split_beta)
  next
    case False
    then have "snd (subscribe_signals i ans) = [SigSubscribed (subscription_confirmed ans) i]"
      using subscribe_answers [of i ans] by (auto split: if_splits)
    then show ?thesis
      by (intro that)
        (simp add: with_timeout_ok [OF assms] task_subscribe_def send_event_def split_beta)
  qed
qed

lemma fetch_answers:
  "case fetched_value n ans of
     Some v \<Rightarrow> component_answer n fetcher_component fetcher_error ans = [SigGetFinish True v]
   | None \<Rightarrow> component_answer n fetcher_component fetcher_error ans = [] \<or>
       (\<exists>v. component_answer n fetcher_component fetcher_error ans = [SigGetFinish False v])"
  by (auto simp: component_answer_def fetched_value_def fetcher_component_def fetcher_error_def
      split: task_answer.split vein_data.split)

lemma fetch_outcome:
  assumes "task_lib_ok lib" and "0 < t"
  obtains w' where "with_timeout lib t (task_fetcher put_value i n ans) w =
      (w', fetched_value n ans \<noteq> None)"
    and "twSent w' = twSent w @ [fetcher_generateEvent i n]"
    and "\<And>v. fetched_value n ans = Some v \<Longrightarrow> twValue w' = v"
proof (rule that [of "fst (task_fetcher put_value i n ans w)"])
  show "with_timeout lib t (task_fetcher put_value i n ans) w =
      (fst (task_fetcher put_value i n ans w), fetched_value n ans \<noteq> None)"
    using fetch_answers [of n ans]
    by (cases "fetched_value n ans")
       (auto simp: with_timeout_ok [OF assms] task_fetcher_def Let_def)
  show "twSent (fst (task_fetcher put_value i n ans w)) = twSent w @ [fetcher_generateEvent i n]"
    using fetch_answers [of n ans]
    by (cases "fetched_value n ans")
       (auto simp: task_fetcher_def send_event_def put_value_def Let_def)
  show "\<And>v. fetched_value n ans = Some v \<Longrightarrow> twValue (fst (task_fetcher put_value i n ans w)) = v"
    using fetch_answers [of n ans] by (simp add: task_fetcher_def put_value_def Let_def)
qed

lemma set_answers:
  "component_answer n setter_component setter_error ans =
     (if set_confirmed n ans then [SigSetFinish True]
      else component_answer n setter_component setter_error ans) \<and>
   (\<not> set_confirmed n ans \<longrightarrow>
      component_answer n setter_component setter_error ans = [] \<or>
      component_answer n setter_component setter_error ans = [SigSetFinish False])"
  by (auto simp: component_answer_def set_confirmed_def setter_component_def setter_error_def
      split: task_answer.split vein_data.split)

lemma set_outcome:
  assumes "task_lib_ok lib" and "0 < t"
  shows "with_timeout lib t (task_setter qt i n oldV v ans) w =
    (w\<lparr>twSent := twSent w @
        (if qv_valid v \<and> \<not> qtEq qt oldV v then [setter_generateEvent qt i n oldV v] else [])\<rparr>,
     qv_valid v \<and> (qtEq qt oldV v \<or> set_confirmed n ans))"
  using set_answers [of n ans]
  by (cases "set_confirmed n ans")
     (auto simp: with_timeout_ok [OF assms] task_setter_def startSetComponent_def send_event_def)

lemma getter_outcome:
  assumes "task_lib_ok lib" and "0 < t"
  obtains w' where "simple_getter lib t i n subAns getAns w =
      (w', subscription_confirmed subAns \<and> fetched_value n getAns \<noteq> None)"
    and "twSent w' = twSent w @ [subscriber_generateEvent i] @
      (if subscription_confirmed subAns then [fetcher_generateEvent i n] else [])"
    and "\<And>v. subscription_confirmed subAns \<Longrightarrow> fetched_value n getAns = Some v \<Longrightarrow> twValue w' = v"
proof -
  obtain names where s: "with_timeout lib t (task_subscribe i subAns) (w\<lparr>twValue := QInvalid\<rparr>) =
      (w\<lparr> twValue := QInvalid, twSent := twSent w @ [subscriber_generateEvent i],
          twComponentNames := names \<rparr>, subscription_confirmed subAns)"
    using subscribe_outcome [OF assms, of i subAns "w\<lparr>twValue := QInvalid\<rparr>"] by fastforce
  let ?w1 = "w\<lparr> twValue := QInvalid, twSent := twSent w @ [subscriber_generateEvent i],
    twComponentNames := names \<rparr>"
  obtain w' where f: "with_timeout lib t (task_fetcher put_value i n getAns) ?w1 =
      (w', fetched_value n getAns \<noteq> None)" "twSent w' = twSent ?w1 @ [fetcher_generateEvent i n]"
    "\<And>v. fetched_value n getAns = Some v \<Longrightarrow> twValue w' = v"
    using fetch_outcome [OF assms, of i n getAns ?w1] by blast
  show ?thesis
  proof (cases "subscription_confirmed subAns")
    case True
    then show ?thesis
      using assms(1) s f by (intro that [of w']) (simp_all add: simple_getter_def task_lib_ok_def)
  next
    case False
    then show ?thesis
      using assms(1) s by (intro that [of ?w1]) (simp_all add: simple_getter_def task_lib_ok_def)
  qed
qed

section \<open>Properties\<close>

text \<open>
  Setting a component by a task: the task subscribes, fetches the component only when the
  subscription is confirmed, and sends one set event only when a value was fetched, the new
  value is acceptable (valid JSON if the component holds an object) and differs from the
  fetched one, which the event carries as the old value. The task succeeds exactly when the
  component then holds the value: it was equal already, or the server confirmed the set; errors,
  silence until the time limit and unacceptable values are failures.
\<close>

theorem simple_setter_outcome:
  assumes "task_lib_ok lib" and "0 < t"
    and "simple_setter qt js lib t i n newV subAns getAns setAns w = (w', ok)"
  defines "fetched \<equiv> (if subscription_confirmed subAns then fetched_value n getAns else None)"
  shows "twSent w' = twSent w @ [subscriber_generateEvent i] @
      (if subscription_confirmed subAns then [fetcher_generateEvent i n] else []) @
      (case fetched of
         None \<Rightarrow> []
       | Some oldV \<Rightarrow>
           (case value_to_send qt js oldV newV of
              None \<Rightarrow> []
            | Some v \<Rightarrow>
                if qv_valid v \<and> \<not> qtEq qt oldV v then [setter_generateEvent qt i n oldV v] else [])) \<and>
    (ok \<longleftrightarrow>
      (case fetched of
         None \<Rightarrow> False
       | Some oldV \<Rightarrow>
           (case value_to_send qt js oldV newV of
              None \<Rightarrow> False
            | Some v \<Rightarrow> qv_valid v \<and> (qtEq qt oldV v \<or> set_confirmed n setAns))))"
proof -
  obtain w1 where g: "simple_getter lib t i n subAns getAns w =
      (w1, subscription_confirmed subAns \<and> fetched_value n getAns \<noteq> None)"
    "twSent w1 = twSent w @ [subscriber_generateEvent i] @
      (if subscription_confirmed subAns then [fetcher_generateEvent i n] else [])"
    "\<And>v. subscription_confirmed subAns \<Longrightarrow> fetched_value n getAns = Some v \<Longrightarrow> twValue w1 = v"
    using getter_outcome [OF assms(1,2), of i n subAns getAns w] by blast
  show ?thesis
  proof (cases fetched)
    case None
    then show ?thesis
      using assms(3) g unfolding fetched_def by (auto simp: simple_setter_def split: if_splits)
  next
    case (Some oldV)
    then have f: "subscription_confirmed subAns" "fetched_value n getAns = Some oldV"
      "twValue w1 = oldV"
      using g(3) unfolding fetched_def by (simp_all split: if_splits)
    show ?thesis
      using assms(1,3) g(1,2) f Some set_outcome [OF assms(1,2), of qt i n oldV _ setAns w1]
      by (cases "value_to_send qt js oldV newV")
         (auto simp: simple_setter_def task_lib_ok_def simp del: not_None_eq)
  qed
qed

fun run_sequence :: "task list \<Rightarrow> task" where
  "run_sequence [] w = (w, True)"
| "run_sequence [f] w = f w"
| "run_sequence (f # g # fs) w =
     (let (w', ok) = f w in if ok then run_sequence (g # fs) w' else (w', False))"

definition example_tasks :: task_lib where
  "example_tasks = \<lparr> tlSequence = run_sequence, tlParallel = run_sequence,
     tlTimeout = (\<lambda>t r. r = Some True) \<rparr>"

lemma example_tasks_ok [simp]: "task_lib_ok example_tasks"
  by (simp add: task_lib_ok_def example_tasks_def Let_def split: prod.split)

definition example_json :: json_lib where
  "example_json = \<lparr> jlFromJson = (\<lambda>s. None), jlIsObject = (\<lambda>v. False), jlObject = QMapV \<rparr>"

definition example_world :: task_world where
  "example_world = \<lparr> twSent = [], twComponentNames = [], twValue = QInvalid, twValues = [],
     twRpcSuccessful = False, twRpcResult = QInvalid, twRpcErrorMsg = '''' \<rparr>"

definition example_component_answer :: "component_command \<Rightarrow> qvariant \<Rightarrow> task_answer" where
  "example_component_answer c v = AnswerEvent (commandEvent_new NOTIFICATION
     (VComponent ((componentData_for 7 c)\<lparr> cdComponentName := ''U'', cdNewValue := v \<rparr>)))"

definition example_introspection_answer :: task_answer where
  "example_introspection_answer = AnswerEvent (commandEvent_new NOTIFICATION
     (VIntrospection (setEntityId 7 (introspectionData_new\<lparr>idComponentValues := fmupd ''U'' (QBool False) fmempty\<rparr>))))"

theorem simple_setter_outcome_witness:
  "twSent (fst (simple_setter qt_ref example_json example_tasks 1000 7 ''U'' (QBool True)
     example_introspection_answer (example_component_answer CCMD_FETCH (QBool False))
     (example_component_answer CCMD_SET (QBool True)) example_world)) =
   [subscriber_generateEvent 7, fetcher_generateEvent 7 ''U'',
    setter_generateEvent qt_ref 7 ''U'' (QBool False) (QBool True)]"
proof -
  obtain w' ok where r: "simple_setter qt_ref example_json example_tasks 1000 7 ''U'' (QBool True)
     example_introspection_answer (example_component_answer CCMD_FETCH (QBool False))
     (example_component_answer CCMD_SET (QBool True)) example_world = (w', ok)" by fastforce
  have "subscription_confirmed example_introspection_answer"
    by (simp add: subscription_confirmed_def example_introspection_answer_def vein_defs record_glue)
  moreover have "fetched_value ''U'' (example_component_answer CCMD_FETCH (QBool False)) = Some (QBool False)"
    by (simp add: fetched_value_def example_component_answer_def vein_defs record_glue)
  ultimately show ?thesis
    using simple_setter_outcome [OF example_tasks_ok _ r] r
    by (simp add: value_to_send_def example_json_def example_world_def)
qed

end
