(* ===== verification/SignatureHandler.thy ===== *)
theory SignatureHandler
  imports License "HOL-Library.Multiset"
begin

text \<open>
  framework/vf-crypto-bridge, \<^verbatim>\<open>OpenSSLSignatureHandler\<close>: signing data and verifying signed data
  with the CMS functions of OpenSSL. The library is a parameter: what its functions yield is the
  record \<open>ssl_lib\<close>. The objects it hands out belong to the caller until freed; they are the
  live references of \<open>ssl_heap\<close>. Every allocation may fail.
\<close>

section \<open>Library and heap\<close>

datatype ssl_kind = KBio | KX509 | KStore | KKey | KCms

record ('cert, 'key, 'cms) ssl_lib =
  slMemory :: "nat \<Rightarrow> bool"              \<comment> \<open>the n-th allocation succeeds\<close>
  slReadCert :: "bytes \<Rightarrow> 'cert option"  \<comment> \<open>\<^verbatim>\<open>PEM_read_bio_X509\<close>\<close>
  slReadKey :: "bytes \<Rightarrow> (nat \<Rightarrow> bytes option) \<Rightarrow> 'key option"
                                       \<comment> \<open>\<^verbatim>\<open>PEM_read_bio_PrivateKey\<close> with the password callback\<close>
  slSign :: "'cert \<Rightarrow> 'key \<Rightarrow> bytes \<Rightarrow> nat \<Rightarrow> 'cms option"       \<comment> \<open>\<^verbatim>\<open>CMS_sign\<close>\<close>
  slWrite :: "'cms \<Rightarrow> bytes \<Rightarrow> nat \<Rightarrow> bytes option"            \<comment> \<open>\<^verbatim>\<open>SMIME_write_CMS\<close>\<close>
  slAddCert :: "'cert \<Rightarrow> bool"                              \<comment> \<open>\<^verbatim>\<open>X509_STORE_add_cert\<close>\<close>
  slReadCms :: "bytes \<Rightarrow> ('cms \<times> bytes option) option"      \<comment> \<open>\<^verbatim>\<open>SMIME_read_CMS\<close>\<close>
  slVerify :: "'cms \<Rightarrow> 'cert list \<Rightarrow> bytes option \<Rightarrow> bytes option" \<comment> \<open>\<^verbatim>\<open>CMS_verify\<close>\<close>

record ssl_heap =
  shNext :: nat
  shTime :: nat
  shLive :: "(nat, ssl_kind) fmap"
  shCallback :: "bytes option"          \<comment> \<open>\<^verbatim>\<open>s_pwCallbackImpl\<close> with the password it captured\<close>

text \<open>A call that hands out an object, or null.\<close>

definition ssl_make :: "ssl_kind \<Rightarrow> 'a option \<Rightarrow> ssl_heap \<Rightarrow> (nat \<times> 'a) option \<times> ssl_heap" where
  "ssl_make k x h =
     (case x of
        None \<Rightarrow> (None, h\<lparr>shTime := Suc (shTime h)\<rparr>)
      | Some a \<Rightarrow> (Some (shNext h, a),
          h\<lparr>shTime := Suc (shTime h), shNext := Suc (shNext h), shLive := fmupd (shNext h) k (shLive h)\<rparr>))"

definition ssl_new :: "('c, 'k, 'm) ssl_lib \<Rightarrow> ssl_kind \<Rightarrow> 'a \<Rightarrow> ssl_heap \<Rightarrow> (nat \<times> 'a) option \<times> ssl_heap" where
  "ssl_new lib k a h = ssl_make k (if slMemory lib (shTime h) then Some a else None) h"

text \<open>Freeing what is not live, or is of another kind, is undefined.\<close>

definition ssl_free :: "ssl_kind \<times> nat option \<Rightarrow> ssl_heap \<Rightarrow> ssl_heap option" where
  "ssl_free kp h =
     (case kp of
        (k, None) \<Rightarrow> Some h
      | (k, Some n) \<Rightarrow>
          (if fmlookup (shLive h) n = Some k then Some (h\<lparr>shLive := fmdrop n (shLive h)\<rparr>) else None))"

fun ssl_cleanup :: "(ssl_kind \<times> nat option) list \<Rightarrow> ssl_heap \<Rightarrow> ssl_heap option" where
  "ssl_cleanup [] h = Some h"
| "ssl_cleanup (kp # hs) h = Option.bind (ssl_free kp h) (ssl_cleanup hs)"

section \<open>The two operations\<close>

text \<open>What the callback writes to a buffer of the given size.\<close>

definition pwCallback :: "ssl_heap \<Rightarrow> nat \<Rightarrow> bytes option" where
  "pwCallback h n = map_option (\<lambda>pw. take (if length pw > n then n else length pw) pw) (shCallback h)"

text \<open>The local pointer variables.\<close>

record cms_vars =
  cvIn :: "nat option"
  cvOut :: "nat option"
  cvCertBio :: "nat option"
  cvKeyBio :: "nat option"
  cvContent :: "nat option"
  cvStore :: "nat option"
  cvCaCert :: "nat option"
  cvPrivKey :: "nat option"
  cvCms :: "nat option"

definition cms_vars_null :: cms_vars where
  "cms_vars_null = \<lparr> cvIn = None, cvOut = None, cvCertBio = None, cvKeyBio = None, cvContent = None,
     cvStore = None, cvCaCert = None, cvPrivKey = None, cvCms = None \<rparr>"

abbreviation obj_ref :: "(nat \<times> 'a) option \<Rightarrow> nat option" where
  "obj_ref p \<equiv> map_option fst p"

type_synonym cms_outcome = "cms_vars \<times> bytes \<times> bool \<times> ssl_heap"

definition CMS_DETACHED :: nat where "CMS_DETACHED = 0x40"
definition CMS_STREAM :: nat where "CMS_STREAM = 0x1000"

definition sign_flags :: nat where
  "sign_flags = CMS_DETACHED + CMS_STREAM"

text \<open>Signing, once certificate and key are read.\<close>

definition create_signed ::
  "('c, 'k, 'm) ssl_lib \<Rightarrow> 'c \<Rightarrow> 'k \<Rightarrow> bytes \<Rightarrow> cms_vars \<Rightarrow> ssl_heap \<Rightarrow> cms_outcome" where
  "create_signed lib c k payload v h =
     (let (inBIO, h) = ssl_new lib KBio payload h; v = v\<lparr>cvIn := obj_ref inBIO\<rparr>
      in case inBIO of
           None \<Rightarrow> (v, [], False, h)
         | Some (_, content) \<Rightarrow>
             (let (cmsInfo, h) = ssl_make KCms (slSign lib c k content sign_flags) h;
                  v = v\<lparr>cvCms := obj_ref cmsInfo\<rparr>
              in case cmsInfo of
                   None \<Rightarrow> (v, [], False, h)
                 | Some (_, m) \<Rightarrow>
                     (let (outBIO, h) = ssl_new lib KBio ([] :: bytes) h; v = v\<lparr>cvOut := obj_ref outBIO\<rparr>
                      in case outBIO of
                           None \<Rightarrow> (v, [], False, h)
                         | Some _ \<Rightarrow>
                             (case slWrite lib m content sign_flags of
                                None \<Rightarrow> (v, [], False, h)
                              | Some out \<Rightarrow> (v, out, True, h)))))"

definition create_body ::
  "('c, 'k, 'm) ssl_lib \<Rightarrow> bytes \<Rightarrow> bytes \<Rightarrow> bytes \<Rightarrow> bytes \<Rightarrow> ssl_heap \<Rightarrow> cms_outcome" where
  "create_body lib ca key payload pw h =
     (let (certBIO, h) = ssl_new lib KBio ca h;
          (privKeyBIO, h) = ssl_new lib KBio key h;
          v = cms_vars_null\<lparr>cvCertBio := obj_ref certBIO, cvKeyBio := obj_ref privKeyBIO\<rparr>
      in case (certBIO, privKeyBIO) of
           (Some (_, cert), Some (_, pem)) \<Rightarrow>
             (let (caCert, h) = ssl_make KX509 (slReadCert lib cert) h;
                  h = h\<lparr>shCallback := Some pw\<rparr>;
                  (privKey, h) = ssl_make KKey (slReadKey lib pem (pwCallback h)) h;
                  h = h\<lparr>shCallback := None\<rparr>;
                  v = v\<lparr>cvCaCert := obj_ref caCert, cvPrivKey := obj_ref privKey\<rparr>
              in case (caCert, privKey) of
                   (Some (_, c), Some (_, k)) \<Rightarrow> create_signed lib c k payload v h
                 | _ \<Rightarrow> (v, [], False, h))
         | _ \<Rightarrow> (v, [], False, h))"

definition create_order :: "cms_vars \<Rightarrow> (ssl_kind \<times> nat option) list" where
  "create_order v = [(KCms, cvCms v), (KX509, cvCaCert v), (KKey, cvPrivKey v), (KBio, cvIn v),
     (KBio, cvOut v), (KBio, cvCertBio v), (KBio, cvKeyBio v)]"

definition createCMSSignature ::
  "('c, 'k, 'm) ssl_lib \<Rightarrow> bytes \<Rightarrow> bytes \<Rightarrow> bytes \<Rightarrow> bytes \<Rightarrow> ssl_heap \<Rightarrow> (bytes \<times> bool \<times> ssl_heap) option" where
  "createCMSSignature lib ca key payload pw h =
     (let (v, retVal, successFlag, h) = create_body lib ca key payload pw h
      in map_option (\<lambda>h. (retVal, successFlag, h)) (ssl_cleanup (create_order v) h))"

text \<open>Verifying, once the certificate is in the store.\<close>

definition verify_signed ::
  "('c, 'k, 'm) ssl_lib \<Rightarrow> 'c list \<Rightarrow> bytes \<Rightarrow> cms_vars \<Rightarrow> ssl_heap \<Rightarrow> cms_outcome" where
  "verify_signed lib store mail_data v h =
     (let (inBIO, h) = ssl_new lib KBio mail_data h; v = v\<lparr>cvIn := obj_ref inBIO\<rparr>
      in case inBIO of
           None \<Rightarrow> (v, [], False, h)
         | Some (_, mail) \<Rightarrow>
             (let (cmsInfo, h) = ssl_make KCms (map_option fst (slReadCms lib mail)) h;
                  (contentBIO, h) = ssl_make KBio (Option.bind (slReadCms lib mail) snd) h;
                  v = v\<lparr>cvCms := obj_ref cmsInfo, cvContent := obj_ref contentBIO\<rparr>
              in case cmsInfo of
                   None \<Rightarrow> (v, [], False, h)
                 | Some (_, m) \<Rightarrow>
                     (let (outBIO, h) = ssl_new lib KBio ([] :: bytes) h; v = v\<lparr>cvOut := obj_ref outBIO\<rparr>
                      in case outBIO of
                           None \<Rightarrow> (v, [], False, h)
                         | Some _ \<Rightarrow>
                             (case slVerify lib m store (map_option snd contentBIO) of
                                None \<Rightarrow> (v, [], False, h)
                              | Some out \<Rightarrow> (v, out, True, h)))))"

text \<open>The store is used without a test; without it the call is undefined.\<close>

definition verify_body ::
  "('c, 'k, 'm) ssl_lib \<Rightarrow> bytes \<Rightarrow> bytes \<Rightarrow> ssl_heap \<Rightarrow> cms_outcome option" where
  "verify_body lib ca mail_data h =
     (let (certStore, h) = ssl_new lib KStore [] h;
          (certBIO, h) = ssl_new lib KBio ca h;
          v = cms_vars_null\<lparr>cvStore := obj_ref certStore, cvCertBio := obj_ref certBIO\<rparr>
      in case certBIO of
           None \<Rightarrow> Some (v, [], False, h)
         | Some (_, cert) \<Rightarrow>
             (let (caCert, h) = ssl_make KX509 (slReadCert lib cert) h; v = v\<lparr>cvCaCert := obj_ref caCert\<rparr>
              in case caCert of
                   None \<Rightarrow> Some (v, [], False, h)
                 | Some (_, c) \<Rightarrow>
                     (case certStore of
                        None \<Rightarrow> None
                      | Some (_, store) \<Rightarrow>
                          (if slAddCert lib c then Some (verify_signed lib (store @ [c]) mail_data v h)
                           else Some (v, [], False, h)))))"

definition verify_order :: "cms_vars \<Rightarrow> (ssl_kind \<times> nat option) list" where
  "verify_order v = [(KCms, cvCms v), (KX509, cvCaCert v), (KStore, cvStore v), (KBio, cvIn v),
     (KBio, cvOut v), (KBio, cvCertBio v), (KBio, cvContent v)]"

definition verifyCMSSignature ::
  "('c, 'k, 'm) ssl_lib \<Rightarrow> bytes \<Rightarrow> bytes \<Rightarrow> ssl_heap \<Rightarrow> (bytes \<times> bool \<times> ssl_heap) option" where
  "verifyCMSSignature lib ca mail_data h =
     (case verify_body lib ca mail_data h of
        None \<Rightarrow> None
      | Some (v, retVal, successFlag, h) \<Rightarrow>
          map_option (\<lambda>h. (retVal, successFlag, h)) (ssl_cleanup (verify_order v) h))"

section \<open>Ownership\<close>

text \<open>The references that pointers hold, and the heap that has just these beyond an earlier heap.\<close>

definition owned :: "(ssl_kind \<times> nat option) list \<Rightarrow> (nat \<times> ssl_kind) list" where
  "owned hs = map (\<lambda>(k, p). (the p, k)) (filter (\<lambda>(k, p). p \<noteq> None) hs)"

lemma owned_simps [simp]:
  "owned [] = []" "owned ((k, None) # hs) = owned hs" "owned ((k, Some n) # hs) = (n, k) # owned hs"
  by (simp_all add: owned_def)

definition held :: "ssl_kind \<Rightarrow> nat option \<Rightarrow> (nat \<times> ssl_kind) multiset" where
  "held k p = (case p of None \<Rightarrow> {#} | Some n \<Rightarrow> {#(n, k)#})"

lemma held_null: "held k None = {#}"
  by (simp add: held_def)

lemma mset_owned_cons: "mset (owned ((k, p) # hs)) = held k p + mset (owned hs)"
  by (cases p) (simp_all add: held_def)

lemmas mset_owned = mset_owned_cons held_null owned_simps(1) mset.simps(1)

definition heap_fresh :: "ssl_heap \<Rightarrow> bool" where
  "heap_fresh h \<longleftrightarrow> (\<forall>n. fmlookup (shLive h) n \<noteq> None \<longrightarrow> n < shNext h)"

definition owns :: "ssl_heap \<Rightarrow> ssl_heap \<Rightarrow> (ssl_kind \<times> nat option) list \<Rightarrow> bool" where
  "owns h0 h hs \<longleftrightarrow> distinct (map fst (owned hs)) \<and> shNext h0 \<le> shNext h \<and>
     (\<forall>n \<in> fst ` set (owned hs). shNext h0 \<le> n \<and> n < shNext h) \<and>
     (\<forall>n. fmlookup (shLive h) n =
        (case map_of (owned hs) n of Some k \<Rightarrow> Some k | None \<Rightarrow> fmlookup (shLive h0) n))"

lemma owns_refl [simp]: "owns h h []"
  by (simp add: owns_def)

lemma owns_null [simp]: "owns h0 h ((k, None) # hs) = owns h0 h hs"
  by (simp add: owns_def)

lemma owns_callback [simp]: "owns h0 (h\<lparr>shCallback := c\<rparr>) hs = owns h0 h hs"
  by (simp add: owns_def)

lemma owns_perm:
  assumes "owns h0 h hs" and "mset (owned hs) = mset (owned hs')"
  shows "owns h0 h hs'"
proof -
  have "mset (map fst (owned hs)) = mset (map fst (owned hs'))" using assms(2) by simp
  then have distinct: "distinct (map fst (owned hs'))"
    using assms(1) by (metis owns_def mset_eq_imp_distinct_iff)
  have set: "set (owned hs') = set (owned hs)" using assms(2) by (metis set_mset_mset)
  then have "map_of (owned hs') = map_of (owned hs)"
    using assms(1) distinct by (simp add: owns_def map_of_inject_set)
  then show ?thesis using assms(1) distinct set by (simp add: owns_def)
qed

lemma owns_make:
  assumes "owns h0 h hs" and "ssl_make k x h = (p, h')"
  shows "owns h0 h' ((k, map_option fst p) # hs)"
proof (cases x)
  case None
  then have "p = None" "h' = h\<lparr>shTime := Suc (shTime h)\<rparr>" using assms(2) by (simp_all add: ssl_make_def)
  then show ?thesis using assms(1) by (simp add: owns_def)
next
  case (Some a)
  then have h': "p = Some (shNext h, a)" "h' = h\<lparr>shTime := Suc (shTime h), shNext := Suc (shNext h),
      shLive := fmupd (shNext h) k (shLive h)\<rparr>"
    using assms(2) by (simp_all add: ssl_make_def)
  have "shNext h \<notin> fst ` set (owned hs)" using assms(1) by (auto simp: owns_def)
  then show ?thesis using assms(1) by (simp add: owns_def h' less_Suc_eq)
qed

lemma owns_new:
  "owns h0 h hs \<Longrightarrow> ssl_new lib k a h = (p, h') \<Longrightarrow> owns h0 h' ((k, map_option fst p) # hs)"
  unfolding ssl_new_def by (rule owns_make)

lemma cleanup_restores:
  assumes "heap_fresh h0" and "owns h0 h hs"
  shows "\<exists>h'. ssl_cleanup hs h = Some h' \<and> shLive h' = shLive h0 \<and> shCallback h' = shCallback h \<and>
    shNext h' = shNext h \<and> shTime h' = shTime h"
  using assms(2)
proof (induction hs arbitrary: h)
  case Nil
  then show ?case by (auto simp: owns_def intro: fmap_ext)
next
  case (Cons kp hs)
  obtain k p where kp: "kp = (k, p)" by (cases kp)
  show ?case
  proof (cases p)
    case None
    then show ?thesis using Cons by (simp add: kp ssl_free_def)
  next
    case (Some n)
    let ?h = "h\<lparr>shLive := fmdrop n (shLive h)\<rparr>"
    have "n \<ge> shNext h0" "n \<notin> fst ` set (owned hs)" using Cons.prems by (simp_all add: kp Some owns_def)
    then have "fmlookup (shLive h0) n = None" "map_of (owned hs) n = None"
      using assms(1) by (auto simp: heap_fresh_def map_of_eq_None_iff not_le [symmetric])
    then have "owns h0 ?h hs" using Cons.prems by (simp add: kp Some owns_def)
    moreover have "fmlookup (shLive h) n = Some k" using Cons.prems by (simp add: kp Some owns_def)
    ultimately show ?thesis using Cons.IH [of ?h] by (auto simp: kp Some ssl_free_def)
  qed
qed

lemma make_callback:
  "ssl_make k x h = (p, h') \<Longrightarrow> shCallback h' = shCallback h"
  "ssl_new lib k a h = (p, h') \<Longrightarrow> shCallback h' = shCallback h"
  by (auto simp: ssl_make_def ssl_new_def split: option.splits)

text \<open>The pointers of a body own what it has allocated.\<close>

lemma create_signed_owns:
  assumes "create_signed lib c k payload v h = (v', r, ok, h')"
    and "owns h0 h (create_order v)" and "cvIn v = None" "cvCms v = None" "cvOut v = None"
  shows "owns h0 h' (create_order v') \<and> shCallback h' = shCallback h"
proof -
  obtain inBIO h1 where i: "ssl_new lib KBio payload h = (inBIO, h1)" by fastforce
  have o1: "owns h0 h1 ((KBio, obj_ref inBIO) # create_order v)" by (rule owns_new [OF assms(2) i])
  show ?thesis
  proof (cases inBIO)
    case None
    then have "v' = v\<lparr>cvIn := obj_ref inBIO\<rparr>" "h' = h1" using assms(1) i by (auto simp: create_signed_def)
    then show ?thesis using o1 make_callback(2) [OF i] None assms(3) by (simp add: create_order_def)
  next
    case (Some b)
    obtain m h2 where m: "ssl_make KCms (slSign lib c k (snd b) sign_flags) h1 = (m, h2)" by fastforce
    have o2: "owns h0 h2 ((KCms, obj_ref m) # (KBio, obj_ref inBIO) # create_order v)" by (rule owns_make [OF o1 m])
    show ?thesis
    proof (cases m)
      case None
      then have "v' = v\<lparr>cvIn := obj_ref inBIO, cvCms := obj_ref m\<rparr>" "h' = h2"
        using assms(1) i m Some by (auto simp: create_signed_def split_beta)
      then show ?thesis
        using owns_perm [OF o2] make_callback(2) [OF i] make_callback(1) [OF m] None assms(3-5)
        by (simp add: create_order_def mset_owned ac_simps del: owned_simps)
    next
      case s: (Some a)
      obtain outBIO h3 where u: "ssl_new lib KBio ([] :: bytes) h2 = (outBIO, h3)" by fastforce
      have o3: "owns h0 h3 ((KBio, obj_ref outBIO) # (KCms, obj_ref m) # (KBio, obj_ref inBIO) # create_order v)"
        by (rule owns_new [OF o2 u])
      have "v' = v\<lparr>cvIn := obj_ref inBIO, cvCms := obj_ref m, cvOut := obj_ref outBIO\<rparr>" "h' = h3"
        using assms(1) i m u Some s
        by (auto simp: create_signed_def split_beta Let_def split: option.splits)
      then show ?thesis
        using owns_perm [OF o3] make_callback(2) [OF i] make_callback(1) [OF m] make_callback(2) [OF u]
          assms(3-5)
        by (simp add: create_order_def mset_owned ac_simps del: owned_simps)
    qed
  qed
qed

lemma create_body_owns:
  assumes "create_body lib ca key payload pw h = (v, r, ok, h')" and "shCallback h = None"
  shows "owns h h' (create_order v) \<and> shCallback h' = None"
proof -
  obtain certBIO h1 where c: "ssl_new lib KBio ca h = (certBIO, h1)" by fastforce
  obtain keyBIO h2 where k: "ssl_new lib KBio key h1 = (keyBIO, h2)" by fastforce
  have o2: "owns h h2 [(KBio, obj_ref keyBIO), (KBio, obj_ref certBIO)]"
    by (rule owns_new [OF owns_new [OF owns_refl c] k])
  have cb2: "shCallback h2 = None" using make_callback(2) [OF c] make_callback(2) [OF k] assms(2) by simp
  show ?thesis
  proof (cases "certBIO = None \<or> keyBIO = None")
    case True
    then have "v = cms_vars_null\<lparr>cvCertBio := obj_ref certBIO, cvKeyBio := obj_ref keyBIO\<rparr>" "h' = h2"
      using assms(1) c k by (auto simp: create_body_def Let_def split: option.splits)
    then show ?thesis
      using owns_perm [OF o2] cb2
      by (simp add: create_order_def cms_vars_null_def mset_owned ac_simps del: owned_simps)
  next
    case False
    then obtain i cert j pem where s: "certBIO = Some (i, cert)" "keyBIO = Some (j, pem)" by auto
    obtain caCert h3 where x: "ssl_make KX509 (slReadCert lib cert) h2 = (caCert, h3)" by fastforce
    let ?h = "h3\<lparr>shCallback := Some pw\<rparr>"
    obtain privKey h4 where y: "ssl_make KKey (slReadKey lib pem (pwCallback ?h)) ?h = (privKey, h4)"
      by fastforce
    let ?v = "cms_vars_null\<lparr>cvCertBio := Some i, cvKeyBio := Some j,
        cvCaCert := obj_ref caCert, cvPrivKey := obj_ref privKey\<rparr>"
    let ?h' = "h4\<lparr>shCallback := None\<rparr>"
    have body: "create_body lib ca key payload pw h =
        (case (caCert, privKey) of
           (Some (_, a), Some (_, b)) \<Rightarrow> create_signed lib a b payload ?v ?h'
         | _ \<Rightarrow> (?v, [], False, ?h'))"
      by (simp add: create_body_def c [unfolded s] k [unfolded s] x y Let_def)
    have "owns h ?h ((KX509, obj_ref caCert) # [(KBio, obj_ref keyBIO), (KBio, obj_ref certBIO)])"
      using owns_make [OF o2 x] by simp
    from owns_make [OF this y] have o4: "owns h ?h' (create_order ?v)"
      unfolding owns_callback
      by (rule owns_perm) (simp add: s create_order_def cms_vars_null_def mset_owned ac_simps del: owned_simps)
    have null: "cvIn ?v = None" "cvCms ?v = None" "cvOut ?v = None" by (simp_all add: cms_vars_null_def)
    have "(v = ?v \<and> h' = ?h') \<or> (\<exists>a b. create_signed lib a b payload ?v ?h' = (v, r, ok, h'))"
      using assms(1) unfolding body by (auto split: option.splits)
    then show ?thesis using create_signed_owns [OF _ o4 null, of lib] o4 by fastforce
  qed
qed

lemma verify_signed_owns:
  assumes "verify_signed lib store mail_data v h = (v', r, ok, h')"
    and "owns h0 h (verify_order v)" and "cvIn v = None" "cvCms v = None" "cvOut v = None" "cvContent v = None"
  shows "owns h0 h' (verify_order v') \<and> shCallback h' = shCallback h"
proof -
  obtain inBIO h1 where i: "ssl_new lib KBio mail_data h = (inBIO, h1)" by fastforce
  have o1: "owns h0 h1 ((KBio, obj_ref inBIO) # verify_order v)" by (rule owns_new [OF assms(2) i])
  show ?thesis
  proof (cases inBIO)
    case None
    then have "v' = v\<lparr>cvIn := obj_ref inBIO\<rparr>" "h' = h1" using assms(1) i by (auto simp: verify_signed_def)
    then show ?thesis using o1 make_callback(2) [OF i] None assms(3) by (simp add: verify_order_def)
  next
    case (Some b)
    obtain m h2 where m: "ssl_make KCms (map_option fst (slReadCms lib (snd b))) h1 = (m, h2)" by fastforce
    obtain t h3 where t: "ssl_make KBio (Option.bind (slReadCms lib (snd b)) snd) h2 = (t, h3)" by fastforce
    have o3: "owns h0 h3 ((KBio, obj_ref t) # (KCms, obj_ref m) # (KBio, obj_ref inBIO) # verify_order v)"
      by (rule owns_make [OF owns_make [OF o1 m] t])
    have cb: "shCallback h3 = shCallback h"
      using make_callback(2) [OF i] make_callback(1) [OF m] make_callback(1) [OF t] by simp
    show ?thesis
    proof (cases m)
      case None
      then have "v' = v\<lparr>cvIn := obj_ref inBIO, cvCms := obj_ref m, cvContent := obj_ref t\<rparr>" "h' = h3"
        using assms(1) i m t Some by (auto simp: verify_signed_def split_beta Let_def)
      then show ?thesis
        using owns_perm [OF o3] cb assms(3-6)
        by (simp add: verify_order_def mset_owned ac_simps del: owned_simps)
    next
      case s: (Some a)
      obtain outBIO h4 where u: "ssl_new lib KBio ([] :: bytes) h3 = (outBIO, h4)" by fastforce
      have "v' = v\<lparr>cvIn := obj_ref inBIO, cvCms := obj_ref m, cvContent := obj_ref t, cvOut := obj_ref outBIO\<rparr>" "h' = h4"
        using assms(1) i m t u Some s
        by (auto simp: verify_signed_def split_beta Let_def split: option.splits)
      then show ?thesis
        using owns_perm [OF owns_new [OF o3 u]] cb make_callback(2) [OF u] assms(3-6)
        by (simp add: verify_order_def mset_owned ac_simps del: owned_simps)
    qed
  qed
qed

lemma verify_body_owns:
  fixes lib :: "('c, 'k, 'm) ssl_lib"
  assumes "verify_body lib ca mail_data h = Some (v, r, ok, h')"
  shows "owns h h' (verify_order v) \<and> shCallback h' = shCallback h"
proof -
  obtain certStore h1 where s: "ssl_new lib KStore ([] :: 'c list) h = (certStore, h1)" by fastforce
  obtain certBIO h2 where c: "ssl_new lib KBio ca h1 = (certBIO, h2)" by fastforce
  have o2: "owns h h2 [(KBio, obj_ref certBIO), (KStore, obj_ref certStore)]"
    by (rule owns_new [OF owns_new [OF owns_refl s] c])
  have cb: "shCallback h2 = shCallback h" using make_callback(2) [OF s] make_callback(2) [OF c] by simp
  show ?thesis
  proof (cases certBIO)
    case None
    then have "v = cms_vars_null\<lparr>cvStore := obj_ref certStore, cvCertBio := obj_ref certBIO\<rparr>" "h' = h2"
      using assms s c by (auto simp: verify_body_def Let_def)
    then show ?thesis
      using owns_perm [OF o2] cb
      by (simp add: verify_order_def cms_vars_null_def mset_owned ac_simps del: owned_simps)
  next
    case (Some cert)
    obtain caCert h3 where x: "ssl_make KX509 (slReadCert lib (snd cert)) h2 = (caCert, h3)" by fastforce
    let ?v = "cms_vars_null\<lparr>cvStore := obj_ref certStore, cvCertBio := obj_ref certBIO, cvCaCert := obj_ref caCert\<rparr>"
    have o3: "owns h h3 (verify_order ?v)"
      using owns_perm [OF owns_make [OF o2 x]]
      by (simp add: verify_order_def cms_vars_null_def mset_owned ac_simps del: owned_simps)
    have cb3: "shCallback h3 = shCallback h" using cb make_callback(1) [OF x] by simp
    have null: "cvIn ?v = None" "cvCms ?v = None" "cvOut ?v = None" "cvContent ?v = None"
      by (simp_all add: cms_vars_null_def)
    have "(v = ?v \<and> h' = h3) \<or> (\<exists>store. verify_signed lib store mail_data ?v h3 = (v, r, ok, h'))"
      using assms s c x Some
      by (auto simp: verify_body_def split_beta Let_def split: option.splits if_splits)
    then show ?thesis using o3 cb3 verify_signed_owns [OF _ o3 null, of lib] by metis
  qed
qed

section \<open>Properties\<close>

text \<open>
  C36. The signature handler frees what it allocates, once. Whatever the library's functions
  yield and whichever allocations fail, signing ends with exactly the live objects it started
  with and with the password callback unset, and frees nothing twice. The same holds of
  verifying, but when the certificate store could not be allocated and the certificate could be
  read: then a null store is used.
\<close>

theorem signature_objects_freed:
  assumes "heap_fresh h" and "shCallback h = None"
  shows "(\<exists>r ok h'. createCMSSignature lib ca key payload pw h = Some (r, ok, h') \<and>
      shLive h' = shLive h \<and> shCallback h' = None) \<and>
    (case verifyCMSSignature lib ca mail h of
       None \<Rightarrow> \<not> slMemory lib (shTime h) \<and> slMemory lib (Suc (shTime h)) \<and> slReadCert lib ca \<noteq> None
     | Some (r, ok, h') \<Rightarrow> shLive h' = shLive h \<and> shCallback h' = None)"
proof -
  obtain v r ok h1 where b: "create_body lib ca key payload pw h = (v, r, ok, h1)"
    using prod_cases4 by blast
  have "\<exists>r ok h'. createCMSSignature lib ca key payload pw h = Some (r, ok, h') \<and>
      shLive h' = shLive h \<and> shCallback h' = None"
    using cleanup_restores [OF assms(1)] create_body_owns [OF b assms(2)] b
    by (fastforce simp: createCMSSignature_def)
  moreover have crash: "\<not> slMemory lib (shTime h) \<and> slMemory lib (Suc (shTime h)) \<and> slReadCert lib ca \<noteq> None"
    if "verify_body lib ca mail h = None"
    using that
    by (auto simp: verify_body_def ssl_new_def ssl_make_def Let_def split: option.splits if_splits)
  moreover have "case verifyCMSSignature lib ca mail h of
        None \<Rightarrow> \<not> slMemory lib (shTime h) \<and> slMemory lib (Suc (shTime h)) \<and> slReadCert lib ca \<noteq> None
      | Some (r, ok, h') \<Rightarrow> shLive h' = shLive h \<and> shCallback h' = None"
  proof (cases "verify_body lib ca mail h")
    case None
    then show ?thesis using crash by (simp add: verifyCMSSignature_def)
  next
    case (Some x)
    obtain v r ok h1 where x: "x = (v, r, ok, h1)" using prod_cases4 by blast
    show ?thesis
      using cleanup_restores [OF assms(1)] verify_body_owns [OF Some [unfolded x]] assms(2)
      by (fastforce simp: verifyCMSSignature_def Some x)
  qed
  ultimately show ?thesis by blast
qed

definition ssl_heap_new :: ssl_heap where
  "ssl_heap_new = \<lparr> shNext = 0, shTime = 0, shLive = fmempty, shCallback = None \<rparr>"

lemma ssl_heap_new_fresh [simp]: "heap_fresh ssl_heap_new" "shCallback ssl_heap_new = None"
  by (simp_all add: ssl_heap_new_def heap_fresh_def)

text \<open>A small library: certificates and keys are bytes, a password shifts the key.\<close>

definition example_ssl :: "(byte, byte, byte) ssl_lib" where
  "example_ssl = \<lparr> slMemory = (\<lambda>n. True),
     slReadCert = (\<lambda>bs. case bs of [x] \<Rightarrow> Some x | _ \<Rightarrow> None),
     slReadKey = (\<lambda>bs cb. case (bs, cb 1024) of ([x], Some [y]) \<Rightarrow> Some (x - y) | _ \<Rightarrow> None),
     slSign = (\<lambda>c k d f. if c = k then Some k else None), slWrite = (\<lambda>m d f. Some (m # d)),
     slAddCert = (\<lambda>c. True),
     slReadCms = (\<lambda>bs. case bs of m # d \<Rightarrow> Some (m, Some d) | _ \<Rightarrow> None),
     slVerify = (\<lambda>m cs t. if m \<in> set cs then t else None) \<rparr>"

theorem signature_objects_freed_witness:
  "\<exists>r ok h'. createCMSSignature (example_ssl\<lparr>slMemory := (\<lambda>n. n < 3)\<rparr>) [5] [8] [1, 2] [3] ssl_heap_new =
     Some (r, ok, h') \<and> shLive h' = shLive ssl_heap_new \<and> shCallback h' = None"
  using signature_objects_freed [OF ssl_heap_new_fresh] by blast

text \<open>What both operations compute when memory lasts.\<close>

definition cms_check :: "('c, 'k, 'm) ssl_lib \<Rightarrow> bytes \<Rightarrow> bytes \<Rightarrow> bytes option" where
  "cms_check lib ca mail =
     Option.bind (slReadCert lib ca) (\<lambda>c. if slAddCert lib c
       then Option.bind (slReadCms lib mail) (\<lambda>(m, t). slVerify lib m [c] t) else None)"

definition cms_create :: "('c, 'k, 'm) ssl_lib \<Rightarrow> bytes \<Rightarrow> bytes \<Rightarrow> bytes \<Rightarrow> bytes \<Rightarrow> bytes option" where
  "cms_create lib ca key payload pw =
     Option.bind (slReadCert lib ca) (\<lambda>c.
     Option.bind (slReadKey lib key (\<lambda>n. Some (take n pw))) (\<lambda>k.
     Option.bind (slSign lib c k payload sign_flags) (\<lambda>m. slWrite lib m payload sign_flags)))"

lemma verify_body_result:
  assumes "verify_body lib ca mail h = Some (v, r, ok, h')"
  shows "(ok \<longrightarrow> cms_check lib ca mail = Some r) \<and> (\<not> ok \<longrightarrow> r = [])"
  using assms
  by (auto simp: verify_body_def verify_signed_def ssl_new_def ssl_make_def cms_check_def Let_def
      split: option.splits if_splits)

lemma verify_body_memory:
  assumes "\<forall>n. slMemory lib n"
  obtains v h' where "verify_body lib ca mail h =
    Some (v, case cms_check lib ca mail of None \<Rightarrow> ([], False, h') | Some out \<Rightarrow> (out, True, h'))"
proof (cases "verify_body lib ca mail h")
  case None
  then show ?thesis using assms
    by (auto simp: verify_body_def ssl_new_def ssl_make_def Let_def split: option.splits if_splits)
next
  case (Some x)
  obtain v r ok h' where x: "x = (v, r, ok, h')" using prod_cases4 by blast
  have "ok" if "cms_check lib ca mail = Some r'" for r'
    using that Some x assms
    by (auto simp: verify_body_def verify_signed_def ssl_new_def ssl_make_def cms_check_def Let_def
        bind_eq_Some_conv split: option.splits if_splits)
  then show ?thesis
    using verify_body_result [OF Some [unfolded x]] Some x that [of v h']
    by (cases "cms_check lib ca mail"; cases ok) auto
qed

lemma pwCallback_take: "pwCallback (h\<lparr>shCallback := Some pw\<rparr>) = (\<lambda>n. Some (take n pw))"
  by (rule ext) (simp add: pwCallback_def)

lemma create_body_memory:
  assumes "\<forall>n. slMemory lib n"
  obtains v h' where "create_body lib ca key payload pw h =
    (v, case cms_create lib ca key payload pw of None \<Rightarrow> ([], False, h') | Some out \<Rightarrow> (out, True, h'))"
proof -
  obtain v r ok h' where b: "create_body lib ca key payload pw h = (v, r, ok, h')"
    using prod_cases4 by blast
  then have "(r, ok) = (case cms_create lib ca key payload pw of None \<Rightarrow> ([], False) | Some out \<Rightarrow> (out, True))"
    using assms
    by (auto simp: create_body_def create_signed_def ssl_new_def ssl_make_def cms_create_def Let_def
        pwCallback_take bind_eq_Some_conv split: option.splits)
  then show ?thesis using b that [of v h'] by (auto split: option.splits)
qed

text \<open>
  Signed data verify. With memory, signing yields the mail the library writes for the
  certificate, the key that the password opens, and the payload, or nothing and failure; and
  verifying that mail against the same certificate succeeds with the payload in the canonical
  form of the mail format. Assumed of the library, as documented: a mail that was written is
  read back with its message and its content, and a message signed with a certificate's key
  verifies against a store that trusts this certificate.
\<close>

theorem signed_mail_verifies:
  assumes "\<forall>n. slMemory lib n" and "heap_fresh h" and "heap_fresh h'" and "shCallback h = None"
    and "\<forall>m d mail. slWrite lib m d sign_flags = Some mail \<longrightarrow>
           slReadCms lib mail = Some (finished m d, Some (canonical d))"
    and "\<forall>c k d m. slReadCert lib ca = Some c \<longrightarrow> slSign lib c k d sign_flags = Some m \<longrightarrow>
           slAddCert lib c \<and> slVerify lib (finished m d) [c] (Some (canonical d)) = Some (canonical d)"
  shows "case createCMSSignature lib ca key payload pw h of
      None \<Rightarrow> False
    | Some (mail, ok, _) \<Rightarrow>
        (if ok then cms_create lib ca key payload pw = Some mail \<and>
                    (\<exists>h2. verifyCMSSignature lib ca mail h' = Some (canonical payload, True, h2))
         else cms_create lib ca key payload pw = None \<and> mail = [])"
proof -
  obtain v h1 where b: "create_body lib ca key payload pw h =
      (v, case cms_create lib ca key payload pw of None \<Rightarrow> ([], False, h1) | Some out \<Rightarrow> (out, True, h1))"
    by (rule create_body_memory [OF assms(1)])
  have o: "owns h h1 (create_order v)"
    using create_body_owns [of lib ca key payload pw h v _ _ h1] b assms(4) by (auto split: option.splits)
  obtain h2 where h2: "ssl_cleanup (create_order v) h1 = Some h2" using cleanup_restores [OF assms(2) o] by blast
  have create: "createCMSSignature lib ca key payload pw h = Some
      (case cms_create lib ca key payload pw of None \<Rightarrow> ([], False, h2) | Some out \<Rightarrow> (out, True, h2))"
    using b h2 by (auto simp: createCMSSignature_def split: option.splits)
  show ?thesis
  proof (cases "cms_create lib ca key payload pw")
    case None
    then show ?thesis using create by simp
  next
    case (Some mail)
    then have check: "cms_check lib ca mail = Some (canonical payload)"
      using assms(5,6) by (auto simp: cms_create_def cms_check_def bind_eq_Some_conv)
    obtain w h3 where "verify_body lib ca mail h' = Some (w, canonical payload, True, h3)"
      using verify_body_memory [OF assms(1), of ca mail h'] check by auto
    moreover from this obtain h4 where "ssl_cleanup (verify_order w) h3 = Some h4"
      using cleanup_restores [OF assms(3)] verify_body_owns by blast
    ultimately show ?thesis using create Some by (simp add: verifyCMSSignature_def)
  qed
qed

theorem signed_mail_verifies_witness:
  "\<exists>h1 h2. createCMSSignature example_ssl [5] [8] [1, 2] [3] ssl_heap_new = Some ([5, 1, 2], True, h1) \<and>
     verifyCMSSignature example_ssl [5] [5, 1, 2] ssl_heap_new = Some ([1, 2], True, h2)"
proof -
  have "cms_create example_ssl [5] [8] [1, 2] [3] = Some [5, 1, 2]"
    by (simp add: cms_create_def example_ssl_def)
  moreover have "case createCMSSignature example_ssl [5] [8] [1, 2] [3] ssl_heap_new of
      None \<Rightarrow> False
    | Some (mail, ok, _) \<Rightarrow>
        (if ok then cms_create example_ssl [5] [8] [1, 2] [3] = Some mail \<and>
                    (\<exists>h2. verifyCMSSignature example_ssl [5] mail ssl_heap_new = Some ([1, 2], True, h2))
         else cms_create example_ssl [5] [8] [1, 2] [3] = None \<and> mail = [])"
    by (rule signed_mail_verifies [where finished = "\<lambda>m d. m" and canonical = "\<lambda>d. d"])
       (simp_all add: example_ssl_def)
  ultimately show ?thesis by (auto split: option.splits if_splits)
qed

definition bridge_verify ::
  "('c, 'k, 'm) ssl_lib \<Rightarrow> (bytes \<Rightarrow> ssl_heap) \<Rightarrow> bytes \<Rightarrow> bytes \<Rightarrow> bytes \<times> bool" where
  "bridge_verify lib hp ca mail =
     (case verifyCMSSignature lib ca mail (hp mail) of
        None \<Rightarrow> ([], False)
      | Some (content, ok, _) \<Rightarrow> (content, ok))"

lemma bridge_verified: "bridge_verify lib hp ca mail = (content, True) \<Longrightarrow> cms_check lib ca mail = Some content"
  using verify_body_result [of lib ca mail "hp mail"]
  by (auto simp: bridge_verify_def verifyCMSSignature_def split: option.splits)

text \<open>
  C35. No license without a signature that OpenSSL accepts. When the license system verifies its
  files with the signature handler, whatever memory the calls find, then after any sequence of
  events and queries a system is reported licensed only if some readable file is a signed mail
  that \<^verbatim>\<open>CMS_verify\<close> accepts against a store with the built-in certificate alone, and the
  content it yields is a license document that is a universal license or names this system: by
  the string of its JSON value, or by the string of the variant of that value, which the cache of
  granted names uses and which differs from the former for a name that is not a string. Relied on is
  what Qt documents of that conversion: the string itself for a JSON string, the empty string for a
  missing value.
\<close>

theorem licensed_only_by_accepted_signature:
  assumes "leVerify le = bridge_verify lib hp" and "variant_string_ok le"
    and "fst (isSystemLicensed le now name
           (fold (license_step qt le) xs (license_system_new le start paths)))"
  shows "\<exists>path file content obj. leRead le path = Some file \<and>
    cms_check lib (leCert le) file = Some content \<and> leParse le content = Some obj \<and>
    (qcontains obj ''uniqueSystemName'' \<and>
       (jsonToString (jsonValue obj ''uniqueSystemName'') = name \<or>
        leVariantString le (jsonValue obj ''uniqueSystemName'') = name) \<or>
     jsonToInt0 (jsonValue obj ''universalLicense'') = 1)"
proof -
  have accepted: "\<exists>path file content. leRead le path = Some file \<and>
      cms_check lib (leCert le) file = Some content \<and> leParse le content = Some obj"
    if "signed_license le obj" for obj
    using that bridge_verified [of lib hp] assms(1) unfolding signed_license_def by metis
  from licensed_only_by_signed_file [OF assms(2,3)]
  obtain obj where "license_for le name obj \<or> universal_for le obj" by (rule exE)
  then show ?thesis
    using accepted [of obj] by (elim disjE) (simp_all add: license_for_def names_system_def universal_for_def, blast+)
qed

definition signed_license_env :: license_env where
  "signed_license_env = example_license_env\<lparr>leRead := (\<lambda>p. if p = ''/lic/a.p7m'' then Some [5, 1] else None),
     leCert := [5], leVerify := bridge_verify example_ssl (\<lambda>f. ssl_heap_new)\<rparr>"

theorem licensed_only_by_accepted_signature_witness:
  "fst (isSystemLicensed signed_license_env 0 ''sys''
      (fold (license_step qt_ref signed_license_env) [LicenseEvent serial_event]
        (license_system_new signed_license_env 0 [''/lic/a.p7m'']))) \<and>
   (\<exists>content. cms_check example_ssl [5] [5, 1] = Some content)"
proof -
  have verify: "bridge_verify example_ssl (\<lambda>f. ssl_heap_new) [5] [5, 1] = ([1], True)" by code_simp
  have sfx: "to_lower (completeSuffix ''/lic/a.p7m'') = ''p7m''" by code_simp
  let ?le = signed_license_env
  have le: "leVerify ?le = bridge_verify example_ssl (\<lambda>f. ssl_heap_new)" by (simp add: signed_license_env_def)
  have "leVariantString ?le = jsonToString" by (simp add: signed_license_env_def example_license_env_def)
  then have variant: "variant_string_ok ?le" by (simp add: variant_string_ok_def)
  have lic: "fst (isSystemLicensed ?le 0 ''sys''
      (fold (license_step qt_ref ?le) [LicenseEvent serial_event] (license_system_new ?le 0 [''/lic/a.p7m''])))"
    using sfx
    by (simp add: isSystemLicensed_def li_processEvent_def license_system_new_def load_license_def
        getLicenseFilesFromPath_def loadLicenseFile_def serial_event_def commandEvent_new_def
        setDeviceSerial_def qvalues_def qkeys_fmupd List.map_filter_def example_license_env_def
        example_license_def isValidLicenseDeviceSerial_def isValidLicenseExpiryDate_def Let_def
        jsonValue_def signed_license_env_def verify)
  have cert: "leCert ?le = [5]" "\<And>p f. leRead ?le p = Some f \<Longrightarrow> f = [5, 1]"
    by (auto simp: signed_license_env_def split: if_splits)
  obtain p mail content where "leRead ?le p = Some mail" "cms_check example_ssl (leCert ?le) mail = Some content"
    using licensed_only_by_accepted_signature [OF le variant lic] by (elim exE conjE) (rule that)
  then show ?thesis using lic cert by metis
qed

end
