(* ===== verification/TcpServer.thy ===== *)
theory TcpServer
  imports Tcp
begin

text \<open>
  network/vf-tcp/lib: starting a server (\<^verbatim>\<open>TcpServer\<close>, \<^verbatim>\<open>TcpServerWorker\<close>), possibly on a socket that
  systemd hands over, and the life of the peers: what creates and deletes them. Sockets and
  systemd are the record \<open>socket_env\<close>.
\<close>

section \<open>Starting a server\<close>

record socket_env =
  seListenFds :: int                 \<comment> \<open>\<^verbatim>\<open>sd_listen_fds(0)\<close>, negative on failure\<close>
  seIsSocket :: "int \<Rightarrow> nat \<Rightarrow> int"   \<comment> \<open>\<^verbatim>\<open>sd_is_socket_inet\<close> for a listening stream socket on a port: 1, 0, or negative on failure\<close>
  seAdopt :: "int \<Rightarrow> bool"           \<comment> \<open>\<^verbatim>\<open>setSocketDescriptor\<close> of a server that does not listen yet\<close>
  seListen :: "nat \<Rightarrow> bool"          \<comment> \<open>\<^verbatim>\<open>listen\<close> on any address\<close>

datatype listening = NotListening | OwnSocket nat | InheritedSocket int

definition SD_LISTEN_FDS_START :: int where
  "SD_LISTEN_FDS_START = 3"

definition isListening :: "listening \<Rightarrow> bool" where
  "isListening s \<longleftrightarrow> s \<noteq> NotListening"

text \<open>The first descriptor whose test is not zero; -1 if there is none.\<close>

fun inherited_descriptor :: "socket_env \<Rightarrow> nat \<Rightarrow> int \<Rightarrow> nat \<Rightarrow> int" where
  "inherited_descriptor env port i 0 = -1"
| "inherited_descriptor env port i (Suc n) =
     (if seIsSocket env (SD_LISTEN_FDS_START + i) port \<noteq> 0 then SD_LISTEN_FDS_START + i
      else inherited_descriptor env port (i + 1) n)"

definition startServer_systemd :: "socket_env \<Rightarrow> nat \<Rightarrow> listening \<Rightarrow> bool \<times> listening" where
  "startServer_systemd env port s =
     (let fd = inherited_descriptor env port 0 (nat (seListenFds env))
      in if fd \<ge> SD_LISTEN_FDS_START \<and> \<not> isListening s \<and> seAdopt env fd then (True, InheritedSocket fd)
         else (False, s))"

definition startServer :: "socket_env \<Rightarrow> nat \<Rightarrow> bool \<Rightarrow> listening \<Rightarrow> bool \<times> listening" where
  "startServer env port systemdSocket s =
     (let (retVal, s1) = (if systemdSocket then startServer_systemd env port s else (False, s))
      in if \<not> isListening s1
         then (if seListen env port then (True, OwnSocket port) else (retVal, s1))
         else (retVal, s1))"

lemma inherited_descriptor_found:
  "SD_LISTEN_FDS_START \<le> inherited_descriptor env port i n \<Longrightarrow>
   \<exists>j. inherited_descriptor env port i n = SD_LISTEN_FDS_START + j \<and> i \<le> j \<and> j < i + int n \<and>
     seIsSocket env (SD_LISTEN_FDS_START + j) port \<noteq> 0 \<and>
     (\<forall>l. i \<le> l \<and> l < j \<longrightarrow> seIsSocket env (SD_LISTEN_FDS_START + l) port = 0)"
proof (induction n arbitrary: i)
  case 0
  then show ?case by (simp add: SD_LISTEN_FDS_START_def)
next
  case (Suc n)
  show ?case
  proof (cases "seIsSocket env (SD_LISTEN_FDS_START + i) port \<noteq> 0")
    case True
    then show ?thesis by (intro exI [of _ i]) simp
  next
    case False
    then obtain j where "inherited_descriptor env port (i + 1) n = SD_LISTEN_FDS_START + j" "i + 1 \<le> j"
      "j < i + 1 + int n" "seIsSocket env (SD_LISTEN_FDS_START + j) port \<noteq> 0"
      "\<forall>l. i + 1 \<le> l \<and> l < j \<longrightarrow> seIsSocket env (SD_LISTEN_FDS_START + l) port = 0"
      using Suc.IH [of "i + 1"] Suc.prems by auto
    moreover have "l = i \<or> i + 1 \<le> l" if "i \<le> l" for l using that by linarith
    ultimately show ?thesis using False by (intro exI [of _ j]) auto
  qed
qed

text \<open>
  A server that does not listen reports a start exactly when it listens afterwards; it takes the
  first inherited socket that fits when it was asked to, and its own otherwise.
\<close>

theorem server_start_reported:
  assumes "\<not> isListening s" and "startServer env port systemdSocket s = (ok, s')"
  shows "(ok \<longleftrightarrow> isListening s') \<and>
    (case s' of
       NotListening \<Rightarrow> \<not> seListen env port
     | OwnSocket p \<Rightarrow> p = port \<and> seListen env port
     | InheritedSocket fd \<Rightarrow> systemdSocket \<and> seAdopt env fd \<and> seIsSocket env fd port \<noteq> 0 \<and>
         SD_LISTEN_FDS_START \<le> fd \<and> fd < SD_LISTEN_FDS_START + seListenFds env \<and>
         (\<forall>g. SD_LISTEN_FDS_START \<le> g \<and> g < fd \<longrightarrow> seIsSocket env g port = 0))"
proof -
  have found: "seIsSocket env fd port \<noteq> 0 \<and> fd < SD_LISTEN_FDS_START + seListenFds env \<and>
      (\<forall>g. SD_LISTEN_FDS_START \<le> g \<and> g < fd \<longrightarrow> seIsSocket env g port = 0)"
    if ge: "SD_LISTEN_FDS_START \<le> fd"
      and fd: "fd = inherited_descriptor env port 0 (nat (seListenFds env))" for fd
  proof -
    obtain j where j: "fd = SD_LISTEN_FDS_START + j" "0 \<le> j" "j < int (nat (seListenFds env))"
      "seIsSocket env (SD_LISTEN_FDS_START + j) port \<noteq> 0"
      "\<forall>l. 0 \<le> l \<and> l < j \<longrightarrow> seIsSocket env (SD_LISTEN_FDS_START + l) port = 0"
      using inherited_descriptor_found [of env port 0] ge unfolding fd by fastforce
    have "seIsSocket env g port = 0" if "SD_LISTEN_FDS_START \<le> g" "g < fd" for g
      using j(5) [rule_format, of "g - SD_LISTEN_FDS_START"] that j(1) by simp
    then show ?thesis using j by (auto split: if_splits)
  qed
  show ?thesis
    using assms found
    by (auto simp: startServer_def startServer_systemd_def isListening_def Let_def split: if_splits)
qed

theorem server_start_reported_witness:
  "startServer \<lparr> seListenFds = 2, seIsSocket = (\<lambda>fd p. if fd = 4 then 1 else 0), seAdopt = (\<lambda>fd. True),
     seListen = (\<lambda>p. True) \<rparr> 12000 True NotListening = (True, InheritedSocket 4)"
proof -
  let ?env = "\<lparr> seListenFds = 2, seIsSocket = (\<lambda>fd p. if fd = 4 then 1 else 0), seAdopt = (\<lambda>fd. True),
     seListen = (\<lambda>p. True) \<rparr>"
  obtain ok s' where r: "startServer ?env 12000 True NotListening = (ok, s')" by fastforce
  from server_start_reported [OF _ r]
  have "ok \<longleftrightarrow> isListening s'" by (simp add: isListening_def)
  moreover have "s' = InheritedSocket 4"
    using r by (simp add: startServer_def startServer_systemd_def isListening_def SD_LISTEN_FDS_START_def
        eval_nat_numeral split: if_splits)
  ultimately show ?thesis using r by (simp add: isListening_def)
qed

text \<open>
  A failure of the test counts as a match: the negative result is taken for true, so the first
  descriptor is adopted whatever it is, and one behind it that fits is not considered.
\<close>

theorem failed_test_adopts_first:
  assumes "seListenFds env > 0" and "seIsSocket env 3 port < 0" and "seAdopt env 3"
  shows "startServer env port True NotListening = (True, InheritedSocket 3)"
proof -
  obtain n where "nat (seListenFds env) = Suc n" using assms(1) by (metis not0_implies_Suc zless_nat_eq_int_zless zero_less_nat_eq less_not_refl)
  then show ?thesis
    using assms by (simp add: startServer_def startServer_systemd_def isListening_def SD_LISTEN_FDS_START_def)
qed

theorem failed_test_adopts_first_witness:
  "startServer \<lparr> seListenFds = 2, seIsSocket = (\<lambda>fd p. if fd = 4 then 1 else -9), seAdopt = (\<lambda>fd. True),
     seListen = (\<lambda>p. True) \<rparr> 12000 True NotListening = (True, InheritedSocket 3)"
  by (rule failed_test_adopts_first) simp_all

text \<open>A server that listens already reports failure and goes on listening.\<close>

lemma start_while_listening:
  "isListening s \<Longrightarrow> startServer env port systemdSocket s = (False, s)"
  by (auto simp: startServer_def startServer_systemd_def Let_def)

text \<open>The objects above the worker, which forward to it.\<close>

definition isListenActive :: "listening \<Rightarrow> bool" where
  "isListenActive s \<longleftrightarrow> isListening s"

definition tcpServer_startServer :: "socket_env \<Rightarrow> nat \<Rightarrow> bool \<Rightarrow> listening \<Rightarrow> bool \<times> listening" where
  "tcpServer_startServer env port systemdSocket s = startServer env port systemdSocket s"

definition tcpServer_isListening :: "listening \<Rightarrow> bool" where
  "tcpServer_isListening s \<longleftrightarrow> isListenActive s"

text \<open>\<^verbatim>\<open>TcpSystem::startServer\<close>; that the server does not listen yet is only asserted.\<close>

definition tcpSystem_startServer :: "socket_env \<Rightarrow> nat \<Rightarrow> bool \<Rightarrow> listening \<Rightarrow> bool \<times> listening" where
  "tcpSystem_startServer env port systemdSocket s = tcpServer_startServer env port systemdSocket s"

lemma tcpSystem_started_once:
  assumes "tcpSystem_startServer env port systemdSocket NotListening = (ok, s)"
  shows "ok \<longleftrightarrow> tcpServer_isListening s"
    and "ok \<Longrightarrow> tcpSystem_startServer env port' systemdSocket' s = (False, s)"
proof -
  show "ok \<longleftrightarrow> tcpServer_isListening s"
    using assms server_start_reported [of NotListening env port systemdSocket ok s]
    by (simp add: tcpSystem_startServer_def tcpServer_startServer_def tcpServer_isListening_def
        isListenActive_def isListening_def)
  then show "ok \<Longrightarrow> tcpSystem_startServer env port' systemdSocket' s = (False, s)"
    by (simp add: tcpSystem_startServer_def tcpServer_startServer_def tcpServer_isListening_def
        isListenActive_def start_while_listening)
qed

section \<open>The life of peers\<close>

text \<open>
  A peer exists while its worker does. \<^verbatim>\<open>getInstanceCount\<close> counts the peers; a socket that was
  disconnected is closed after the slots of the signal have run.
\<close>

definition getInstanceCount :: "tcp_system \<Rightarrow> nat" where
  "getInstanceCount ts = length (qkeys (tsWorkers ts))"

definition tw_isConnected :: "tcp_worker \<Rightarrow> bool" where
  "tw_isConnected w \<longleftrightarrow> twConnected w"

definition tcpPeer_isConnected :: "peer \<Rightarrow> tcp_system \<Rightarrow> bool" where
  "tcpPeer_isConnected p ts \<longleftrightarrow> tw_isConnected (qvalue (tsWorkers ts) p tcpPeerWorker_new)"

definition tcpPeer_setPeerId :: "peer \<Rightarrow> quuid \<Rightarrow> tcp_system \<Rightarrow> tcp_system" where
  "tcpPeer_setPeerId p i ts = on_worker p (tw_setPeerId i) ts"

definition tcpPeer_writeRaw :: "peer \<Rightarrow> bytes \<Rightarrow> tcp_system \<Rightarrow> tcp_system" where
  "tcpPeer_writeRaw p bs ts = on_worker p (writeRaw bs) ts"

definition closeConnection :: "tcp_worker \<Rightarrow> tcp_worker" where
  "closeConnection w = w\<lparr>twConnected := False\<rparr>"

text \<open>The connections that \<^verbatim>\<open>prepareSocket\<close> makes for \<^verbatim>\<open>disconnected\<close>, for a client's own peer.\<close>

definition socket_disconnected :: "peer \<Rightarrow> tcp_system \<Rightarrow> tcp_system" where
  "socket_disconnected p ts = on_worker p closeConnection (onConnectionClosed p ts)"

text \<open>The server worker's destructor deletes the clients it still has.\<close>

definition serverWorker_destroy :: "tcp_system \<Rightarrow> tcp_system" where
  "serverWorker_destroy ts =
     ts\<lparr> tsWorkers := fold fmdrop (tsClients ts) (tsWorkers ts), tsClients := [] \<rparr>"

text \<open>
  What happens to a TCP system. A socket connects once, after \<^verbatim>\<open>connectToServer\<close>; an identifier
  that was created is new.
\<close>

inductive tcp_step :: "tcp_system \<Rightarrow> tcp_system \<Rightarrow> bool" where
  step_incoming: "p |\<notin>| fmdom (tsWorkers ts) \<Longrightarrow> tcp_step ts (incomingConnection p ts)"
| step_gone: "p \<in> set (tsClients ts) \<Longrightarrow> tcp_step ts (fst (onClientDisconnected p ts))"
| step_connect: "p |\<notin>| fmdom (tsWorkers ts) \<Longrightarrow> tcp_step ts (connectToServer p ts)"
| step_established: "fmlookup (tsWorkers ts) p = Some tcpPeerWorker_new \<Longrightarrow> p \<notin> set (tsWaitingAuth ts) \<Longrightarrow>
    tcp_step ts (onConnectionEstablished p ts)"
| step_closed: "p |\<in>| fmdom (tsWorkers ts) \<Longrightarrow> p \<notin> set (tsClients ts) \<Longrightarrow>
    tcp_step ts (socket_disconnected p ts)"
| step_message: "i \<noteq> null_uuid \<Longrightarrow> i |\<notin>| fmdom (tsPeerList ts) \<Longrightarrow>
    tcp_step ts (fst (onMessageReceived i p buf ts))"
| step_send: "tcp_step ts (fst (tcpSystem_processEvent ts ev))"

definition peers_ok :: "tcp_system \<Rightarrow> bool" where
  "peers_ok ts \<longleftrightarrow> tcp_ok ts \<and> distinct (tsClients ts) \<and> set (tsClients ts) \<subseteq> fset (fmdom (tsWorkers ts))"

lemma on_worker_frame [simp]:
  "fmdom (tsWorkers (on_worker p f ts)) = fmdom (tsWorkers ts)"
  "tsClients (on_worker p f ts) = tsClients ts"
  "tsWaitingAuth (on_worker p f ts) = tsWaitingAuth ts"
  "tsPeerList (on_worker p f ts) = tsPeerList ts"
  by (auto simp: on_worker_def intro: fmdomI split: option.splits)

lemma sendMessage_frame [simp]:
  "fmdom (tsWorkers (sendMessage p a ts)) = fmdom (tsWorkers ts)"
  "tsClients (sendMessage p a ts) = tsClients ts"
  by (simp_all add: sendMessage_def)

lemma processEvent_frame:
  "fmdom (tsWorkers (fst (tcpSystem_processEvent ts ev))) = fmdom (tsWorkers ts)"
  "tsClients (fst (tcpSystem_processEvent ts ev)) = tsClients ts"
proof -
  have "fmdom (tsWorkers (fold (\<lambda>p. sendMessage p a) ps ts)) = fmdom (tsWorkers ts) \<and>
      tsClients (fold (\<lambda>p. sendMessage p a) ps ts) = tsClients ts" for a ps
    by (induction ps arbitrary: ts) simp_all
  then show "fmdom (tsWorkers (fst (tcpSystem_processEvent ts ev))) = fmdom (tsWorkers ts)"
    "tsClients (fst (tcpSystem_processEvent ts ev)) = tsClients ts"
    by (simp_all add: tcpSystem_processEvent_def split: app_event.split)
qed

text \<open>The peers after each step, and the clients among them.\<close>

lemma step_peers:
  "fmdom (tsWorkers (incomingConnection p ts)) = finsert p (fmdom (tsWorkers ts))"
  "tsClients (incomingConnection p ts) = tsClients ts @ [p]"
  "fmdom (tsWorkers (fst (onClientDisconnected p ts))) = fmdom (tsWorkers ts) |-| {|p|}"
  "tsClients (fst (onClientDisconnected p ts)) = removeAll p (tsClients ts)"
  "fmdom (tsWorkers (connectToServer p ts)) = finsert p (fmdom (tsWorkers ts))"
  "tsClients (connectToServer p ts) = tsClients ts"
  "fmdom (tsWorkers (onConnectionEstablished p ts)) = fmdom (tsWorkers ts)"
  "tsClients (onConnectionEstablished p ts) = tsClients ts"
  "fmdom (tsWorkers (socket_disconnected p ts)) = fmdom (tsWorkers ts)"
  "tsClients (socket_disconnected p ts) = tsClients ts"
  "fmdom (tsWorkers (fst (onMessageReceived i p buf ts))) = fmdom (tsWorkers ts)"
  "tsClients (fst (onMessageReceived i p buf ts)) = tsClients ts"
  by (auto simp: incomingConnection_def onClientConnected_def onClientDisconnected_def
      clientDisconnectedSRV_def connectToServer_def onConnectionEstablished_def socket_disconnected_def
      onConnectionClosed_def onMessageReceived_def Let_def)

lemma connectToServer_ok:
  assumes "tcp_ok ts" and "p |\<notin>| fmdom (tsWorkers ts)"
  shows "tcp_ok (connectToServer p ts)"
  using assms by (fastforce simp: tcp_ok_def connectToServer_def fmdom_notD)

lemma onConnectionEstablished_ok:
  assumes "tcp_ok ts" and "fmlookup (tsWorkers ts) p = Some tcpPeerWorker_new"
    and "p \<notin> set (tsWaitingAuth ts)"
  shows "tcp_ok (onConnectionEstablished p ts)"
  unfolding onConnectionEstablished_def
proof (intro sendMessage_ok on_worker_ok)
  show "tcp_ok (ts\<lparr>tsWaitingAuth := tsWaitingAuth ts @ [p]\<rparr>)"
    using assms by (auto simp: tcp_ok_def tcpPeerWorker_new_def)
qed simp

lemma step_keeps_peers:
  assumes "tcp_step ts ts'" and "peers_ok ts"
  shows "peers_ok ts'"
  using assms
proof (cases rule: tcp_step.cases)
  case (step_incoming p)
  then show ?thesis using assms(2) incomingConnection_ok [of ts p]
    by (auto simp: peers_ok_def step_peers)
next
  case (step_gone p)
  then show ?thesis using assms(2) onClientDisconnected_ok [of ts p]
    by (auto simp: peers_ok_def step_peers distinct_removeAll)
next
  case (step_connect p)
  then show ?thesis using assms(2) connectToServer_ok [of ts p] by (auto simp: peers_ok_def step_peers)
next
  case (step_established p)
  then show ?thesis using assms(2) onConnectionEstablished_ok [of ts p] by (simp add: peers_ok_def step_peers)
next
  case (step_closed p)
  then show ?thesis using assms(2) on_worker_ok [of closeConnection "onConnectionClosed p ts" p]
      onConnectionClosed_ok [of ts p]
    by (simp add: peers_ok_def step_peers) (simp add: socket_disconnected_def closeConnection_def)
next
  case (step_message i p buf)
  then show ?thesis using assms(2) onMessageReceived_ok [of ts i p buf] by (simp add: peers_ok_def step_peers)
next
  case (step_send ev)
  then show ?thesis using assms(2) tcpSystem_processEvent_ok [of ts ev]
    by (simp add: peers_ok_def processEvent_frame)
qed

text \<open>
  C31. No list of a TCP system names a peer that was deleted: in every state it can reach, the peers
  of the peer list, those that wait for their first message and the server's clients exist; and
  when the server worker is destroyed just the peers that are not its clients remain.
\<close>

theorem no_dangling_peers:
  assumes "tcp_step\<^sup>*\<^sup>* tcp_system_new ts"
  shows "(\<forall>i p. fmlookup (tsPeerList ts) i = Some p \<longrightarrow> p |\<in>| fmdom (tsWorkers ts)) \<and>
    set (tsWaitingAuth ts) \<union> set (tsClients ts) \<subseteq> fset (fmdom (tsWorkers ts)) \<and>
    distinct (tsWaitingAuth ts) \<and> distinct (tsClients ts) \<and>
    getInstanceCount (serverWorker_destroy ts) + length (tsClients ts) = getInstanceCount ts"
proof -
  have "peers_ok ts"
    using assms
  proof (induction rule: rtranclp_induct)
    case base
    then show ?case using tcp_system_new_ok by (simp add: peers_ok_def) (simp add: tcp_system_new_def)
  next
    case (step ts ts')
    then show ?case using step_keeps_peers by blast
  qed
  then have ok: "tcp_ok ts" "distinct (tsClients ts)" "set (tsClients ts) \<subseteq> fset (fmdom (tsWorkers ts))"
    by (simp_all add: peers_ok_def)
  have "fmdom (fold fmdrop ps m) = fmdom m |-| fset_of_list ps" for ps and m :: "(peer, tcp_worker) fmap"
    by (induction ps arbitrary: m) auto
  then have "fmdom (tsWorkers (serverWorker_destroy ts)) = fmdom (tsWorkers ts) |-| fset_of_list (tsClients ts)"
    by (simp add: serverWorker_destroy_def)
  moreover have "length (qkeys m) = fcard (fmdom m)" for m :: "(peer, tcp_worker) fmap"
    using distinct_card [OF distinct_qkeys [of m]] by (simp add: fcard.rep_eq set_qkeys)
  ultimately have "getInstanceCount (serverWorker_destroy ts) =
      card (fset (fmdom (tsWorkers ts)) - set (tsClients ts))"
    "getInstanceCount ts = card (fset (fmdom (tsWorkers ts)))"
    by (simp_all add: getInstanceCount_def fcard.rep_eq fset_of_list.rep_eq)
  moreover have "card (fset (fmdom (tsWorkers ts)) - set (tsClients ts)) + card (set (tsClients ts)) =
      card (fset (fmdom (tsWorkers ts)))"
    using ok(3) by (metis List.finite_set card_Diff_subset card_mono finite_fset le_add_diff_inverse2)
  ultimately have "getInstanceCount (serverWorker_destroy ts) + length (tsClients ts) = getInstanceCount ts"
    using ok(2) by (simp add: distinct_card)
  moreover have "set (tsWaitingAuth ts) \<subseteq> fset (fmdom (tsWorkers ts))"
    using ok(1) unfolding tcp_ok_def by (metis fmdomI subsetI)
  moreover have "p |\<in>| fmdom (tsWorkers ts)" if "fmlookup (tsPeerList ts) i = Some p" for i p
    using ok(1) that unfolding tcp_ok_def by (metis fmdomI)
  ultimately show ?thesis using ok by (simp add: tcp_ok_def)
qed

theorem no_dangling_peers_witness:
  "getInstanceCount (serverWorker_destroy (incomingConnection 1 tcp_system_new)) + 1 =
     getInstanceCount (incomingConnection 1 tcp_system_new)"
proof -
  have "tcp_step tcp_system_new (incomingConnection 1 tcp_system_new)"
    by (rule step_incoming) (simp add: tcp_system_new_def)
  then have "tcp_step\<^sup>*\<^sup>* tcp_system_new (incomingConnection 1 tcp_system_new)" by (rule r_into_rtranclp)
  from no_dangling_peers [OF this] show ?thesis by (simp add: step_peers) (simp add: tcp_system_new_def)
qed

end
