(* ===== verification/FragmentedPeer.thy ===== *)
theory FragmentedPeer
  imports TcpServer
begin

text \<open>
  network/vf-tcp/testlib, \<^verbatim>\<open>TestFragmentedNetPeerWorker\<close>: a peer worker that hands its socket at most
  a given number of bytes at a time and goes on when the socket reports them written.
\<close>

section \<open>Worker\<close>

record fragmented_worker =
  fwWorker :: tcp_worker          \<comment> \<open>the base class\<close>
  fwWriteSize :: int
  fwOnSocket :: int               \<comment> \<open>\<^verbatim>\<open>m_pendingDataOnSocket\<close>\<close>
  fwPending :: bytes              \<comment> \<open>\<^verbatim>\<open>m_pendingSendData\<close>\<close>

definition fragmentedWorker_new :: "tcp_worker \<Rightarrow> int \<Rightarrow> fragmented_worker" where
  "fragmentedWorker_new w n = \<lparr> fwWorker = w, fwWriteSize = n, fwOnSocket = 0, fwPending = [] \<rparr>"

definition sendFraction :: "fragmented_worker \<Rightarrow> fragmented_worker" where
  "sendFraction f =
     (let maxNow = fwWriteSize f - fwOnSocket f
      in if maxNow > 0
         then let now = min maxNow (int (length (fwPending f)))
              in if now > 0
                 then f\<lparr> fwWorker := writeRaw (take (nat now) (fwPending f)) (fwWorker f),
                         fwOnSocket := fwOnSocket f + now,
                         fwPending := drop (nat now) (fwPending f) \<rparr>
                 else f
         else f)"

definition fw_sendArray :: "qbytearray \<Rightarrow> fragmented_worker \<Rightarrow> fragmented_worker" where
  "fw_sendArray a f =
     (if \<not> twConnected (fwWorker f) then f
      else let raw = put_qbytearray a
           in if fwWriteSize f = 0
              then f\<lparr> fwWorker := writeRaw raw (fwWorker f), fwOnSocket := fwOnSocket f + int (length raw) \<rparr>
              else sendFraction (f\<lparr>fwPending := fwPending f @ raw\<rparr>))"

definition onBytesWritten :: "int \<Rightarrow> fragmented_worker \<Rightarrow> fragmented_worker" where
  "onBytesWritten n f =
     (let f1 = f\<lparr>fwOnSocket := fwOnSocket f - n\<rparr>
      in if fwOnSocket f1 = 0 \<and> fwPending f1 \<noteq> [] then sendFraction f1 else f1)"

text \<open>The number of times a socket had something to read, over all workers.\<close>

definition handleReadyRead :: "int \<Rightarrow> int" where
  "handleReadyRead count = count + 1"

definition resetReadyReadCount :: "int \<Rightarrow> int" where
  "resetReadyReadCount count = 0"

section \<open>Factory and server\<close>

record fragmented_factory =
  ffWriteSizeServer :: int
  ffWriteSizeClient :: int

definition fragmentedFactory_new :: "int \<Rightarrow> int \<Rightarrow> fragmented_factory" where
  "fragmentedFactory_new server client =
     \<lparr> ffWriteSizeServer = server, ffWriteSizeClient = client \<rparr>"

record fragmented_server =
  fsWorker :: listening           \<comment> \<open>the base class\<close>
  fsReadBufferSize :: int

definition fragmentedServer_new :: "int \<Rightarrow> fragmented_server" where
  "fragmentedServer_new n = \<lparr> fsWorker = NotListening, fsReadBufferSize = n \<rparr>"

definition ff_createTcpPeerWorker :: "fragmented_factory \<Rightarrow> fragmented_worker" where
  "ff_createTcpPeerWorker f = fragmentedWorker_new tcpPeerWorker_new (ffWriteSizeClient f)"

definition ff_createTcpServerWorker :: "fragmented_factory \<Rightarrow> fragmented_server" where
  "ff_createTcpServerWorker f = fragmentedServer_new (ffWriteSizeServer f)"

text \<open>The worker for a client that has connected: its socket is connected already.\<close>

definition fs_createServerPeerWorker :: "fragmented_server \<Rightarrow> fragmented_worker" where
  "fs_createServerPeerWorker s =
     fragmentedWorker_new (tcpPeerWorker_new\<lparr>twConnected := True\<rparr>) (fsReadBufferSize s)"

section \<open>Lemmas\<close>

text \<open>
  The messages sent so far are on the socket or pending, in order; no more is on the socket than
  allowed; and what is pending has something on the socket that will be reported.
\<close>

definition fragmented_ok :: "bytes list \<Rightarrow> fragmented_worker \<Rightarrow> bool" where
  "fragmented_ok ms f \<longleftrightarrow>
     twConnected (fwWorker f) \<and> fwWriteSize f > 0 \<and>
     twWritten (fwWorker f) @ fwPending f = frames ms \<and>
     0 \<le> fwOnSocket f \<and> fwOnSocket f \<le> fwWriteSize f \<and> (fwPending f \<noteq> [] \<longrightarrow> 0 < fwOnSocket f)"

lemma sendFraction_frame [simp]:
  "twConnected (fwWorker (sendFraction f)) = twConnected (fwWorker f)"
  "fwWriteSize (sendFraction f) = fwWriteSize f"
  "twWritten (fwWorker (sendFraction f)) @ fwPending (sendFraction f) = twWritten (fwWorker f) @ fwPending f"
  by (simp_all add: sendFraction_def writeRaw_def Let_def)

lemma sendFraction_bounds:
  assumes "0 < fwWriteSize f" and "0 \<le> fwOnSocket f" and "fwOnSocket f \<le> fwWriteSize f"
  shows "0 \<le> fwOnSocket (sendFraction f) \<and> fwOnSocket (sendFraction f) \<le> fwWriteSize f \<and>
    (fwPending (sendFraction f) \<noteq> [] \<longrightarrow> 0 < fwOnSocket (sendFraction f))"
  using assms by (auto simp: sendFraction_def Let_def)

text \<open>With nothing on the socket, a fraction makes progress.\<close>

lemma sendFraction_progress:
  assumes "0 < fwWriteSize f" and "fwOnSocket f = 0" and "fwPending f \<noteq> []"
  shows "length (fwPending (sendFraction f)) < length (fwPending f)"
  using assms by (auto simp: sendFraction_def Let_def min_def)

lemma fragmented_new_ok: "twConnected w \<Longrightarrow> twWritten w = [] \<Longrightarrow> n > 0 \<Longrightarrow> fragmented_ok [] (fragmentedWorker_new w n)"
  by (simp add: fragmented_ok_def fragmentedWorker_new_def)

lemma fw_sendArray_ok:
  assumes "fragmented_ok ms f"
  shows "fragmented_ok (ms @ [m]) (fw_sendArray (Some m) f)"
proof -
  let ?f = "f\<lparr>fwPending := fwPending f @ put_qbytearray (Some m)\<rparr>"
  have "fw_sendArray (Some m) f = sendFraction ?f"
    using assms by (simp add: fw_sendArray_def fragmented_ok_def)
  moreover have "twWritten (fwWorker ?f) @ fwPending ?f = frames (ms @ [m])"
    using assms by (simp add: fragmented_ok_def frames_def frame_def flip: append_assoc)
  ultimately show ?thesis
    using assms sendFraction_bounds [of ?f] by (simp add: fragmented_ok_def)
qed

lemma onBytesWritten_ok:
  assumes "fragmented_ok ms f" and "0 < n" and "n \<le> fwOnSocket f"
  shows "fragmented_ok ms (onBytesWritten n f)"
proof -
  let ?f = "f\<lparr>fwOnSocket := fwOnSocket f - n\<rparr>"
  show ?thesis
    using assms sendFraction_bounds [of ?f]
    by (auto simp: onBytesWritten_def fragmented_ok_def Let_def)
qed

section \<open>Properties\<close>

text \<open>What happens to a worker: a message is sent, or the socket reports bytes written.\<close>

inductive fragmented_run :: "fragmented_worker \<Rightarrow> bytes list \<Rightarrow> fragmented_worker \<Rightarrow> bool" for f0 where
  run_start: "fragmented_run f0 [] f0"
| run_send: "fragmented_run f0 ms f \<Longrightarrow> fragmented_run f0 (ms @ [m]) (fw_sendArray (Some m) f)"
| run_written: "fragmented_run f0 ms f \<Longrightarrow> 0 < n \<Longrightarrow> n \<le> fwOnSocket f \<Longrightarrow>
    fragmented_run f0 ms (onBytesWritten n f)"

lemma fragmented_run_ok:
  assumes "fragmented_run (fragmentedWorker_new w n) ms f" and "twConnected w" and "twWritten w = []" and "n > 0"
  shows "fragmented_ok ms f \<and> fwWriteSize f = n"
  using assms(1)
proof (induction rule: fragmented_run.induct)
  case run_start
  then show ?case using fragmented_new_ok assms(2-4) by (simp add: fragmentedWorker_new_def)
next
  case (run_send ms f m)
  then show ?case using fw_sendArray_ok [of ms f m] by (auto simp: fw_sendArray_def Let_def)
next
  case (run_written ms f k)
  then show ?case using onBytesWritten_ok [of ms f k] by (simp add: onBytesWritten_def Let_def)
qed

text \<open>The peers of a server made by a factory write in fractions of the server's size.\<close>

lemma factory_server_fraction:
  assumes "fragmented_run (fs_createServerPeerWorker (ff_createTcpServerWorker (fragmentedFactory_new n k))) ms f"
    and "n > 0"
  shows "fragmented_ok ms f \<and> fwOnSocket f \<le> n"
  using fragmented_run_ok [of "tcpPeerWorker_new\<lparr>twConnected := True\<rparr>" n ms f] assms
  by (simp add: fs_createServerPeerWorker_def ff_createTcpServerWorker_def fragmentedServer_new_def
      fragmentedFactory_new_def tcpPeerWorker_new_def fragmented_ok_def)

text \<open>The socket reports all that is on it, again and again.\<close>

definition flush :: "fragmented_worker \<Rightarrow> fragmented_worker" where
  "flush f = onBytesWritten (fwOnSocket f) f"

lemma flush_ok:
  assumes "fragmented_ok ms f"
  shows "fragmented_ok ms (flush f) \<and> length (fwPending (flush f)) \<le> length (fwPending f) - 1"
proof (cases "fwPending f = []")
  case True
  then show ?thesis using assms by (simp add: flush_def onBytesWritten_def fragmented_ok_def Let_def)
next
  case False
  then have "0 < fwOnSocket f" using assms by (simp add: fragmented_ok_def)
  moreover have "length (fwPending (flush f)) < length (fwPending f)"
    using sendFraction_progress [of "f\<lparr>fwOnSocket := 0\<rparr>"] False assms
    by (simp add: flush_def onBytesWritten_def fragmented_ok_def Let_def)
  ultimately show ?thesis using onBytesWritten_ok [OF assms, of "fwOnSocket f"] by (simp add: flush_def)
qed

lemma flushes_ok:
  assumes "fragmented_ok ms f"
  shows "fragmented_ok ms ((flush ^^ k) f) \<and> length (fwPending ((flush ^^ k) f)) \<le> length (fwPending f) - k"
proof (induction k)
  case 0
  then show ?case using assms by simp
next
  case (Suc k)
  then show ?case using flush_ok [of ms "(flush ^^ k) f"] by auto
qed

text \<open>
  C20. Fragmentation loses and reorders nothing and does not stall. However sending of messages
  and reports of the socket interleave, the socket never has more bytes under way than allowed;
  and once it has reported its bytes as often as bytes were pending, everything is written, and
  a receiver gets the messages sent, in order, however the stream is cut on the way.
\<close>

theorem fragmented_delivers:
  assumes "twConnected w" and "twWritten w = []" and "n > 0"
    and "fragmented_run (fragmentedWorker_new w n) ms f" and "\<forall>m \<in> set ms. message_ok m"
    and "length (fwPending f) \<le> k" and "concat cs = twWritten (fwWorker ((flush ^^ k) f))" and "cs \<noteq> []"
    and "twReceived b = []"
  shows "fwOnSocket f \<le> n \<and> receive_all cs b = (b, ms)"
proof -
  have ok: "fragmented_ok ms f" "fwWriteSize f = n" using fragmented_run_ok [OF assms(4,1-3)] by blast+
  have "fwPending ((flush ^^ k) f) = []" using flushes_ok [OF ok(1), of k] assms(6) by simp
  then have "twReceived b @ concat cs = frames ms"
    using flushes_ok [OF ok(1), of k] assms(7,9) by (simp add: fragmented_ok_def)
  moreover have "b\<lparr>twReceived := []\<rparr> = b" using assms(9) by (cases b) simp
  ultimately show ?thesis
    using receive_frames [OF assms(5) _ assms(8), of b] ok by (simp add: fragmented_ok_def)
qed

theorem fragmented_delivers_witness:
  "\<exists>f. fragmented_run (fragmentedWorker_new (tcpPeerWorker_new\<lparr>twConnected := True\<rparr>) 4) [[7, 8], []] f \<and>
     twWritten (fwWorker f) = [0, 0, 0, 2] \<and>
     twWritten (fwWorker ((flush ^^ 6) f)) = [0, 0, 0, 2, 7, 8, 0, 0, 0, 0] \<and>
     receive_all [[0, 0], [0, 2, 7, 8, 0, 0], [0, 0]] tcpPeerWorker_new = (tcpPeerWorker_new, [[7, 8], []])"
proof -
  let ?w = "tcpPeerWorker_new\<lparr>twConnected := True\<rparr>"
  let ?f = "fw_sendArray (Some []) (fw_sendArray (Some [7, 8]) (fragmentedWorker_new ?w 4))"
  have run: "fragmented_run (fragmentedWorker_new ?w 4) [[7, 8], []] ?f"
    using run_send [OF run_send [OF run_start, of "fragmentedWorker_new ?w 4" "[7, 8]"], of "[]"] by simp
  have v: "?f = \<lparr> fwWorker = ?w\<lparr>twWritten := [0, 0, 0, 2]\<rparr>, fwWriteSize = 4, fwOnSocket = 4,
      fwPending = [7, 8, 0, 0, 0, 0] \<rparr>"
    by (simp add: fw_sendArray_def sendFraction_def writeRaw_def fragmentedWorker_new_def
        tcpPeerWorker_new_def put_qbytearray_def be32_def)
  have f: "twWritten (fwWorker ?f) = [0, 0, 0, 2]" "length (fwPending ?f) \<le> 6"
    "twWritten (fwWorker ((flush ^^ 6) ?f)) = [0, 0, 0, 2, 7, 8, 0, 0, 0, 0]"
    unfolding v
    by (simp_all add: eval_nat_numeral flush_def onBytesWritten_def sendFraction_def writeRaw_def)
  have "fwOnSocket ?f \<le> 4 \<and>
      receive_all [[0, 0], [0, 2, 7, 8, 0, 0], [0, 0]] tcpPeerWorker_new = (tcpPeerWorker_new, [[7, 8], []])"
    by (rule fragmented_delivers [OF _ _ _ run _ f(2)], simp_all only: f(3))
       (simp_all add: tcpPeerWorker_new_def message_ok_def)
  then show ?thesis using run f by blast
qed

end
