(* ===== verification/DumpJson.thy ===== *)
theory DumpJson
  imports Database ModulesBase
begin

text \<open>
  framework/testlib, \<^verbatim>\<open>VeinStorage::DumpJson\<close>: the contents of a database as a JSON document. What
  Qt's JSON classes compute is the record \<open>dump_lib\<close>; the device written to is a record.
\<close>

section \<open>Environment\<close>

datatype json_parsed = ParsedObject json_object | ParsedArray "json list"

record dump_lib =
  dlFromVariant :: "qvariant \<Rightarrow> json"             \<comment> \<open>\<^verbatim>\<open>QJsonValue::fromVariant\<close>\<close>
  dlFromJson :: "string \<Rightarrow> json_parsed option"    \<comment> \<open>\<^verbatim>\<open>fromJson(s.toUtf8())\<close>, None: parse error\<close>
  dlFormatDouble :: "64 word \<Rightarrow> 64 word"         \<comment> \<open>\<^verbatim>\<open>formatDouble\<close>: to six digits and back\<close>
  dlFloatToDouble :: "32 word \<Rightarrow> 64 word"
  dlToJson :: "json_object \<Rightarrow> bytes"              \<comment> \<open>\<^verbatim>\<open>QJsonDocument::toJson\<close>\<close>

fun parsed_object :: "json_parsed \<Rightarrow> json_object" where
  "parsed_object (ParsedObject ob) = ob"
| "parsed_object (ParsedArray js) = fmempty"

fun json_isObject :: "json \<Rightarrow> bool" where
  "json_isObject (JObj ob) = True"
| "json_isObject _ = False"

record io_device =
  dvOpen :: bool
  dvWritable :: bool       \<comment> \<open>the mode it is open in\<close>
  dvCanOpen :: bool        \<comment> \<open>\<^verbatim>\<open>open(WriteOnly)\<close> succeeds\<close>
  dvWritten :: bytes

section \<open>Operations\<close>

definition convertToJsonValue :: "dump_lib \<Rightarrow> qt_lib \<Rightarrow> qvariant \<Rightarrow> json" where
  "convertToJsonValue dl qt v =
     (if qtIsNull qt v \<and> qtTypeName qt v = '''' then JNull
      else
        case v of
          QIntList is \<Rightarrow> JArr (map (\<lambda>i. dlFromVariant dl (QInt i)) is)
        | QDoubleList ds \<Rightarrow> JArr (map (\<lambda>d. dlFromVariant dl (QDouble (dlFormatDouble dl d))) ds)
        | QStrList ss \<Rightarrow> JArr (map (\<lambda>s. dlFromVariant dl (QStr s)) ss)
        | _ \<Rightarrow>
            (if qtCanConvertList qt v \<and> qtToList qt v \<noteq> []
             then JArr (map (dlFromVariant dl) (qtToList qt v))
             else if qtCanConvertMap qt v \<and> qtToMap qt v \<noteq> fmempty
             then JObj (fmmap (dlFromVariant dl) (qtToMap qt v))
             else
               case dlFromJson dl (qtToString qt v) of
                 Some doc \<Rightarrow> JObj (parsed_object doc)
               | None \<Rightarrow>
                   (case v of
                      QDouble d \<Rightarrow> JDouble d
                    | QFloat f \<Rightarrow> JDouble (dlFloatToDouble dl f)
                    | _ \<Rightarrow> dlFromVariant dl v)))"

text \<open>One entry of the component or procedure descriptions.\<close>

definition skip_description :: "json \<Rightarrow> json" where
  "skip_description j =
     (let componentData = jsonToObject j
      in if qcontains componentData ''Description''
         then JObj (fmupd ''Description'' (JStr ''<skipped>'') componentData)
         else j)"

definition skipDescrptionInInfo :: "string \<Rightarrow> json_object \<Rightarrow> json_object" where
  "skipDescrptionInInfo infoLabel ob =
     (if qcontains ob infoLabel
      then let info = jsonToObject (jsonValue ob infoLabel)
           in if info \<noteq> fmempty
              then fmupd infoLabel
                (JObj (fold (\<lambda>n m. fmupd n (skip_description (jsonValue m n)) m) (qkeys info) info)) ob
              else ob
      else ob)"

definition skipDescrptionInModuleInterface :: "json \<Rightarrow> json_object \<Rightarrow> json_object" where
  "skipDescrptionInModuleInterface toInsert entityObject =
     fmupd ''INF_ModuleInterface''
       (JObj (skipDescrptionInInfo ''RpcInfo'' (skipDescrptionInInfo ''ComponentInfo'' (jsonToObject toInsert))))
       entityObject"

definition dump_entity :: "dump_lib \<Rightarrow> qt_lib \<Rightarrow> bool \<Rightarrow> database \<Rightarrow> int \<Rightarrow> json_object" where
  "dump_entity dl qt skip db i =
     fold (\<lambda>c ob. let j = convertToJsonValue dl qt (getStoredValue db i c)
                 in if skip \<and> c = ''INF_ModuleInterface'' \<and> json_isObject j
                    then skipDescrptionInModuleInterface j ob
                    else fmupd c j ob)
       (sort (getComponentList db i)) fmempty"

definition dump_root ::
  "dump_lib \<Rightarrow> qt_lib \<Rightarrow> database \<Rightarrow> int list \<Rightarrow> int list \<Rightarrow> bool \<Rightarrow> json_object" where
  "dump_root dl qt db entityFilter ignored skip =
     fold (\<lambda>i ob. if entityFilter \<noteq> [] \<and> i \<notin> set entityFilter then ob
                 else if i \<in> set ignored then ob
                 else fmupd (int_digits i) (JObj (dump_entity dl qt skip db i)) ob)
       (sort (getEntityList db)) fmempty"

definition device_open :: "io_device \<Rightarrow> io_device" where
  "device_open d =
     (if dvOpen d then d else if dvCanOpen d then d\<lparr>dvOpen := True, dvWritable := True\<rparr> else d)"

definition dumpToFile ::
  "dump_lib \<Rightarrow> qt_lib \<Rightarrow> database \<Rightarrow> int list \<Rightarrow> int list \<Rightarrow> bool \<Rightarrow> io_device \<Rightarrow> io_device" where
  "dumpToFile dl qt db entityFilter ignored skip dev =
     (let d1 = device_open dev;
          d2 = (if dvOpen d1 \<and> dvWritable d1
                then d1\<lparr>dvWritten := dvWritten d1 @ dlToJson dl (dump_root dl qt db entityFilter ignored skip)\<rparr>
                else d1)
      in if dvOpen d2 then d2\<lparr>dvOpen := False\<rparr> else d2)"

definition dumpToByteArray :: "dump_lib \<Rightarrow> qt_lib \<Rightarrow> database \<Rightarrow> int list \<Rightarrow> int list \<Rightarrow> bool \<Rightarrow> bytes" where
  "dumpToByteArray dl qt db entityFilter ignored skip =
     dvWritten (dumpToFile dl qt db entityFilter ignored skip
       \<lparr> dvOpen = False, dvWritable = False, dvCanOpen = True, dvWritten = [] \<rparr>)"

section \<open>Lemmas\<close>

text \<open>Numbers are told apart by their digits.\<close>

fun digits_value :: "nat \<Rightarrow> string \<Rightarrow> nat" where
  "digits_value a [] = a"
| "digits_value a (c # cs) = digits_value (10 * a + (of_char c - 48)) cs"

lemma digits_value_append: "digits_value a (s @ [c]) = 10 * digits_value a s + (of_char c - 48)"
  by (induction s arbitrary: a) simp_all

lemma digits_value_nat: "digits_value 0 (nat_digits n) = n"
proof (induction n rule: nat_digits.induct)
  case (1 n)
  have c: "of_char (char_of (k + 48 :: nat)) - 48 = k" if "k < 10" for k
    using that by (simp add: of_char_of)
  show ?case
  proof (cases "n < 10")
    case True
    then show ?thesis using c by (subst nat_digits.simps) simp
  next
    case False
    then show ?thesis
      using 1 c [of "n mod 10"] by (subst nat_digits.simps) (simp add: digits_value_append)
  qed
qed

lemma nat_digits_chars: "c \<in> set (nat_digits n) \<Longrightarrow> c \<noteq> CHR ''-''"
proof (induction n rule: nat_digits.induct)
  case (1 n)
  have digit: "char_of (k + 48 :: nat) \<noteq> CHR ''-''" if "k < 10" for k
  proof
    assume "char_of (k + 48 :: nat) = CHR ''-''"
    then have "of_char (char_of (k + 48 :: nat)) = (of_char (CHR ''-'') :: nat)" by simp
    then show False using that by (simp add: of_char_of)
  qed
  show ?case
  proof (cases "n < 10")
    case True
    then show ?thesis using 1(2) digit [of n] by (simp add: nat_digits.simps [of n])
  next
    case False
    then have "c \<in> set (nat_digits (n div 10)) \<or> c = char_of (n mod 10 + 48)"
      using 1(2) by (auto simp: nat_digits.simps [of n])
    then show ?thesis
    proof
      assume "c \<in> set (nat_digits (n div 10))"
      then show ?thesis by (rule 1(1) [OF False])
    next
      assume "c = char_of (n mod 10 + 48)"
      then show ?thesis using digit [of "n mod 10"] by (metis mod_less_divisor zero_less_numeral)
    qed
  qed
qed

lemma int_digits_inject [simp]: "int_digits i = int_digits j \<longleftrightarrow> i = j"
proof
  assume eq: "int_digits i = int_digits j"
  have n: "nat_digits m = nat_digits k \<Longrightarrow> m = k" for m k by (metis digits_value_nat)
  have s: "''-'' @ nat_digits m \<noteq> nat_digits k" for m k
    using nat_digits_chars [of "CHR ''-''" k] by (metis append_Cons list.set_intros(1))
  show "i = j"
    using eq n s s [symmetric] by (fastforce simp: int_digits_def split: if_splits)
qed simp

context component_store
begin

text \<open>Whatever is built from the stored values, name by name, in any order of the names.\<close>

lemma built_map:
  assumes "set cs = set (names db i)" and "\<And>c m. f c m = fmupd c (g c (stored db i c)) m"
  shows "fmlookup (fold f cs fmempty) c = map_option (\<lambda>r. g c (val db r)) (find db i c)"
proof -
  have "fmlookup (fold f cs m0) c = (if c \<in> set cs then Some (g c (stored db i c)) else fmlookup m0 c)" for m0
    by (induction cs arbitrary: m0) (auto simp: assms(2))
  then show ?thesis
    using names_found [of c db i] assms(1) by (cases "find db i c") (simp_all add: stored_def)
qed

end

lemma fold_selected:
  assumes "\<And>i j. key i = key j \<Longrightarrow> i = j"
  shows "fmlookup (fold (\<lambda>i ob. if P i then fmupd (key i) (f i) ob else ob) is ob) (key i) =
      (if i \<in> set is \<and> P i then Some (f i) else fmlookup ob (key i))"
    and "k \<in> fset (fmdom (fold (\<lambda>i ob. if P i then fmupd (key i) (f i) ob else ob) is ob)) \<Longrightarrow>
      k \<in> fset (fmdom ob) \<or> (\<exists>i \<in> set is. k = key i \<and> P i)"
proof (induction "is" arbitrary: ob)
  case (Cons j js)
  {
    case 1
    show ?case using Cons.IH(1) [of "if P j then fmupd (key j) (f j) ob else ob"] assms [of i j] by auto
  next
    case 2
    then show ?case using Cons.IH(2) [of "if P j then fmupd (key j) (f j) ob else ob"] by (auto split: if_splits)
  }
qed simp_all

lemma fold_map_values:
  assumes "distinct ks" and "set ks \<subseteq> fset (fmdom m0)"
  shows "fmlookup (fold (\<lambda>n m. fmupd n (f (jsonValue m n)) m) ks m0) c =
    (if c \<in> set ks then map_option f (fmlookup m0 c) else fmlookup m0 c)"
  using assms
proof (induction ks arbitrary: m0)
  case (Cons k ks)
  obtain j where "fmlookup m0 k = Some j" using Cons.prems(2) by (auto simp: fmlookup_dom_iff)
  then have j: "jsonValue m0 k = j" by (simp add: jsonValue_def qvalue_def)
  have "fmlookup (fold (\<lambda>n m. fmupd n (f (jsonValue m n)) m) ks (fmupd k (f j) m0)) c =
      (if c \<in> set ks then map_option f (fmlookup (fmupd k (f j) m0) c) else fmlookup (fmupd k (f j) m0) c)"
    using Cons.prems by (intro Cons.IH) auto
  then show ?case using Cons.prems(1) \<open>fmlookup m0 k = Some j\<close> by (auto simp: j)
qed simp

text \<open>The descriptions under a label are replaced, nothing else.\<close>

lemma skipDescrptionInInfo_lookup:
  "fmlookup (skipDescrptionInInfo l ob) c =
     (case fmlookup ob c of
        None \<Rightarrow> None
      | Some j \<Rightarrow> Some (if c = l \<and> jsonToObject j \<noteq> fmempty
                        then JObj (fmmap skip_description (jsonToObject j)) else j))"
proof -
  have info: "fold (\<lambda>n m. fmupd n (skip_description (jsonValue m n)) m) (qkeys info) info =
      fmmap skip_description info" for info
    by (rule fmap_ext) (auto simp: fold_map_values fmlookup_dom_iff not_None_eq [symmetric] simp del: not_None_eq)
  show ?thesis
  proof (cases "fmlookup ob l")
    case None
    then show ?thesis by (auto simp: skipDescrptionInInfo_def qcontains_iff split: option.splits)
  next
    case (Some j)
    then have "jsonValue ob l = j" "qcontains ob l"
      by (simp_all add: jsonValue_def qvalue_def qcontains_iff fmdomI)
    then show ?thesis using Some by (auto simp: skipDescrptionInInfo_def info Let_def split: option.splits)
  qed
qed

definition shown_interface :: "json \<Rightarrow> json" where
  "shown_interface j =
     JObj (skipDescrptionInInfo ''RpcInfo'' (skipDescrptionInInfo ''ComponentInfo'' (jsonToObject j)))"

definition shown_component :: "bool \<Rightarrow> string \<Rightarrow> json \<Rightarrow> json" where
  "shown_component skip c j =
     (if skip \<and> c = ''INF_ModuleInterface'' \<and> json_isObject j then shown_interface j else j)"

lemma dump_entity_lookup:
  "fmlookup (dump_entity dl qt skip db i) c =
     map_option (\<lambda>r. shown_component skip c (convertToJsonValue dl qt (getValue db r))) (findComponent db i c)"
  unfolding dump_entity_def
  by (rule present.built_map [where g = "\<lambda>c v. shown_component skip c (convertToJsonValue dl qt v)"])
     (auto simp: stored_getStoredValue shown_component_def shown_interface_def
       skipDescrptionInModuleInterface_def Let_def)

section \<open>Properties\<close>

text \<open>
  A dump shows the database as it is: the document has one member for each entity that the
  filter selects and the list of ignored entities does not name, under the digits of its
  identifier; an entity's member has exactly its components, each with its value in JSON
  (descriptions in the module interface left out on request). It is written once, to a device
  that is or can be opened for writing, and the device is closed afterwards.
\<close>

theorem dump_exact:
  fixes dl :: dump_lib and qt :: qt_lib and db :: database and entityFilter ignored :: "int list" and skip :: bool
    and dev :: io_device
  defines "root \<equiv> dump_root dl qt db entityFilter ignored skip"
  defines "dev' \<equiv> dumpToFile dl qt db entityFilter ignored skip dev"
  shows "fmdom' root = int_digits ` {i. hasEntity db i \<and> (entityFilter = [] \<or> i \<in> set entityFilter) \<and> i \<notin> set ignored} \<and>
    (\<forall>i c. (case fmlookup root (int_digits i) of Some (JObj ob) \<Rightarrow> fmlookup ob c | _ \<Rightarrow> None) =
       (if int_digits i \<in> fmdom' root
        then map_option (\<lambda>r. shown_component skip c (convertToJsonValue dl qt (getValue db r))) (findComponent db i c)
        else None)) \<and>
    dvWritten dev' = dvWritten dev @
      (if (if dvOpen dev then dvWritable dev else dvCanOpen dev) then dlToJson dl root else []) \<and>
    \<not> dvOpen dev'"
proof -
  let ?P = "\<lambda>i. (entityFilter = [] \<or> i \<in> set entityFilter) \<and> i \<notin> set ignored"
  let ?f = "\<lambda>i. JObj (dump_entity dl qt skip db i)"
  have root: "root = fold (\<lambda>i ob. if ?P i then fmupd (int_digits i) (?f i) ob else ob) (sort (getEntityList db)) fmempty"
    unfolding root_def dump_root_def by (intro fold_cong refl ext) auto
  have entities: "i \<in> set (sort (getEntityList db)) \<longleftrightarrow> hasEntity db i" for i
    by (simp add: getEntityList_def hasEntity_def qcontains_iff fmlookup_dom_iff)
  have member: "fmlookup root (int_digits i) = (if hasEntity db i \<and> ?P i then Some (?f i) else None)" for i
    using fold_selected(1) [of int_digits ?P ?f "sort (getEntityList db)" fmempty i] entities
    by (simp add: root)
  have keys: "\<exists>i. k = int_digits i \<and> hasEntity db i \<and> ?P i" if "k \<in> fmdom' root" for k
    using fold_selected(2) [of int_digits k ?P ?f "sort (getEntityList db)" fmempty] that entities
    by (auto simp: root fmdom'_alt_def)
  have "int_digits i \<in> fmdom' root" if "hasEntity db i \<and> ?P i" for i
    using member [of i] that by (intro fmdom'I) simp
  then have dom: "fmdom' root = int_digits ` {i. hasEntity db i \<and> ?P i}"
    using keys by blast
  have members: "(case fmlookup root (int_digits i) of Some (JObj ob) \<Rightarrow> fmlookup ob c | _ \<Rightarrow> None) =
      (if int_digits i \<in> fmdom' root
       then map_option (\<lambda>r. shown_component skip c (convertToJsonValue dl qt (getValue db r))) (findComponent db i c)
       else None)" for i c
    using member [of i] by (auto simp: dom dump_entity_lookup)
  have "dvWritten dev' = dvWritten dev @
      (if (if dvOpen dev then dvWritable dev else dvCanOpen dev) then dlToJson dl root else []) \<and>
      \<not> dvOpen dev'"
    by (simp add: dev'_def root_def dumpToFile_def device_open_def)
  then show ?thesis using dom members by blast
qed

text \<open>A text that is a JSON array is dumped as an empty object, whatever it holds.\<close>

lemma array_text_lost:
  assumes "qtToString qt (QStr s) = s" and "qtTypeName qt (QStr s) \<noteq> ''''"
    and "\<not> qtCanConvertList qt (QStr s)" and "\<not> qtCanConvertMap qt (QStr s)"
    and "dlFromJson dl s = Some (ParsedArray js)"
  shows "convertToJsonValue dl qt (QStr s) = JObj fmempty"
  using assms by (simp add: convertToJsonValue_def)

end
