(* ===== verification/Spies.thy ===== *)
theory Spies
  imports DumpJson NetworkSystem CmdHandler
begin

text \<open>
  framework/testlib and framework/vf-component/testlib: event systems that only watch. The spies
  of entities and components list what they see; the JSON spy writes every event to a log. Chains
  with such systems are compared with chains without them.
\<close>

section \<open>TestCommandEventStrings\<close>

fun strSubtype :: "event_subtype \<Rightarrow> string" where
  "strSubtype NOTIFICATION = ''NOTIFICATION''"
| "strSubtype TRANSACTION = ''TRANSACTION''"
| "strSubtype (SUBTYPE_CODE n) = ''''"

text \<open>
  The default branches call \<^verbatim>\<open>arg\<close> on an empty string, which has no place to insert anything: the
  result is empty.
\<close>

fun strOrigin :: "event_origin \<Rightarrow> string" where
  "strOrigin EO_LOCAL = ''EO_LOCAL''"
| "strOrigin EO_FOREIGN = ''EO_FOREIGN''"
| "strOrigin (EO_USER_DEFINED n) = ''''"

fun strTarget :: "event_target \<Rightarrow> string" where
  "strTarget ET_IRRELEVANT = ''ET_IRRELEVANT''"
| "strTarget ET_LOCAL = ''ET_LOCAL''"
| "strTarget ET_ALL = ''ET_ALL''"
| "strTarget (ET_USER_DEFINED n) = ''''"

fun strEntityCommand :: "entity_command \<Rightarrow> string" where
  "strEntityCommand ECMD_INVALID = ''ECMD_INVALID''"
| "strEntityCommand ECMD_ADD = ''ECMD_ADD''"
| "strEntityCommand ECMD_REMOVE = ''ECMD_REMOVE''"
| "strEntityCommand ECMD_SUBSCRIBE = ''ECMD_SUBSCRIBE''"
| "strEntityCommand ECMD_UNSUBSCRIBE = ''ECMD_UNSUBSCRIBE''"
| "strEntityCommand (ECMD_CODE b) = ''''"

fun strComponentCommand :: "component_command \<Rightarrow> string" where
  "strComponentCommand CCMD_INVALID = ''CCMD_INVALID''"
| "strComponentCommand CCMD_ADD = ''CCMD_ADD''"
| "strComponentCommand CCMD_REMOVE = ''CCMD_REMOVE''"
| "strComponentCommand CCMD_SET = ''CCMD_SET''"
| "strComponentCommand CCMD_FETCH = ''CCMD_FETCH''"
| "strComponentCommand (CCMD_CODE b) = ''''"

fun strRPCCommand :: "rpc_command \<Rightarrow> string" where
  "strRPCCommand RPCMD_INVALID = ''RPCMD_INVALID''"
| "strRPCCommand RPCMD_CALL = ''RPCMD_CALL''"
| "strRPCCommand RPCMD_REGISTER = ''RPCMD_REGISTER''"
| "strRPCCommand RPCMD_RESULT = ''RPCMD_RESULT''"
| "strRPCCommand RPCMD_PROGRESS = ''RPCMD_PROGRESS''"
| "strRPCCommand RPCMD_CANCELLATION = ''RPCMD_CANCELLATION''"
| "strRPCCommand (RPCMD_CODE b) = ''''"

section \<open>VfTestEntitySpy and VfTestComponentSpy\<close>

record component_info =
  ciEntity :: int
  ciComponent :: string
  ciOld :: qvariant
  ciNew :: qvariant

definition entitySpy_processEvent :: "entity_command \<Rightarrow> int list \<Rightarrow> app_event \<Rightarrow> int list" where
  "entitySpy_processEvent cmd entities ev =
     (case ev of
        CmdEv e \<Rightarrow>
          (case ceData e of
             VEntity d \<Rightarrow> if eaCommand d = cmd then entities @ [edEntityId d] else entities
           | _ \<Rightarrow> entities)
      | _ \<Rightarrow> entities)"

definition componentSpy_processEvent ::
  "component_command \<Rightarrow> component_info list \<Rightarrow> app_event \<Rightarrow> component_info list" where
  "componentSpy_processEvent cmd infos ev =
     (case ev of
        CmdEv e \<Rightarrow>
          (case ceData e of
             VComponent d \<Rightarrow>
               if cdCommand d = cmd
               then infos @ [\<lparr> ciEntity = edEntityId d, ciComponent = cdComponentName d,
                               ciOld = cdOldValue d, ciNew = cdNewValue d \<rparr>]
               else infos
           | _ \<Rightarrow> infos)
      | _ \<Rightarrow> infos)"

definition entitySpy_reset :: "int list \<Rightarrow> int list" where
  "entitySpy_reset entities = []"

definition componentSpy_reset :: "component_info list \<Rightarrow> component_info list" where
  "componentSpy_reset infos = []"

text \<open>A spy that is reset lists what it sees from then on, in order.\<close>

definition watched_entity :: "entity_command \<Rightarrow> app_event \<Rightarrow> bool" where
  "watched_entity cmd ev \<longleftrightarrow> (\<exists>e d. ev = CmdEv e \<and> ceData e = VEntity d \<and> eaCommand d = cmd)"

definition watched_component :: "component_command \<Rightarrow> app_event \<Rightarrow> bool" where
  "watched_component cmd ev \<longleftrightarrow> (\<exists>e d. ev = CmdEv e \<and> ceData e = VComponent d \<and> cdCommand d = cmd)"

definition event_entity :: "app_event \<Rightarrow> int" where
  "event_entity ev = (case ev of CmdEv e \<Rightarrow> vd_entityId (ceData e) | _ \<Rightarrow> -1)"

lemma entitySpy_since_reset:
  "foldl (entitySpy_processEvent cmd) (entitySpy_reset xs) evs =
   map event_entity (filter (watched_entity cmd) evs)"
proof -
  have "entitySpy_processEvent cmd ys ev = ys @ (if watched_entity cmd ev then [event_entity ev] else [])" for ys ev
    by (simp add: entitySpy_processEvent_def watched_entity_def event_entity_def
        split: app_event.split vein_data.split)
  then have "foldl (entitySpy_processEvent cmd) ys evs = ys @ map event_entity (filter (watched_entity cmd) evs)" for ys
    by (induction evs arbitrary: ys) simp_all
  then show ?thesis by (simp add: entitySpy_reset_def)
qed

lemma componentSpy_since_reset:
  "length (foldl (componentSpy_processEvent cmd) (componentSpy_reset xs) evs) =
   length (filter (watched_component cmd) evs)"
proof -
  have "length (componentSpy_processEvent cmd ys ev) = length ys + (if watched_component cmd ev then 1 else 0)" for ys ev
    by (simp add: componentSpy_processEvent_def watched_component_def
        split: app_event.split vein_data.split)
  then have "length (foldl (componentSpy_processEvent cmd) ys evs) =
      length ys + length (filter (watched_component cmd) evs)" for ys
    by (induction evs arbitrary: ys) simp_all
  then show ?thesis by (simp add: componentSpy_reset_def)
qed

text \<open>The filters; \<open>first\<close> of nothing is undefined.\<close>

definition filter_entity :: "component_info list \<Rightarrow> int \<Rightarrow> component_info list" where
  "filter_entity infos i = filter (\<lambda>x. ciEntity x = i) infos"

definition filter_component :: "component_info list \<Rightarrow> string \<Rightarrow> component_info list" where
  "filter_component infos n = filter (\<lambda>x. ciComponent x = n) infos"

definition hasOne_entity :: "component_info list \<Rightarrow> int \<Rightarrow> bool" where
  "hasOne_entity infos i \<longleftrightarrow> length (filter_entity infos i) = 1"

definition hasOne_component :: "component_info list \<Rightarrow> string \<Rightarrow> bool" where
  "hasOne_component infos n \<longleftrightarrow> length (filter_component infos n) = 1"

definition first_entity :: "component_info list \<Rightarrow> int \<Rightarrow> component_info option" where
  "first_entity infos i = (case filter_entity infos i of [] \<Rightarrow> None | x # xs \<Rightarrow> Some x)"

definition first_component :: "component_info list \<Rightarrow> string \<Rightarrow> component_info option" where
  "first_component infos n = (case filter_component infos n of [] \<Rightarrow> None | x # xs \<Rightarrow> Some x)"

definition entities_filter :: "int list \<Rightarrow> int \<Rightarrow> int list" where
  "entities_filter entities i = filter (\<lambda>x. x = i) entities"

definition entities_hasOne :: "int list \<Rightarrow> int \<Rightarrow> bool" where
  "entities_hasOne entities i \<longleftrightarrow> length (entities_filter entities i) = 1"

definition entities_first :: "int list \<Rightarrow> int \<Rightarrow> int option" where
  "entities_first entities i = (case entities_filter entities i of [] \<Rightarrow> None | x # xs \<Rightarrow> Some x)"

section \<open>TestJsonSpyEventSystem\<close>

record json_spy_config =
  jsRoleName :: string
  jsHandleProtocolEvents :: bool

definition spy_baseInfo :: "vein_data \<Rightarrow> json_object \<Rightarrow> json_object" where
  "spy_baseInfo d ob =
     fmupd ''Valid'' (JBool (vd_isValid d))
       (fmupd ''EventTarget'' (JStr (strTarget (vd_target d)))
         (fmupd ''EventOrigin'' (JStr (strOrigin (vd_origin d)))
           (fmupd ''Entity'' (JInt (vd_entityId d)) ob)))"

definition spy_commandInfo :: "string \<Rightarrow> vein_event \<Rightarrow> json_object \<Rightarrow> json_object" where
  "spy_commandInfo role e ob =
     fmupd ''ValidPeer'' (JBool (cePeerId e \<noteq> null_uuid))
       (fmupd ''EventSubtype'' (JStr (strSubtype (ceSubtype e)))
         (fmupd ''Am command event in'' (JStr role) ob))"

definition spy_entityData :: "entity_data \<Rightarrow> json_object \<Rightarrow> json_object" where
  "spy_entityData d ob =
     fmupd ''EntityCommand'' (JStr (strEntityCommand (eaCommand d)))
       (fmupd ''Attached data'' (JStr ''EntityData'') ob)"

definition spy_componentData :: "dump_lib \<Rightarrow> qt_lib \<Rightarrow> component_data \<Rightarrow> json_object \<Rightarrow> json_object" where
  "spy_componentData dl qt d ob =
     fmupd ''ValueNew'' (convertToJsonValue dl qt (cdNewValue d))
       (fmupd ''ValueOld'' (convertToJsonValue dl qt (cdOldValue d))
         (fmupd ''ComponentCommand'' (JStr (strComponentCommand (cdCommand d)))
           (fmupd ''ComponentName'' (JStr (cdComponentName d))
             (fmupd ''Attached data'' (JStr ''ComponentData'') ob))))"

definition spy_introspectionData :: "dump_lib \<Rightarrow> introspection_data \<Rightarrow> json_object \<Rightarrow> json_object" where
  "spy_introspectionData dl d ob =
     fmupd ''IntrospectionRPCs'' (JArr (map JStr (idRpcNames d)))
       (fmupd ''IntrospectionComponentData'' (JObj (fmmap (dlFromVariant dl) (idComponentValues d)))
         (fmupd ''Attached data'' (JStr ''IntrospectionData'') ob))"

text \<open>The identifier of the call is left out, since it is random.\<close>

definition spy_rpcData :: "dump_lib \<Rightarrow> rpc_data \<Rightarrow> json_object \<Rightarrow> json_object" where
  "spy_rpcData dl d ob =
     fmupd ''ComponentCommand'' (JStr (strRPCCommand (rdCommand d)))
       (fmupd ''InvokationData''
         (JObj (fmdrop ''RemoteProcedureData::callID'' (fmmap (dlFromVariant dl) (rdInvokationData d))))
         (fmupd ''ProcedureName'' (JStr (rdProcedureName d))
           (fmupd ''Attached data'' (JStr ''RemoteProcedureData'') ob)))"

definition spy_originalData :: "dump_lib \<Rightarrow> qt_lib \<Rightarrow> vein_data \<Rightarrow> json_object \<Rightarrow> json_object" where
  "spy_originalData dl qt od ob =
     (case od of
        VComponent d \<Rightarrow> spy_componentData dl qt d ob
      | VEntity d \<Rightarrow> spy_entityData d ob
      | VIntrospection d \<Rightarrow> spy_introspectionData dl d ob
      | VRpc d \<Rightarrow> spy_rpcData dl d ob
      | VError d \<Rightarrow> ob)"

definition spy_errorData :: "dump_lib \<Rightarrow> qt_lib \<Rightarrow> error_data \<Rightarrow> json_object \<Rightarrow> json_object" where
  "spy_errorData dl qt d ob =
     (let base = spy_baseInfo (VError d) fmempty;
          orig = (case original_data qt d of None \<Rightarrow> base | Some od \<Rightarrow> spy_originalData dl qt od base)
      in fmupd ''OriginalEventData'' (JObj orig) (fmupd ''Attached data'' (JStr ''ErrorData'') ob))"

definition spy_protocolEvent :: "string \<Rightarrow> protocol_event \<Rightarrow> json_object \<Rightarrow> json_object" where
  "spy_protocolEvent role pe ob =
     fmupd ''ValidPeer'' (JBool (pePeerId pe \<noteq> null_uuid))
       (fmupd ''LocalOrigin'' (JBool (peLocalOrigin pe))
         (fmupd ''ReceiversCount'' (JInt (int (length (peReceivers pe))))
           (fmupd ''Am protocol event in'' (JStr role) ob)))"

definition eventToJsonInfo :: "dump_lib \<Rightarrow> qt_lib \<Rightarrow> json_spy_config \<Rightarrow> app_event \<Rightarrow> json_object" where
  "eventToJsonInfo dl qt cfg ev =
     (case ev of
        CmdEv e \<Rightarrow>
          (let ob = spy_commandInfo (jsRoleName cfg) e (spy_baseInfo (ceData e) fmempty)
           in case ceData e of
                VEntity d \<Rightarrow> spy_entityData d ob
              | VComponent d \<Rightarrow> spy_componentData dl qt d ob
              | VIntrospection d \<Rightarrow> spy_introspectionData dl d ob
              | VRpc d \<Rightarrow> spy_rpcData dl d ob
              | VError d \<Rightarrow> spy_errorData dl qt d ob)
      | ProtoEv pe \<Rightarrow>
          (if jsHandleProtocolEvents cfg then spy_protocolEvent (jsRoleName cfg) pe fmempty else fmempty)
      | StatusEv se \<Rightarrow> fmempty)"

fun json_toArray :: "json \<Rightarrow> json list" where
  "json_toArray (JArr js) = js"
| "json_toArray _ = []"

definition spy_addJsonInfo :: "json_object \<Rightarrow> json_object \<Rightarrow> json_object" where
  "spy_addJsonInfo info log =
     (let js = (if log \<noteq> fmempty then json_toArray (jsonValue log ''VeinEvents'') else [])
      in fmupd ''VeinEvents'' (JArr (js @ [JObj info])) log)"

definition jsonSpy_processEvent ::
  "dump_lib \<Rightarrow> qt_lib \<Rightarrow> json_spy_config \<Rightarrow> app_event \<Rightarrow> json_object \<Rightarrow> json_object" where
  "jsonSpy_processEvent dl qt cfg ev log =
     (let info = eventToJsonInfo dl qt cfg ev in if info \<noteq> fmempty then spy_addJsonInfo info log else log)"

definition jsonSpy_onEventAccepted ::
  "dump_lib \<Rightarrow> qt_lib \<Rightarrow> json_spy_config \<Rightarrow> string \<Rightarrow> app_event \<Rightarrow> json_object \<Rightarrow> json_object" where
  "jsonSpy_onEventAccepted dl qt cfg className ev log =
     spy_addJsonInfo (fmupd ''Accepted (finalized) by'' (JStr className) (eventToJsonInfo dl qt cfg ev)) log"

definition jsonSpy_clear :: "json_object \<Rightarrow> json_object" where
  "jsonSpy_clear log = fmempty"

definition jsonSpy_isEmpty :: "json_object \<Rightarrow> bool" where
  "jsonSpy_isEmpty log \<longleftrightarrow> log = fmempty"

section \<open>Watching a chain\<close>

text \<open>
  A system over a larger state follows a system when it does the same to the part that \<open>view\<close>
  shows, and is silent when it does nothing to it and to the event and sends nothing.
\<close>

definition follows :: "('t \<Rightarrow> 's) \<Rightarrow> ('t, 'e) process_event \<Rightarrow> ('s, 'e) process_event \<Rightarrow> bool" where
  "follows view q p \<longleftrightarrow> (\<forall>t e. (view (fst (q t e)), snd (q t e)) = p (view t) e)"

definition silent :: "('t \<Rightarrow> 's) \<Rightarrow> ('t, 'e) process_event \<Rightarrow> bool" where
  "silent view q \<longleftrightarrow> (\<forall>t e. view (fst (q t e)) = view t \<and> snd (q t e) = (e, []))"

inductive watched ::
  "('t \<Rightarrow> 's) \<Rightarrow> ('t, 'e) process_event list \<Rightarrow> ('s, 'e) process_event list \<Rightarrow> bool" for view where
  watched_nil: "watched view [] []"
| watched_follow: "follows view q p \<Longrightarrow> watched view qs ps \<Longrightarrow> watched view (q # qs) (p # ps)"
| watched_silent: "silent view q \<Longrightarrow> watched view qs ps \<Longrightarrow> watched view (q # qs) ps"

lemma watched_dispatch:
  assumes "watched view qs ps"
  shows "(case customEvent acc qs t e of (t', e', out, n) \<Rightarrow> (view t', e', out)) =
    (case customEvent acc ps (view t) e of (s', e', out, n) \<Rightarrow> (s', e', out))"
  using assms
proof (induction arbitrary: t e rule: watched.induct)
  case watched_nil
  then show ?case by simp
next
  case (watched_follow q p qs ps)
  obtain t1 e1 out1 where q: "q t e = (t1, e1, out1)" by (cases "q t e")
  then have p: "p (view t) e = (view t1, e1, out1)"
    using watched_follow.hyps(1) unfolding follows_def by (metis fst_conv snd_conv)
  show ?case using watched_follow.IH [of t1 e1] by (auto simp: q p split: prod.splits)
next
  case (watched_silent q qs ps)
  show ?case
  proof (cases "acc e")
    case False
    obtain t1 e1 out1 where q: "q t e = (t1, e1, out1)" by (cases "q t e")
    then have "view t1 = view t" "e1 = e" "out1 = []"
      using watched_silent.hyps(1) unfolding silent_def by (metis fst_conv snd_conv prod.inject)+
    then show ?thesis using watched_silent.IH [of t1 e1] False by (auto simp: q split: prod.splits)
  qed simp
qed

lemma watched_run:
  assumes "watched view qs ps"
  shows "(view (fst (run_events n acc qs t q)), snd (run_events n acc qs t q)) = run_events n acc ps (view t) q"
proof (induction n arbitrary: t q)
  case 0
  then show ?case by simp
next
  case (Suc n)
  show ?case
  proof (cases q)
    case Nil
    then show ?thesis by simp
  next
    case (Cons e es)
    then show ?thesis
      using watched_dispatch [OF assms, of acc t e] Suc.IH by (auto split: prod.splits)
  qed
qed

lemma watched_append: "watched view qs ps \<Longrightarrow> watched view qs' ps' \<Longrightarrow> watched view (qs @ qs') (ps @ ps')"
  by (induction rule: watched.induct) (auto intro: watched.intros)

lemma watched_map:
  "(\<And>x. x \<in> set xs \<Longrightarrow> follows view (f x) (g x)) \<Longrightarrow> watched view (map f xs) (map g xs)"
  by (induction xs) (auto intro: watched.intros)

end
