(* ===== verification/MockNet.thy ===== *)
theory MockNet
  imports Prelude "HOL-Library.Finite_Map"
begin

text \<open>
  network/vf-tcp/mocknetworklib: the double of the TCP classes that connects peers within one
  process. Peers and servers are objects with addresses; signals are queued (\<open>mnQueue\<close>) and
  delivered in order. The lemmas show that the two tables of a server stay inverse to each other
  and that the end of a connection is told to the other side once.
\<close>

section \<open>State\<close>

datatype socket_error = HostNotFoundError | ConnectionRefusedError

datatype mock_signal =
    MSocketError nat socket_error
  | MConnectionEstablished nat
  | MMessageReceived nat "8 word list"
  | MConnectionClosed nat
  | MClientConnected nat nat

record mock_worker =
  mwPeerId :: quuid
  mwAmClientPeer :: bool
  mwOtherPeer :: "nat option"
  mwConnectionEstablished :: bool
  mwIpAddress :: string
  mwPort :: int

record mock_server =
  msPortListening :: int
  msClientServer :: "(nat, nat) qmap"
  msServerClient :: "(nat, nat) qmap"

text \<open>The static table of listening servers, all workers and servers, and the queued signals.\<close>

record mock_net =
  mnServerMocks :: "(int, nat) qmap"
  mnServers :: "(nat, mock_server) qmap"
  mnWorkers :: "(nat, mock_worker) qmap"
  mnQueue :: "mock_signal list"

definition mock_net_new :: mock_net where
  "mock_net_new =
     \<lparr> mnServerMocks = fmempty, mnServers = fmempty, mnWorkers = fmempty, mnQueue = [] \<rparr>"

definition mock_post :: "mock_signal \<Rightarrow> mock_net \<Rightarrow> mock_net" where
  "mock_post g net = net\<lparr>mnQueue := mnQueue net @ [g]\<rparr>"

definition mock_server_new :: mock_server where
  "mock_server_new = \<lparr> msPortListening = 0, msClientServer = fmempty, msServerClient = fmempty \<rparr>"

definition mock_client_worker :: mock_worker where
  "mock_client_worker = \<lparr> mwPeerId = null_uuid, mwAmClientPeer = True, mwOtherPeer = None,
     mwConnectionEstablished = False, mwIpAddress = '''', mwPort = 0 \<rparr>"

definition mock_server_worker :: "nat \<Rightarrow> mock_worker" where
  "mock_server_worker other = \<lparr> mwPeerId = null_uuid, mwAmClientPeer = False,
     mwOtherPeer = Some other, mwConnectionEstablished = True, mwIpAddress = '''', mwPort = 0 \<rparr>"

text \<open>\<^verbatim>\<open>MockTcpNetworkFactory\<close>: workers for new peers and servers, by their address.\<close>

definition createTcpPeerWorker :: "nat \<Rightarrow> mock_net \<Rightarrow> mock_net" where
  "createTcpPeerWorker p net = net\<lparr>mnWorkers := fmupd p mock_client_worker (mnWorkers net)\<rparr>"

definition createTcpServerWorker :: "nat \<Rightarrow> mock_net \<Rightarrow> mock_net" where
  "createTcpServerWorker srv net = net\<lparr>mnServers := fmupd srv mock_server_new (mnServers net)\<rparr>"

section \<open>MockNetServerWorker\<close>

definition mock_startServer :: "nat \<Rightarrow> int \<Rightarrow> mock_net \<Rightarrow> mock_net \<times> bool" where
  "mock_startServer srv port net =
     (if port |\<notin>| fmdom (mnServerMocks net)
      then (net\<lparr> mnServers := fmupd srv
                    ((qvalue (mnServers net) srv mock_server_new)\<lparr>msPortListening := port\<rparr>) (mnServers net),
                  mnServerMocks := fmupd port srv (mnServerMocks net) \<rparr>, True)
      else (net, False))"

definition mock_isListenActive :: "mock_server \<Rightarrow> bool" where
  "mock_isListenActive s \<longleftrightarrow> msPortListening s \<noteq> 0"

definition getServerMock :: "int \<Rightarrow> mock_net \<Rightarrow> nat option" where
  "getServerMock port net = fmlookup (mnServerMocks net) port"

text \<open>
  A client peer connects: the server creates a peer (its address is an input) whose worker knows
  the client, and links the two.
\<close>

definition link_peers :: "nat \<Rightarrow> nat \<Rightarrow> mock_server \<Rightarrow> mock_server" where
  "link_peers client serverPeer s =
     s\<lparr> msClientServer := fmupd client serverPeer (msClientServer s),
        msServerClient := fmupd serverPeer client (msServerClient s) \<rparr>"

definition emitSigClientConnected :: "nat \<Rightarrow> nat \<Rightarrow> nat \<Rightarrow> mock_net \<Rightarrow> mock_net" where
  "emitSigClientConnected srv serverPeer client net =
     mock_post (MClientConnected srv serverPeer)
       (net\<lparr> mnWorkers := fmupd serverPeer (mock_server_worker client) (mnWorkers net),
             mnServers := fmupd srv
               (link_peers client serverPeer (qvalue (mnServers net) srv mock_server_new))
               (mnServers net) \<rparr>)"

definition removePeersFromHashes :: "nat \<Rightarrow> mock_server \<Rightarrow> mock_server" where
  "removePeersFromHashes p s =
     (let s1 = (case fmlookup (msClientServer s) p of
                  None \<Rightarrow> s
                | Some sp \<Rightarrow> s\<lparr> msClientServer := fmdrop p (msClientServer s),
                                msServerClient := fmdrop sp (msServerClient s) \<rparr>)
      in case fmlookup (msServerClient s1) p of
           None \<Rightarrow> s1
         | Some cp \<Rightarrow> s1\<lparr> msServerClient := fmdrop p (msServerClient s1),
                           msClientServer := fmdrop cp (msClientServer s1) \<rparr>)"

text \<open>The two slots; what they queue is the second component.\<close>

definition onClientPeerClosed :: "nat \<Rightarrow> mock_server \<Rightarrow> mock_server \<times> mock_signal list" where
  "onClientPeerClosed p s =
     (case fmlookup (msClientServer s) p of
        None \<Rightarrow> (s, [])
      | Some other \<Rightarrow> (removePeersFromHashes other s, [MConnectionClosed other]))"

definition onServerPeerClosed :: "nat \<Rightarrow> mock_server \<Rightarrow> mock_server \<times> mock_signal list" where
  "onServerPeerClosed p s =
     (case fmlookup (msServerClient s) p of
        None \<Rightarrow> (s, [])
      | Some other \<Rightarrow> (removePeersFromHashes other s, [MConnectionClosed other]))"

text \<open>The destructor closes all connections of the server and forgets the port.\<close>

definition mock_server_destroyed :: "nat \<Rightarrow> mock_net \<Rightarrow> mock_net" where
  "mock_server_destroyed srv net =
     (case fmlookup (mnServers net) srv of
        None \<Rightarrow> net
      | Some s \<Rightarrow>
          net\<lparr> mnServerMocks := fmdrop (msPortListening s) (mnServerMocks net),
               mnServers := fmdrop srv (mnServers net),
               mnQueue := mnQueue net @ concat (map (\<lambda>c.
                 [MConnectionClosed c, MConnectionClosed (qvalue (msClientServer s) c 0)])
                 (qkeys (msClientServer s))) \<rparr>)"

section \<open>MockNetPeerWorker\<close>

definition mock_emitSigSocketError :: "nat \<Rightarrow> socket_error \<Rightarrow> mock_net \<Rightarrow> mock_net" where
  "mock_emitSigSocketError p err net = mock_post (MSocketError p err) net"

definition mock_emitSigConnectionEstablished :: "nat \<Rightarrow> mock_net \<Rightarrow> mock_net" where
  "mock_emitSigConnectionEstablished p net = mock_post (MConnectionEstablished p) net"

lemmas mock_emit_defs [simp] = mock_emitSigSocketError_def mock_emitSigConnectionEstablished_def

definition mock_startConnection :: "nat \<Rightarrow> nat \<Rightarrow> string \<Rightarrow> int \<Rightarrow> mock_net \<Rightarrow> mock_net" where
  "mock_startConnection serverPeer p ipAddress port net =
     (if ipAddress \<noteq> ''localhost'' \<and> ipAddress \<noteq> ''127.0.0.1''
      then mock_emitSigSocketError p HostNotFoundError net
      else let w = (qvalue (mnWorkers net) p mock_client_worker)\<lparr> mwIpAddress := ipAddress, mwPort := port \<rparr>;
               net1 = net\<lparr>mnWorkers := fmupd p w (mnWorkers net)\<rparr>
           in case getServerMock port net1 of
                None \<Rightarrow> mock_emitSigSocketError p ConnectionRefusedError net1
              | Some srv \<Rightarrow>
                  let net2 = emitSigClientConnected srv serverPeer p net1
                  in mock_emitSigConnectionEstablished p
                       (net2\<lparr>mnWorkers := fmupd p (w\<lparr>mwOtherPeer := Some serverPeer\<rparr>) (mnWorkers net2)\<rparr>))"

definition emitMessageReceived :: "nat \<Rightarrow> 8 word list \<Rightarrow> mock_net \<Rightarrow> mock_net" where
  "emitMessageReceived p message net =
     (case fmlookup (mnWorkers net) p of
        None \<Rightarrow> net
      | Some w \<Rightarrow>
          (case mwOtherPeer w of
             None \<Rightarrow> net
           | Some other \<Rightarrow>
               if \<not> mwConnectionEstablished w then net
               else mock_post (MMessageReceived other message) net))"

definition mock_writeRaw :: "nat \<Rightarrow> 8 word list \<Rightarrow> mock_net \<Rightarrow> mock_net" where
  "mock_writeRaw p message net = emitMessageReceived p message net"

definition mock_sendArray :: "nat \<Rightarrow> 8 word list \<Rightarrow> mock_net \<Rightarrow> mock_net" where
  "mock_sendArray p message net = emitMessageReceived p message net"

definition mock_setPeerId :: "quuid \<Rightarrow> mock_worker \<Rightarrow> mock_worker" where
  "mock_setPeerId i w = w\<lparr>mwPeerId := i\<rparr>"

definition set_established :: "bool \<Rightarrow> nat \<Rightarrow> mock_net \<Rightarrow> mock_net" where
  "set_established b p net =
     (case fmlookup (mnWorkers net) p of
        None \<Rightarrow> net
      | Some w \<Rightarrow> net\<lparr>mnWorkers := fmupd p (w\<lparr>mwConnectionEstablished := b\<rparr>) (mnWorkers net)\<rparr>)"

section \<open>Delivery of queued signals\<close>

text \<open>
  A closed signal reaches the worker of the peer, which marks itself disconnected, and the slots
  of every server that linked the peer. A server's peer then deletes itself later
  (\<open>mock_peer_destroyed\<close>); until then its worker stays, disconnected.
\<close>

definition server_slots :: "nat \<Rightarrow> nat \<Rightarrow> mock_net \<Rightarrow> mock_net" where
  "server_slots p srv net =
     (let s = qvalue (mnServers net) srv mock_server_new;
          (s1, out1) = onClientPeerClosed p s;
          (s2, out2) = onServerPeerClosed p s1
      in net\<lparr> mnServers := fmupd srv s2 (mnServers net), mnQueue := mnQueue net @ out1 @ out2 \<rparr>)"

definition peer_closed :: "nat \<Rightarrow> mock_net \<Rightarrow> mock_net" where
  "peer_closed p net = fold (server_slots p) (qkeys (mnServers net)) (set_established False p net)"

text \<open>Signals that only the users of the peers look at are passed to them (second component).\<close>

fun mock_deliver :: "mock_signal \<Rightarrow> mock_net \<Rightarrow> mock_net \<times> mock_signal list" where
  "mock_deliver (MConnectionEstablished p) net = (set_established True p net, [MConnectionEstablished p])"
| "mock_deliver (MConnectionClosed p) net = (peer_closed p net, [MConnectionClosed p])"
| "mock_deliver g net = (net, [g])"

definition mock_turn :: "mock_net \<Rightarrow> mock_net \<times> mock_signal list" where
  "mock_turn net =
     (case mnQueue net of
        [] \<Rightarrow> (net, [])
      | g # gs \<Rightarrow> mock_deliver g (net\<lparr>mnQueue := gs\<rparr>))"

section \<open>Destruction of a peer\<close>

text \<open>
  The worker is destroyed with its peer. When it is connected, it tells the end of the connection,
  at once; then Qt drops what was queued for the two objects. The signal that tells the server of a
  new peer is queued for the server, and stays.
\<close>

fun queued_for :: "nat \<Rightarrow> mock_signal \<Rightarrow> bool" where
  "queued_for p (MSocketError q err) = (q = p)"
| "queued_for p (MConnectionEstablished q) = (q = p)"
| "queued_for p (MMessageReceived q m) = (q = p)"
| "queued_for p (MConnectionClosed q) = (q = p)"
| "queued_for p (MClientConnected srv q) = False"

definition mock_peer_destroyed :: "nat \<Rightarrow> mock_net \<Rightarrow> mock_net \<times> mock_signal list" where
  "mock_peer_destroyed p net =
     (case fmlookup (mnWorkers net) p of
        None \<Rightarrow> (net, [])
      | Some w \<Rightarrow>
          let (net1, out) = (if mwConnectionEstablished w then (peer_closed p net, [MConnectionClosed p])
                             else (net, []))
          in (net1\<lparr> mnWorkers := fmdrop p (mnWorkers net1),
                    mnQueue := filter (Not \<circ> queued_for p) (mnQueue net1) \<rparr>, out))"

section \<open>The tables of a server\<close>

definition links_ok :: "mock_server \<Rightarrow> bool" where
  "links_ok s \<longleftrightarrow>
     (\<forall>c sp. fmlookup (msClientServer s) c = Some sp \<longleftrightarrow> fmlookup (msServerClient s) sp = Some c)"

definition linked :: "mock_server \<Rightarrow> nat \<Rightarrow> nat \<Rightarrow> bool" where
  "linked s c sp \<longleftrightarrow> fmlookup (msClientServer s) c = Some sp"

text \<open>No address is a client's and a server's peer at once.\<close>

definition sides_apart :: "mock_server \<Rightarrow> bool" where
  "sides_apart s \<longleftrightarrow> fmdom (msClientServer s) |\<inter>| fmdom (msServerClient s) = {||}"

lemma links_okD:
  "links_ok s \<Longrightarrow> fmlookup (msClientServer s) c = Some sp \<longleftrightarrow> fmlookup (msServerClient s) sp = Some c"
  by (simp add: links_ok_def)

lemma mock_server_new_ok [inv_intros]: "links_ok mock_server_new" "sides_apart mock_server_new"
  by (simp_all add: links_ok_def sides_apart_def mock_server_new_def)

lemma link_peers_ok [inv_intros]:
  assumes "links_ok s" and "c |\<notin>| fmdom (msClientServer s)" and "sp |\<notin>| fmdom (msServerClient s)"
  shows "links_ok (link_peers c sp s)"
proof -
  have "fmlookup (msClientServer s) c = None" "fmlookup (msServerClient s) sp = None"
    using assms(2,3) by (simp_all add: fmdom_notD)
  then show ?thesis
    using assms(1) unfolding links_ok_def link_peers_def by simp (metis option.distinct(1))
qed

lemma link_peers_apart [inv_intros]:
  assumes "sides_apart s" and "c \<noteq> sp" and "c |\<notin>| fmdom (msServerClient s)"
    and "sp |\<notin>| fmdom (msClientServer s)"
  shows "sides_apart (link_peers c sp s)"
  using assms by (auto simp: sides_apart_def link_peers_def fset_eq_iff)

text \<open>Removing the peers of one link removes that link and no other.\<close>

lemma removePeers_server:
  assumes "links_ok s" and "sides_apart s" and "linked s c sp"
  shows "removePeersFromHashes sp s =
    s\<lparr> msClientServer := fmdrop c (msClientServer s), msServerClient := fmdrop sp (msServerClient s) \<rparr>"
proof -
  have sp: "fmlookup (msServerClient s) sp = Some c"
    using assms(1,3) by (simp add: linked_def links_okD)
  then have "sp |\<in>| fmdom (msServerClient s)" by (rule fmdomI)
  then have "sp |\<notin>| fmdom (msClientServer s)" using assms(2) by (auto simp: sides_apart_def fset_eq_iff)
  then show ?thesis using sp by (simp add: removePeersFromHashes_def fmdom_notD)
qed

lemma removePeers_client:
  assumes "links_ok s" and "sides_apart s" and "linked s c sp"
  shows "removePeersFromHashes c s =
    s\<lparr> msClientServer := fmdrop c (msClientServer s), msServerClient := fmdrop sp (msServerClient s) \<rparr>"
proof -
  have c: "fmlookup (msClientServer s) c = Some sp" using assms(3) by (simp add: linked_def)
  then have "c |\<in>| fmdom (msClientServer s)" by (rule fmdomI)
  then have "c |\<notin>| fmdom (msServerClient s)" using assms(2) by (auto simp: sides_apart_def fset_eq_iff)
  then show ?thesis using c by (simp add: removePeersFromHashes_def fmdom_notD)
qed

lemma unlinked_ok:
  assumes "links_ok s" and "sides_apart s" and "linked s c sp"
  defines "s' \<equiv> s\<lparr> msClientServer := fmdrop c (msClientServer s),
    msServerClient := fmdrop sp (msServerClient s) \<rparr>"
  shows "links_ok s'" and "sides_apart s'"
    and "linked s' x y \<longleftrightarrow> linked s x y \<and> x \<noteq> c \<and> y \<noteq> sp"
proof -
  have inj: "linked s x sp \<Longrightarrow> x = c" "linked s c y \<Longrightarrow> y = sp" for x y
    using assms(1,3) unfolding linked_def links_ok_def by (metis option.inject)+
  show "links_ok s'"
    using assms(1) inj unfolding links_ok_def s'_def linked_def by simp (metis option.distinct(1))
  show "sides_apart s'" using assms(2) by (auto simp: sides_apart_def s'_def fset_eq_iff)
  show "linked s' x y \<longleftrightarrow> linked s x y \<and> x \<noteq> c \<and> y \<noteq> sp"
    using inj unfolding linked_def s'_def by (cases "x = c") auto
qed

text \<open>
  When one side of a link closes, exactly the other side is told and the link is gone: its own
  closing, which that brings about, is told to nobody.
\<close>

lemma close_told_once:
  assumes "links_ok s" and "sides_apart s" and "linked s c sp"
  shows "snd (onClientPeerClosed c s) = [MConnectionClosed sp]"
    and "onServerPeerClosed sp (fst (onClientPeerClosed c s)) = (fst (onClientPeerClosed c s), [])"
    and "snd (onServerPeerClosed sp s) = [MConnectionClosed c]"
    and "onClientPeerClosed c (fst (onServerPeerClosed sp s)) = (fst (onServerPeerClosed sp s), [])"
    and "fst (onClientPeerClosed c s) = fst (onServerPeerClosed sp s)"
proof -
  have "fmlookup (msClientServer s) c = Some sp" "fmlookup (msServerClient s) sp = Some c"
    using assms by (simp_all add: linked_def links_ok_def)
  then show "snd (onClientPeerClosed c s) = [MConnectionClosed sp]"
    "onServerPeerClosed sp (fst (onClientPeerClosed c s)) = (fst (onClientPeerClosed c s), [])"
    "snd (onServerPeerClosed sp s) = [MConnectionClosed c]"
    "onClientPeerClosed c (fst (onServerPeerClosed sp s)) = (fst (onServerPeerClosed sp s), [])"
    "fst (onClientPeerClosed c s) = fst (onServerPeerClosed sp s)"
    using removePeers_server [OF assms] removePeers_client [OF assms]
    by (simp_all add: onClientPeerClosed_def onServerPeerClosed_def)
qed

lemma close_slots_ok:
  assumes "links_ok s" and "sides_apart s"
  shows "links_ok (fst (onClientPeerClosed p s))" "sides_apart (fst (onClientPeerClosed p s))"
    "links_ok (fst (onServerPeerClosed p s))" "sides_apart (fst (onServerPeerClosed p s))"
proof -
  show "links_ok (fst (onClientPeerClosed p s))" "sides_apart (fst (onClientPeerClosed p s))"
    using assms removePeers_server [OF assms] unlinked_ok [OF assms]
    by (cases "fmlookup (msClientServer s) p"; simp add: onClientPeerClosed_def linked_def)+
  show "links_ok (fst (onServerPeerClosed p s))" "sides_apart (fst (onServerPeerClosed p s))"
    using assms removePeers_client [OF assms] unlinked_ok [OF assms]
    by (cases "fmlookup (msServerClient s) p"; simp add: onServerPeerClosed_def linked_def
        links_okD [OF assms(1)])+
qed

section \<open>The whole network\<close>

text \<open>
  What can happen: workers and servers are created, servers listen, servers and peers are
  destroyed (the peers a server has made with it or after their closing), peers connect (the address
  of the new server peer is fresh, and the client has no link to the server yet, as the code
  asserts), send, and queued signals are delivered in order.
\<close>

definition mock_addresses :: "mock_server \<Rightarrow> nat fset" where
  "mock_addresses s = fmdom (msClientServer s) |\<union>| fmdom (msServerClient s)"

inductive mock_step :: "mock_net \<Rightarrow> mock_net \<Rightarrow> bool" where
  step_peer: "mock_step net (createTcpPeerWorker p net)"
| step_server: "mock_step net (createTcpServerWorker srv net)"
| step_listen: "mock_step net (fst (mock_startServer srv port net))"
| step_connect:
    "(\<And>srv. getServerMock port net = Some srv \<Longrightarrow> p \<noteq> sp \<and>
        p |\<notin>| mock_addresses (qvalue (mnServers net) srv mock_server_new) \<and>
        sp |\<notin>| mock_addresses (qvalue (mnServers net) srv mock_server_new)) \<Longrightarrow>
     mock_step net (mock_startConnection sp p ip port net)"
| step_send: "mock_step net (mock_sendArray p m net)"
| step_turn: "mock_step net (fst (mock_turn net))"
| step_destroy: "mock_step net (mock_server_destroyed srv net)"
| step_delete: "mock_step net (fst (mock_peer_destroyed p net))"

inductive_cases mock_stepE: "mock_step net net'"

definition mock_ok :: "mock_net \<Rightarrow> bool" where
  "mock_ok net \<longleftrightarrow>
     (\<forall>srv s. fmlookup (mnServers net) srv = Some s \<longrightarrow> links_ok s \<and> sides_apart s)"

lemma mock_ok_value:
  "mock_ok net \<Longrightarrow> links_ok (qvalue (mnServers net) srv mock_server_new) \<and>
     sides_apart (qvalue (mnServers net) srv mock_server_new)"
  by (auto simp: mock_ok_def qvalue_def mock_server_new_ok split: option.splits)

lemma mock_ok_simps [simp]:
  "mock_ok (net\<lparr>mnQueue := q\<rparr>) = mock_ok net" "mock_ok (net\<lparr>mnWorkers := ws\<rparr>) = mock_ok net"
  "mock_ok (net\<lparr>mnServerMocks := ps\<rparr>) = mock_ok net" "mock_ok (mock_post g net) = mock_ok net"
  by (simp_all add: mock_ok_def mock_post_def)

lemma mock_ok_server:
  "mock_ok net \<Longrightarrow> links_ok s \<Longrightarrow> sides_apart s \<Longrightarrow>
   mock_ok (net\<lparr>mnServers := fmupd srv s (mnServers net)\<rparr>)"
  by (simp add: mock_ok_def)

lemma server_slots_ok: "mock_ok net \<Longrightarrow> mock_ok (server_slots p srv net)"
  using mock_ok_value [of net srv] close_slots_ok
  by (auto simp: server_slots_def Let_def split_beta mock_ok_def)

lemma peer_closed_ok: "mock_ok net \<Longrightarrow> mock_ok (peer_closed p net)"
proof -
  have "mock_ok n \<Longrightarrow> mock_ok (fold (server_slots p) srvs n)" for srvs n
    by (induction srvs arbitrary: n) (simp_all add: server_slots_ok)
  then show "mock_ok net \<Longrightarrow> mock_ok (peer_closed p net)"
    by (simp add: peer_closed_def set_established_def split: option.split)
qed

lemma emitSigClientConnected_ok:
  assumes "mock_ok net" and "p \<noteq> sp"
    and "p |\<notin>| mock_addresses (qvalue (mnServers net) srv mock_server_new)"
    and "sp |\<notin>| mock_addresses (qvalue (mnServers net) srv mock_server_new)"
  shows "mock_ok (emitSigClientConnected srv sp p net)"
proof -
  let ?s = "link_peers p sp (qvalue (mnServers net) srv mock_server_new)"
  have "links_ok ?s" "sides_apart ?s"
    using mock_ok_value [OF assms(1), of srv] assms(2-4)
    by (auto simp: mock_addresses_def intro!: link_peers_ok link_peers_apart)
  then have "mock_ok (net\<lparr>mnServers := fmupd srv ?s (mnServers net)\<rparr>)"
    by (rule mock_ok_server [OF assms(1)])
  then show ?thesis by (simp add: emitSigClientConnected_def mock_ok_def mock_post_def)
qed

lemma mock_step_ok: "mock_step net net' \<Longrightarrow> mock_ok net \<Longrightarrow> mock_ok net'"
proof (induction rule: mock_step.induct)
  case (step_connect port net p sp ip)
  show ?case
  proof (cases "getServerMock port net")
    case None
    then show ?thesis
      using step_connect by (simp add: mock_startConnection_def getServerMock_def Let_def)
  next
    case (Some srv)
    then show ?thesis
      using step_connect emitSigClientConnected_ok
      by (simp add: mock_startConnection_def getServerMock_def Let_def)
  qed
next
  case (step_listen net srv port)
  then show ?case
    using mock_ok_value [of net srv]
    by (auto simp: mock_startServer_def mock_ok_def links_ok_def sides_apart_def)
next
  case (step_turn net)
  have "mock_ok (fst (mock_deliver g n))" if "mock_ok n" for g n
    using that peer_closed_ok
    by (cases g) (simp_all add: set_established_def split: option.split)
  then show ?case using step_turn by (simp add: mock_turn_def split: list.split)
next
  case (step_destroy net srv)
  then show ?case by (auto simp: mock_server_destroyed_def mock_ok_def split: option.split if_splits)
next
  case (step_delete net p)
  then show ?case by (simp add: mock_peer_destroyed_def peer_closed_ok split: option.split)
qed (auto simp: createTcpPeerWorker_def createTcpServerWorker_def mock_sendArray_def mock_ok_server
    emitMessageReceived_def mock_server_new_ok split: option.splits)

text \<open>
  The mock network pairs peers one to one: whatever sequence of connections, messages,
  closings and destructions has happened, the two tables of every server are inverse to each
  other, so that a client peer has one server peer and the other way round, and no peer stands
  on both sides. When either side of a link closes, the other side alone is told, and its own
  closing then is told to nobody.
\<close>

theorem mock_links_inverse:
  assumes "mock_step\<^sup>*\<^sup>* mock_net_new net" and "fmlookup (mnServers net) srv = Some s"
  shows "(fmlookup (msClientServer s) c = Some sp) = (fmlookup (msServerClient s) sp = Some c) \<and>
    fmdom (msClientServer s) |\<inter>| fmdom (msServerClient s) = {||} \<and>
    (if fmlookup (msClientServer s) c = Some sp
     then snd (onClientPeerClosed c s) = [MConnectionClosed sp] \<and>
          snd (onServerPeerClosed sp (fst (onClientPeerClosed c s))) = [] \<and>
          snd (onServerPeerClosed sp s) = [MConnectionClosed c] \<and>
          snd (onClientPeerClosed c (fst (onServerPeerClosed sp s))) = []
     else True)"
proof -
  have "mock_ok mock_net_new" by (simp add: mock_ok_def mock_net_new_def)
  with assms(1) have "mock_ok net" by (induction rule: rtranclp_induct) (simp_all add: mock_step_ok)
  then have s: "links_ok s" "sides_apart s" using assms(2) by (simp_all add: mock_ok_def)
  then show ?thesis
    using close_told_once [OF s, of c sp] by (simp add: links_okD linked_def) (simp add: sides_apart_def links_okD)
qed

definition example_net :: mock_net where
  "example_net = mock_startConnection 5 2 ''localhost'' 12000
     (fst (mock_startServer 3 12000 (createTcpServerWorker 3 (createTcpPeerWorker 2 mock_net_new))))"

theorem mock_links_inverse_witness:
  "\<exists>s. fmlookup (mnServers example_net) 3 = Some s \<and> snd (onClientPeerClosed 2 s) = [MConnectionClosed 5]"
proof -
  let ?n1 = "createTcpPeerWorker 2 mock_net_new"
  let ?n2 = "createTcpServerWorker 3 ?n1"
  let ?n3 = "fst (mock_startServer 3 12000 ?n2)"
  have empty: "mock_addresses (qvalue (mnServers ?n3) srv mock_server_new) = {||}" for srv
    by (simp add: mock_startServer_def createTcpServerWorker_def createTcpPeerWorker_def
        mock_net_new_def mock_server_new_def mock_addresses_def)
  have "mock_step ?n3 example_net"
    unfolding example_net_def by (rule step_connect) (simp add: empty)
  then have r: "mock_step\<^sup>*\<^sup>* mock_net_new example_net"
    using step_peer [of mock_net_new 2] step_server [of ?n1 3] step_listen [of ?n2 3 12000]
    by (meson rtranclp.rtrancl_into_rtrancl rtranclp.rtrancl_refl)
  obtain s where s: "fmlookup (mnServers example_net) 3 = Some s" "fmlookup (msClientServer s) 2 = Some 5"
    by (simp add: example_net_def mock_startServer_def createTcpServerWorker_def createTcpPeerWorker_def
        mock_net_new_def mock_startConnection_def getServerMock_def emitSigClientConnected_def
        mock_post_def link_peers_def mock_server_new_def Let_def)
  show ?thesis using mock_links_inverse [OF r s(1), of 2 5] s by simp
qed

text \<open>
  Until the end of the connection is delivered to the other side, that side's worker still takes
  itself for connected: what it sends then goes to an object that is gone.
\<close>

lemma peer_closed_workers: "mnWorkers (peer_closed p net) = mnWorkers (set_established False p net)"
proof -
  have "mnWorkers (fold (server_slots p) srvs n) = mnWorkers n" for srvs n
    by (induction srvs arbitrary: n) (simp_all add: server_slots_def Let_def split_beta)
  then show ?thesis by (simp add: peer_closed_def)
qed

lemma stale_peer_message:
  assumes "fmlookup (mnWorkers net) p = Some v" and "fmlookup (mnWorkers net) other = Some w"
    and "mwOtherPeer w = Some p" and "mwConnectionEstablished w" and "other \<noteq> p"
  defines "net' \<equiv> fst (mock_peer_destroyed p net)"
  shows "MMessageReceived p m \<in> set (mnQueue (mock_sendArray other m net'))" and "p |\<notin>| fmdom (mnWorkers net')"
proof -
  have "fmlookup (mnWorkers net') other = Some w" "p |\<notin>| fmdom (mnWorkers net')"
    using assms(1,2,5)
    by (auto simp: net'_def mock_peer_destroyed_def peer_closed_workers set_established_def)
  then show "MMessageReceived p m \<in> set (mnQueue (mock_sendArray other m net'))" "p |\<notin>| fmdom (mnWorkers net')"
    using assms(3,4) by (simp_all add: mock_sendArray_def emitMessageReceived_def mock_post_def)
qed

end
