(* ===== verification/TestServer.thy ===== *)
theory TestServer
  imports Spies ServerFlows MockNet
begin

text \<open>
  framework/testlib, \<^verbatim>\<open>TestVeinServer\<close> and \<^verbatim>\<open>TestVeinServerWithMockNet\<close>: a server for tests in one
  process. Its event handler has the store, introspection and system entity of the real server,
  spies before and behind them, an event handler for procedure calls, the entities a test adds
  and the event systems it appends. Every operation ends by running the event loop until nothing
  waits, and a change of the session runs it from inside the dispatch of an event.
\<close>

section \<open>State\<close>

text \<open>
  The systems of the handler: the server's own, its entities by number and those of the test.
\<close>

datatype test_system =
    TsTop | TsEntitySpy | TsAddSpy | TsChangeSpy
  | TsSystem | TsIntrospection | TsStorage | TsCmdHandler | TsBottom
  | TsEntity int
  | TsUser nat

record 'u test_server =
  tvHandler :: "(test_system, unit) handler_world"
  tvEntityAdds :: "int list"                      \<comment> \<open>\<^verbatim>\<open>m_vfEntityAddSpy\<close>\<close>
  tvComponentAdds :: "component_info list"
  tvComponentChanges :: "component_info list"
  tvLog :: json_object                            \<comment> \<open>\<^verbatim>\<open>m_JsonEventLog\<close>\<close>
  tvSystem :: system_module
  tvStorage :: server_storage
  tvEntities :: "(int, vf_entity) qmap"
  tvSessions :: "string list"
  tvCmdHandler :: "int cmd_handler"               \<comment> \<open>its items are the invokers, by entity\<close>
  tvInvokers :: "(int, rpc_invoker) qmap"
  tvFinished :: "(bool \<times> qvariant_map) list"       \<comment> \<open>\<^verbatim>\<open>sigRPCFinished\<close>, as emitted\<close>
  tvUser :: 'u
  tvQueue :: "app_event list"                     \<comment> \<open>events posted and not yet dispatched\<close>
  tvSignals :: "sm_signal list"                   \<comment> \<open>signals whose slots are still to run\<close>
  tvConnections :: "int list"                     \<comment> \<open>slots connected by \<^verbatim>\<open>changeSession\<close>\<close>
  tvDown :: bool                                  \<comment> \<open>undefined behaviour was reached\<close>

text \<open>The systems of the test and the names of their classes, by number.\<close>

record 'u test_env =
  teQt :: qt_lib
  teSys :: system_env
  teDump :: dump_lib
  teUser :: "nat \<Rightarrow> 'u \<Rightarrow> app_event \<Rightarrow> ('u \<times> app_event \<times> app_event list) option"
  teClassName :: "nat \<Rightarrow> string"

type_synonym 'u test_proc = "('u test_server, app_event) process_event"

section \<open>The systems\<close>

definition spy_config :: "string \<Rightarrow> json_spy_config" where
  "spy_config role = \<lparr> jsRoleName = role, jsHandleProtocolEvents = False \<rparr>"

text \<open>
  The system entity lists the entities of this server's database. The slots of its signals work on
  the whole server and run in \<open>ts_slots\<close> below.
\<close>

definition ts_sysEnv :: "'u test_env \<Rightarrow> 'u test_server \<Rightarrow> system_env" where
  "ts_sysEnv env s = (teSys env)
     \<lparr> evEntityList := getEntityList (ssDb (tvStorage s)), evChangeSlots := no_slots \<rparr>"

definition finished_calls :: "actor_signal list \<Rightarrow> (bool \<times> qvariant_map) list" where
  "finished_calls sigs =
     List.map_filter (\<lambda>g. case g of SigRPCFinished ok m \<Rightarrow> Some (ok, m) | _ \<Rightarrow> None) sigs"

type_synonym invoker_state = "(int, rpc_invoker) qmap \<times> (bool \<times> qvariant_map) list"

definition invoker_call ::
  "(rpc_invoker \<Rightarrow> rpc_invoker \<times> actor_signal list) \<Rightarrow> (invoker_state, int) item_call" where
  "invoker_call f s i =
     (case fmlookup (fst s) i of
        None \<Rightarrow> (s, [])
      | Some r \<Rightarrow> let (r', sigs) = f r in ((fmupd i r' (fst s), snd s @ finished_calls sigs), []))"

definition invoker_items :: "qt_lib \<Rightarrow> (invoker_state, int) item_class" where
  "invoker_items qt =
     \<lparr> icEntityId = id, icProcess = (\<lambda>e. invoker_call (invoker_event qt e)),
       icProcessError = (\<lambda>od. invoker_call (invoker_error qt od)) \<rparr>"

definition ts_rounds :: "int cmd_handler \<Rightarrow> vein_event \<Rightarrow> nat" where
  "ts_rounds h e = length (slItems (reg_container (chItems h) (vd_entityId (ceData e))))"

text \<open>What the systems that look at command events only do with one.\<close>

fun ts_command ::
  "'u test_env \<Rightarrow> test_system \<Rightarrow> 'u test_server \<Rightarrow> vein_event \<Rightarrow>
   'u test_server \<times> vein_event \<times> vein_event list" where
  "ts_command env TsSystem s e =
     (case sm_processEvent (teQt env) (ts_sysEnv env s) e (tvSystem s) of
        None \<Rightarrow> (s\<lparr>tvDown := True\<rparr>, e, [])
      | Some (m, e', out, sigs) \<Rightarrow> (s\<lparr> tvSystem := m, tvSignals := tvSignals s @ sigs \<rparr>, e', out))"
| "ts_command env TsIntrospection s e =
     (s, introspection_processEvent (teQt env) (ssDb (tvStorage s)) (ssRpcNames (tvStorage s)) e)"
| "ts_command env TsStorage s e =
     (let (st, e', out, sigs) = ss_processEvent (teQt env) (tvStorage s) e
      in (s\<lparr>tvStorage := st\<rparr>, e', out))"
| "ts_command env TsCmdHandler s e =
     (case ch_processCommandEvent (ts_rounds (tvCmdHandler s) e) (teQt env) (invoker_items (teQt env)) e
             (tvCmdHandler s) (tvInvokers s, tvFinished s) of
        None \<Rightarrow> (s\<lparr>tvDown := True\<rparr>, e, [])
      | Some (h, invokers, fin) \<Rightarrow>
          (s\<lparr> tvCmdHandler := h, tvInvokers := invokers, tvFinished := fin \<rparr>, e, []))"
| "ts_command env (TsEntity i) s e =
     (case fmlookup (tvEntities s) i of
        None \<Rightarrow> (s, e, [])
      | Some m \<Rightarrow> let (m', e', r) = ve_processEvent (teQt env) e m
                  in (s\<lparr>tvEntities := fmupd i m' (tvEntities s)\<rparr>, e', eoEvents r))"
| "ts_command env _ s e = (s, e, [])"

text \<open>
  The entities of the test have no procedures, so they queue no calls. A system of the test that
  runs into undefined behaviour takes the server down.
\<close>

fun ts_step :: "'u test_env \<Rightarrow> test_system \<Rightarrow> 'u test_proc" where
  "ts_step env TsTop s ev =
     (s\<lparr>tvLog := jsonSpy_processEvent (teDump env) (teQt env) (spy_config ''server-enter'') ev (tvLog s)\<rparr>,
      ev, [])"
| "ts_step env TsBottom s ev =
     (s\<lparr>tvLog := jsonSpy_processEvent (teDump env) (teQt env) (spy_config ''server-fallthrough'') ev (tvLog s)\<rparr>,
      ev, [])"
| "ts_step env TsEntitySpy s ev =
     (s\<lparr>tvEntityAdds := entitySpy_processEvent ECMD_ADD (tvEntityAdds s) ev\<rparr>, ev, [])"
| "ts_step env TsAddSpy s ev =
     (s\<lparr>tvComponentAdds := componentSpy_processEvent CCMD_ADD (tvComponentAdds s) ev\<rparr>, ev, [])"
| "ts_step env TsChangeSpy s ev =
     (s\<lparr>tvComponentChanges := componentSpy_processEvent CCMD_SET (tvComponentChanges s) ev\<rparr>, ev, [])"
| "ts_step env (TsUser n) s ev =
     (case teUser env n (tvUser s) ev of
        None \<Rightarrow> (s\<lparr>tvDown := True\<rparr>, ev, [])
      | Some (u, ev', out) \<Rightarrow> (s\<lparr>tvUser := u\<rparr>, ev', out))"
| "ts_step env sys s (CmdEv e) = (let (s', e', out) = ts_command env sys s e in (s', CmdEv e', map CmdEv out))"
| "ts_step env sys s ev = (s, ev, [])"

definition ts_proc :: "'u test_env \<Rightarrow> test_system \<Rightarrow> 'u test_proc" where
  "ts_proc env sys s ev = (if tvDown s then (s, ev, []) else ts_step env sys s ev)"

text \<open>\<^verbatim>\<open>metaObject()->className()\<close>; the handler of commands has no meta object of its own.\<close>

fun ts_className :: "'u test_env \<Rightarrow> test_system \<Rightarrow> string" where
  "ts_className env TsTop = ''TestJsonSpyEventSystem''"
| "ts_className env TsBottom = ''TestJsonSpyEventSystem''"
| "ts_className env TsEntitySpy = ''VfTestEntitySpy''"
| "ts_className env TsAddSpy = ''VfTestComponentSpy''"
| "ts_className env TsChangeSpy = ''VfTestComponentSpy''"
| "ts_className env TsSystem = ''SystemModuleEventSystem''"
| "ts_className env TsIntrospection = ''VeinNet::IntrospectionSystem''"
| "ts_className env TsStorage = ''VeinStorage::StorageEventSystem''"
| "ts_className env TsCmdHandler = ''VeinEvent::EventSystem''"
| "ts_className env (TsEntity i) = ''VfCpp::VfCppEntity''"
| "ts_className env (TsUser n) = teClassName env n"

section \<open>Construction\<close>

fun opt_fold :: "('a \<Rightarrow> 's \<Rightarrow> 's option) \<Rightarrow> 'a list \<Rightarrow> 's \<Rightarrow> 's option" where
  "opt_fold f [] s = Some s"
| "opt_fold f (x # xs) s = Option.bind (f x s) (opt_fold f xs)"

definition core_systems :: "test_system list" where
  "core_systems = [TsTop, TsEntitySpy, TsAddSpy, TsChangeSpy, TsSystem, TsIntrospection, TsStorage,
     TsCmdHandler, TsBottom]"

definition ts_send :: "vein_event list \<Rightarrow> 'u test_server \<Rightarrow> 'u test_server" where
  "ts_send es s = s\<lparr>tvQueue := tvQueue s @ map CmdEv es\<rparr>"

definition testVeinServer_new ::
  "'u test_env \<Rightarrow> lxdm_param \<Rightarrow> file_system \<Rightarrow> 'u \<Rightarrow> 'u test_server option" where
  "testVeinServer_new env lxdm fs u =
     map_option (\<lambda>w.
       let s = \<lparr> tvHandler = w, tvEntityAdds = [], tvComponentAdds = [], tvComponentChanges = [],
                 tvLog = fmempty, tvSystem = sm_setStorage True (system_module_new False lxdm fs),
                 tvStorage = server_storage_new, tvEntities = fmempty, tvSessions = [],
                 tvCmdHandler = cmd_handler_new NOTIFICATION, tvInvokers = fmempty, tvFinished = [],
                 tvUser = u, tvQueue = [], tvSignals = [], tvConnections = [], tvDown = False \<rparr>;
           (m, out) = sm_initOnce (ts_sysEnv env s) (tvSystem s)
       in ts_send out (s\<lparr>tvSystem := m\<rparr>))
       (opt_fold (addSubsystem ()) core_systems \<lparr> hwSubsystems = [], hwHandlerOf = fmempty \<rparr>)"

definition ts_prependEventSystem :: "test_system \<Rightarrow> 'u test_server \<Rightarrow> 'u test_server option" where
  "ts_prependEventSystem x s =
     map_option (\<lambda>w. s\<lparr>tvHandler := w\<rparr>)
       (Option.bind (prependSubsystem () x (tvHandler s))
         (\<lambda>w. prependSubsystem () TsTop (removeSubsystem TsTop w)))"

definition ts_appendEventSystem :: "test_system \<Rightarrow> 'u test_server \<Rightarrow> 'u test_server option" where
  "ts_appendEventSystem x s =
     map_option (\<lambda>w. s\<lparr>tvHandler := w\<rparr>)
       (Option.bind (addSubsystem () x (tvHandler s))
         (\<lambda>w. addSubsystem () TsBottom (removeSubsystem TsBottom w)))"

section \<open>Operations\<close>

text \<open>
  \<open>feed\<close> runs the event loop until no event waits. A fatal error, a failed assertion and a loop
  that does not end are \<open>None\<close>.
\<close>

type_synonym 'u feed = "'u test_server \<Rightarrow> 'u test_server option"

definition ts_addEntity :: "'u feed \<Rightarrow> int \<Rightarrow> string \<Rightarrow> 'u feed" where
  "ts_addEntity feed i name s =
     (if qcontains (tvEntities s) i then None
      else
        let m = ve_new i
        in Option.bind (ts_appendEventSystem (TsEntity i) (s\<lparr>tvEntities := fmupd i m (tvEntities s)\<rparr>)) (\<lambda>s1.
           Option.bind (ve_createComponent ''EntityName'' (QStr name) True m) (\<lambda>(m', out).
           feed (ts_send (ve_initModule m @ out) (s1\<lparr>tvEntities := fmupd i m' (tvEntities s1)\<rparr>)))))"

definition ts_addComponent :: "'u feed \<Rightarrow> int \<Rightarrow> string \<Rightarrow> qvariant \<Rightarrow> bool \<Rightarrow> 'u feed" where
  "ts_addComponent feed i n v ro s =
     Option.bind (fmlookup (tvEntities s) i) (\<lambda>m.
     Option.bind (ve_createComponent n v ro m) (\<lambda>(m', out).
     feed (ts_send out (s\<lparr>tvEntities := fmupd i m' (tvEntities s)\<rparr>))))"

definition ts_removeComponent :: "'u feed \<Rightarrow> int \<Rightarrow> string \<Rightarrow> 'u feed" where
  "ts_removeComponent feed i n s =
     Option.bind (fmlookup (tvEntities s) i) (\<lambda>m. feed (ts_send (ve_removeComponent n m) s))"

definition ts_addTestEntities :: "'u feed \<Rightarrow> int \<Rightarrow> int \<Rightarrow> int \<Rightarrow> int \<Rightarrow> 'u feed" where
  "ts_addTestEntities feed entityCount componentCount baseEntityId baseComponentNum =
     opt_fold (\<lambda>i s.
       Option.bind (ts_addEntity feed i (''EntityName'' @ int_digits i) s)
         (opt_fold (\<lambda>c. ts_addComponent feed i (''ComponentName'' @ int_digits c) QInvalid False)
           [baseComponentNum..baseComponentNum + componentCount - 1]))
       [baseEntityId..baseEntityId + entityCount - 1]"

definition ts_getValue :: "int \<Rightarrow> string \<Rightarrow> 'u test_server \<Rightarrow> qvariant" where
  "ts_getValue i n s = getStoredValue (ssDb (tvStorage s)) i n"

definition ts_setComponentClientTransaction ::
  "'u feed \<Rightarrow> 'u test_env \<Rightarrow> int \<Rightarrow> string \<Rightarrow> qvariant \<Rightarrow> 'u feed" where
  "ts_setComponentClientTransaction feed env i n v s =
     (if \<not> hasStoredValue (ssDb (tvStorage s)) i n then None
      else feed (ts_send [setter_generateEvent (teQt env) i n (ts_getValue i n s) v] s))"

definition ts_setComponentServerNotification ::
  "'u feed \<Rightarrow> 'u test_env \<Rightarrow> int \<Rightarrow> string \<Rightarrow> qvariant \<Rightarrow> 'u feed" where
  "ts_setComponentServerNotification feed env i n v s =
     (if \<not> hasStoredValue (ssDb (tvStorage s)) i n then None
      else feed (ts_send [server_component_setter (teQt env) i n (ts_getValue i n s) v] s))"

text \<open>The identifier of the call and the place of a new item in its container are inputs.\<close>

definition ts_invokeRpc ::
  "'u feed \<Rightarrow> 'u test_env \<Rightarrow> quuid \<Rightarrow> nat \<Rightarrow> int \<Rightarrow> string \<Rightarrow> qvariant_map \<Rightarrow> 'u feed" where
  "ts_invokeRpc feed env ident pos i name params s =
     (let s1 = (if qcontains (tvInvokers s) i then s
                else s\<lparr> tvCmdHandler := ch_addItem id pos i (tvCmdHandler s),
                        tvInvokers := fmupd i \<lparr> riEntityId = i, riPendingRPCs = {||} \<rparr> (tvInvokers s) \<rparr>)
      in Option.bind (fmlookup (tvInvokers s1) i) (\<lambda>r.
         let (r', out) = invokeRPC (teQt env) client_rpc_generateEvent ident name params r
         in feed (ts_send out (s1\<lparr>tvInvokers := fmupd i r' (tvInvokers s1)\<rparr>))))"

text \<open>An entity is detached before it is deleted, so what its destructor sends goes nowhere.\<close>

definition ts_removeEntity :: "int \<Rightarrow> 'u test_server \<Rightarrow> 'u test_server" where
  "ts_removeEntity i s =
     (let (m', out) = ve_removeEntity (qvalue (tvEntities s) i (ve_new i));
          s1 = ts_send out (s\<lparr>tvEntities := fmupd i m' (tvEntities s)\<rparr>)
      in s1\<lparr>tvHandler := removeSubsystem (TsEntity i) (tvHandler s1)\<rparr>)"

definition ts_removeEntitiesAdded :: "'u feed \<Rightarrow> 'u feed" where
  "ts_removeEntitiesAdded feed s =
     feed ((fold ts_removeEntity (qkeys (tvEntities s)) s)\<lparr>tvEntities := fmempty\<rparr>)"

definition getTestEntityComponentInfo :: "'u test_server \<Rightarrow> (int, string list) qmap" where
  "getTestEntityComponentInfo s = fmmap (\<lambda>m. qkeys (veComponents m)) (tvEntities s)"

definition ts_initializeEntity :: "'u test_env \<Rightarrow> string \<Rightarrow> 'u test_server \<Rightarrow> 'u test_server" where
  "ts_initializeEntity env path s =
     (let (m, out) = sm_initializeEntity (teQt env) (ts_sysEnv env s) path (tvSessions s) (tvSystem s)
      in ts_send out (s\<lparr>tvSystem := m\<rparr>))"

definition simulAllModulesLoaded ::
  "'u feed \<Rightarrow> 'u test_env \<Rightarrow> string \<Rightarrow> string list \<Rightarrow> 'u feed" where
  "simulAllModulesLoaded feed env path sessions s =
     feed (ts_initializeEntity env path (s\<lparr>tvSessions := sessions\<rparr>))"

text \<open>The slot connected to \<^verbatim>\<open>sigChangeSession\<close>; one more is connected by every call.\<close>

definition ts_sessionSlot :: "'u feed \<Rightarrow> 'u test_env \<Rightarrow> string \<Rightarrow> int \<Rightarrow> 'u feed" where
  "ts_sessionSlot feed env session base s =
     Option.bind (ts_removeEntitiesAdded feed s) (\<lambda>s1.
     Option.bind (ts_addTestEntities feed 2 2 base 1 s1) (\<lambda>s2.
     Some (ts_initializeEntity env session s2)))"

definition ts_changeSession :: "'u feed \<Rightarrow> 'u test_env \<Rightarrow> string \<Rightarrow> int \<Rightarrow> 'u feed" where
  "ts_changeSession feed env path base s =
     (if path \<notin> set (tvSessions s) then None
      else let s1 = ts_send [setter_generateEvent (teQt env) 0 ''Session'' QInvalid (QStr path)] s
           in feed (s1\<lparr>tvConnections := tvConnections s1 @ [base]\<rparr>))"

definition resetEventSpyData :: "'u test_server \<Rightarrow> 'u test_server" where
  "resetEventSpyData s =
     s\<lparr> tvEntityAdds := [], tvComponentAdds := [], tvComponentChanges := [], tvLog := fmempty \<rparr>"

definition ts_dumpStorage :: "'u test_env \<Rightarrow> int list \<Rightarrow> 'u test_server \<Rightarrow> bytes" where
  "ts_dumpStorage env entities s =
     dumpToByteArray (teDump env) (teQt env) (ssDb (tvStorage s)) entities [] False"

section \<open>The event loop\<close>

text \<open>
  The slots run while the system entity's handler waits in \<^verbatim>\<open>emit\<close>: it clears its readiness
  afterwards (\<^verbatim>\<open>m_sessionReady = false\<close>), whatever they did to it, and accepts the event then.
\<close>

definition ts_setReady :: "bool \<Rightarrow> 'u test_server \<Rightarrow> 'u test_server" where
  "ts_setReady b s = s\<lparr>tvSystem := (tvSystem s)\<lparr>smSessionReady := b\<rparr>\<rparr>"

definition ts_slots :: "'u feed \<Rightarrow> 'u test_env \<Rightarrow> 'u feed" where
  "ts_slots feed env s =
     opt_fold (\<lambda>g s.
       case g of
         SigChangeSession x \<Rightarrow>
           map_option (ts_setReady False)
             (opt_fold (ts_sessionSlot feed env x) (tvConnections s) (ts_setReady True s))
       | SigModulesPausedChanged b \<Rightarrow> Some s)
       (tvSignals s) (s\<lparr>tvSignals := []\<rparr>)"

definition ts_logAccepted ::
  "'u test_env \<Rightarrow> test_system list \<Rightarrow> app_event \<Rightarrow> nat \<Rightarrow> 'u test_server \<Rightarrow> 'u test_server" where
  "ts_logAccepted env systems ev k s =
     (if app_accepted ev \<and> 0 < k
      then s\<lparr>tvLog := jsonSpy_onEventAccepted (teDump env) (teQt env) (spy_config ''server-fallthrough'')
              (ts_className env (systems ! (k - 1))) ev (tvLog s)\<rparr>
      else s)"

primrec ts_loop :: "nat \<Rightarrow> 'u test_env \<Rightarrow> 'u feed" where
  "ts_loop 0 env s = (if tvQueue s = [] then Some s else None)"
| "ts_loop (Suc n) env s =
     (case tvQueue s of
        [] \<Rightarrow> Some s
      | ev # q \<Rightarrow>
          let systems = hwSubsystems (tvHandler s);
              (s1, ev1, out, k) = customEvent app_accepted (map (ts_proc env) systems) (s\<lparr>tvQueue := q\<rparr>) ev
          in if tvDown s1 then None
             else Option.bind (ts_slots (ts_loop n env) env (s1\<lparr>tvQueue := tvQueue s1 @ out\<rparr>)) (\<lambda>s2.
                  ts_loop n env (ts_logAccepted env systems ev1 k s2)))"

section \<open>TestVeinServerWithMockNet\<close>

text \<open>
  Network and TCP system as systems of the test, below those given to the constructor. The TCP
  system gets its workers from the double of the network, here with the number \<open>srv\<close>, and listens
  there; what the double delivers later is the subject of \<open>MockNet\<close>.
\<close>

record 'v mock_net_user =
  muNet :: network_system
  muTcp :: tcp_system
  muMock :: mock_net
  muAbove :: 'v

definition mock_net_systems ::
  "fb_lib \<Rightarrow> qt_lib \<Rightarrow> (nat \<Rightarrow> 'v \<Rightarrow> app_event \<Rightarrow> ('v \<times> app_event \<times> app_event list) option) \<Rightarrow>
   nat \<Rightarrow> 'v mock_net_user \<Rightarrow> app_event \<Rightarrow> ('v mock_net_user \<times> app_event \<times> app_event list) option" where
  "mock_net_systems fb qt others n u ev =
     (if n = 0
      then map_option (\<lambda>(ns, r). (u\<lparr>muNet := ns\<rparr>, r)) (networkSystem_processEvent fb qt (muNet u) ev)
      else if n = 1
      then (case tcpSystem_processEvent (muTcp u) ev of (ts, r) \<Rightarrow> Some (u\<lparr>muTcp := ts\<rparr>, r))
      else map_option (\<lambda>(v, r). (u\<lparr>muAbove := v\<rparr>, r)) (others (n - 2) (muAbove u) ev))"

definition testVeinServerWithMockNet_new ::
  "'v mock_net_user feed \<Rightarrow> nat \<Rightarrow> int \<Rightarrow> nat \<Rightarrow> 'v mock_net_user feed" where
  "testVeinServerWithMockNet_new feed srv port aboveCount s =
     Option.bind (opt_fold ts_appendEventSystem
         (map (\<lambda>k. TsUser (k + 2)) [0..<aboveCount] @ [TsUser 0, TsUser 1]) s)
       (\<lambda>s1. let u = tvUser s1; mock = createTcpServerWorker srv (muMock u)
             in feed (s1\<lparr>tvUser := u\<lparr>muMock := fst (mock_startServer srv port mock)\<rparr>\<rparr>))"

definition ts_getSubscriberCount :: "int \<Rightarrow> 'v mock_net_user test_server \<Rightarrow> nat" where
  "ts_getSubscriberCount i s = getSubscriberCount (muNet (tvUser s)) i"

section \<open>The spies change nothing\<close>

text \<open>
  A server without its spies: their data is reset, and the handler neither lists nor holds them.
\<close>

definition spy_systems :: "test_system set" where
  "spy_systems = {TsTop, TsEntitySpy, TsAddSpy, TsChangeSpy, TsBottom}"

definition plain_handler :: "(test_system, unit) handler_world \<Rightarrow> (test_system, unit) handler_world" where
  "plain_handler w =
     \<lparr> hwSubsystems = filter (\<lambda>x. x \<notin> spy_systems) (hwSubsystems w),
       hwHandlerOf = fmfilter (\<lambda>x. x \<notin> spy_systems) (hwHandlerOf w) \<rparr>"

definition without_spies :: "'u test_server \<Rightarrow> 'u test_server" where
  "without_spies s = (resetEventSpyData s)\<lparr>tvHandler := plain_handler (tvHandler s)\<rparr>"

lemma plain_handler_sel [simp]:
  "hwSubsystems (plain_handler w) = filter (\<lambda>x. x \<notin> spy_systems) (hwSubsystems w)"
  by (simp add: plain_handler_def)

lemma without_spies_sel [simp]:
  "tvHandler (without_spies s) = plain_handler (tvHandler s)" "tvSystem (without_spies s) = tvSystem s"
  "tvStorage (without_spies s) = tvStorage s" "tvEntities (without_spies s) = tvEntities s"
  "tvSessions (without_spies s) = tvSessions s" "tvCmdHandler (without_spies s) = tvCmdHandler s"
  "tvInvokers (without_spies s) = tvInvokers s" "tvFinished (without_spies s) = tvFinished s"
  "tvUser (without_spies s) = tvUser s" "tvQueue (without_spies s) = tvQueue s"
  "tvSignals (without_spies s) = tvSignals s" "tvConnections (without_spies s) = tvConnections s"
  "tvDown (without_spies s) = tvDown s"
  by (simp_all add: without_spies_def resetEventSpyData_def)

lemma without_spies_update [simp]:
  "without_spies (s\<lparr>tvSystem := m\<rparr>) = (without_spies s)\<lparr>tvSystem := m\<rparr>"
  "without_spies (s\<lparr>tvStorage := st\<rparr>) = (without_spies s)\<lparr>tvStorage := st\<rparr>"
  "without_spies (s\<lparr>tvEntities := es\<rparr>) = (without_spies s)\<lparr>tvEntities := es\<rparr>"
  "without_spies (s\<lparr>tvSessions := ss\<rparr>) = (without_spies s)\<lparr>tvSessions := ss\<rparr>"
  "without_spies (s\<lparr>tvCmdHandler := h\<rparr>) = (without_spies s)\<lparr>tvCmdHandler := h\<rparr>"
  "without_spies (s\<lparr>tvInvokers := rs\<rparr>) = (without_spies s)\<lparr>tvInvokers := rs\<rparr>"
  "without_spies (s\<lparr>tvFinished := fs\<rparr>) = (without_spies s)\<lparr>tvFinished := fs\<rparr>"
  "without_spies (s\<lparr>tvUser := u\<rparr>) = (without_spies s)\<lparr>tvUser := u\<rparr>"
  "without_spies (s\<lparr>tvQueue := q\<rparr>) = (without_spies s)\<lparr>tvQueue := q\<rparr>"
  "without_spies (s\<lparr>tvSignals := sigs\<rparr>) = (without_spies s)\<lparr>tvSignals := sigs\<rparr>"
  "without_spies (s\<lparr>tvConnections := cs\<rparr>) = (without_spies s)\<lparr>tvConnections := cs\<rparr>"
  "without_spies (s\<lparr>tvDown := b\<rparr>) = (without_spies s)\<lparr>tvDown := b\<rparr>"
  "without_spies (s\<lparr>tvHandler := w\<rparr>) = (without_spies s)\<lparr>tvHandler := plain_handler w\<rparr>"
  "without_spies (s\<lparr>tvLog := l\<rparr>) = without_spies s"
  "without_spies (s\<lparr>tvEntityAdds := is\<rparr>) = without_spies s"
  "without_spies (s\<lparr>tvComponentAdds := cis\<rparr>) = without_spies s"
  "without_spies (s\<lparr>tvComponentChanges := cis\<rparr>) = without_spies s"
  by (simp_all add: without_spies_def resetEventSpyData_def)

lemma plain_plain [simp]: "plain_handler (plain_handler w) = plain_handler w"
  by (auto simp: plain_handler_def intro!: fmap_ext)

lemma without_spies_idem [simp]: "without_spies (without_spies s) = without_spies s"
  by (simp add: without_spies_def resetEventSpyData_def)

subsection \<open>Systems and chain\<close>

lemma spy_silent:
  assumes "x \<in> spy_systems"
  shows "silent without_spies (ts_proc env x)"
  using assms by (auto simp: silent_def ts_proc_def spy_systems_def)

lemma ts_command_plain:
  "ts_command env x (without_spies s) e =
     (case ts_command env x s e of (s', r) \<Rightarrow> (without_spies s', r))"
  by (cases x) (auto simp: ts_sysEnv_def Let_def split: option.split prod.split)

lemma system_follows:
  assumes "x \<notin> spy_systems"
  shows "follows without_spies (ts_proc env x) (ts_proc env x)"
proof -
  have "ts_step env x (without_spies s) ev = (case ts_step env x s ev of (s', r) \<Rightarrow> (without_spies s', r))"
    for s ev
    using assms
    by (cases x; cases ev) (auto simp: spy_systems_def ts_command_plain split: option.split prod.split)
  then show ?thesis by (auto simp: follows_def ts_proc_def split: prod.split)
qed

lemma chain_watched:
  "watched without_spies (map (ts_proc env) xs) (map (ts_proc env) (filter (\<lambda>x. x \<notin> spy_systems) xs))"
  by (induction xs) (auto intro: watched.intros spy_silent system_follows)

lemma plain_dispatch:
  assumes "customEvent app_accepted (map (ts_proc env) xs) s ev = (s', ev', out, k)"
  obtains k' where "customEvent app_accepted (map (ts_proc env) (filter (\<lambda>x. x \<notin> spy_systems) xs))
    (without_spies s) ev = (without_spies s', ev', out, k')"
  using watched_dispatch [OF chain_watched, of app_accepted env xs s ev] assms that
  by (auto split: prod.splits)

subsection \<open>Operations\<close>

text \<open>An operation does not see the spies when servers alike up to spies stay alike.\<close>

definition spy_blind :: "'u feed \<Rightarrow> bool" where
  "spy_blind f \<longleftrightarrow>
     (\<forall>s t. without_spies s = without_spies t \<longrightarrow> map_option without_spies (f s) = map_option without_spies (f t))"

lemma spy_blindI:
  "(\<And>s t. without_spies s = without_spies t \<Longrightarrow> map_option without_spies (f s) = map_option without_spies (f t)) \<Longrightarrow>
   spy_blind f"
  unfolding spy_blind_def by blast

lemma spy_blindD:
  "spy_blind f \<Longrightarrow> without_spies s = without_spies t \<Longrightarrow>
   map_option without_spies (f s) = map_option without_spies (f t)"
  unfolding spy_blind_def by blast

lemma alike_fields:
  assumes "without_spies s = without_spies t"
  shows "tvSystem s = tvSystem t" "tvStorage s = tvStorage t" "tvEntities s = tvEntities t"
    "tvSessions s = tvSessions t" "tvCmdHandler s = tvCmdHandler t" "tvInvokers s = tvInvokers t"
    "tvQueue s = tvQueue t" "tvSignals s = tvSignals t" "tvConnections s = tvConnections t"
    "tvDown s = tvDown t" "plain_handler (tvHandler s) = plain_handler (tvHandler t)"
  using assms without_spies_sel by metis+

lemma alike_bind:
  assumes "map_option without_spies p = map_option without_spies q"
    and "\<And>s t. without_spies s = without_spies t \<Longrightarrow> map_option without_spies (f s) = map_option without_spies (g t)"
  shows "map_option without_spies (Option.bind p f) = map_option without_spies (Option.bind q g)"
  using assms by (cases p; cases q) auto

lemma spy_blind_bind:
  assumes "map_option without_spies p = map_option without_spies q" and "spy_blind f"
  shows "map_option without_spies (Option.bind p f) = map_option without_spies (Option.bind q f)"
  by (rule alike_bind [OF assms(1)]) (rule spy_blindD [OF assms(2)])

lemma spy_blind_fold:
  "(\<And>x. x \<in> set xs \<Longrightarrow> spy_blind (f x)) \<Longrightarrow> spy_blind (opt_fold f xs)"
proof (induction xs)
  case Nil
  then show ?case by (simp add: spy_blind_def)
next
  case (Cons x xs)
  then have "spy_blind (f x)" "spy_blind (opt_fold f xs)" by simp_all
  then show ?case by (auto intro!: spy_blindI spy_blind_bind dest: spy_blindD)
qed

lemma plain_removeSubsystem:
  "plain_handler (removeSubsystem x w) = removeSubsystem x (plain_handler w)"
  by (auto simp: plain_handler_def removeSubsystem_def detach_def Let_def removeAll_filter_not_eq
      filter_filter conj_commute intro!: fmap_ext)

lemma plain_addSubsystem:
  "x \<notin> spy_systems \<Longrightarrow>
   map_option plain_handler (addSubsystem () x w) = addSubsystem () x (plain_handler w)"
  by (auto simp: plain_handler_def addSubsystem_def attach_def fmfilter_alt_defs intro!: fmap_ext)

lemma bottom_again:
  "map_option plain_handler (addSubsystem () TsBottom (removeSubsystem TsBottom w)) = Some (plain_handler w)"
  by (auto simp: plain_handler_def addSubsystem_def attach_def removeSubsystem_def detach_def Let_def
      spy_systems_def removeAll_filter_not_eq intro!: fmap_ext filter_cong)

lemma append_plain:
  assumes "x \<notin> spy_systems"
  shows "map_option without_spies (ts_appendEventSystem x s) =
    map_option (\<lambda>w. (without_spies s)\<lparr>tvHandler := w\<rparr>) (addSubsystem () x (plain_handler (tvHandler s)))"
proof (cases "addSubsystem () x (tvHandler s)")
  case None
  then show ?thesis
    using plain_addSubsystem [OF assms, of "tvHandler s"] by (simp add: ts_appendEventSystem_def)
next
  case (Some w)
  moreover obtain w' where "addSubsystem () TsBottom (removeSubsystem TsBottom w) = Some w'"
    "plain_handler w' = plain_handler w"
    using bottom_again [of w] by auto
  ultimately show ?thesis
    using plain_addSubsystem [OF assms, of "tvHandler s", symmetric] by (simp add: ts_appendEventSystem_def)
qed

lemma append_blind:
  assumes "x \<notin> spy_systems"
  shows "spy_blind (ts_appendEventSystem x)"
proof (rule spy_blindI)
  fix s t :: "'a test_server"
  assume same: "without_spies s = without_spies t"
  show "map_option without_spies (ts_appendEventSystem x s) =
      map_option without_spies (ts_appendEventSystem x t)"
    by (simp only: append_plain [OF assms] alike_fields(11) [OF same] same)
qed

lemma ts_send_plain [simp]: "without_spies (ts_send es s) = ts_send es (without_spies s)"
  by (simp add: ts_send_def)

lemma blind_none: "spy_blind (\<lambda>s. None)"
  by (simp add: spy_blind_def)

lemma blind_some: "spy_blind Some"
  by (simp add: spy_blind_def)

lemma blind_if: "spy_blind f \<Longrightarrow> spy_blind g \<Longrightarrow> spy_blind (\<lambda>s. if b then f s else g s)"
  by (cases b) simp_all

lemma blind_bind: "spy_blind f \<Longrightarrow> spy_blind g \<Longrightarrow> spy_blind (\<lambda>s. Option.bind (f s) g)"
  by (rule spy_blindI) (rule spy_blind_bind [OF spy_blindD])

lemma blind_const: "(\<And>x. spy_blind (f x)) \<Longrightarrow> spy_blind (\<lambda>s. Option.bind p (\<lambda>x. f x s))"
  by (cases p) (simp_all add: blind_none)

lemma blind_read:
  assumes "\<And>s t. without_spies s = without_spies t \<Longrightarrow> g s = g t" and "\<And>x. spy_blind (f x)"
  shows "spy_blind (\<lambda>s. f (g s) s)"
proof (rule spy_blindI)
  fix s t :: "'a test_server"
  assume same: "without_spies s = without_spies t"
  show "map_option without_spies (f (g s) s) = map_option without_spies (f (g t) t)"
    unfolding assms(1) [OF same] by (rule spy_blindD [OF assms(2) same])
qed

lemma blind_feed:
  assumes "spy_blind feed" and "\<And>s t. without_spies s = without_spies t \<Longrightarrow> without_spies (u s) = without_spies (u t)"
  shows "spy_blind (\<lambda>s. feed (u s))"
  by (rule spy_blindI) (rule spy_blindD [OF assms(1) assms(2)])

lemma blind_entities:
  "(\<And>es. spy_blind (f es)) \<Longrightarrow> spy_blind (\<lambda>s. f (tvEntities s) s)"
  by (rule blind_read [of tvEntities]) (rule alike_fields(3))

lemma blind_update:
  "spy_blind feed \<Longrightarrow> spy_blind (\<lambda>s. feed (ts_send es (s\<lparr>tvEntities := m\<rparr>)))"
  by (rule blind_feed) simp_all

lemma addEntity_blind:
  assumes "spy_blind feed"
  shows "spy_blind (ts_addEntity feed i name)"
proof -
  let ?m = "ve_new i"
  have append: "spy_blind (ts_appendEventSystem (TsEntity i))"
    by (rule append_blind) (simp add: spy_systems_def)
  have create: "spy_blind (\<lambda>s. Option.bind (ve_createComponent ''EntityName'' (QStr name) True ?m) (\<lambda>(m', out).
      feed (ts_send (ve_initModule ?m @ out) (s\<lparr>tvEntities := fmupd i m' (tvEntities s)\<rparr>))))"
    unfolding split_def by (intro blind_const blind_entities [of "\<lambda>es s. feed (ts_send _ (s\<lparr>tvEntities := fmupd i _ es\<rparr>))"]
        blind_update assms)
  have "spy_blind (\<lambda>s. Option.bind (ts_appendEventSystem (TsEntity i) (s\<lparr>tvEntities := m\<rparr>)) (\<lambda>s.
      Option.bind (ve_createComponent ''EntityName'' (QStr name) True ?m) (\<lambda>(m', out).
      feed (ts_send (ve_initModule ?m @ out) (s\<lparr>tvEntities := fmupd i m' (tvEntities s)\<rparr>)))))" for m
    by (rule blind_bind [OF _ create]) (rule blind_feed [OF append], simp)
  then show ?thesis
    unfolding ts_addEntity_def Let_def
    by (intro blind_entities [of "\<lambda>es s. if qcontains es i then None else Option.bind
          (ts_appendEventSystem (TsEntity i) (s\<lparr>tvEntities := fmupd i ?m es\<rparr>)) _"] blind_if blind_none)
qed

lemma addComponent_blind:
  assumes "spy_blind feed"
  shows "spy_blind (ts_addComponent feed i n v ro)"
proof -
  have "spy_blind (\<lambda>s. Option.bind (fmlookup es i) (\<lambda>m. Option.bind (ve_createComponent n v ro m) (\<lambda>(m', out).
      feed (ts_send out (s\<lparr>tvEntities := fmupd i m' es\<rparr>)))))" for es
    unfolding split_def by (intro blind_const blind_update assms)
  then show ?thesis unfolding ts_addComponent_def by (rule blind_entities)
qed

lemma addTestEntities_blind:
  assumes "spy_blind feed"
  shows "spy_blind (ts_addTestEntities feed ec cc base num)"
  unfolding ts_addTestEntities_def
  by (intro spy_blind_fold blind_bind addEntity_blind addComponent_blind assms)

lemma removeEntity_plain: "without_spies (ts_removeEntity i s) = ts_removeEntity i (without_spies s)"
  by (simp add: ts_removeEntity_def Let_def ts_send_def plain_removeSubsystem split: prod.split)

lemma removeEntities_plain:
  "without_spies (fold ts_removeEntity is s) = fold ts_removeEntity is (without_spies s)"
  by (induction "is" arbitrary: s) (simp_all add: removeEntity_plain)

lemma removeEntitiesAdded_blind:
  assumes "spy_blind feed"
  shows "spy_blind (ts_removeEntitiesAdded feed)"
proof -
  have "spy_blind (\<lambda>s. feed ((fold ts_removeEntity (qkeys es) s)\<lparr>tvEntities := fmempty\<rparr>))" for es
    by (rule blind_feed [OF assms]) (simp add: removeEntities_plain)
  then show ?thesis unfolding ts_removeEntitiesAdded_def by (rule blind_entities)
qed

lemma initializeEntity_plain:
  "without_spies (ts_initializeEntity env path s) = ts_initializeEntity env path (without_spies s)"
  by (simp add: ts_initializeEntity_def ts_sysEnv_def split: prod.split)

lemma sessionSlot_blind:
  assumes "spy_blind feed"
  shows "spy_blind (ts_sessionSlot feed env x base)"
proof -
  have "spy_blind (\<lambda>s. Some (ts_initializeEntity env x s))"
    by (simp add: spy_blind_def initializeEntity_plain)
  then show ?thesis
    unfolding ts_sessionSlot_def
    by (intro blind_bind removeEntitiesAdded_blind addTestEntities_blind assms)
qed

lemma blind_map:
  assumes "spy_blind f" and "\<And>s. without_spies (u s) = u (without_spies s)"
  shows "spy_blind (\<lambda>s. map_option u (f s))"
proof (rule spy_blindI)
  fix s t :: "'a test_server"
  assume "without_spies s = without_spies t"
  from spy_blindD [OF assms(1) this]
  show "map_option without_spies (map_option u (f s)) = map_option without_spies (map_option u (f t))"
    by (cases "f s"; cases "f t") (simp_all add: assms(2))
qed

lemma setReady_plain: "without_spies (ts_setReady b s) = ts_setReady b (without_spies s)"
  by (simp add: ts_setReady_def)

lemma slots_blind:
  assumes "spy_blind feed"
  shows "spy_blind (ts_slots feed env)"
proof -
  have "spy_blind (\<lambda>s. opt_fold (ts_sessionSlot feed env x) bases (ts_setReady True s))" for x bases
    by (rule blind_feed [of "opt_fold (ts_sessionSlot feed env x) bases"])
       (simp_all add: spy_blind_fold sessionSlot_blind assms setReady_plain)
  then have slot: "spy_blind (\<lambda>s. map_option (ts_setReady False)
      (opt_fold (ts_sessionSlot feed env x) bases (ts_setReady True s)))" for x bases
    by (rule blind_map) (rule setReady_plain)
  have change: "spy_blind (\<lambda>s. map_option (ts_setReady False)
      (opt_fold (ts_sessionSlot feed env x) (tvConnections s) (ts_setReady True s)))" for x
    by (rule blind_read [of tvConnections "\<lambda>bases s. map_option (ts_setReady False)
        (opt_fold (ts_sessionSlot feed env x) bases (ts_setReady True s))"])
       (rule alike_fields(9), assumption, rule slot)
  have one: "spy_blind (\<lambda>s. case g of
        SigChangeSession x \<Rightarrow> map_option (ts_setReady False)
          (opt_fold (ts_sessionSlot feed env x) (tvConnections s) (ts_setReady True s))
      | SigModulesPausedChanged b \<Rightarrow> Some s)" for g
    by (cases g) (simp_all add: change blind_some)
  let ?slots = "\<lambda>sigs s. opt_fold (\<lambda>g s. case g of
        SigChangeSession x \<Rightarrow> map_option (ts_setReady False)
          (opt_fold (ts_sessionSlot feed env x) (tvConnections s) (ts_setReady True s))
      | SigModulesPausedChanged b \<Rightarrow> Some s) sigs (s\<lparr>tvSignals := []\<rparr>)"
  have slots: "spy_blind (?slots sigs)" for sigs
    by (rule blind_feed [OF spy_blind_fold [OF one]]) simp
  show ?thesis
    unfolding ts_slots_def
    by (rule blind_read [of tvSignals ?slots]) (rule alike_fields(8), assumption, rule slots)
qed

lemma logAccepted_plain [simp]: "without_spies (ts_logAccepted env systems ev k s) = without_spies s"
  by (simp add: ts_logAccepted_def)

lemma loop_blind: "spy_blind (ts_loop n env)"
proof (induction n)
  case 0
  show ?case
  proof (rule spy_blindI)
    fix s t :: "'a test_server"
    assume same: "without_spies s = without_spies t"
    show "map_option without_spies (ts_loop 0 env s) = map_option without_spies (ts_loop 0 env t)"
      by (simp add: same alike_fields(7) [OF same])
  qed
next
  case (Suc n)
  show ?case
  proof (rule spy_blindI)
    fix s t :: "'a test_server"
    assume same: "without_spies s = without_spies t"
    note alike = alike_fields [OF same]
    show "map_option without_spies (ts_loop (Suc n) env s) = map_option without_spies (ts_loop (Suc n) env t)"
    proof (cases "tvQueue t")
      case Nil
      then show ?thesis using same by (simp add: alike)
    next
      case (Cons ev q)
      let ?ss = "hwSubsystems (tvHandler s)" and ?ts = "hwSubsystems (tvHandler t)"
      obtain s1 ev1 out k where s1: "customEvent app_accepted (map (ts_proc env) ?ss) (s\<lparr>tvQueue := q\<rparr>) ev =
          (s1, ev1, out, k)" by (metis prod_cases4)
      obtain t1 ev2 out' k' where t1: "customEvent app_accepted (map (ts_proc env) ?ts) (t\<lparr>tvQueue := q\<rparr>) ev =
          (t1, ev2, out', k')" by (metis prod_cases4)
      have systems: "filter (\<lambda>x. x \<notin> spy_systems) ?ss = filter (\<lambda>x. x \<notin> spy_systems) ?ts"
        using alike(11) by (simp add: plain_handler_def)
      have same1: "without_spies s1 = without_spies t1" "ev1 = ev2" "out = out'"
        using plain_dispatch [OF s1] plain_dispatch [OF t1] systems same by (metis prod.inject without_spies_update(9))+
      have "map_option without_spies (ts_loop n env (ts_logAccepted env ?ss ev1 k u)) =
          map_option without_spies (ts_loop n env (ts_logAccepted env ?ts ev1 k' v))"
        if "without_spies u = without_spies v" for u v
        by (rule spy_blindD [OF Suc.IH]) (simp add: that)
      moreover have "map_option without_spies (ts_slots (ts_loop n env) env (s1\<lparr>tvQueue := tvQueue s1 @ out\<rparr>)) =
          map_option without_spies (ts_slots (ts_loop n env) env (t1\<lparr>tvQueue := tvQueue t1 @ out\<rparr>))"
        by (rule spy_blindD [OF slots_blind [OF Suc.IH]]) (simp add: same1 alike_fields [OF same1(1)])
      ultimately show ?thesis
        using Cons same1(2,3) alike_fields(10) [OF same1(1)] alike(7)
        by (simp add: s1 t1 alike_bind)
    qed
  qed
qed

section \<open>What an operation does to the store\<close>

text \<open>
  A server between two operations: nothing waits, and its entities are those the handler holds. No
  systems of a test are appended and no procedure has been called yet.
\<close>

definition ts_ok :: "'u test_server \<Rightarrow> bool" where
  "ts_ok s \<longleftrightarrow>
     \<not> tvDown s \<and> tvQueue s = [] \<and> tvSignals s = [] \<and> server_storage_ok (tvStorage s) \<and>
     handler_ok (plain_handler (tvHandler s)) \<and> TsStorage \<in> set (hwSubsystems (tvHandler s)) \<and>
     (\<forall>k. TsUser k \<notin> set (hwSubsystems (tvHandler s))) \<and>
     (\<forall>i. TsEntity i |\<in>| fmdom (hwHandlerOf (tvHandler s)) \<longleftrightarrow> qcontains (tvEntities s) i) \<and>
     (\<forall>i. TsEntity i \<in> set (hwSubsystems (tvHandler s)) \<longleftrightarrow> qcontains (tvEntities s) i) \<and>
     (\<forall>i m. fmlookup (tvEntities s) i = Some m \<longrightarrow> veEntityId m = i \<and> entity_ok m) \<and>
     chFilter (tvCmdHandler s) = NOTIFICATION \<and> chItems (tvCmdHandler s) = fmempty"

definition store_note :: "vein_event \<Rightarrow> bool" where
  "store_note e \<longleftrightarrow>
     ceSubtype e = NOTIFICATION \<and> \<not> ceAccepted e \<and>
     (case ceData e of VComponent d \<Rightarrow> True | VEntity d \<Rightarrow> eaCommand d \<noteq> ECMD_SUBSCRIBE | _ \<Rightarrow> False)"

lemma note_ignored:
  assumes "store_note e" and "x \<notin> spy_systems" and "x \<noteq> TsStorage" and "\<forall>k. x \<noteq> TsUser k"
    and "chItems (tvCmdHandler s) = fmempty"
  shows "ts_proc env x s (CmdEv e) = (s, CmdEv e, [])"
  using assms
  by (cases x; cases "ceData e")
     (auto simp: ts_proc_def spy_systems_def store_note_def sm_processEvent_def introspection_processEvent_def
      ch_processCommandEvent_def ve_processEvent_def ve_handleComponents_def no_output_def fmupd_same
      split: option.split)

lemma note_stored:
  assumes "store_note e" and "ss_processEvent (teQt env) (tvStorage s) e = (st, e, [], sigs)"
    and "\<not> tvDown s" and "chItems (tvCmdHandler s) = fmempty"
    and "TsStorage \<in> set xs" and "distinct xs" and "\<forall>x \<in> set xs. x \<notin> spy_systems \<and> (\<forall>k. x \<noteq> TsUser k)"
  shows "customEvent app_accepted (map (ts_proc env) xs) s (CmdEv e) =
    (s\<lparr>tvStorage := st\<rparr>, CmdEv e, [], length xs)"
proof -
  obtain as bs where xs: "xs = as @ TsStorage # bs" using assms(5) by (meson split_list)
  have idle: "customEvent app_accepted (map (ts_proc env) ys) t (CmdEv e) = (t, CmdEv e, [], length ys)"
    if "set ys \<subseteq> set xs - {TsStorage}" and "chItems (tvCmdHandler t) = fmempty" for ys t
    using that assms(1,7) by (induction ys) (auto simp: note_ignored app_accepted_def store_note_def)
  have "ts_proc env TsStorage s (CmdEv e) = (s\<lparr>tvStorage := st\<rparr>, CmdEv e, [])"
    using assms(2,3) by (simp add: ts_proc_def)
  moreover have "set as \<subseteq> set xs - {TsStorage}" "set bs \<subseteq> set xs - {TsStorage}"
    using assms(6) xs by auto
  ultimately show ?thesis
    using idle assms(1,4) by (simp add: xs customEvent_append app_accepted_def store_note_def)
qed

lemma loop_stored:
  assumes ok: "ts_ok (s\<lparr>tvQueue := []\<rparr>)" and q: "tvQueue s = CmdEv e # q" and "store_note e"
    and "ss_processEvent (teQt env) (tvStorage s) e = (st, e, [], sigs)"
  obtains s' where "ts_loop (Suc n) env s = ts_loop n env s'"
    and "without_spies s' = without_spies (s\<lparr> tvStorage := st, tvQueue := q \<rparr>)"
proof -
  let ?xs = "hwSubsystems (tvHandler s)"
  obtain s1 ev1 out k where s1: "customEvent app_accepted (map (ts_proc env) ?xs) (s\<lparr>tvQueue := q\<rparr>) (CmdEv e) =
      (s1, ev1, out, k)" by (metis prod_cases4)
  have "customEvent app_accepted (map (ts_proc env) (filter (\<lambda>x. x \<notin> spy_systems) ?xs))
      (without_spies (s\<lparr>tvQueue := q\<rparr>)) (CmdEv e) = ((without_spies (s\<lparr>tvQueue := q\<rparr>))\<lparr>tvStorage := st\<rparr>, CmdEv e, [],
        length (filter (\<lambda>x. x \<notin> spy_systems) ?xs))"
    using ok assms(3,4) by (intro note_stored) (auto simp: ts_ok_def handler_ok_def spy_systems_def)
  then have after: "without_spies s1 = (without_spies (s\<lparr>tvQueue := q\<rparr>))\<lparr>tvStorage := st\<rparr>" "ev1 = CmdEv e" "out = []"
    using plain_dispatch [OF s1] by (metis prod.inject)+
  have idle: "tvSignals s1 = []" "\<not> tvDown s1"
    using ok arg_cong [OF after(1), of tvSignals] arg_cong [OF after(1), of tvDown] by (simp_all add: ts_ok_def)
  have "ts_loop (Suc n) env s = ts_loop n env (s1\<lparr>tvSignals := []\<rparr>)"
    using assms(3) idle by (simp add: q s1 after(2,3) ts_slots_def ts_logAccepted_def app_accepted_def store_note_def)
  moreover have "s1\<lparr>tvSignals := []\<rparr> = s1" using idle(1) by simp
  then have "without_spies (s1\<lparr>tvSignals := []\<rparr>) = without_spies (s\<lparr> tvStorage := st, tvQueue := q \<rparr>)"
    using after(1) by (cases "without_spies s") simp
  ultimately show ?thesis by (rule that)
qed

lemma plain_attached [simp]:
  "x |\<in>| fmdom (hwHandlerOf (plain_handler w)) \<longleftrightarrow> x \<notin> spy_systems \<and> x |\<in>| fmdom (hwHandlerOf w)"
  by (auto simp: plain_handler_def)

lemma plain_ok:
  "handler_ok (plain_handler w) \<longleftrightarrow>
     distinct (filter (\<lambda>x. x \<notin> spy_systems) (hwSubsystems w)) \<and>
     (\<forall>x \<in> set (hwSubsystems w). x \<notin> spy_systems \<longrightarrow> x |\<in>| fmdom (hwHandlerOf w))"
  by (auto simp: handler_ok_def plain_handler_def)

lemma not_spies [simp]: "TsStorage \<notin> spy_systems" "TsEntity i \<notin> spy_systems" "TsUser k \<notin> spy_systems"
  by (simp_all add: spy_systems_def)

lemma ts_ok_plain [simp]: "ts_ok (without_spies s) = ts_ok s"
  by (simp add: ts_ok_def)

lemma ts_ok_alike: "without_spies s = without_spies t \<Longrightarrow> ts_ok t \<Longrightarrow> ts_ok s"
  using ts_ok_plain [of s] ts_ok_plain [of t] by simp

lemma loop_idle: "tvQueue s = [] \<Longrightarrow> ts_loop n env s = Some s"
  by (cases n) simp_all

fun stored_all :: "qt_lib \<Rightarrow> vein_event list \<Rightarrow> server_storage \<Rightarrow> bool" where
  "stored_all qt [] st \<longleftrightarrow> True"
| "stored_all qt (e # es) st \<longleftrightarrow>
     store_note e \<and> fst (snd (ss_processEvent qt st e)) = e \<and>
     fst (snd (snd (ss_processEvent qt st e))) = [] \<and>
     stored_all qt es (fst (ss_processEvent qt st e))"

lemma loop_events:
  assumes "ts_ok (s\<lparr>tvQueue := []\<rparr>)" and "tvQueue s = map CmdEv es"
    and "stored_all (teQt env) es (tvStorage s)"
  obtains s' where "ts_loop (length es + n) env s = Some s'"
    and "without_spies s' = without_spies (s\<lparr> tvStorage := store_events (teQt env) es (tvStorage s), tvQueue := [] \<rparr>)"
  using assms
proof (induction es arbitrary: s thesis)
  case Nil
  then show ?case by (simp add: loop_idle)
next
  case (Cons e es)
  obtain st sigs where st: "ss_processEvent (teQt env) (tvStorage s) e = (st, e, [], sigs)"
    using Cons.prems(4) by (cases "ss_processEvent (teQt env) (tvStorage s) e") auto
  obtain s1 where s1: "ts_loop (Suc (length es + n)) env s = ts_loop (length es + n) env s1"
    "without_spies s1 = without_spies (s\<lparr> tvStorage := st, tvQueue := map CmdEv es \<rparr>)"
    using loop_stored [OF Cons.prems(2) _ _ st, of "map CmdEv es"] Cons.prems(3,4) by auto
  have "server_storage_ok st"
    using Cons.prems(2) ss_processEvent_ok [of "tvStorage s" "teQt env" e] st by (simp add: ts_ok_def)
  then have ok: "ts_ok (s\<lparr> tvStorage := st, tvQueue := [] \<rparr>)"
    using Cons.prems(2) by (simp add: ts_ok_def)
  have "ts_ok (s1\<lparr>tvQueue := []\<rparr>)"
    by (rule ts_ok_alike [OF _ ok]) (simp add: s1(2))
  moreover have "tvQueue s1 = map CmdEv es" "tvStorage s1 = st"
    using alike_fields(7) [OF s1(2)] alike_fields(2) [OF s1(2)] by simp_all
  ultimately obtain s' where "ts_loop (length es + n) env s1 = Some s'"
    "without_spies s' = without_spies (s1\<lparr> tvStorage := store_events (teQt env) es st, tvQueue := [] \<rparr>)"
    using Cons.IH [of s1] Cons.prems(4) st by auto
  then show ?case
    using s1 st by (intro Cons.prems(1) [of s']) simp_all
qed

lemma entity_add_stored:
  assumes "0 \<le> i" and "i \<notin> spEntities (db_abs (ssDb st))"
  shows "stored_all qt [server_entity_add i] st"
  using assms by (simp add: store_note_def server_entity_add_def ss_processEvent_def ss_processEntityData_def
      vein_defs record_glue acceptableOrigin_def findEntity_iff findEntity_ex Let_def)

lemma component_added_event:
  "0 \<le> i \<Longrightarrow> fc_sendNotification CCMD_ADD \<lparr> fcEntityId = i, fcName = n, fcValue = v, fcReadOnly = ro \<rparr> =
   server_component_add i n v"
  by (simp add: fc_sendNotification_def server_component_add_def vein_defs record_glue)

lemma component_add_stored:
  assumes "0 \<le> i" and "i \<in> spEntities (db_abs (ssDb st))" and "spValue (db_abs (ssDb st)) i n = None"
  shows "stored_all qt [server_component_add i n v] st"
  using assms by (auto simp add: store_note_def server_component_add_def ss_processEvent_def
      ss_processComponentData_def vein_defs record_glue acceptableOrigin_def findEntity_iff findEntity_ex
      qv_valid_def split_beta Let_def split: option.splits)

definition entity_added :: "int \<Rightarrow> vf_entity \<Rightarrow> 'u test_server \<Rightarrow> 'u test_server" where
  "entity_added i m s =
     (let w = plain_handler (tvHandler s)
      in (without_spies s)\<lparr> tvHandler := \<lparr> hwSubsystems = hwSubsystems w @ [TsEntity i],
                                       hwHandlerOf = fmupd (TsEntity i) () (hwHandlerOf w) \<rparr>,
           tvEntities := fmupd i m (tvEntities s) \<rparr>)"

lemma append_entity:
  assumes "ts_ok s" and "\<not> qcontains (tvEntities s) i"
  obtains s' where "ts_appendEventSystem (TsEntity i) (s\<lparr>tvEntities := fmupd i m (tvEntities s)\<rparr>) = Some s'"
    and "without_spies s' = entity_added i m s"
proof -
  let ?s = "s\<lparr>tvEntities := fmupd i m (tvEntities s)\<rparr>"
  have "addSubsystem () (TsEntity i) (plain_handler (tvHandler s)) =
      Some \<lparr> hwSubsystems = hwSubsystems (plain_handler (tvHandler s)) @ [TsEntity i],
        hwHandlerOf = fmupd (TsEntity i) () (hwHandlerOf (plain_handler (tvHandler s))) \<rparr>"
    using assms by (simp add: addSubsystem_def attach_def ts_ok_def)
  then have "map_option without_spies (ts_appendEventSystem (TsEntity i) ?s) = Some (entity_added i m s)"
    by (simp add: append_plain entity_added_def)
  then show ?thesis using that by auto
qed

lemma entity_added_ok:
  assumes "ts_ok s" and "\<not> qcontains (tvEntities s) i" and "veEntityId m = i" and "entity_ok m"
  shows "ts_ok (entity_added i m s)"
  using assms by (auto simp: entity_added_def ts_ok_def Let_def plain_ok)

lemma initial_event: "ve_initModule (ve_new i) = [server_entity_add i]"
  by (simp add: ve_initModule_def ve_new_def)

lemma addEntity_effect:
  fixes s :: "'u test_server"
  assumes ok: "ts_ok s" and "0 \<le> i" and new: "\<not> qcontains (tvEntities s) i"
    and absent: "i \<notin> spEntities (db_abs (ssDb (tvStorage s)))"
  obtains s' m where "ts_addEntity (ts_loop (2 + n) env) i name s = Some s'" and "ts_ok s'"
    and "fmlookup (tvEntities s') i = Some m"
    and "veComponents m = fmupd ''EntityName'' \<lparr> fcEntityId = i, fcName = ''EntityName'', fcValue = QStr name,
           fcReadOnly = True \<rparr> fmempty"
    and "tvStorage s' = store_events (teQt env) [server_entity_add i,
           server_component_add i ''EntityName'' (QStr name)] (tvStorage s)"
proof -
  let ?es = "[server_entity_add i, server_component_add i ''EntityName'' (QStr name)]"
  let ?qt = "teQt env" and ?st = "tvStorage s"
  obtain m out where m: "ve_createComponent ''EntityName'' (QStr name) True (ve_new i) = Some (m, out)"
    "out = [server_component_add i ''EntityName'' (QStr name)]" "veEntityId m = i"
    "veComponents m = fmupd ''EntityName'' \<lparr> fcEntityId = i, fcName = ''EntityName'', fcValue = QStr name,
       fcReadOnly = True \<rparr> fmempty"
    using assms(2) by (simp add: ve_createComponent_def ve_new_def fc_new_def component_added_event)
  have "entity_ok m" using ve_createComponent_ok [OF ve_new_ok m(1)] .
  obtain s1 where s1: "ts_appendEventSystem (TsEntity i) (s\<lparr>tvEntities := fmupd i (ve_new i) (tvEntities s)\<rparr>) = Some s1"
    "without_spies s1 = entity_added i (ve_new i) s"
    using append_entity [OF ok new] by blast
  let ?s1 = "ts_send ?es (s1\<lparr>tvEntities := fmupd i m (tvEntities s1)\<rparr>)"
  note fields = arg_cong [OF s1(2), of tvQueue] arg_cong [OF s1(2), of tvStorage] arg_cong [OF s1(2), of tvEntities]
  have s1_fields: "tvQueue s1 = []" "tvStorage s1 = ?st" "tvEntities s1 = fmupd i (ve_new i) (tvEntities s)"
    using fields ok by (simp_all add: entity_added_def ts_ok_def Let_def)
  have "without_spies (?s1\<lparr>tvQueue := []\<rparr>) = (entity_added i m s)\<lparr>tvQueue := []\<rparr>"
    using s1_fields by (simp add: s1(2) ts_send_def) (simp add: entity_added_def Let_def)
  also have "\<dots> = entity_added i m s" using ok by (simp add: entity_added_def ts_ok_def Let_def)
  finally have alike: "without_spies (?s1\<lparr>tvQueue := []\<rparr>) = entity_added i m s" .
  have ok1: "ts_ok (?s1\<lparr>tvQueue := []\<rparr>)"
    using ts_ok_plain [of "?s1\<lparr>tvQueue := []\<rparr>"] entity_added_ok [OF ok new m(3) \<open>entity_ok m\<close>]
    unfolding alike by simp
  moreover have "stored_all ?qt ?es ?st"
  proof -
    let ?st1 = "fst (ss_processEvent ?qt ?st (server_entity_add i))"
    have "db_abs (ssDb ?st1) = spec_exec ?qt (InsertEntity i) (db_abs (ssDb ?st))"
      using ok absent assms(2)
      by (simp add: ts_ok_def store_event_abs entity_add_request grant_def del: db_abs_sel spec_exec.simps)
    then have "stored_all ?qt [server_component_add i ''EntityName'' (QStr name)] ?st1"
      using assms(2) by (intro component_add_stored) (simp_all del: db_abs_sel)
    then show ?thesis using entity_add_stored [OF assms(2) absent, of ?qt] by simp
  qed
  ultimately obtain s' where s': "ts_loop (length ?es + n) env ?s1 = Some s'"
    "without_spies s' = without_spies (?s1\<lparr> tvStorage := store_events ?qt ?es ?st, tvQueue := [] \<rparr>)"
    using loop_events [of ?s1 ?es env n] s1_fields by (auto simp: ts_send_def)
  have "server_storage_ok (store_events ?qt ?es ?st)"
    using ok by (simp add: ts_ok_def ss_processEvent_ok)
  then have "ts_ok (?s1\<lparr> tvStorage := store_events ?qt ?es ?st, tvQueue := [] \<rparr>)"
    using ok1 by (simp add: ts_ok_def)
  then have "ts_ok s'" by (rule ts_ok_alike [OF s'(2)])
  moreover have "ts_addEntity (ts_loop (2 + n) env) i name s = Some s'"
    using new s1(1) s'(1) m(1,2) by (simp add: ts_addEntity_def Let_def initial_event del: ts_loop.simps)
  ultimately show ?thesis
    using alike_fields(2,3) [OF s'(2)] m(4) by (intro that) (auto simp: ts_send_def)
qed

lemma store_events_ok: "server_storage_ok st \<Longrightarrow> server_storage_ok (store_events qt es st)"
  by (induction es arbitrary: st) (simp_all add: ss_processEvent_ok)

lemma addComponent_effect:
  fixes s :: "'u test_server"
  assumes ok: "ts_ok s" and "0 \<le> i" and m: "fmlookup (tvEntities s) i = Some m"
    and new: "\<not> qcontains (veComponents m) c"
    and "i \<in> spEntities (db_abs (ssDb (tvStorage s)))" and "spValue (db_abs (ssDb (tvStorage s))) i c = None"
  obtains s' m' where "ts_addComponent (ts_loop (1 + n) env) i c v ro s = Some s'" and "ts_ok s'"
    and "fmlookup (tvEntities s') i = Some m'"
    and "fmlookup (veComponents m') c = Some \<lparr> fcEntityId = i, fcName = c, fcValue = v, fcReadOnly = ro \<rparr>"
    and "tvStorage s' = store_events (teQt env) [server_component_add i c v] (tvStorage s)"
proof -
  let ?es = "[server_component_add i c v]" and ?st = "tvStorage s"
  have ids: "veEntityId m = i" "entity_ok m" using ok m by (auto simp: ts_ok_def)
  obtain m' where m': "ve_createComponent c v ro m = Some (m', ?es)"
    "veComponents m' = fmupd c \<lparr> fcEntityId = i, fcName = c, fcValue = v, fcReadOnly = ro \<rparr> (veComponents m)"
    "veEntityId m' = i"
    using assms(2) new ids by (simp add: ve_createComponent_def fc_new_def component_added_event)
  have "entity_ok m'" using ve_createComponent_ok [OF ids(2) m'(1)] .
  let ?s = "s\<lparr>tvEntities := fmupd i m' (tvEntities s)\<rparr>"
  have ok1: "ts_ok ?s" using ok m m'(3) \<open>entity_ok m'\<close> by (auto simp: ts_ok_def fmlookup_dom_iff)
  then have sent: "ts_ok ((ts_send ?es ?s)\<lparr>tvQueue := []\<rparr>)" "tvQueue (ts_send ?es ?s) = map CmdEv ?es"
    "tvStorage (ts_send ?es ?s) = ?st"
    by (simp_all add: ts_send_def ts_ok_def)
  obtain s' where s': "ts_loop (length ?es + n) env (ts_send ?es ?s) = Some s'"
    "without_spies s' = without_spies ((ts_send ?es ?s)\<lparr> tvStorage := store_events (teQt env) ?es ?st, tvQueue := [] \<rparr>)"
    using loop_events [OF sent(1,2), of env n] component_add_stored [OF assms(2,5,6), of "teQt env" v]
    unfolding sent(3) by blast
  have "server_storage_ok (store_events (teQt env) ?es ?st)" using ok by (intro store_events_ok) (simp add: ts_ok_def)
  then have "ts_ok ((ts_send ?es ?s)\<lparr> tvStorage := store_events (teQt env) ?es ?st, tvQueue := [] \<rparr>)"
    using ok1 by (simp add: ts_ok_def ts_send_def)
  then have "ts_ok s'" by (rule ts_ok_alike [OF s'(2)])
  moreover have "ts_addComponent (ts_loop (1 + n) env) i c v ro s = Some s'"
    using s'(1) m m'(1) by (simp add: ts_addComponent_def del: ts_loop.simps)
  ultimately show ?thesis
    using alike_fields(2,3) [OF s'(2)] m'(2) by (intro that) (auto simp: ts_send_def)
qed

subsection \<open>A request of a client\<close>

definition other_request :: "vein_event \<Rightarrow> int \<Rightarrow> bool" where
  "other_request e i \<longleftrightarrow>
     ceSubtype e = TRANSACTION \<and> \<not> ceAccepted e \<and>
     (\<exists>d. ceData e = VComponent d \<and> cdCommand d = CCMD_SET \<and> edEntityId d = i \<and> i \<noteq> 0)"

lemma request_ignored:
  assumes "other_request e i" and "x \<notin> spy_systems" and "\<forall>k. x \<noteq> TsUser k" and "x \<noteq> TsEntity i"
    and "chFilter (tvCmdHandler s) = NOTIFICATION"
    and "\<forall>j m. fmlookup (tvEntities s) j = Some m \<longrightarrow> veEntityId m = j"
  shows "ts_proc env x s (CmdEv e) = (s, CmdEv e, [])"
  using assms
  by (cases x)
     (auto simp: ts_proc_def spy_systems_def other_request_def sm_processEvent_def introspection_processEvent_def
      ss_processEvent_def ch_processCommandEvent_def ve_processEvent_def no_output_def fmupd_same
      split: option.split)

lemma request_served:
  assumes "other_request e i" and ok: "ts_ok s" and d: "ceData e = VComponent d"
    and m: "fmlookup (tvEntities s) i = Some m" and k: "fmlookup (veComponents m) (cdComponentName d) = Some k"
    and "\<not> fcReadOnly k" and "\<not> qtEq (teQt env) (cdNewValue d) (fcValue k)"
    and xs: "set xs \<subseteq> set (hwSubsystems (tvHandler s)) - spy_systems" "TsEntity i \<in> set xs" "distinct xs"
  defines "k' \<equiv> k\<lparr>fcValue := cdNewValue d\<rparr>"
  shows "\<exists>n. customEvent app_accepted (map (ts_proc env) xs) s (CmdEv e) =
    (s\<lparr>tvEntities := fmupd i (m\<lparr>veComponents := fmupd (cdComponentName d) k' (veComponents m)\<rparr>) (tvEntities s)\<rparr>,
     CmdEv (accept e), [CmdEv (fc_sendNotification CCMD_SET k')], n)"
proof -
  obtain as bs where split: "xs = as @ TsEntity i # bs" using xs(2) by (meson split_list)
  have users: "\<forall>x \<in> set xs. \<forall>n. x \<noteq> TsUser n" using ok xs(1) unfolding ts_ok_def by blast
  have idle: "customEvent app_accepted (map (ts_proc env) ys) s (CmdEv e) = (s, CmdEv e, [], length ys)"
    if "set ys \<subseteq> set xs - {TsEntity i}" for ys
    using that
  proof (induction ys)
    case (Cons y ys)
    then have "y \<in> set xs" "y \<noteq> TsEntity i" by auto
    then have "ts_proc env y s (CmdEv e) = (s, CmdEv e, [])"
      using assms(1) users xs(1) ok by (intro request_ignored [OF assms(1)]) (auto simp: ts_ok_def)
    then show ?case using Cons assms(1) by (simp add: app_accepted_def other_request_def)
  qed simp
  have "fc_setValueFromVein (teQt env) (cdNewValue d) k = (k', [fc_sendNotification CCMD_SET k'], [cdNewValue d])"
    using assms(6,7) by (simp add: fc_setValueFromVein_def fc_setValue_def k'_def Let_def)
  moreover have "veEntityId m = i" using ok m by (simp add: ts_ok_def)
  ultimately have "ts_proc env (TsEntity i) s (CmdEv e) =
    (s\<lparr>tvEntities := fmupd i (m\<lparr>veComponents := fmupd (cdComponentName d) k' (veComponents m)\<rparr>) (tvEntities s)\<rparr>,
     CmdEv (accept e), [CmdEv (fc_sendNotification CCMD_SET k')])"
    using assms(1) ok m k d ve_processEvent_component [of e d m k "teQt env"]
    by (auto simp: ts_proc_def ts_ok_def other_request_def no_output_def)
  moreover have "set as \<subseteq> set xs - {TsEntity i}" using xs(3) split by auto
  ultimately show ?thesis
    using idle [of as] assms(1)
    by (simp add: split customEvent_append app_accepted_def other_request_def accept_def)
qed

lemma loop_request:
  assumes req: "other_request e i" and ok: "ts_ok (s\<lparr>tvQueue := []\<rparr>)" and q: "tvQueue s = [CmdEv e]"
    and d: "ceData e = VComponent d" and m: "fmlookup (tvEntities s) i = Some m"
    and k: "fmlookup (veComponents m) (cdComponentName d) = Some k"
    and "\<not> fcReadOnly k" and "\<not> qtEq (teQt env) (cdNewValue d) (fcValue k)"
  obtains s' m' where "ts_loop (Suc n) env s = ts_loop n env s'"
    and "without_spies s' = without_spies (s\<lparr> tvEntities := fmupd i m' (tvEntities s),
           tvQueue := [CmdEv (fc_sendNotification CCMD_SET (k\<lparr>fcValue := cdNewValue d\<rparr>))] \<rparr>)"
    and "m' = m\<lparr>veComponents := fmupd (cdComponentName d) (k\<lparr>fcValue := cdNewValue d\<rparr>) (veComponents m)\<rparr>"
proof -
  let ?xs = "hwSubsystems (tvHandler s)" and ?s = "s\<lparr>tvQueue := []\<rparr>"
  let ?note = "fc_sendNotification CCMD_SET (k\<lparr>fcValue := cdNewValue d\<rparr>)"
  let ?m = "m\<lparr>veComponents := fmupd (cdComponentName d) (k\<lparr>fcValue := cdNewValue d\<rparr>) (veComponents m)\<rparr>"
  obtain s1 ev1 out j where s1: "customEvent app_accepted (map (ts_proc env) ?xs) ?s (CmdEv e) = (s1, ev1, out, j)"
    by (metis prod_cases4)
  have "\<exists>j'. customEvent app_accepted (map (ts_proc env) (filter (\<lambda>x. x \<notin> spy_systems) ?xs)) (without_spies ?s) (CmdEv e) =
      ((without_spies ?s)\<lparr>tvEntities := fmupd i ?m (tvEntities (without_spies ?s))\<rparr>, CmdEv (accept e), [CmdEv ?note], j')"
    using ok m by (intro request_served [OF req _ d _ k assms(7,8)]) (auto simp: ts_ok_def plain_ok fmdomI)
  then have served: "\<exists>j'. customEvent app_accepted (map (ts_proc env) (filter (\<lambda>x. x \<notin> spy_systems) ?xs)) (without_spies ?s) (CmdEv e) =
      ((without_spies ?s)\<lparr>tvEntities := fmupd i ?m (tvEntities s)\<rparr>, CmdEv (accept e), [CmdEv ?note], j')"
    by simp
  have after: "without_spies s1 = (without_spies ?s)\<lparr>tvEntities := fmupd i ?m (tvEntities s)\<rparr>"
    "out = [CmdEv ?note]"
  proof -
    obtain j' where "customEvent app_accepted (map (ts_proc env) (filter (\<lambda>x. x \<notin> spy_systems) ?xs))
        (without_spies ?s) (CmdEv e) = (without_spies s1, ev1, out, j')"
      using plain_dispatch [OF s1] .
    with served show "without_spies s1 = (without_spies ?s)\<lparr>tvEntities := fmupd i ?m (tvEntities s)\<rparr>"
      "out = [CmdEv ?note]" by auto
  qed
  have idle: "tvSignals s1 = []" "\<not> tvDown s1" "tvQueue s1 = []"
    using ok arg_cong [OF after(1), of tvSignals] arg_cong [OF after(1), of tvDown]
      arg_cong [OF after(1), of tvQueue] by (simp_all add: ts_ok_def)
  have keep: "s1\<lparr> tvQueue := q, tvSignals := [] \<rparr> = s1\<lparr>tvQueue := q\<rparr>" for q
    using idle(1) by simp
  have "ts_loop (Suc n) env s = ts_loop n env (ts_logAccepted env ?xs ev1 j (s1\<lparr>tvQueue := [CmdEv ?note]\<rparr>))"
    using idle by (simp add: q s1 after(2) ts_slots_def keep)
  then show ?thesis
    by (rule that) (simp_all add: after(1))
qed

text \<open>
  What the client's setter sends for a value: lists that are not empty and maps are converted to
  the list and map type, other values go as they are.
\<close>

definition setter_value :: "qt_lib \<Rightarrow> qvariant \<Rightarrow> qvariant" where
  "setter_value qt v =
     (if qtCanConvertList qt v \<and> qtToList qt v \<noteq> [] then QListV (qtToList qt v)
      else if qtCanConvertMap qt v then QMapV (qtToMap qt v) else v)"

lemma setter_sends:
  assumes "0 < i" and "qv_valid (setter_value qt v)"
  obtains d where "ceData (setter_generateEvent qt i c old v) = VComponent d"
    and "cdNewValue d = setter_value qt v"
    and "cdComponentName d = c" and "other_request (setter_generateEvent qt i c old v) i"
proof -
  have "\<exists>d. ceData (setter_generateEvent qt i c old v) = VComponent d \<and> cdNewValue d = setter_value qt v \<and>
      cdComponentName d = c \<and> other_request (setter_generateEvent qt i c old v) i"
    using assms
    by (auto simp: setter_generateEvent_def setter_value_def other_request_def component_event_data_def
        vein_defs record_glue Let_def qv_valid_def)
  then show ?thesis using that by blast
qed

lemma fresh_component:
  assumes "findFutureComponent db i c = None" and db': "db' = fst (insertComponentValue qt i c v db)"
  obtains r where "findComponent db' i c = Some r" and "r < length (dbHeap db')"
    and "dbHeap db' ! r = \<lparr> scValue = v, scCustomizer = None \<rparr>"
proof -
  have "takeFutureComponent i c db = (None, db)"
    using assms(1) by (auto simp: takeFutureComponent_def find_defs split: option.splits)
  then have "db' = db\<lparr> dbHeap := dbHeap db @ [\<lparr> scValue = v, scCustomizer = None \<rparr>],
      dbEntities := put_ref i c (length (dbHeap db)) (dbEntities db) \<rparr>"
    by (simp add: db' insertComponentValue_def storageComponent_new_def)
  then show ?thesis
    by (intro that [of "length (dbHeap db)"]) (simp_all add: findComponent_def findInMap_put_ref)
qed

lemma set_note:
  assumes "0 < i" and "qv_valid v" and r: "findComponent (ssDb st) i c = Some r"
    and e: "e = fc_sendNotification CCMD_SET \<lparr> fcEntityId = i, fcName = c, fcValue = v, fcReadOnly = ro \<rparr>"
  shows "stored_all qt [e] st"
    and "ssDb (store_events qt [e] st) = fst (setValue qt r v (ssDb st))"
proof -
  have i: "i |\<in>| fmdom (dbEntities (ssDb st))" using found_entity [OF r] .
  show "stored_all qt [e] st" "ssDb (store_events qt [e] st) = fst (setValue qt r v (ssDb st))"
    using assms i
    by (auto simp: store_note_def fc_sendNotification_def ss_processEvent_def ss_processComponentData_def
        vein_defs record_glue acceptableOrigin_def qv_valid_def findEntity_iff split_beta Let_def)
qed

lemma setComponent_effect:
  fixes s :: "'u test_server"
  assumes ok: "ts_ok s" and "0 < i" and m: "fmlookup (tvEntities s) i = Some m"
    and k: "fmlookup (veComponents m) c = Some \<lparr> fcEntityId = i, fcName = c, fcValue = old, fcReadOnly = False \<rparr>"
    and w: "w = setter_value (teQt env) v"
    and v: "qv_valid w" "\<not> qtEq (teQt env) w old"
    and r: "findComponent (ssDb (tvStorage s)) i c = Some r"
  obtains s' where "ts_setComponentClientTransaction (ts_loop (2 + n) env) env i c v s = Some s'" and "ts_ok s'"
    and "ssDb (tvStorage s') = fst (setValue (teQt env) r w (ssDb (tvStorage s)))"
proof -
  let ?k = "\<lparr> fcEntityId = i, fcName = c, fcValue = old, fcReadOnly = False \<rparr>"
  let ?note = "fc_sendNotification CCMD_SET (?k\<lparr>fcValue := w\<rparr>)"
  let ?e = "setter_generateEvent (teQt env) i c (ts_getValue i c s) v"
  obtain d where d: "ceData ?e = VComponent d" "cdNewValue d = w" "cdComponentName d = c" "other_request ?e i"
    using setter_sends [OF \<open>0 < i\<close> v(1) [unfolded w]] unfolding w .
  have same: "(ts_send [?e] s)\<lparr>tvQueue := []\<rparr> = s" "tvQueue (ts_send [?e] s) = [CmdEv ?e]"
    using ok by (simp_all add: ts_send_def ts_ok_def)
  have ok0: "ts_ok ((ts_send [?e] s)\<lparr>tvQueue := []\<rparr>)" unfolding same(1) by (rule ok)
  have kept: "tvEntities (ts_send [?e] s) = tvEntities s" by (simp add: ts_send_def)
  have writable: "fmlookup (veComponents m) (cdComponentName d) = Some ?k" "\<not> fcReadOnly ?k"
    "\<not> qtEq (teQt env) (cdNewValue d) (fcValue ?k)"
    using k v(2) d(2,3) by simp_all
  obtain s1 m' where s1: "ts_loop (Suc (1 + n)) env (ts_send [?e] s) = ts_loop (1 + n) env s1"
    "without_spies s1 = without_spies (ts_send [?e] s\<lparr> tvEntities := fmupd i m' (tvEntities s), tvQueue := [CmdEv ?note] \<rparr>)"
    "m' = m\<lparr>veComponents := fmupd c (?k\<lparr>fcValue := w\<rparr>) (veComponents m)\<rparr>"
    using loop_request [OF d(4) ok0 same(2) d(1) _ writable, of "1 + n"] m unfolding d(2,3) kept by blast
  have entity: "veEntityId m = i" "entity_ok m" using ok m by (simp_all add: ts_ok_def)
  have "ts_ok (s\<lparr>tvEntities := fmupd i m' (tvEntities s)\<rparr>)"
    using ok m entity by (auto simp: ts_ok_def s1(3) entity_ok_def fmlookup_dom_iff)
  then have "ts_ok ((ts_send [?e] s)\<lparr> tvEntities := fmupd i m' (tvEntities s), tvQueue := [] \<rparr>)"
    by (simp add: ts_ok_def ts_send_def)
  then have ok1: "ts_ok (s1\<lparr>tvQueue := []\<rparr>)" by (rule ts_ok_alike [rotated]) (simp add: s1(2))
  have fields: "tvQueue s1 = map CmdEv [?note]" "tvStorage s1 = tvStorage s"
    using alike_fields(2,7) [OF s1(2)] by (simp_all add: ts_send_def)
  obtain s' where s': "ts_loop (length [?note] + n) env s1 = Some s'"
    "without_spies s' = without_spies (s1\<lparr> tvStorage := store_events (teQt env) [?note] (tvStorage s), tvQueue := [] \<rparr>)"
    using loop_events [OF ok1 fields(1), of env n] set_note(1) [OF \<open>0 < i\<close> v(1) r refl] unfolding fields(2) by auto
  have "server_storage_ok (store_events (teQt env) [?note] (tvStorage s))"
    using ok by (intro store_events_ok) (simp add: ts_ok_def)
  then have "ts_ok (s1\<lparr> tvStorage := store_events (teQt env) [?note] (tvStorage s), tvQueue := [] \<rparr>)"
    using ok1 by (simp add: ts_ok_def)
  then have "ts_ok s'" by (rule ts_ok_alike [OF s'(2)])
  moreover have "ts_setComponentClientTransaction (ts_loop (2 + n) env) env i c v s = Some s'"
    using r s1(1) s'(1) by (simp add: ts_setComponentClientTransaction_def hasStoredValue_def del: ts_loop.simps)
  moreover have "tvStorage s' = store_events (teQt env) [?note] (tvStorage s)"
    using alike_fields(2) [OF s'(2)] by simp
  then have "ssDb (tvStorage s') = fst (setValue (teQt env) r w (ssDb (tvStorage s)))"
    using set_note(2) [OF \<open>0 < i\<close> v(1) r, of ?note False "teQt env"] by simp
  ultimately show ?thesis using that by blast
qed

subsection \<open>The start of the server\<close>

lemma adds_stored:
  fixes f :: "string \<Rightarrow> qvariant" and qt :: qt_lib
  assumes "server_storage_ok st" and "0 \<le> i" and "i \<in> spEntities (db_abs (ssDb st))" and "distinct ns"
    and "\<forall>n \<in> set ns. spValue (db_abs (ssDb st)) i n = None" and "spFuture (db_abs (ssDb st)) = (\<lambda>j c. None)"
  defines "es \<equiv> map (\<lambda>n. server_component_add i n (f n)) ns"
  shows "stored_all qt es st \<and> spEntities (db_abs (ssDb (store_events qt es st))) = spEntities (db_abs (ssDb st)) \<and>
    spFuture (db_abs (ssDb (store_events qt es st))) = (\<lambda>j c. None)"
  unfolding es_def using assms(1-6)
proof (induction ns arbitrary: st)
  case Nil
  then show ?case by simp
next
  case (Cons n ns)
  let ?st = "fst (ss_processEvent qt st (server_component_add i n (f n)))"
  have abs: "db_abs (ssDb ?st) = spec_exec qt (InsertValue i n (f n)) (db_abs (ssDb st))"
    using Cons.prems
    by (simp add: store_event_abs component_add_request grant_def del: db_abs_sel spec_exec.simps)
  have "server_storage_ok ?st" using Cons.prems(1) by (rule ss_processEvent_ok)
  moreover have "spFuture (db_abs (ssDb ?st)) = (\<lambda>j c. None)"
    using Cons.prems(6) by (auto simp: abs fun_eq_iff simp del: db_abs_sel)
  moreover have "\<forall>c \<in> set ns. spValue (db_abs (ssDb ?st)) i c = None"
    using Cons.prems(4,5) by (auto simp: abs simp del: db_abs_sel)
  moreover have "spEntities (db_abs (ssDb ?st)) = spEntities (db_abs (ssDb st))"
    using Cons.prems(3) by (auto simp: abs simp del: db_abs_sel)
  moreover have "stored_all qt [server_component_add i n (f n)] st"
    using Cons.prems by (intro component_add_stored) simp_all
  ultimately show ?case using Cons.IH [of ?st] Cons.prems(2,3,4) by (simp del: db_abs_sel)
qed

definition core_handler :: "(test_system, unit) handler_world" where
  "core_handler =
     \<lparr> hwSubsystems = core_systems, hwHandlerOf = fold (\<lambda>x. fmupd x ()) core_systems fmempty \<rparr>"

lemma core_handler_built:
  "opt_fold (addSubsystem ()) core_systems \<lparr> hwSubsystems = [], hwHandlerOf = fmempty \<rparr> = Some core_handler"
  by (simp add: core_handler_def core_systems_def addSubsystem_def attach_def)

lemma server_new_ok:
  assumes "testVeinServer_new env lxdm fs u = Some s"
  obtains f ns where "tvQueue s = map CmdEv (server_entity_add 0 # map (\<lambda>n. server_component_add 0 n (f n)) ns)"
    and "distinct ns" and "ts_ok (s\<lparr>tvQueue := []\<rparr>)" and "tvStorage s = server_storage_new" and "tvEntities s = fmempty"
proof -
  define s0 where "s0 = \<lparr> tvHandler = core_handler, tvEntityAdds = [], tvComponentAdds = [], tvComponentChanges = [],
    tvLog = fmempty, tvSystem = sm_setStorage True (system_module_new False lxdm fs),
    tvStorage = server_storage_new, tvEntities = fmempty, tvSessions = [],
    tvCmdHandler = cmd_handler_new NOTIFICATION, tvInvokers = fmempty, tvFinished = [],
    tvUser = u, tvQueue = [], tvSignals = [], tvConnections = [], tvDown = False \<rparr>"
  obtain m out where init: "sm_initOnce (ts_sysEnv env s0) (tvSystem s0) = (m, out)" by (cases "sm_initOnce (ts_sysEnv env s0) (tvSystem s0)")
  have s: "s = ts_send out (s0\<lparr>tvSystem := m\<rparr>)"
    using assms init unfolding testVeinServer_new_def core_handler_built Let_def by (simp add: s0_def)
  have "\<not> smInitDone (tvSystem s0)" by (simp add: s0_def sm_setStorage_def system_module_new_def)
  then obtain f ns where out: "out = server_entity_add 0 # map (\<lambda>n. server_component_add 0 n (f n)) ns" "distinct ns"
    using init that distinct_qkeys by (auto simp: sm_initOnce_def Let_def)
  have "set core_systems = {TsTop, TsEntitySpy, TsAddSpy, TsChangeSpy, TsSystem, TsIntrospection, TsStorage,
      TsCmdHandler, TsBottom}" "distinct core_systems"
    by (auto simp: core_systems_def)
  moreover have "fmdom (hwHandlerOf core_handler) = fset_of_list core_systems"
    by (auto simp: core_handler_def core_systems_def)
  ultimately have "ts_ok s0"
    by (auto simp: ts_ok_def s0_def core_handler_def plain_ok cmd_handler_new_def server_storage_new_ok fset_of_list.rep_eq)
  then have "ts_ok (s\<lparr>tvQueue := []\<rparr>)" by (simp add: s ts_ok_def ts_send_def)
  then show ?thesis using that [of f ns] out by (simp add: s ts_send_def s0_def)
qed

lemma test_server_starts:
  assumes "testVeinServer_new env lxdm fs u = Some s"
  obtains s' where "ts_loop (length (tvQueue s) + n) env s = Some s'" and "ts_ok s'" and "tvEntities s' = fmempty"
    and "spEntities (db_abs (ssDb (tvStorage s'))) = {0}" and "spFuture (db_abs (ssDb (tvStorage s'))) = (\<lambda>j c. None)"
proof -
  obtain f ns where s: "tvQueue s = map CmdEv (server_entity_add 0 # map (\<lambda>n. server_component_add 0 n (f n)) ns)"
    "distinct ns" "ts_ok (s\<lparr>tvQueue := []\<rparr>)" "tvStorage s = server_storage_new" "tvEntities s = fmempty"
    using server_new_ok [OF assms] .
  let ?es = "server_entity_add 0 # map (\<lambda>n. server_component_add 0 n (f n)) ns" and ?qt = "teQt env"
  let ?st = "fst (ss_processEvent ?qt server_storage_new (server_entity_add 0))"
  have ok: "server_storage_ok ?st" by (intro ss_processEvent_ok server_storage_new_ok)
  have start: "spEntities (db_abs (ssDb server_storage_new)) = {}" "spFuture (db_abs (ssDb server_storage_new)) = (\<lambda>j c. None)"
    by (simp_all add: server_storage_new_def database_new_def find_defs fun_eq_iff)
  have "db_abs (ssDb ?st) = spec_exec ?qt (InsertEntity 0) (db_abs (ssDb server_storage_new))"
    by (simp add: store_event_abs [OF server_storage_new_ok] entity_add_request grant_def start del: db_abs_sel spec_exec.simps)
  then have abs: "spEntities (db_abs (ssDb ?st)) = {0}" "spFuture (db_abs (ssDb ?st)) = (\<lambda>j c. None)"
    "spValue (db_abs (ssDb ?st)) 0 c = None" for c
    using start by (simp_all del: db_abs_sel)
  have all: "stored_all ?qt ?es server_storage_new"
    "spEntities (db_abs (ssDb (store_events ?qt ?es server_storage_new))) = {0}"
    "spFuture (db_abs (ssDb (store_events ?qt ?es server_storage_new))) = (\<lambda>j c. None)"
    using adds_stored [OF ok, of 0 ns ?qt f] s(2) abs entity_add_stored [of 0 server_storage_new ?qt] start(1)
    by (simp_all del: db_abs_sel)
  obtain s' where s': "ts_loop (length ?es + n) env s = Some s'"
    "without_spies s' = without_spies (s\<lparr> tvStorage := store_events ?qt ?es server_storage_new, tvQueue := [] \<rparr>)"
    using loop_events [OF s(3,1), of env n] all(1) unfolding s(4) by blast
  have "server_storage_ok (store_events ?qt ?es server_storage_new)"
    by (intro store_events_ok server_storage_new_ok)
  then have "ts_ok (s\<lparr> tvStorage := store_events ?qt ?es server_storage_new, tvQueue := [] \<rparr>)"
    using s(3) by (simp add: ts_ok_def)
  then have "ts_ok s'" by (rule ts_ok_alike [OF s'(2)])
  then show ?thesis
    using that [of s'] s'(1) s(1,5) all(2,3) alike_fields(2,3) [OF s'(2)] by (simp del: ts_loop.simps db_abs_sel store_events_simps)
qed

section \<open>Properties\<close>

text \<open>
  C21. The test server's spies only watch: run any number of rounds of the event loop, with session
  changes that rebuild the entities from inside a dispatch, on a server with its spies and on the
  same server without them: both fail, or both end in the same state up to what the spies recorded.
\<close>

theorem spies_transparent:
  "map_option without_spies (ts_loop n env s) = map_option without_spies (ts_loop n env (without_spies s))"
  by (rule spy_blindD [OF loop_blind]) simp

text \<open>
  C22. What a test writes it reads back, as the client's setter sends it. On a test server between
  two operations, without systems of the test, take the identifier of a new entity (positive,
  unknown to the server and to the store, with no component of the given name requested in
  advance), a component name other than EntityName, and a value that, as sent (non-empty lists
  and maps are converted to the generic list and map), is valid and differs from the component's
  initial value in Qt's comparison. Then adding the entity, adding the component as a writable one
  and setting it by a client's transaction succeed, each within the events its loop is given, and
  leave the server between two operations again, with the value as sent as the component's value
  in the store.
\<close>

theorem test_server_write_read:
  fixes s :: "'u test_server" and env :: "'u test_env" and n :: nat
  assumes "ts_ok s" and "0 < i" and "\<not> qcontains (tvEntities s) i"
    and "i \<notin> spEntities (db_abs (ssDb (tvStorage s)))" and "spFuture (db_abs (ssDb (tvStorage s))) i c = None"
    and "c \<noteq> ''EntityName''"
    and "qv_valid (setter_value (teQt env) v)" and "\<not> qtEq (teQt env) (setter_value (teQt env) v) old"
  defines "feed \<equiv> ts_loop (2 + n) env"
  shows "\<exists>s'. Option.bind (ts_addEntity feed i name s) (\<lambda>s1.
      Option.bind (ts_addComponent feed i c old False s1)
        (ts_setComponentClientTransaction feed env i c v)) = Some s' \<and>
    ts_ok s' \<and> ts_getValue i c s' = setter_value (teQt env) v"
proof -
  let ?qt = "teQt env"
  let ?add = "server_component_add i ''EntityName'' (QStr name)"
  let ?st1 = "store_events ?qt [server_entity_add i, ?add] (tvStorage s)"
  have i: "0 \<le> i" using assms(2) by simp
  obtain s1 m where s1: "ts_addEntity feed i name s = Some s1" "ts_ok s1" "fmlookup (tvEntities s1) i = Some m"
    "veComponents m = fmupd ''EntityName'' \<lparr> fcEntityId = i, fcName = ''EntityName'', fcValue = QStr name,
       fcReadOnly = True \<rparr> fmempty" "tvStorage s1 = ?st1"
    unfolding feed_def by (rule addEntity_effect [OF assms(1) i assms(3,4), of n env name])
  have c: "\<not> qcontains (veComponents m) c" using assms(6) by (simp add: s1(4))
  have st: "server_storage_ok (tvStorage s)" using assms(1) by (simp add: ts_ok_def)
  have abs1: "db_abs (ssDb ?st1) =
      grant ?qt (Some (InsertValue i ''EntityName'' (QStr name))) (grant ?qt (Some (InsertEntity i)) (db_abs (ssDb (tvStorage s))))"
    using st assms(2) ss_processEvent_ok [OF st]
    by (simp add: store_event_abs component_add_request entity_add_request del: db_abs_sel)
  have empty: "i \<in> spEntities (db_abs (ssDb ?st1))" "spValue (db_abs (ssDb ?st1)) i c = None"
    "spFuture (db_abs (ssDb ?st1)) i c = None"
    unfolding abs1 using assms(4-6) by (simp_all add: grant_def del: db_abs_sel)
  obtain s2 m' where s2: "ts_addComponent feed i c old False s1 = Some s2" "ts_ok s2"
    "fmlookup (tvEntities s2) i = Some m'"
    "fmlookup (veComponents m') c = Some \<lparr> fcEntityId = i, fcName = c, fcValue = old, fcReadOnly = False \<rparr>"
    "tvStorage s2 = store_events ?qt [server_component_add i c old] ?st1"
    using addComponent_effect [OF s1(2) i s1(3) c, of "1 + n" env old False] empty(1,2)
    unfolding feed_def s1(5) by auto
  have db2: "ssDb (tvStorage s2) = fst (insertComponentValue ?qt i c old (ssDb ?st1))"
    using assms(2) empty(1,2) unfolding s2(5)
    by (simp add: ss_processEvent_db component_add_request db_grant_def del: db_abs_sel)
  have "findFutureComponent (ssDb ?st1) i c = None" using empty(3) by simp
  then obtain r where r: "findComponent (ssDb (tvStorage s2)) i c = Some r" "r < length (dbHeap (ssDb (tvStorage s2)))"
    "dbHeap (ssDb (tvStorage s2)) ! r = \<lparr> scValue = old, scCustomizer = None \<rparr>"
    using fresh_component [OF _ db2] by blast
  obtain s3 where s3: "ts_setComponentClientTransaction feed env i c v s2 = Some s3" "ts_ok s3"
    "ssDb (tvStorage s3) = fst (setValue ?qt r (setter_value ?qt v) (ssDb (tvStorage s2)))"
    using setComponent_effect [OF s2(2) assms(2) s2(3,4) refl assms(7,8) r(1), of n] unfolding feed_def by blast
  have "ts_getValue i c s3 = setter_value ?qt v"
    using r assms(8) by (simp add: ts_getValue_def s3(3) getStoredValue_def setValue_def getValue_def)
  then show ?thesis using s1(1) s2(1) s3(1,2) by auto
qed

definition example_test_env :: "unit test_env" where
  "example_test_env =
     \<lparr> teQt = qt_ref, teSys = example_env,
       teDump = \<lparr> dlFromVariant = (\<lambda>v. JNull), dlFromJson = (\<lambda>s. None), dlFormatDouble = id,
                  dlFloatToDouble = ucast, dlToJson = (\<lambda>ob. []) \<rparr>,
       teUser = (\<lambda>k u ev. None), teClassName = (\<lambda>k. '''') \<rparr>"

theorem test_server_write_read_witness:
  "\<exists>s0 s s'. testVeinServer_new example_test_env lxdm_param_default example_fs () = Some s0 \<and>
     ts_loop (length (tvQueue s0)) example_test_env s0 = Some s \<and>
     Option.bind (ts_addEntity (ts_loop 2 example_test_env) 7 ''Meter'' s) (\<lambda>s1.
      Option.bind (ts_addComponent (ts_loop 2 example_test_env) 7 ''Range'' (QInt 0) False s1)
        (ts_setComponentClientTransaction (ts_loop 2 example_test_env) example_test_env 7 ''Range'' (QInt 3))) =
      Some s' \<and> ts_getValue 7 ''Range'' s' = QInt 3"
proof -
  have sent: "setter_value (teQt example_test_env) (QInt 3) = QInt 3"
    by (simp add: setter_value_def example_test_env_def)
  obtain s0 where s0: "testVeinServer_new example_test_env lxdm_param_default example_fs () = Some s0"
    by (simp add: testVeinServer_new_def core_handler_built)
  obtain s where s: "ts_loop (length (tvQueue s0) + 0) example_test_env s0 = Some s" "ts_ok s"
    "tvEntities s = fmempty" "spEntities (db_abs (ssDb (tvStorage s))) = {0}"
    "spFuture (db_abs (ssDb (tvStorage s))) = (\<lambda>j c. None)"
    using test_server_starts [OF s0] .
  have "\<exists>s'. Option.bind (ts_addEntity (ts_loop (2 + 0) example_test_env) 7 ''Meter'' s) (\<lambda>s1.
      Option.bind (ts_addComponent (ts_loop (2 + 0) example_test_env) 7 ''Range'' (QInt 0) False s1)
        (ts_setComponentClientTransaction (ts_loop (2 + 0) example_test_env) example_test_env 7 ''Range'' (QInt 3))) =
      Some s' \<and> ts_ok s' \<and> ts_getValue 7 ''Range'' s' = setter_value (teQt example_test_env) (QInt 3)"
    by (rule test_server_write_read [OF s(2)], unfold sent)
       (simp_all add: s(3-5) example_test_env_def del: db_abs_sel)
  then show ?thesis using s0 s(1) sent by auto
qed

section \<open>A change of the session\<close>

text \<open>
  The system entity clears its readiness after the slots have run: a server that has published the
  new session in its slot, as the test server does, is left not ready, and the next change is
  swallowed.
\<close>

lemma session_left_unready:
  assumes "tvSignals s = [SigChangeSession x]" and "ts_slots feed env s = Some s'"
  shows "\<not> smSessionReady (tvSystem s')"
  using assms by (auto simp: ts_slots_def ts_setReady_def bind_eq_Some_conv)

lemma unready_change_swallowed:
  assumes "\<not> smSessionReady m" and "handleVeinSessionSet qt env d m = Some (m', ok, out, sigs)"
  shows "m' = m \<and> out = [] \<and> sigs = []"
  using assms by (auto simp: handleVeinSessionSet_def Let_def split: option.splits if_splits)

end
