(* ===== verification/Facade.thy ===== *)
theory Facade
  imports ServerStack
begin

text \<open>
  server-libs/modman-base, \<^verbatim>\<open>ModuleManagerSetupFacade\<close>: it owns the event handler, store, system
  entity and introspection of the server, adds them and the license system to the handler, and
  forwards the operations on its two lists. The chains it builds are those of \<open>ServerStack\<close>.
\<close>

section \<open>State and operations\<close>

datatype facade_system =
    FsSystem | FsIntrospection | FsStorage | FsLicense | FsNetwork | FsTcp | FsModule nat

record facade =
  mfHandler :: "(facade_system, unit) module_handler"
  mfSystem :: system_module
  mfStorage :: server_storage
  mfPersistencyBasePath :: string

text \<open>The base class' operations on its list, on the larger record of the module handler.\<close>

definition mh_addSubsystem ::
  "'h \<Rightarrow> 'i \<Rightarrow> ('i, 'h) module_handler \<Rightarrow> ('i, 'h) module_handler option" where
  "mh_addSubsystem h i w =
     (if i \<in> set (hwSubsystems w) then None
      else mh_attach h i (w\<lparr>hwSubsystems := hwSubsystems w @ [i]\<rparr>))"

definition mh_removeSubsystem :: "'i \<Rightarrow> ('i, 'h) module_handler \<Rightarrow> ('i, 'h) module_handler" where
  "mh_removeSubsystem i w =
     w\<lparr> hwHandlerOf := fmdrop i (hwHandlerOf w), hwSubsystems := removeAll i (hwSubsystems w) \<rparr>"

definition module_handler_new :: "('i, 'h) module_handler" where
  "module_handler_new = \<lparr> hwSubsystems = [], hwHandlerOf = fmempty, mhModuleSystems = [] \<rparr>"

fun add_subsystems ::
  "facade_system list \<Rightarrow> (facade_system, unit) module_handler \<Rightarrow>
   (facade_system, unit) module_handler option" where
  "add_subsystems [] w = Some w"
| "add_subsystems (x # xs) w = Option.bind (mh_addSubsystem () x w) (add_subsystems xs)"

definition facade_new :: "bool \<Rightarrow> lxdm_param \<Rightarrow> string \<Rightarrow> file_system \<Rightarrow> facade option" where
  "facade_new devMode lxdm path fs =
     map_option (\<lambda>w.
       \<lparr> mfHandler = w, mfSystem = sm_setStorage True (system_module_new devMode lxdm fs),
         mfStorage = server_storage_new, mfPersistencyBasePath = path \<rparr>)
       (add_subsystems [FsSystem, FsIntrospection, FsStorage, FsLicense] module_handler_new)"

definition facade_prependModuleSystem :: "facade_system \<Rightarrow> facade \<Rightarrow> facade option" where
  "facade_prependModuleSystem x f =
     map_option (\<lambda>w. f\<lparr>mfHandler := w\<rparr>) (prependModuleSystem () x (mfHandler f))"

definition facade_addModuleSystem :: "facade_system \<Rightarrow> facade \<Rightarrow> facade option" where
  "facade_addModuleSystem x f =
     map_option (\<lambda>w. f\<lparr>mfHandler := w\<rparr>) (addModuleSystem () x (mfHandler f))"

definition facade_addSubsystem :: "facade_system \<Rightarrow> facade \<Rightarrow> facade option" where
  "facade_addSubsystem x f =
     map_option (\<lambda>w. f\<lparr>mfHandler := w\<rparr>) (mh_addSubsystem () x (mfHandler f))"

definition facade_clearModuleSystems :: "facade \<Rightarrow> facade" where
  "facade_clearModuleSystems f = f\<lparr>mfHandler := clearModuleSystems (mfHandler f)\<rparr>"

definition facade_clearSubSystem :: "facade_system \<Rightarrow> facade \<Rightarrow> facade" where
  "facade_clearSubSystem x f = f\<lparr>mfHandler := mh_removeSubsystem x (mfHandler f)\<rparr>"

text \<open>The base class' part of the record behaves like the plain handler.\<close>

lemma truncate_handler:
  "map_option handler_world.truncate (mh_addSubsystem h i w) = addSubsystem h i (handler_world.truncate w)"
  "handler_world.truncate (mh_removeSubsystem i w) = removeSubsystem i (handler_world.truncate w)"
  by (simp_all add: mh_addSubsystem_def addSubsystem_def mh_attach_def attach_def mh_removeSubsystem_def
      removeSubsystem_def detach_def handler_world.truncate_def Let_def)

section \<open>The systems never change places\<close>

text \<open>
  Both lists hold distinct systems that are attached to the handler, and no system is in both.
\<close>

definition facade_ok :: "facade \<Rightarrow> bool" where
  "facade_ok f \<longleftrightarrow> module_handler_ok (mfHandler f) \<and> handler_ok (handler_world.truncate (mfHandler f)) \<and>
     set (hwSubsystems (mfHandler f)) \<inter> set (mhModuleSystems (mfHandler f)) = {}"

lemma facade_okI:
  assumes "distinct (hwSubsystems w @ mhModuleSystems w)"
    and "set (hwSubsystems w @ mhModuleSystems w) \<subseteq> fset (fmdom (hwHandlerOf w))"
  shows "facade_ok (f\<lparr>mfHandler := w\<rparr>)"
  using assms by (simp add: facade_ok_def module_handler_ok_def handler_ok_def handler_world.truncate_def)

lemma facade_okD:
  assumes "facade_ok f"
  shows "distinct (hwSubsystems (mfHandler f) @ mhModuleSystems (mfHandler f))"
    and "set (hwSubsystems (mfHandler f) @ mhModuleSystems (mfHandler f)) \<subseteq>
      fset (fmdom (hwHandlerOf (mfHandler f)))"
  using assms by (auto simp: facade_ok_def module_handler_ok_def handler_ok_def handler_world.truncate_def)

lemma facade_ops_ok [inv_intros]:
  assumes "facade_ok f"
  shows "facade_prependModuleSystem x f = Some f' \<Longrightarrow> facade_ok f'"
    and "facade_addModuleSystem x f = Some f' \<Longrightarrow> facade_ok f'"
    and "facade_addSubsystem x f = Some f' \<Longrightarrow> facade_ok f'"
    and "facade_clearModuleSystems f = f' \<Longrightarrow> facade_ok f'"
    and "x \<notin> set (mhModuleSystems (mfHandler f)) \<Longrightarrow> facade_ok (facade_clearSubSystem x f)"
proof -
  note d = facade_okD [OF assms]
  show "facade_prependModuleSystem x f = Some f' \<Longrightarrow> facade_ok f'"
    using d assms by (auto simp: facade_prependModuleSystem_def prependModuleSystem_def mh_attach_def
        intro!: facade_okI split: if_splits)
  show "facade_addModuleSystem x f = Some f' \<Longrightarrow> facade_ok f'"
    using d assms by (auto simp: facade_addModuleSystem_def addModuleSystem_def mh_attach_def
        intro!: facade_okI split: if_splits)
  show "facade_addSubsystem x f = Some f' \<Longrightarrow> facade_ok f'"
    using d by (auto simp: facade_addSubsystem_def mh_addSubsystem_def mh_attach_def
        intro!: facade_okI split: if_splits)
  show "facade_clearModuleSystems f = f' \<Longrightarrow> facade_ok f'"
    using d by (auto simp: facade_clearModuleSystems_def clearModuleSystems_def intro!: facade_okI)
  show "x \<notin> set (mhModuleSystems (mfHandler f)) \<Longrightarrow> facade_ok (facade_clearSubSystem x f)"
    using d by (auto simp: facade_clearSubSystem_def mh_removeSubsystem_def distinct_removeAll
        intro!: facade_okI)
qed

section \<open>The chain it builds\<close>

fun facade_proc :: "stack_env \<Rightarrow> facade_system \<Rightarrow> proc" where
  "facade_proc env FsSystem = proc_system env"
| "facade_proc env FsIntrospection = proc_introspection env"
| "facade_proc env FsStorage = proc_storage env"
| "facade_proc env FsLicense = proc_license env"
| "facade_proc env FsNetwork = proc_network env"
| "facade_proc env FsTcp = proc_tcp"
| "facade_proc env (FsModule k) = proc_module env k"

definition facade_dispatch :: "stack_env \<Rightarrow> facade \<Rightarrow> server \<Rightarrow> app_event \<Rightarrow> server \<times> app_event \<times> app_event list \<times> nat" where
  "facade_dispatch env f =
     moduleCustomEvent app_accepted (map (facade_proc env) (mhModuleSystems (mfHandler f)))
       (map (facade_proc env) (hwSubsystems (mfHandler f)))"

fun facade_addModules :: "facade_system list \<Rightarrow> facade \<Rightarrow> facade option" where
  "facade_addModules [] f = Some f"
| "facade_addModules (x # xs) f = Option.bind (facade_addModuleSystem x f) (facade_addModules xs)"

text \<open>How a server is put together: facade, network and TCP system, the modules' entities.\<close>

definition server_facade :: "bool \<Rightarrow> lxdm_param \<Rightarrow> string \<Rightarrow> file_system \<Rightarrow> nat \<Rightarrow> facade option" where
  "server_facade devMode lxdm path fs n =
     Option.bind (facade_new devMode lxdm path fs) (\<lambda>f.
     Option.bind (facade_addSubsystem FsNetwork f) (\<lambda>f.
     Option.bind (facade_addSubsystem FsTcp f) (facade_addModules (map FsModule [0..<n]))))"

lemma facade_addModules_fresh:
  assumes "facade_ok f" and "distinct xs" and "set xs \<inter> fset (fmdom (hwHandlerOf (mfHandler f))) = {}"
  shows "\<exists>f'. facade_addModules xs f = Some f' \<and> facade_ok f' \<and>
    mhModuleSystems (mfHandler f') = mhModuleSystems (mfHandler f) @ xs \<and>
    hwSubsystems (mfHandler f') = hwSubsystems (mfHandler f)"
  using assms
proof (induction xs arbitrary: f)
  case (Cons x xs)
  let ?w = "(mfHandler f)\<lparr> mhModuleSystems := mhModuleSystems (mfHandler f) @ [x],
    hwHandlerOf := fmupd x () (hwHandlerOf (mfHandler f)) \<rparr>"
  have "x \<notin> set (mhModuleSystems (mfHandler f))" using facade_okD [OF Cons.prems(1)] Cons.prems(3) by auto
  then have add: "facade_addModuleSystem x f = Some (f\<lparr>mfHandler := ?w\<rparr>)"
    using Cons.prems(3) by (simp add: facade_addModuleSystem_def addModuleSystem_def mh_attach_def)
  have "facade_ok (f\<lparr>mfHandler := ?w\<rparr>)" by (rule facade_ops_ok(2) [OF Cons.prems(1) add])
  then show ?case using Cons.IH [of "f\<lparr>mfHandler := ?w\<rparr>"] Cons.prems(2,3) by (simp add: add)
qed simp

text \<open>
  C27. The facade builds the server's chain: after construction, with network and TCP system added
  below and any number of modules above, no assertion has failed, both lists of the handler are in
  order, and dispatching an event runs it through the modules in the order they were added, then
  system entity, introspection, store, licenses, network and TCP system.
\<close>

theorem facade_builds_chain:
  "\<exists>f. server_facade devMode lxdm path fs n = Some f \<and> facade_ok f \<and>
     facade_dispatch env f = customEvent app_accepted (server_procs env n)"
proof -
  let ?core = "[FsSystem, FsIntrospection, FsStorage, FsLicense, FsNetwork, FsTcp]"
  obtain f where f: "Option.bind (facade_new devMode lxdm path fs) (\<lambda>f.
      Option.bind (facade_addSubsystem FsNetwork f) (facade_addSubsystem FsTcp)) = Some f"
    "hwSubsystems (mfHandler f) = ?core" "mhModuleSystems (mfHandler f) = []"
    "fset (fmdom (hwHandlerOf (mfHandler f))) = set ?core"
    by (auto simp: facade_new_def facade_addSubsystem_def mh_addSubsystem_def mh_attach_def
        module_handler_new_def)
  have "facade_ok f" using facade_okI [of "mfHandler f" f] by (simp add: f(2-4))
  moreover have "distinct (map FsModule [0..<n])" by (simp add: distinct_map inj_on_def)
  moreover have "set (map FsModule [0..<n]) \<inter> fset (fmdom (hwHandlerOf (mfHandler f))) = {}"
    by (auto simp: f(4))
  ultimately obtain f' where f': "facade_addModules (map FsModule [0..<n]) f = Some f'" "facade_ok f'"
    "mhModuleSystems (mfHandler f') = map FsModule [0..<n]" "hwSubsystems (mfHandler f') = ?core"
    using facade_addModules_fresh [of f] f(2,3) by force
  have "facade_dispatch env f' = customEvent app_accepted (server_procs env n)"
    unfolding facade_dispatch_def f'(3,4) server_dispatch [symmetric]
    by (simp add: core_procs_def comp_def)
  moreover have "server_facade devMode lxdm path fs n = Some f'"
    using f(1) f'(1) by (auto simp: server_facade_def bind_eq_Some_conv)
  ultimately show ?thesis using f'(2) by blast
qed

text \<open>Modules can be cleared, but not brought back: they are still attached.\<close>

lemma cleared_modules_refused:
  assumes "facade_ok f" and "x \<in> set (mhModuleSystems (mfHandler f))"
  shows "facade_addModuleSystem x (facade_clearModuleSystems f) = None"
  using assms cleared_module_stays_attached
  by (auto simp: facade_ok_def facade_addModuleSystem_def facade_clearModuleSystems_def)

end
