(* ===== verification/DemoSessions.thy ===== *)
theory DemoSessions
  imports SystemModule
begin

text \<open>
  xsession-change/demolib: a display manager configuration in a directory of its own, for tests and
  demonstrations, and the parameters made of it for a system entity whose restarts of the display
  manager are only pretended.
\<close>

section \<open>MockLxdmConfigFileGenerator\<close>

text \<open>
  The name of the directory is a static variable, empty until it is first asked for; the random
  identifier in it is an input. The other functions take the directory.
\<close>

definition getLxdmTestDir :: "string \<Rightarrow> string \<Rightarrow> string" where
  "getLxdmTestDir uuid_text dir = (if dir = '''' then ''/tmp/lxdmtest-'' @ uuid_text @ ''/'' else dir)"

definition lxdmTestConfigFile :: string where
  "lxdmTestConfigFile = ''lxdm.conf''"

definition getLxdmConfFileNameFull :: "string \<Rightarrow> string" where
  "getLxdmConfFileNameFull dir = dir @ lxdmTestConfigFile"

definition genLastSessionLine :: "string \<Rightarrow> string \<Rightarrow> string" where
  "genLastSessionLine dir f = ''last_session='' @ dir @ f"

text \<open>
  Opening a file for writing empties or creates it. Whether the directory could be made shows in
  whether its files can be opened (\<open>fsCanWrite\<close>).
\<close>

definition createLxdmConfigFile :: "string \<Rightarrow> string list \<Rightarrow> file_system \<Rightarrow> file_system" where
  "createLxdmConfigFile dir ls fs =
     (if fsCanWrite fs (getLxdmConfFileNameFull dir)
      then fs\<lparr>fsContents := fmupd (getLxdmConfFileNameFull dir)
                 (concat (map (\<lambda>l. l @ [CHR 0x0A]) ls)) (fsContents fs)\<rparr>
      else fs)"

definition createTestSessionFile :: "string \<Rightarrow> string \<Rightarrow> file_system \<Rightarrow> bool \<times> file_system" where
  "createTestSessionFile dir f fs =
     (if fsCanWrite fs (dir @ f)
      then (True, fs\<lparr>fsContents := fmupd (dir @ f) [] (fsContents fs)\<rparr>) else (False, fs))"

definition toFullPath :: "string \<Rightarrow> xsession list \<Rightarrow> xsession list" where
  "toFullPath dir = map (\<lambda>x. \<lparr> xsName = xsName x, xsFile = dir @ xsFile x \<rparr>)"

definition mockLxdm_new ::
  "string \<Rightarrow> string list \<Rightarrow> xsession list \<Rightarrow> file_system \<Rightarrow> lxdm_param \<times> file_system" where
  "mockLxdm_new dir ls sessions fs =
     (\<lparr> lpConfigFileName = getLxdmConfFileNameFull dir, lpSessions = toFullPath dir sessions \<rparr>,
      fold (\<lambda>x fs. snd (createTestSessionFile dir (xsFile x) fs)) sessions (createLxdmConfigFile dir ls fs))"

text \<open>Files of the directory can be removed: the process made them.\<close>

definition removeFile :: "string \<Rightarrow> file_system \<Rightarrow> file_system" where
  "removeFile f fs = fs\<lparr>fsContents := fmdrop f (fsContents fs)\<rparr>"

definition removeLxdmConfigFile :: "string \<Rightarrow> file_system \<Rightarrow> file_system" where
  "removeLxdmConfigFile dir = removeFile (getLxdmConfFileNameFull dir)"

definition removeXsessionFile :: "string \<Rightarrow> string \<Rightarrow> file_system \<Rightarrow> file_system" where
  "removeXsessionFile dir f = removeFile (dir @ f)"

definition mockLxdm_cleanup :: "string \<Rightarrow> file_system \<Rightarrow> file_system" where
  "mockLxdm_cleanup dir fs =
     fs\<lparr>fsContents := fmfilter (\<lambda>f. \<not> startsWith dir f) (fsContents fs)\<rparr>"

section \<open>MockLxdmSessionChangeParamGenerator\<close>

text \<open>The parameters of a system entity: the configuration and what a restart reports.\<close>

record session_change_param =
  scConfig :: lxdm_param
  scRestart :: bool

definition handleRestart :: "bool \<Rightarrow> bool" where
  "handleRestart passes = passes"

definition generateTestSessionChanger ::
  "string \<Rightarrow> bool \<Rightarrow> file_system \<Rightarrow> session_change_param \<times> file_system" where
  "generateTestSessionChanger dir passes fs =
     (let (p, fs') = mockLxdm_new dir [genLastSessionLine dir ''bar.desktop'']
            [\<lparr> xsName = ''Foo'', xsFile = ''foo.desktop'' \<rparr>,
             \<lparr> xsName = ''Bar'', xsFile = ''bar.desktop'' \<rparr>] fs
      in (\<lparr> scConfig = p, scRestart = handleRestart passes \<rparr>, fs'))"

text \<open>The production sessions under file names of their own; the last one is the configured one.\<close>

definition generateDemoSessionChanger ::
  "string \<Rightarrow> bool \<Rightarrow> file_system \<Rightarrow> session_change_param \<times> file_system" where
  "generateDemoSessionChanger dir passes fs =
     (let demo = map (\<lambda>x. \<lparr> xsName = xsName x, xsFile = xsName x @ ''.desktop'' \<rparr>)
            (lpSessions lxdm_param_default);
          dummy = (if demo = [] then '''' else xsFile (last demo));
          (p, fs') = mockLxdm_new dir [genLastSessionLine dir dummy] demo fs
      in (\<lparr> scConfig = p, scRestart = handleRestart passes \<rparr>, fs'))"

section \<open>What the generator leaves behind\<close>

text \<open>
  A directory whose files can be written and read, with a name the configuration can hold.
\<close>

definition test_dir_ok :: "string \<Rightarrow> file_system \<Rightarrow> bool" where
  "test_dir_ok dir fs \<longleftrightarrow>
     ascii dir \<and> set dir \<inter> {CHR ''='', CHR 0x0A, CHR 0x0D} = {} \<and>
     (\<forall>f. fsCanWrite fs (dir @ f) \<and> fsCanRead fs (dir @ f) \<and> fsCommits fs (dir @ f))"

lemma createTestSessionFile_flags [simp]:
  "fsCanWrite (snd (createTestSessionFile dir f fs)) = fsCanWrite fs"
  "fsCanRead (snd (createTestSessionFile dir f fs)) = fsCanRead fs"
  "fsCommits (snd (createTestSessionFile dir f fs)) = fsCommits fs"
  by (simp_all add: createTestSessionFile_def)

lemma create_files:
  assumes "\<And>f. fsCanWrite fs (dir @ f)"
  shows "fmlookup (fsContents (fold (\<lambda>x fs. snd (createTestSessionFile dir (xsFile x) fs)) xs fs)) p =
      (if p \<in> (\<lambda>x. dir @ xsFile x) ` set xs then Some [] else fmlookup (fsContents fs) p)"
    and "fsCanWrite (fold (\<lambda>x fs. snd (createTestSessionFile dir (xsFile x) fs)) xs fs) = fsCanWrite fs"
    and "fsCanRead (fold (\<lambda>x fs. snd (createTestSessionFile dir (xsFile x) fs)) xs fs) = fsCanRead fs"
    and "fsCommits (fold (\<lambda>x fs. snd (createTestSessionFile dir (xsFile x) fs)) xs fs) = fsCommits fs"
  using assms by (induction xs arbitrary: fs) (simp_all add: createTestSessionFile_def)

text \<open>The configuration file keeps its line when no session file has its name.\<close>

lemma mock_files:
  assumes "test_dir_ok dir fs" and "lxdmTestConfigFile \<notin> xsFile ` set xs"
  shows "fmlookup (fsContents (snd (mockLxdm_new dir ls xs fs))) (getLxdmConfFileNameFull dir) =
      Some (concat (map (\<lambda>l. l @ [CHR 0x0A]) ls))"
    and "x \<in> set xs \<Longrightarrow> exists_file (snd (mockLxdm_new dir ls xs fs)) (dir @ xsFile x)"
  using assms
  by (auto simp: mockLxdm_new_def create_files createLxdmConfigFile_def test_dir_ok_def
      getLxdmConfFileNameFull_def exists_file_def fmlookup_dom_iff)

lemma mock_flags:
  assumes "test_dir_ok dir fs"
  shows "test_dir_ok dir (snd (mockLxdm_new dir ls xs fs))"
  using assms
  by (auto simp: mockLxdm_new_def create_files createLxdmConfigFile_def test_dir_ok_def)

section \<open>The configuration read back\<close>

text \<open>Session files the generator can be given.\<close>

definition demo_sessions_ok :: "xsession list \<Rightarrow> bool" where
  "demo_sessions_ok xs \<longleftrightarrow>
     distinct (map xsFile xs) \<and> lxdmTestConfigFile \<notin> xsFile ` set xs \<and>
     (\<forall>x \<in> set xs. ascii (xsFile x) \<and> set (xsFile x) \<inter> {CHR ''='', CHR 0x0A, CHR 0x0D} = {})"

lemma mock_config:
  assumes "test_dir_ok dir fs" and "demo_sessions_ok xs"
  shows "lxdm_new (fst (mockLxdm_new dir ls xs fs)) (snd (mockLxdm_new dir ls xs fs)) =
    \<lparr> lxFileName = getLxdmConfFileNameFull dir, lxSessions = toFullPath dir xs \<rparr>"
proof -
  let ?fs = "snd (mockLxdm_new dir ls xs fs)"
  have "exists_file ?fs (getLxdmConfFileNameFull dir)"
    using mock_files(1) [OF assms(1), of xs ls] assms(2)
    by (simp add: demo_sessions_ok_def exists_file_def fmlookup_dom_iff)
  moreover have "\<forall>y \<in> set (toFullPath dir xs). exists_file ?fs (xsFile y)"
    using mock_files(2) [OF assms(1), of xs _ ls] assms(2)
    by (auto simp: demo_sessions_ok_def toFullPath_def)
  ultimately show ?thesis
    by (simp add: lxdm_new_def filter_id_conv mockLxdm_new_def)
qed

lemma toFullPath_ok:
  assumes "test_dir_ok dir fs" and "demo_sessions_ok xs"
  shows "distinct (map xsFile (toFullPath dir xs))"
    and "\<forall>x \<in> set (toFullPath dir xs). ascii (xsFile x) \<and>
      set (xsFile x) \<inter> {CHR ''='', CHR 0x0A, CHR 0x0D} = {}"
proof -
  have "map xsFile (toFullPath dir xs) = map (append dir) (map xsFile xs)"
    by (simp add: toFullPath_def)
  then show "distinct (map xsFile (toFullPath dir xs))"
    using assms(2) by (simp add: demo_sessions_ok_def distinct_map inj_on_def)
  show "\<forall>x \<in> set (toFullPath dir xs). ascii (xsFile x) \<and>
      set (xsFile x) \<inter> {CHR ''='', CHR 0x0A, CHR 0x0D} = {}"
    using assms by (auto simp: toFullPath_def test_dir_ok_def demo_sessions_ok_def ascii_def)
qed

lemma mock_configured:
  assumes "test_dir_ok dir fs" and "demo_sessions_ok xs" and "utf8_ascii utf8" and "x \<in> set xs"
  defines "p \<equiv> mockLxdm_new dir [genLastSessionLine dir (xsFile x)] xs fs"
  shows "getConfiguredXSessionName utf8 (lxdm_new (fst p) (snd p)) (snd p) = xsName x"
proof -
  let ?c = "lxdm_new (fst p) (snd p)" and ?f = "getLxdmConfFileNameFull dir"
  let ?full = "\<lparr> xsName = xsName x, xsFile = dir @ xsFile x \<rparr>"
  let ?line = "sessionLead @ xsFile ?full"
  note ok = toFullPath_ok [OF assms(1,2)]
  have c: "?c = \<lparr> lxFileName = ?f, lxSessions = toFullPath dir xs \<rparr>"
    unfolding p_def by (rule mock_config [OF assms(1,2)])
  have x: "?full \<in> set (toFullPath dir xs)" using assms(4) by (simp add: toFullPath_def)
  then have chars: "ascii (xsFile ?full)" "set (xsFile ?full) \<inter> {CHR ''='', CHR 0x0A, CHR 0x0D} = {}"
    using ok(2) by blast+
  have line: "genLastSessionLine dir (xsFile x) = ?line"
    by (simp add: genLastSessionLine_def sessionLead_def)
  have "fmlookup (fsContents (snd p)) ?f = Some (concat (map (\<lambda>l. l @ [CHR 0x0A]) [?line]))"
    unfolding p_def line using mock_files(1) [OF assms(1)] assms(2) by (simp add: demo_sessions_ok_def)
  then have same: "(snd p)\<lparr>fsContents := fmupd ?f (concat (map (\<lambda>l. l @ [CHR 0x0A]) [?line]))
      (fsContents (snd p))\<rparr> = snd p"
    by (cases "snd p") (simp add: fmupd_same)
  have "fsCanRead (snd p) ?f"
    using mock_flags [OF assms(1)] unfolding p_def test_dir_ok_def getLxdmConfFileNameFull_def by blast
  then have "readLxdmConfig utf8 ?c (snd p) = [?line] @ [[]]"
    using read_back [OF assms(3), of "snd p" ?c "[?line]" "fsContents (snd p)"] chars same
    by (simp add: c ascii_def sessionLead_def)
  moreover have "sessionNameFromFile ?c (xsFile ?full) = xsName x"
    using find_session_unique [OF x ok(1)] by (simp add: sessionNameFromFile_def c)
  ultimately show ?thesis
    using split_session_line [of "xsFile ?full"] chars(2)
    by (simp add: getConfiguredXSessionName_def)
qed

section \<open>The system entity over a generated configuration\<close>

lemma find_session_ex:
  "x \<in> set xs \<Longrightarrow> \<exists>y. find_session (\<lambda>y. xsName y = xsName x) xs = Some y"
  by (induction xs) auto

lemma setCurrentXSession_ok:
  assumes "x \<in> set (lxSessions c)" and "\<forall>y \<in> set (lxSessions c). exists_file fs (xsFile y)"
    and "fsCanWrite fs (lxFileName c)"
  shows "fst (setCurrentXSession utf8 c (xsName x) fs)"
proof -
  obtain y where y: "find_session (\<lambda>y. xsName y = xsName x) (lxSessions c) = Some y"
    using find_session_ex [OF assms(1)] by blast
  then have "exists_file fs (xsFile y)" using assms(2) find_session_Some by blast
  then show ?thesis
    using assms(3) by (simp add: setCurrentXSession_def y writeConfig_def Let_def split_beta)
qed

text \<open>
  Switching to another session: the file names it whatever the restart reports, so a second attempt
  after a failed restart finds it configured and reports success without restarting anything.
\<close>

lemma mock_switch:
  fixes dev :: bool
  assumes "test_dir_ok dir fs" and "demo_sessions_ok xs" and "utf8_ascii (evUtf8 env)"
    and "x \<in> set xs" and "y \<in> set xs" and "xsName y \<noteq> xsName x"
  defines "p \<equiv> mockLxdm_new dir [genLastSessionLine dir (xsFile x)] xs fs"
  defines "s \<equiv> system_module_new dev (fst p) (snd p)"
  shows "configuredXSession env s = xsName x"
    and "\<exists>s1. handleXSessionSet env (xsName y) s = (evRestart env, s1) \<and>
      configuredXSession env s1 = xsName y \<and> handleXSessionSet env (xsName y) s1 = (True, s1)"
proof -
  let ?c = "\<lparr> lxFileName = getLxdmConfFileNameFull dir, lxSessions = toFullPath dir xs \<rparr>"
  note ok = toFullPath_ok [OF assms(1,2)]
  have c: "lxdm_new (fst p) (snd p) = ?c" unfolding p_def by (rule mock_config [OF assms(1,2)])
  have flags: "fsCanRead (snd p) (lxFileName ?c)" "fsCanWrite (snd p) (lxFileName ?c)"
    "fsCommits (snd p) (lxFileName ?c)"
    using mock_flags [OF assms(1)]
    unfolding p_def test_dir_ok_def getLxdmConfFileNameFull_def lxdm_config.simps by blast+
  show x: "configuredXSession env s = xsName x"
    using mock_configured [OF assms(1,2,3,4)]
    by (simp add: configuredXSession_def s_def system_module_new_def p_def)
  obtain fs' where fs': "setCurrentXSession (evUtf8 env) ?c (xsName y) (snd p) = (True, fs')"
  proof -
    have "\<lparr> xsName = xsName y, xsFile = dir @ xsFile y \<rparr> \<in> set (lxSessions ?c)"
      using assms(5) by (simp add: toFullPath_def)
    moreover have "\<forall>z \<in> set (lxSessions ?c). exists_file (snd p) (xsFile z)"
      using mock_files(2) [OF assms(1)] assms(2)
      by (auto simp: demo_sessions_ok_def toFullPath_def p_def)
    ultimately have "fst (setCurrentXSession (evUtf8 env) ?c (xsName y) (snd p))"
      using setCurrentXSession_ok [of _ ?c "snd p"] flags(2) by fastforce
    then show ?thesis by (cases "setCurrentXSession (evUtf8 env) ?c (xsName y) (snd p)") (auto intro: that)
  qed
  have "ascii t" if "fmlookup (fsContents (snd p)) (lxFileName ?c) = Some t" for t
    using that mock_files(1) [OF assms(1)] assms(1,2,4)
    by (auto simp: p_def demo_sessions_ok_def genLastSessionLine_def test_dir_ok_def ascii_def)
  then have "getConfiguredXSessionName (evUtf8 env) ?c fs' = xsName y"
    using selected_session [OF fs' flags(3,1) assms(3)] ok by simp
  then show "\<exists>s1. handleXSessionSet env (xsName y) s = (evRestart env, s1) \<and>
      configuredXSession env s1 = xsName y \<and> handleXSessionSet env (xsName y) s1 = (True, s1)"
    using x assms(6) fs'
    by (intro exI [of _ "s\<lparr>smFs := fs'\<rparr>"])
       (simp add: handleXSessionSet_def configuredXSession_def s_def system_module_new_def c)
qed

text \<open>
  C28. The test configuration works with the system entity: of the sessions Foo and Bar it finds
  Bar configured; a request for Foo is answered with what the restart reports, and Foo is
  configured afterwards in any case. After a failed restart a second request is therefore
  answered with success, although the display manager was never restarted.
\<close>

theorem test_session_switch:
  assumes "test_dir_ok dir fs" and "utf8_ascii (evUtf8 env)"
    and "generateTestSessionChanger dir passes fs = (p, fs')" and "evRestart env = scRestart p"
  shows "let s = system_module_new dev (scConfig p) fs';
      (ok, s1) = handleXSessionSet env ''Foo'' s
    in getAvailableXSessionNames (smLxdm s) = [''Foo'', ''Bar''] \<and>
       configuredXSession env s = ''Bar'' \<and> ok = passes \<and>
       configuredXSession env s1 = ''Foo'' \<and> handleXSessionSet env ''Foo'' s1 = (True, s1)"
proof -
  let ?xs = "[\<lparr> xsName = ''Foo'', xsFile = ''foo.desktop'' \<rparr>, \<lparr> xsName = ''Bar'', xsFile = ''bar.desktop'' \<rparr>]"
  have xs: "demo_sessions_ok ?xs"
    by (simp add: demo_sessions_ok_def ascii_def lxdmTestConfigFile_def)
  show ?thesis
    using assms(3,4) mock_switch [OF assms(1) xs assms(2), of "?xs ! 1" "?xs ! 0" dev]
      mock_config [OF assms(1) xs]
    by (auto simp: generateTestSessionChanger_def handleRestart_def split_beta Let_def
        getAvailableXSessionNames_def system_module_new_def toFullPath_def)
qed

definition empty_fs :: file_system where
  "empty_fs = \<lparr> fsContents = fmempty, fsCanRead = (\<lambda>f. True), fsCanWrite = (\<lambda>f. True),
                fsCommits = (\<lambda>f. True) \<rparr>"

theorem test_session_switch_witness:
  "let (p, fs') = generateTestSessionChanger (getLxdmTestDir ''0'' '''') False empty_fs;
      s = system_module_new True (scConfig p) fs';
      env = example_env\<lparr> evUtf8 := id, evRestart := scRestart p \<rparr>;
      (ok, s1) = handleXSessionSet env ''Foo'' s
    in \<not> ok \<and> configuredXSession env s1 = ''Foo'' \<and> fst (handleXSessionSet env ''Foo'' s1)"
proof -
  obtain p fs' where g: "generateTestSessionChanger (getLxdmTestDir ''0'' '''') False empty_fs = (p, fs')"
    by (cases "generateTestSessionChanger (getLxdmTestDir ''0'' '''') False empty_fs")
  have "test_dir_ok (getLxdmTestDir ''0'' '''') empty_fs"
    by (simp add: test_dir_ok_def getLxdmTestDir_def empty_fs_def ascii_def)
  from test_session_switch [OF this _ g, of "example_env\<lparr> evUtf8 := id, evRestart := scRestart p \<rparr>" True]
  show ?thesis by (auto simp: g utf8_ascii_def Let_def split_beta)
qed

text \<open>The demonstration offers the production sessions and starts in the last of them.\<close>

lemma demo_session_configured:
  assumes "test_dir_ok dir fs" and "utf8_ascii (evUtf8 env)"
    and "generateDemoSessionChanger dir passes fs = (p, fs')"
  defines "s \<equiv> system_module_new True (scConfig p) fs'"
  shows "getAvailableXSessionNames (smLxdm s) = map xsName (lpSessions lxdm_param_default)"
    and "configuredXSession env s = ''Fullscreen''"
proof -
  let ?xs = "[\<lparr> xsName = ''Desktop'', xsFile = ''Desktop.desktop'' \<rparr>,
    \<lparr> xsName = ''Fullscreen'', xsFile = ''Fullscreen.desktop'' \<rparr>]"
  have xs: "demo_sessions_ok ?xs"
    by (simp add: demo_sessions_ok_def ascii_def lxdmTestConfigFile_def)
  have p: "scConfig p = fst (mockLxdm_new dir [genLastSessionLine dir ''Fullscreen.desktop''] ?xs fs)"
    and fs': "fs' = snd (mockLxdm_new dir [genLastSessionLine dir ''Fullscreen.desktop''] ?xs fs)"
    using assms(3)
    by (auto simp: generateDemoSessionChanger_def lxdm_param_default_def Let_def split_beta)
  show "getAvailableXSessionNames (smLxdm s) = map xsName (lpSessions lxdm_param_default)"
    using mock_config [OF assms(1) xs]
    by (simp add: s_def p fs' system_module_new_def getAvailableXSessionNames_def toFullPath_def
        lxdm_param_default_def)
  show "configuredXSession env s = ''Fullscreen''"
    using mock_switch(1) [OF assms(1) xs assms(2), of "?xs ! 1" "?xs ! 0" True]
    by (simp add: s_def p fs')
qed

text \<open>Cleaning up removes what was made and nothing else.\<close>

lemma cleanup_undoes_creation:
  assumes "\<forall>f. f |\<in>| fmdom (fsContents fs) \<longrightarrow> \<not> startsWith dir f"
    and "\<And>f. fsCanWrite fs (dir @ f)"
  shows "fsContents (mockLxdm_cleanup dir (snd (mockLxdm_new dir ls xs fs))) = fsContents fs"
proof (rule fmap_eqI)
  fix f
  have w: "fsCanWrite (createLxdmConfigFile dir ls fs) = fsCanWrite fs"
    by (simp add: createLxdmConfigFile_def)
  show "fmlookup (fsContents (mockLxdm_cleanup dir (snd (mockLxdm_new dir ls xs fs)))) f =
      fmlookup (fsContents fs) f"
    using assms fmdom_notD [of f "fsContents fs", THEN sym]
    by (cases "startsWith dir f")
       (auto simp: mockLxdm_cleanup_def mockLxdm_new_def create_files w createLxdmConfigFile_def
        getLxdmConfFileNameFull_def)
qed

end
