(* ===== verification/Fixtures.thy ===== *)
theory Fixtures
  imports Spies ServerStack
begin

text \<open>
  Entities and event systems the libraries for tests provide: a store of values that notifies of
  changes and a creator of entities (framework/vf-component/testlib), an entity with two simplified
  procedures (server-libs/vf-cpp/testlib), an entity with two functions of a module
  and two items that only count events (convenient-code/testlib), and a license system that licenses
  everything (server-libs/modman-base/testlib).
\<close>

section \<open>VfTestComponentData\<close>

type_synonym value_hash = "(int, qvariant_map) qmap"

definition tc_notifyValueChange :: "int \<Rightarrow> string \<Rightarrow> qvariant \<Rightarrow> vein_event" where
  "tc_notifyValueChange i n v = commandEvent_new NOTIFICATION (VComponent
     (cd_setNewValue v (cd_setComponentName n (cd_setCommand CCMD_SET
       (setEventTarget ET_ALL (setEventOrigin EO_LOCAL (setEntityId i componentData_new)))))))"

text \<open>Looking a value up to compare it makes an entry for it.\<close>

definition tc_setValue ::
  "qt_lib \<Rightarrow> int \<Rightarrow> string \<Rightarrow> qvariant \<Rightarrow> value_hash \<Rightarrow> value_hash \<times> vein_event list" where
  "tc_setValue qt i n v h =
     (let m = qvalue h i fmempty; old = qvalue m n QInvalid
      in if \<not> qtEq qt old v then (fmupd i (fmupd n v m) h, [tc_notifyValueChange i n v])
         else (fmupd i (fmupd n old m) h, []))"

definition tc_getValue :: "int \<Rightarrow> string \<Rightarrow> value_hash \<Rightarrow> qvariant" where
  "tc_getValue i n h = qvalue (qvalue h i fmempty) n QInvalid"

section \<open>VfTestEntityComponentCreator\<close>

type_synonym created_hash = "(int, string fset) qmap"

text \<open>The result tells whether the component is new; the events are sent in either case.\<close>

definition createEntityComponent ::
  "int \<Rightarrow> string \<Rightarrow> qvariant \<Rightarrow> created_hash \<Rightarrow> bool \<times> created_hash \<times> vein_event list" where
  "createEntityComponent i n v h =
     (\<not> n |\<in>| qvalue h i {||}, fmupd i (finsert n (qvalue h i {||})) h,
      [server_entity_add i, server_component_add i n v])"

section \<open>VfTestTemplate\<close>

datatype template_system = TtData | TtEntity | TtListener

record test_template =
  ttHandler :: "(template_system, unit) handler_world"
  ttValues :: value_hash
  ttCreated :: created_hash
  ttSeen :: "component_info list"

definition template_init :: "test_template option" where
  "template_init =
     Option.bind (addSubsystem () TtData \<lparr> hwSubsystems = [], hwHandlerOf = fmempty \<rparr>) (\<lambda>w.
     Option.bind (addSubsystem () TtEntity w) (\<lambda>w.
     map_option (\<lambda>w. \<lparr> ttHandler = w, ttValues = fmempty, ttCreated = fmempty, ttSeen = [] \<rparr>)
       (addSubsystem () TtListener w)))"

text \<open>The store of values and the creator ignore every event.\<close>

fun template_proc :: "template_system \<Rightarrow> (test_template, app_event) process_event" where
  "template_proc TtListener t ev =
     (t\<lparr>ttSeen := componentSpy_processEvent CCMD_SET (ttSeen t) ev\<rparr>, ev, [])"
| "template_proc TtData t ev = (t, ev, [])"
| "template_proc TtEntity t ev = (t, ev, [])"

text \<open>Nothing is sent in reply, so the event loop ends after the events sent.\<close>

definition template_processEvents :: "vein_event list \<Rightarrow> test_template \<Rightarrow> test_template" where
  "template_processEvents es t =
     fst (run_events (length es) app_accepted (map template_proc (hwSubsystems (ttHandler t))) t
       (map CmdEv es))"

definition template_addEntityComponent :: "int \<Rightarrow> string \<Rightarrow> test_template \<Rightarrow> test_template" where
  "template_addEntityComponent i n t =
     (let (b, h, out) = createEntityComponent i n QInvalid (ttCreated t)
      in template_processEvents out (t\<lparr>ttCreated := h\<rparr>))"

section \<open>TestLicenseSystem\<close>

definition testLicense_isSystemLicensed :: "string \<Rightarrow> bool" where
  "testLicense_isSystemLicensed n = True"

definition testLicense_serialNumberIsInitialized :: bool where
  "testLicense_serialNumberIsInitialized = True"

text \<open>Whether \<^verbatim>\<open>sigSerialNumberInitialized\<close> is emitted.\<close>

definition testLicense_setDeviceSerial :: "string \<Rightarrow> bool" where
  "testLicense_setDeviceSerial serial \<longleftrightarrow> serial \<noteq> ''''"

section \<open>RpcForTest and RpcAddDelay\<close>

text \<open>
  Both are simplified procedures; a call is executed later, from a queued signal. The second
  answers when its timer expires. The procedure holds one timer: making a new one ends the old one.
\<close>

datatype rpc_class = RpcForTest | RpcAddDelay

record rpc_object =
  roClass :: rpc_class
  roRpc :: simple_rpc
  roTimer :: "(quuid \<times> int) option"

fun class_signature :: "rpc_class \<Rightarrow> string" where
  "class_signature RpcForTest =
     createRpcSignature ''RPC_forTest'' (fmap_of_list [(''p_param'', ''int'')])"
| "class_signature RpcAddDelay =
     createRpcSignature ''RPC_addDelay'' (fmap_of_list [(''p_param'', ''int''), (''p_delayMs'', ''int'')])"

definition rpc_object_new :: "rpc_class \<Rightarrow> int \<Rightarrow> rpc_object \<times> vein_event list" where
  "rpc_object_new cls i =
     (let (r, out) = sr_new i (class_signature cls)
      in (\<lparr> roClass = cls, roRpc = r, roTimer = None \<rparr>, out))"

text \<open>\<open>to_int\<close> is \<^verbatim>\<open>QVariant::toInt\<close>.\<close>

definition rPC_forTest ::
  "qt_lib \<Rightarrow> (qvariant \<Rightarrow> int) \<Rightarrow> quuid \<Rightarrow> qvariant_map \<Rightarrow> rpc_object \<Rightarrow> rpc_object \<times> vein_event list" where
  "rPC_forTest qt to_int callId params p =
     (let input = to_int (qvalue params ''p_param'' QInvalid);
          (r, out) = (if input > 0 then sr_sendRpcResult qt callId (QStr (int_digits input)) (roRpc p)
                      else sr_sendRpcError callId ''Error'' (roRpc p))
      in (p\<lparr>roRpc := r\<rparr>, out))"

definition rPC_addDelay ::
  "(qvariant \<Rightarrow> int) \<Rightarrow> quuid \<Rightarrow> qvariant_map \<Rightarrow> rpc_object \<Rightarrow> rpc_object \<times> vein_event list" where
  "rPC_addDelay to_int callId params p =
     (let input = to_int (qvalue params ''p_param'' QInvalid);
          delayMs = to_int (qvalue params ''p_delayMs'' QInvalid)
      in if delayMs > 0 then (p\<lparr>roTimer := Some (callId, input)\<rparr>, [])
         else let (r, out) = sr_sendRpcError callId ''Error'' (roRpc p) in (p\<lparr>roRpc := r\<rparr>, out))"

definition delay_expired :: "qt_lib \<Rightarrow> rpc_object \<Rightarrow> rpc_object \<times> vein_event list" where
  "delay_expired qt p =
     (case roTimer p of
        None \<Rightarrow> (p, [])
      | Some (callId, input) \<Rightarrow>
          let (r, out) = sr_sendRpcResult qt callId (QStr (int_digits input)) (roRpc p)
          in (p\<lparr> roRpc := r, roTimer := None \<rparr>, out))"

definition callRPCFunction ::
  "qt_lib \<Rightarrow> (qvariant \<Rightarrow> int) \<Rightarrow> quuid \<Rightarrow> qvariant_map \<Rightarrow> rpc_object \<Rightarrow> rpc_object \<times> vein_event list" where
  "callRPCFunction qt to_int callId params p =
     (case roClass p of
        RpcForTest \<Rightarrow> rPC_forTest qt to_int callId params p
      | RpcAddDelay \<Rightarrow> rPC_addDelay to_int callId params p)"

section \<open>VfEntityWithRpcSimplified\<close>

text \<open>The calls that wait to be executed name the procedure by its place in the list.\<close>

record rpc_entity =
  reEntityId :: int
  reRpcs :: "rpc_object list"
  reCalls :: "(nat \<times> quuid \<times> qvariant_map) list"

definition re_new :: "int \<Rightarrow> rpc_entity" where
  "re_new i = \<lparr> reEntityId = i, reRpcs = [], reCalls = [] \<rparr>"

definition re_destroy :: "rpc_entity \<Rightarrow> vein_event list" where
  "re_destroy s = [server_entity_remove (reEntityId s)]"

text \<open>The component's name is \<^verbatim>\<open>TestEntity\<close> and its value \<^verbatim>\<open>EntityName\<close>, not the other way round.\<close>

definition re_initModule :: "rpc_entity \<Rightarrow> rpc_entity \<times> vein_event list" where
  "re_initModule s =
     (let i = reEntityId s;
          (c, added) = fc_new i ''TestEntity'' (QStr ''EntityName'') True;
          (p1, out1) = rpc_object_new RpcForTest i;
          (p2, out2) = rpc_object_new RpcAddDelay i
      in (s\<lparr>reRpcs := reRpcs s @ [p1, p2]\<rparr>, server_entity_add i # added @ out1 @ out2))"

definition re_callFunction ::
  "qt_lib \<Rightarrow> quuid \<Rightarrow> quuid \<Rightarrow> qvariant_map \<Rightarrow> nat \<Rightarrow> rpc_entity \<Rightarrow> rpc_entity" where
  "re_callFunction qt callId peerId m k s =
     (let p = reRpcs s ! k; (r, q) = sr_callFunction qt callId peerId m (roRpc p)
      in s\<lparr> reRpcs := (reRpcs s)[k := p\<lparr>roRpc := r\<rparr>], reCalls := reCalls s @ [(k, q)] \<rparr>)"

text \<open>The procedures of a name, by place.\<close>

definition re_named :: "string \<Rightarrow> rpc_entity \<Rightarrow> nat list" where
  "re_named name s = filter (\<lambda>k. srSignature (roRpc (reRpcs s ! k)) = name) [0..<length (reRpcs s)]"

definition re_handleRpcs ::
  "qt_lib \<Rightarrow> rpc_data \<Rightarrow> vein_event \<Rightarrow> rpc_entity \<Rightarrow> rpc_entity \<times> vein_event \<times> vein_event list" where
  "re_handleRpcs qt d e s =
     (if rdCommand d = RPCMD_CALL
      then
        let callId = qtToUuid qt (qvalue (rdInvokationData d) s_callIdString QInvalid);
            found = re_named (rdProcedureName d) s
        in if found \<noteq> []
           then (fold (re_callFunction qt callId (cePeerId e) (rdInvokationData d)) found s, accept e, [])
           else (s, errorOut qt (''No RPC with entityId: '' @ int_digits (reEntityId s) @ '' name: '' @
                       rdProcedureName d) (e\<lparr>ceData := vd_setEventTarget ET_ALL (ceData e)\<rparr>))
      else (s, e, []))"

definition re_processEvent ::
  "qt_lib \<Rightarrow> vein_event \<Rightarrow> rpc_entity \<Rightarrow> rpc_entity \<times> vein_event \<times> vein_event list" where
  "re_processEvent qt e s =
     (if vd_entityId (ceData e) = reEntityId s
      then case ceData e of VRpc d \<Rightarrow> re_handleRpcs qt d e s | _ \<Rightarrow> (s, e, [])
      else (s, e, []))"

text \<open>The queued signal of the oldest call is delivered; the timer of a procedure expires.\<close>

definition re_object ::
  "(rpc_object \<Rightarrow> rpc_object \<times> vein_event list) \<Rightarrow> nat \<Rightarrow> rpc_entity \<Rightarrow> rpc_entity \<times> vein_event list" where
  "re_object f k s =
     (if k < length (reRpcs s)
      then let (p, out) = f (reRpcs s ! k) in (s\<lparr>reRpcs := (reRpcs s)[k := p]\<rparr>, out)
      else (s, []))"

definition re_execute ::
  "qt_lib \<Rightarrow> (qvariant \<Rightarrow> int) \<Rightarrow> rpc_entity \<Rightarrow> rpc_entity \<times> vein_event list" where
  "re_execute qt to_int s =
     (case reCalls s of
        [] \<Rightarrow> (s, [])
      | (k, callId, params) # q \<Rightarrow>
          re_object (callRPCFunction qt to_int callId params) k (s\<lparr>reCalls := q\<rparr>))"

datatype re_input =
    ReEvent vein_event
  | ReExecute
  | ReExpire nat

fun re_step ::
  "qt_lib \<Rightarrow> (qvariant \<Rightarrow> int) \<Rightarrow> re_input \<Rightarrow> rpc_entity \<Rightarrow> rpc_entity \<times> vein_event list" where
  "re_step qt to_int (ReEvent e) s = (let (s', e', out) = re_processEvent qt e s in (s', out))"
| "re_step qt to_int ReExecute s = re_execute qt to_int s"
| "re_step qt to_int (ReExpire k) s = re_object (delay_expired qt) k s"

fun re_run ::
  "qt_lib \<Rightarrow> (qvariant \<Rightarrow> int) \<Rightarrow> re_input list \<Rightarrow> rpc_entity \<Rightarrow> rpc_entity \<times> vein_event list" where
  "re_run qt to_int [] s = (s, [])"
| "re_run qt to_int (x # xs) s =
     (let (s1, out1) = re_step qt to_int x s; (s2, out2) = re_run qt to_int xs s1 in (s2, out1 @ out2))"

section \<open>vfEntityRpcEventHandler\<close>

record rpc_event_handler =
  rhEntity :: vf_entity
  rhInitialized :: bool
  rhRpcWithParams :: string                       \<comment> \<open>name of \<^verbatim>\<open>m_rpcWithParams\<close>\<close>

definition rh_new :: "int \<Rightarrow> rpc_event_handler" where
  "rh_new i = \<lparr> rhEntity = ve_new i, rhInitialized = False, rhRpcWithParams = '''' \<rparr>"

definition rh_RPC_forTest :: "qt_lib \<Rightarrow> qvariant_map \<Rightarrow> qvariant" where
  "rh_RPC_forTest qt params = QBool (\<not> qtToBool qt (qvalue params ''p_param'' QInvalid))"

definition rh_RpcReturnText :: "qt_lib \<Rightarrow> qvariant_map \<Rightarrow> qvariant" where
  "rh_RpcReturnText qt params =
     (let input = qtToString qt (qvalue params ''p_input'' QInvalid)
      in if qtToBool qt (qvalue params ''p_readOnly'' QInvalid) then QStr input
         else QStr (''readwrite '' @ input))"

text \<open>Invoking a slot by name.\<close>

definition rh_invoke :: "qt_lib \<Rightarrow> string \<Rightarrow> qvariant_map \<Rightarrow> rpc_invocation" where
  "rh_invoke qt f params =
     (if f = ''RPC_forTest'' then \<lparr> ivOk = True, ivResult = rh_RPC_forTest qt params, ivSent = [] \<rparr>
      else if f = ''RpcReturnText''
      then \<lparr> ivOk = True, ivResult = rh_RpcReturnText qt params, ivSent = [] \<rparr>
      else \<lparr> ivOk = False, ivResult = QInvalid, ivSent = [] \<rparr>)"

definition rh_setModuleInterface :: "(json_object \<Rightarrow> bytes) \<Rightarrow> rpc_event_handler \<Rightarrow> bytes" where
  "rh_setModuleInterface to_json s =
     (let name = rhRpcWithParams s;
          arr = [JArr (map JStr [''CALCULATE'', ''RPC1'', ''2'', ''RPC_forTest(bool p_param)'', ''0'']),
                 JArr (map JStr [''CALCULATE'', ''RPC2'', ''2'', name, ''0'', getRpcTypesFromSignature name])]
      in to_json (fmupd ''SCPIInfo'' (JObj (fmupd ''RPC'' (JArr arr) fmempty)) fmempty))"

definition rh_forTest_params :: "(string, string) qmap" where
  "rh_forTest_params = fmap_of_list [(''p_param'', ''bool'')]"

definition rh_returnText_params :: "(string, string) qmap" where
  "rh_returnText_params = fmap_of_list [(''p_input'', ''QString''), (''p_readOnly'', ''bool'')]"

text \<open>A component that exists already is a fatal error (\<open>None\<close>).\<close>

definition rh_initOnce ::
  "(json_object \<Rightarrow> bytes) \<Rightarrow> rpc_event_handler \<Rightarrow> (rpc_event_handler \<times> vein_event list) option" where
  "rh_initOnce to_json s =
     (if rhInitialized s then Some (s, [])
      else
        let m = rhEntity s
        in Option.bind (ve_createComponent ''EntityName'' (QStr ''RPCEventHandler'') True m) (\<lambda>(m1, out1).
           Option.bind (ve_createRpc ''RPC_forTest'' rh_forTest_params False m1) (\<lambda>(m2, out2).
           Option.bind (ve_createRpc ''RpcReturnText'' rh_returnText_params False m2) (\<lambda>(m3, out3).
           let s3 = s\<lparr> rhEntity := m3, rhInitialized := True,
                       rhRpcWithParams := createRpcSignature ''RpcReturnText'' rh_returnText_params \<rparr>
           in map_option (\<lambda>(m4, out4). (s3\<lparr>rhEntity := m4\<rparr>, ve_initModule m @ out1 @ out2 @ out3 @ out4))
                (ve_createComponent ''INF_ModuleInterface'' (QBytes (rh_setModuleInterface to_json s3)) False m3)))))"

section \<open>The small fixtures\<close>

text \<open>A value set is the value read, up to what Qt takes for equal; other values stay.\<close>

lemma tc_set_get:
  "qtEq qt (tc_getValue i n h) v \<Longrightarrow> tc_getValue i n (fst (tc_setValue qt i n v h)) = tc_getValue i n h"
  "\<not> qtEq qt (tc_getValue i n h) v \<Longrightarrow> tc_getValue i n (fst (tc_setValue qt i n v h)) = v"
  "(j, m) \<noteq> (i, n) \<Longrightarrow> tc_getValue j m (fst (tc_setValue qt i n v h)) = tc_getValue j m h"
  by (auto simp: tc_setValue_def tc_getValue_def Let_def)

lemma created_once:
  "fst (createEntityComponent i n v h) \<longleftrightarrow> \<not> n |\<in>| qvalue h i {||}"
  "\<not> fst (createEntityComponent i n w (fst (snd (createEntityComponent i n v h))))"
  by (simp_all add: createEntityComponent_def)

lemma template_init_systems:
  "map_option (\<lambda>t. hwSubsystems (ttHandler t)) template_init = Some [TtData, TtEntity, TtListener]"
  by (simp add: template_init_def addSubsystem_def attach_def)

lemma template_run:
  "run_events (length es) app_accepted (map template_proc [TtData, TtEntity, TtListener]) t
      (map CmdEv es) =
   (t\<lparr>ttSeen := fold (\<lambda>e xs. if app_accepted (CmdEv e) then xs
                   else componentSpy_processEvent CCMD_SET xs (CmdEv e)) es (ttSeen t)\<rparr>, [])"
  by (induction es arbitrary: t) (simp_all add: split_beta)

text \<open>The listener of a fresh template sees nothing of the components a test creates.\<close>

lemma template_add_unseen:
  assumes "template_init = Some t"
  shows "ttSeen (template_addEntityComponent i n t) = []"
proof -
  have t: "hwSubsystems (ttHandler t) = [TtData, TtEntity, TtListener]" "ttSeen t = []"
    using assms by (auto simp: template_init_def addSubsystem_def attach_def)
  show ?thesis
    by (simp add: template_addEntityComponent_def createEntityComponent_def template_processEvents_def
        t template_run [of "[_, _]", simplified] componentSpy_processEvent_def server_entity_add_def
        server_component_add_def vein_defs record_glue app_accepted_def)
qed

section \<open>Answers of the entity with procedures\<close>

text \<open>Calls that wait for their answer under an identifier, over all procedures.\<close>

definition re_pending :: "quuid \<Rightarrow> rpc_entity \<Rightarrow> nat" where
  "re_pending i s = length (filter (\<lambda>p. i |\<in>| fmdom (srPeers (roRpc p))) (reRpcs s))"

definition re_ok :: "rpc_entity \<Rightarrow> bool" where
  "re_ok s \<longleftrightarrow> distinct (map (\<lambda>p. srSignature (roRpc p)) (reRpcs s))"

definition re_is_call :: "qt_lib \<Rightarrow> int \<Rightarrow> quuid \<Rightarrow> re_input \<Rightarrow> bool" where
  "re_is_call qt n i x \<longleftrightarrow>
     (case x of
        ReEvent e \<Rightarrow>
          vd_entityId (ceData e) = n \<and>
          (case ceData e of VRpc d \<Rightarrow> rdCommand d = RPCMD_CALL \<and> call_id qt d = i | _ \<Rightarrow> False)
      | _ \<Rightarrow> False)"

lemma length_filter_update:
  "k < length xs \<Longrightarrow> length (filter P (xs[k := y])) + (if P (xs ! k) then 1 else 0) =
    length (filter P xs) + (if P y then 1 else (0 :: nat))"
proof (induction xs arbitrary: k)
  case (Cons x xs)
  then show ?case by (cases k) auto
qed simp

lemma map_update_same: "f y = f (xs ! k) \<Longrightarrow> map f (xs[k := y]) = map f xs"
  by (cases "k < length xs") (simp_all add: map_update list_update_same_conv list_update_beyond)

text \<open>What a procedure does when it runs is one step of a simplified procedure, and no call.\<close>

definition one_answer :: "qt_lib \<Rightarrow> (rpc_object \<Rightarrow> rpc_object \<times> vein_event list) \<Rightarrow> bool" where
  "one_answer qt f \<longleftrightarrow>
     (\<forall>p. (roRpc (fst (f p)) = roRpc p \<and> snd (f p) = []) \<or>
          (\<exists>x. (\<forall>j. \<not> sr_is_call j x) \<and> (roRpc (fst (f p)), snd (f p)) = sr_step qt x (roRpc p)))"

lemma delay_expired_answer: "one_answer qt (delay_expired qt)"
  unfolding one_answer_def
proof (rule allI)
  fix p
  show "(roRpc (fst (delay_expired qt p)) = roRpc p \<and> snd (delay_expired qt p) = []) \<or>
      (\<exists>x. (\<forall>j. \<not> sr_is_call j x) \<and>
        (roRpc (fst (delay_expired qt p)), snd (delay_expired qt p)) = sr_step qt x (roRpc p))"
  proof (cases "roTimer p")
    case (Some t)
    then show ?thesis
      by (intro disjI2 exI [of _ "SrResult (fst t) (QStr (int_digits (snd t)))"])
         (simp add: delay_expired_def split_beta Let_def)
  qed (simp add: delay_expired_def)
qed

lemma callRPCFunction_answer: "one_answer qt (callRPCFunction qt to_int c params)"
  unfolding one_answer_def
proof (rule allI)
  fix p
  let ?f = "callRPCFunction qt to_int c params"
  let ?n = "to_int (qvalue params ''p_param'' QInvalid)"
  show "(roRpc (fst (?f p)) = roRpc p \<and> snd (?f p) = []) \<or>
      (\<exists>x. (\<forall>j. \<not> sr_is_call j x) \<and> (roRpc (fst (?f p)), snd (?f p)) = sr_step qt x (roRpc p))"
  proof (cases "roClass p")
    case RpcForTest
    then show ?thesis
      by (intro disjI2 exI [of _ "if ?n > 0 then SrResult c (QStr (int_digits ?n)) else SrError c ''Error''"])
         (simp add: callRPCFunction_def rPC_forTest_def split_beta Let_def)
  next
    case RpcAddDelay
    then show ?thesis
      by (cases "to_int (qvalue params ''p_delayMs'' QInvalid) > 0")
         (auto simp: callRPCFunction_def rPC_addDelay_def split_beta Let_def
          intro: exI [of _ "SrError c ''Error''"])
  qed
qed

lemma sr_step_signature [simp]: "srSignature (fst (sr_step qt x r)) = srSignature r"
  by (cases x) (simp_all add: sr_callFunction_def sr_sendRpcResult_def sr_sendRpcError_def
      sr_sendRPCresultEvent_def Let_def)

lemma one_answer_signature:
  assumes "one_answer qt f"
  shows "srSignature (roRpc (fst (f p))) = srSignature (roRpc p)"
proof -
  from assms consider "roRpc (fst (f p)) = roRpc p"
    | x where "(roRpc (fst (f p)), snd (f p)) = sr_step qt x (roRpc p)"
    unfolding one_answer_def by blast
  then show ?thesis by cases (simp_all, metis fst_conv sr_step_signature)
qed

lemma re_object_ok:
  assumes "one_answer qt f" and "re_ok s"
  shows "re_ok (fst (re_object f k s))"
  using assms(2) one_answer_signature [OF assms(1)]
  by (simp add: re_ok_def re_object_def split_beta Let_def map_update_same)

lemma re_object_answers:
  assumes "one_answer qt f" and "qt_conv_ok qt"
  shows "length (filter (answers qt i) (snd (re_object f k s))) + re_pending i (fst (re_object f k s)) \<le>
    re_pending i s"
proof (cases "k < length (reRpcs s)")
  case True
  let ?p = "reRpcs s ! k" and ?P = "\<lambda>p. i |\<in>| fmdom (srPeers (roRpc p))"
  have "length (filter (answers qt i) (snd (f ?p))) + (if ?P (fst (f ?p)) then 1 else 0) \<le>
      (if ?P ?p then 1 else 0)"
  proof -
    from assms(1) consider "roRpc (fst (f ?p)) = roRpc ?p" "snd (f ?p) = []"
      | x where "\<forall>j. \<not> sr_is_call j x" "(roRpc (fst (f ?p)), snd (f ?p)) = sr_step qt x (roRpc ?p)"
      unfolding one_answer_def by blast
    then show ?thesis
    proof cases
      case 2
      from sr_step_answers [OF assms(2), of i x "roRpc ?p"] show ?thesis
        unfolding 2(2) [symmetric] using 2(1) by simp
    qed simp
  qed
  moreover have "length (filter ?P ((reRpcs s)[k := fst (f ?p)])) + (if ?P ?p then 1 else 0) =
      length (filter ?P (reRpcs s)) + (if ?P (fst (f ?p)) then 1 else 0)"
    by (rule length_filter_update [OF True])
  ultimately show ?thesis
    using True by (simp add: re_object_def split_beta Let_def re_pending_def)
qed (simp add: re_object_def)

lemma re_named_cases:
  assumes "re_ok s"
  obtains "re_named name s = []"
    | k where "re_named name s = [k]" and "k < length (reRpcs s)"
proof (cases "re_named name s")
  case (Cons k ks)
  have d: "distinct (re_named name s)" by (simp add: re_named_def)
  have mem: "j < length (reRpcs s) \<and> srSignature (roRpc (reRpcs s ! j)) = name"
    if "j \<in> set (re_named name s)" for j
    using that by (simp add: re_named_def)
  have "ks = []"
  proof (rule ccontr)
    assume "ks \<noteq> []"
    then obtain j where "j \<in> set ks" by (cases ks) auto
    then have "j \<in> set (re_named name s)" "k \<in> set (re_named name s)" "j \<noteq> k"
      using d Cons by auto
    then show False
      using mem [of j] mem [of k] assms by (auto simp: re_ok_def distinct_conv_nth)
  qed
  then show ?thesis using that(2) [of k] Cons mem [of k] by simp
qed (rule that(1))

lemma re_callFunction_effect:
  assumes "re_ok s" and "k < length (reRpcs s)"
  shows "re_ok (re_callFunction qt c peer m k s)"
    and "re_pending i (re_callFunction qt c peer m k s) \<le> (if c = i then 1 else 0) + re_pending i s"
    and "reEntityId (re_callFunction qt c peer m k s) = reEntityId s"
proof -
  let ?p = "reRpcs s ! k"
  let ?q = "?p\<lparr>roRpc := fst (sr_callFunction qt c peer m (roRpc ?p))\<rparr>"
  have s: "reRpcs (re_callFunction qt c peer m k s) = (reRpcs s)[k := ?q]"
    by (simp add: re_callFunction_def split_beta Let_def)
  have sig: "srSignature (roRpc ?q) = srSignature (roRpc ?p)" by (simp add: sr_callFunction_def)
  show "re_ok (re_callFunction qt c peer m k s)"
    using assms map_update_same [of "\<lambda>p. srSignature (roRpc p)", OF sig] by (simp add: re_ok_def s)
  have "length (filter (\<lambda>p. i |\<in>| fmdom (srPeers (roRpc p))) ((reRpcs s)[k := ?q])) \<le>
      (if c = i then 1 else 0) + length (filter (\<lambda>p. i |\<in>| fmdom (srPeers (roRpc p))) (reRpcs s))"
    using length_filter_update [OF assms(2), of "\<lambda>p. i |\<in>| fmdom (srPeers (roRpc p))" ?q]
    by (auto simp: sr_callFunction_def split: if_splits)
  then show "re_pending i (re_callFunction qt c peer m k s) \<le>
      (if c = i then 1 else 0) + re_pending i s"
    by (simp add: re_pending_def s)
  show "reEntityId (re_callFunction qt c peer m k s) = reEntityId s"
    by (simp add: re_callFunction_def split_beta Let_def)
qed

lemma re_event_answers:
  assumes "re_ok s"
  shows "re_ok (fst (re_processEvent qt e s)) \<and> reEntityId (fst (re_processEvent qt e s)) = reEntityId s \<and>
    length (filter (answers qt i) (snd (snd (re_processEvent qt e s)))) +
      re_pending i (fst (re_processEvent qt e s)) \<le>
    (if re_is_call qt (reEntityId s) i (ReEvent e) then 1 else 0) + re_pending i s"
proof (cases "\<exists>d. ceData e = VRpc d \<and> edEntityId d = reEntityId s \<and> rdCommand d = RPCMD_CALL")
  case True
  then obtain d where d: "ceData e = VRpc d" "edEntityId d = reEntityId s" "rdCommand d = RPCMD_CALL"
    by blast
  let ?c = "call_id qt d"
  show ?thesis
  proof (cases rule: re_named_cases [OF assms, of "rdProcedureName d"])
    case 1
    then show ?thesis
      using d assms by (simp add: re_processEvent_def re_handleRpcs_def errorOut_def answers_def vein_defs
          Let_def)
  next
    case (2 k)
    then show ?thesis
      using d re_callFunction_effect [OF assms 2(2), where c = ?c and peer = "cePeerId e" and qt = qt and
            m = "rdInvokationData d"]
      by (simp add: re_processEvent_def re_handleRpcs_def re_is_call_def call_id_def)
  qed
next
  case False
  then have "re_processEvent qt e s = (s, e, [])"
    by (auto simp: re_processEvent_def re_handleRpcs_def split: vein_data.splits)
  then show ?thesis using assms by simp
qed

lemma re_step_answers:
  assumes "re_ok s" and "qt_conv_ok qt"
  shows "re_ok (fst (re_step qt to_int x s)) \<and> reEntityId (fst (re_step qt to_int x s)) = reEntityId s \<and>
    length (filter (answers qt i) (snd (re_step qt to_int x s))) +
      re_pending i (fst (re_step qt to_int x s)) \<le>
    (if re_is_call qt (reEntityId s) i x then 1 else 0) + re_pending i s"
proof (cases x)
  case (ReEvent e)
  then show ?thesis using re_event_answers [OF assms(1), of qt e i] by (simp add: split_beta Let_def)
next
  case ReExecute
  show ?thesis
  proof (cases "reCalls s")
    case (Cons q qs)
    have s: "re_ok (s\<lparr>reCalls := qs\<rparr>)" "re_pending i (s\<lparr>reCalls := qs\<rparr>) = re_pending i s"
      using assms(1) by (simp_all add: re_ok_def re_pending_def)
    then show ?thesis
      using re_object_ok [OF callRPCFunction_answer s(1)] ReExecute Cons
        re_object_answers [OF callRPCFunction_answer assms(2), of i to_int _ _ _ "s\<lparr>reCalls := qs\<rparr>"]
      by (auto simp: re_execute_def re_object_def split_beta Let_def re_is_call_def split: prod.splits)
  qed (use assms ReExecute in \<open>simp add: re_execute_def\<close>)
next
  case (ReExpire k)
  then show ?thesis
    using re_object_ok [OF delay_expired_answer assms(1)] re_object_answers [OF delay_expired_answer assms(2)]
    by (auto simp: re_object_def split_beta Let_def re_is_call_def)
qed

lemma re_init_ok:
  "re_ok (fst (re_initModule (re_new n)))" "re_pending i (fst (re_initModule (re_new n))) = 0"
  "reEntityId (fst (re_initModule (re_new n))) = n"
  by (simp_all add: re_initModule_def re_new_def rpc_object_new_def sr_new_def split_beta Let_def
      re_ok_def re_pending_def createRpcSignature_def)

lemma re_run_answers:
  assumes "re_ok s" and "qt_conv_ok qt"
  shows "length (filter (answers qt i) (snd (re_run qt to_int xs s))) \<le>
    length (filter (re_is_call qt (reEntityId s) i) xs) + re_pending i s"
  using assms(1)
proof (induction xs arbitrary: s)
  case (Cons x xs)
  let ?s = "fst (re_step qt to_int x s)"
  note step = re_step_answers [OF Cons.prems assms(2), of to_int x i]
  have "length (filter (answers qt i) (snd (re_run qt to_int xs ?s))) \<le>
      length (filter (re_is_call qt (reEntityId s) i) xs) + re_pending i ?s"
    using Cons.IH [of ?s] step by simp
  then show ?case using step by (simp add: split_beta Let_def split: if_splits)
qed simp

text \<open>Over any history, a call is answered at most as often as it was made.\<close>

lemma entity_answers_bounded:
  assumes "qt_conv_ok qt"
  shows "length (filter (answers qt i) (snd (re_run qt to_int xs (fst (re_initModule (re_new n)))))) \<le>
    length (filter (re_is_call qt n i) xs)"
  using re_run_answers [OF re_init_ok(1) assms, of i to_int xs n] by (simp add: re_init_ok)

section \<open>A call from a client\<close>

definition forTest_value :: "(qvariant \<Rightarrow> int) \<Rightarrow> qvariant \<Rightarrow> qvariant_map \<Rightarrow> qvariant_map" where
  "forTest_value to_int v m =
     (if to_int v > 0
      then fmupd s_returnString (QStr (int_digits (to_int v))) (fmupd s_resultCodeString (QInt RPC_SUCCESS) m)
      else fmupd s_errorMessageString (QStr ''Error'') (fmupd s_resultCodeString (QInt RPC_EINVAL) m))"

definition object_new :: "rpc_class \<Rightarrow> int \<Rightarrow> rpc_object" where
  "object_new cls i =
     \<lparr> roClass = cls, roRpc = \<lparr> srEntityId = i, srSignature = class_signature cls, srPeers = fmempty \<rparr>,
       roTimer = None \<rparr>"

lemma re_init_state:
  "fst (re_initModule (re_new i)) =
    \<lparr> reEntityId = i, reRpcs = [object_new RpcForTest i, object_new RpcAddDelay i], reCalls = [] \<rparr>"
  by (simp add: re_initModule_def re_new_def rpc_object_new_def sr_new_def split_beta Let_def object_new_def)

lemma class_signatures_differ: "class_signature RpcForTest \<noteq> class_signature RpcAddDelay"
  by (simp add: createRpcSignature_join)

declare class_signature.simps [simp del]

lemma re_call_event:
  assumes "ceData e = VRpc d" and "edEntityId d = reEntityId s" and "rdCommand d = RPCMD_CALL"
    and "re_named (rdProcedureName d) s = [k]"
  shows "re_processEvent qt e s =
    (re_callFunction qt (call_id qt d) (cePeerId e) (rdInvokationData d) k s, accept e, [])"
  using assms by (simp add: re_processEvent_def re_handleRpcs_def call_id_def)

text \<open>
  A client's invoker calls the first procedure; its entity accepts the call, answers when the
  queued call is executed, and the invoker reports the answer.
\<close>

lemma forTest_call_answered:
  assumes "qt_conv_ok qt" and "0 \<le> i" and "qtTypeName qt v = ''int''" and "\<And>t. \<not> qtIsNull qt (QStr t)"
    and "riEntityId rp = i"
    and "invokeRPC qt client_rpc_generateEvent ident ''RPC_forTest'' (fmupd ''p_param'' v fmempty) rp = (rp1, [call])"
  shows "\<exists>s1 s2 ev. re_processEvent qt (setPeerId peer call) (fst (re_initModule (re_new i))) =
      (s1, accept (setPeerId peer call), []) \<and>
    re_execute qt to_int s1 = (s2, [ev]) \<and> reCalls s2 = [] \<and> cePeerId ev = peer \<and>
    snd (invoker_event qt ev rp1) =
      [SigRPCFinished True (forTest_value to_int v (fmupd s_callIdString (QUuidV ident) fmempty))]"
proof -
  let ?sig = "class_signature RpcForTest"
  have "parseRpcParams qt ''RPC_forTest'' (fmupd ''p_param'' v fmempty) = ?sig"
    using parse_matching [of qt "fmupd ''p_param'' v fmempty"] assms(3)
    by (simp add: matching_parameters_def class_signature.simps)
  then have call: "call = client_rpc_generateEvent i ?sig (fmupd ''p_param'' v fmempty) ident"
    and rp1: "ident |\<in>| riPendingRPCs rp1"
    using assms(5,6) by (auto simp: invokeRPC_def)
  let ?s = "fst (re_initModule (re_new i))" and ?d = "rpc_call_data i ?sig (fmupd ''p_param'' v fmempty) ident"
  have e: "ceData (setPeerId peer call) = VRpc ?d" "cePeerId (setPeerId peer call) = peer"
    by (simp_all add: call client_rpc_generateEvent_def vein_defs)
  have d: "edEntityId ?d = reEntityId ?s" "rdCommand ?d = RPCMD_CALL" "rdProcedureName ?d = ?sig"
    "rpc_parameters qt (rdInvokationData ?d) = fmupd ''p_param'' v fmempty"
    using assms(1,2) by (simp_all add: rpc_call_data_fields re_init_ok rpc_parameters_def qt_conv_ok_def)
  have n: "re_named (rdProcedureName ?d) ?s = [0]"
    using class_signatures_differ unfolding d(3) by (simp add: re_named_def re_init_state object_new_def upt_rec)
  have "re_processEvent qt (setPeerId peer call) ?s =
      (re_callFunction qt ident peer (rdInvokationData ?d) 0 ?s, accept (setPeerId peer call), [])"
    using re_call_event [OF e(1) d(1,2) n] assms(1) by (simp add: e(2))
  moreover obtain s2 ev where "re_execute qt to_int (re_callFunction qt ident peer (rdInvokationData ?d) 0 ?s) =
      (s2, [ev])" "reCalls s2 = []" "ev = setPeerId peer (server_rpc_result i ?sig
        (forTest_value to_int v (fmupd s_callIdString (QUuidV ident) fmempty)))"
    using assms(4) by (simp add: re_execute_def re_callFunction_def sr_callFunction_def split_beta Let_def d(4)
        re_init_state object_new_def re_object_def callRPCFunction_def rPC_forTest_def sr_sendRpcResult_def
        sr_sendRpcError_def sr_sendRPCresultEvent_def rpc_return_value_def forTest_value_def qvalue_def)
  moreover have "fmlookup (forTest_value to_int v (fmupd s_callIdString (QUuidV ident) fmempty)) s_callIdString =
      Some (QUuidV ident)"
    by (simp add: forTest_value_def rpc_strings_distinct [symmetric])
  ultimately show ?thesis
    using invoker_reports [OF assms(1) _ rp1] by (fastforce simp: setPeerId_def)
qed

text \<open>
  A second delayed call replaces the timer of the first: the first is never answered, and its peer
  stays in the table.
\<close>

lemma second_delay_replaces_first:
  assumes "qt_conv_ok qt" and "roClass p = RpcAddDelay" and "a \<noteq> b"
    and "to_int (qvalue m1 ''p_delayMs'' QInvalid) > 0" and "to_int (qvalue m2 ''p_delayMs'' QInvalid) > 0"
  defines "p2 \<equiv> fst (callRPCFunction qt to_int b m2 (fst (callRPCFunction qt to_int a m1 p)))"
  shows "\<forall>e \<in> set (snd (delay_expired qt p2)). \<not> answers qt a e"
    and "fmlookup (srPeers (roRpc (fst (delay_expired qt p2)))) a = fmlookup (srPeers (roRpc p)) a"
    and "snd (delay_expired qt (fst (delay_expired qt p2))) = []"
proof -
  let ?n = "to_int (qvalue m2 ''p_param'' QInvalid)"
  have p2: "p2 = p\<lparr>roTimer := Some (b, ?n)\<rparr>"
    using assms(2,4,5) by (simp add: p2_def callRPCFunction_def rPC_addDelay_def Let_def)
  note out = sendRPCresultEvent_answers [OF assms(1),
      where m = "rpc_return_value qt b RPC_SUCCESS '''' (QStr (int_digits ?n))" and j = b and
        s = "roRpc p", simplified]
  have "length (filter (answers qt a) (snd (delay_expired qt p2))) = 0"
    using out(1) assms(3) by (simp add: p2 delay_expired_def split_beta Let_def sr_sendRpcResult_def)
  then show "\<forall>e \<in> set (snd (delay_expired qt p2)). \<not> answers qt a e"
    by (simp add: filter_empty_conv)
  show "fmlookup (srPeers (roRpc (fst (delay_expired qt p2)))) a = fmlookup (srPeers (roRpc p)) a"
    using out(2) assms(3) by (simp add: p2 delay_expired_def split_beta Let_def sr_sendRpcResult_def)
  show "snd (delay_expired qt (fst (delay_expired qt p2))) = []"
    by (simp add: p2 delay_expired_def split_beta Let_def)
qed

section \<open>The entity with functions of a module\<close>

lemma rh_signatures:
  "createRpcSignature ''RPC_forTest'' rh_forTest_params = ''RPC_forTest(bool p_param)''"
  "createRpcSignature ''RpcReturnText'' rh_returnText_params =
     ''RpcReturnText(QString p_input,bool p_readOnly)''"
  by (simp_all add: createRpcSignature_join rh_forTest_params_def rh_returnText_params_def param_text_def
      qmap_simps)

lemma rh_types:
  "getRpcTypesFromSignature ''RpcReturnText(QString p_input,bool p_readOnly)'' = ''QString,bool''"
  by code_simp

lemma rh_distinct:
  "\<not> contains_str (to_lower ''RpcReturnText(QString p_input,bool p_readOnly)'')
     (to_lower ''RPC_forTest(bool p_param)'')"
  by code_simp

definition rh_forTest_rpc :: "int \<Rightarrow> vf_rpc" where
  "rh_forTest_rpc i =
     \<lparr> frFunction = ''RPC_forTest'', frParameter = rh_forTest_params,
       frName = ''RPC_forTest(bool p_param)'', frEntityId = i, frFunctionBlocks = True, frPending = fmempty \<rparr>"

definition rh_returnText_rpc :: "int \<Rightarrow> vf_rpc" where
  "rh_returnText_rpc i =
     \<lparr> frFunction = ''RpcReturnText'', frParameter = rh_returnText_params,
       frName = ''RpcReturnText(QString p_input,bool p_readOnly)'', frEntityId = i,
       frFunctionBlocks = True, frPending = fmempty \<rparr>"

lemma rh_init:
  obtains s out where "rh_initOnce to_json (rh_new i) = Some (s, out)"
    and "rh_initOnce to_json s = Some (s, [])" and "veEntityId (rhEntity s) = i"
    and "veRpcs (rhEntity s) =
      fmupd ''RpcReturnText(QString p_input,bool p_readOnly)'' (rh_returnText_rpc i)
        (fmupd ''RPC_forTest(bool p_param)'' (rh_forTest_rpc i) fmempty)"
proof -
  have "\<exists>s out. rh_initOnce to_json (rh_new i) = Some (s, out) \<and> rhInitialized s \<and>
      veEntityId (rhEntity s) = i \<and> veRpcs (rhEntity s) =
        fmupd ''RpcReturnText(QString p_input,bool p_readOnly)'' (rh_returnText_rpc i)
          (fmupd ''RPC_forTest(bool p_param)'' (rh_forTest_rpc i) fmempty)"
    by (simp add: rh_initOnce_def rh_new_def ve_new_def ve_createComponent_def fc_new_def ve_createRpc_def
        fr_new_def rh_signatures rh_forTest_rpc_def rh_returnText_rpc_def Let_def)
  then show ?thesis using that by (auto simp: rh_initOnce_def)
qed

text \<open>
  A client that calls the second function, by its name and with parameters of the right types, is
  answered with the text, marked when it may be written.
\<close>

lemma returnText_call_answered:
  assumes "qt_conv_ok qt" and "0 \<le> i" and "qtTypeName qt (QStr t) = ''QString''"
    and "qtTypeName qt (QBool b) = ''bool''" and "rh_initOnce to_json (rh_new i) = Some (s, out)"
    and "riEntityId rp = i"
    and "invokeRPC qt client_rpc_generateEvent ident ''RpcReturnText''
      (fmap_of_list [(''p_input'', QStr t), (''p_readOnly'', QBool b)]) rp = (rp1, [call])"
  shows "\<exists>q m ev. ve_processEvent qt (setPeerId peer call) (rhEntity s) =
      (rhEntity s, accept (setPeerId peer call), no_output\<lparr>eoCalls := [q]\<rparr>) \<and>
    ve_runCall qt (rh_invoke qt) q (rhEntity s) = (m, [ev]) \<and> cePeerId ev = peer \<and>
    snd (invoker_event qt ev rp1) = [SigRPCFinished True (rpc_return_value qt ident RPC_SUCCESS ''''
      (QStr (if b then t else ''readwrite '' @ t)))]"
proof -
  let ?params = "fmap_of_list [(''p_input'', QStr t), (''p_readOnly'', QBool b)]"
  let ?sig = "createRpcSignature ''RpcReturnText'' rh_returnText_params"
  have s: "veEntityId (rhEntity s) = i" "veRpcs (rhEntity s) = fmupd ?sig (rh_returnText_rpc i)
      (fmupd ''RPC_forTest(bool p_param)'' (rh_forTest_rpc i) fmempty)"
    using rh_init [of to_json i] assms(5) by (auto simp: rh_signatures)
  have match: "matching_parameters qt ?params rh_returnText_params"
    using assms(3,4) by (simp add: matching_parameters_def rh_returnText_params_def)
  have first: "\<not> contains_str (to_lower ?sig) (to_lower k)" if "k |\<in>| fmdom (veRpcs (rhEntity s))" "k < ?sig" for k
    using that rh_distinct unfolding s(2) rh_signatures by fastforce
  have invoked: "ivOk (rh_invoke qt (frFunction (rh_returnText_rpc i)) m)"
    "ivSent (rh_invoke qt (frFunction (rh_returnText_rpc i)) m) = []" for m
    by (simp_all add: rh_returnText_rpc_def rh_invoke_def)
  have e: "snd (invokeRPC qt client_rpc_generateEvent ident ''RpcReturnText'' ?params rp) = [call]"
    "riEntityId rp = veEntityId (rhEntity s)" "0 \<le> veEntityId (rhEntity s)"
    "fmlookup (veRpcs (rhEntity s)) ?sig = Some (rh_returnText_rpc i)"
    "frParameter (rh_returnText_rpc i) = rh_returnText_params"
    "frFunctionBlocks (rh_returnText_rpc i) \<or> \<not> ivOk (rh_invoke qt
       (frFunction (rh_returnText_rpc i)) (fmupd s_callIdString (QUuidV ident) ?params))"
    using assms(2,6,7) by (simp_all add: s) (simp_all add: rh_returnText_rpc_def)
  have "\<exists>q m ev. ve_processEvent qt (setPeerId peer call) (rhEntity s) =
      (rhEntity s, accept (setPeerId peer call), no_output\<lparr>eoCalls := [q]\<rparr>) \<and>
    ve_runCall qt (rh_invoke qt) q (rhEntity s) = (m, [ev]) \<and> cePeerId ev = peer \<and>
    invoker_event qt ev (fst (invokeRPC qt client_rpc_generateEvent ident ''RpcReturnText'' ?params rp)) =
      ((fst (invokeRPC qt client_rpc_generateEvent ident ''RpcReturnText'' ?params rp))\<lparr>riPendingRPCs :=
         riPendingRPCs (fst (invokeRPC qt client_rpc_generateEvent ident ''RpcReturnText'' ?params rp)) |-| {|ident|}\<rparr>,
       [SigRPCFinished True (rpc_return_value qt ident RPC_SUCCESS '''' (ivResult (rh_invoke qt
         (frFunction (rh_returnText_rpc i)) (fmupd s_callIdString (QUuidV ident) ?params))))])"
    using rpc_call_roundtrip [of qt ident "''RpcReturnText''" ?params rp call "rhEntity s"
        rh_returnText_params "rh_returnText_rpc i" "rh_invoke qt" peer,
        OF assms(1) e(1-3) match e(4,5) first e(6)]
    by (simp add: invoked)
  moreover have "ivResult (rh_invoke qt (frFunction (rh_returnText_rpc i))
      (fmupd s_callIdString (QUuidV ident) ?params)) = QStr (if b then t else ''readwrite '' @ t)"
    using assms(1) by (simp add: rh_invoke_def rh_returnText_rpc_def rh_RpcReturnText_def qt_conv_ok_def
        rpc_string_defs)
  ultimately show ?thesis using assms(7) by (metis fst_conv snd_conv)
qed

section \<open>Items of the handler's tests\<close>

text \<open>
  convenient-code/testlib: an item of an entity and an item of a component that tell every event
  they are called for. The state is what was told, with the item that told it.
\<close>

datatype handler_test_signal = SigCommandEventReceived | SigCommandErrorEventReceived

definition itemTest_process ::
  "vein_event \<Rightarrow> (('i \<times> handler_test_signal) list, 'i) item_call" where
  "itemTest_process e s x = (s @ [(x, SigCommandEventReceived)], [])"

definition itemTest_processError ::
  "vein_data \<Rightarrow> (('i \<times> handler_test_signal) list, 'i) item_call" where
  "itemTest_processError od s x = (s @ [(x, SigCommandErrorEventReceived)], [])"

definition itemTest_class :: "('i \<Rightarrow> int) \<Rightarrow> (('i \<times> handler_test_signal) list, 'i) item_class" where
  "itemTest_class entity = \<lparr> icEntityId = entity, icProcess = itemTest_process,
     icProcessError = itemTest_processError \<rparr>"

definition componentItemTest_process ::
  "component_data \<Rightarrow> (('i \<times> handler_test_signal) list, 'i) item_call" where
  "componentItemTest_process d s x = (s @ [(x, SigCommandEventReceived)], [])"

definition componentItemTest_processError ::
  "component_data \<Rightarrow> (('i \<times> handler_test_signal) list, 'i) item_call" where
  "componentItemTest_processError d s x = (s, [])"

definition componentItemTest_class ::
  "('i \<Rightarrow> string) \<Rightarrow> (('i \<times> handler_test_signal) list, 'i) component_item_class" where
  "componentItemTest_class name = \<lparr> ccComponentName = name, ccProcess = componentItemTest_process,
     ccProcessError = componentItemTest_processError \<rparr>"

lemma visit_noting: "visit (\<lambda>s x. (s @ [g x], [])) xs {} s = (s @ map g xs, {})"
  by (induction xs arbitrary: s) (simp_all add: removed_def)

lemma itemTest_local:
  "local_call key k (itemTest_process e) = (\<lambda>s x. (s @ [(x, SigCommandEventReceived)], []))"
  "local_call key k (itemTest_processError od) = (\<lambda>s x. (s @ [(x, SigCommandErrorEventReceived)], []))"
  "local_call key' n (componentItemTest_process d) = (\<lambda>s x. (s @ [(x, SigCommandEventReceived)], []))"
  by (auto simp: fun_eq_iff local_call_def local_ops_def itemTest_process_def itemTest_processError_def
      componentItemTest_process_def)

lemma noting_removes: "only_removes (\<lambda>s x. (s @ [g x], []))"
  by (simp add: only_removes_def)

text \<open>
  Every item of the entity tells a matching event once, in the order of the container, and the
  items stay registered; the same for the items of a component.
\<close>

lemma itemTest_told:
  assumes "ceSubtype e = chFilter h" and "vd_type (ceData e) \<noteq> VCMP_ERRORDATA_DATATYPE"
    and "fmlookup (chItems h) (vd_entityId (ceData e)) = Some c" and "idle c"
    and "length (slItems c) \<le> n"
  shows "\<exists>h'. ch_processCommandEvent n qt (itemTest_class entity) e h s =
      Some (h', s @ map (\<lambda>x. (x, SigCommandEventReceived)) (slItems c)) \<and>
    slItems (reg_container (chItems h') (vd_entityId (ceData e))) = slItems c"
  using handler_delivers [of e h c n "itemTest_class entity" s
      "s @ map (\<lambda>x. (x, SigCommandEventReceived)) (slItems c)" "{}" qt] assms
  by (auto simp: itemTest_class_def itemTest_local visit_noting noting_removes)

lemma componentItemTest_told:
  assumes "ceData e = VComponent d" and "fmlookup r (cdComponentName d) = Some c" and "idle c"
    and "length (slItems c) \<le> n"
  shows "\<exists>r'. eci_processCommandEvent n (componentItemTest_class name) e r s =
      Some (r', s @ map (\<lambda>x. (x, SigCommandEventReceived)) (slItems c)) \<and>
    slItems (reg_container r' (cdComponentName d)) = slItems c"
proof -
  let ?s = "s @ map (\<lambda>x. (x, SigCommandEventReceived)) (slItems c)"
  have c: "reg_container r (cdComponentName d) = c"
    using assms(2) by (simp add: reg_container_def qvalue_def)
  obtain r' where "reg_foreach n name (componentItemTest_process d) (cdComponentName d) r s = Some (r', ?s)"
    "slItems (reg_container r' (cdComponentName d)) = filter (\<lambda>y. y \<notin> {}) (slItems c)"
    using reg_foreach_visit [of r "cdComponentName d" name "componentItemTest_process d" n s ?s "{}"] assms(3,4)
    unfolding c itemTest_local visit_noting by (auto simp: noting_removes)
  then show ?thesis
    using assms(1,2) by (simp add: eci_processCommandEvent_def componentItemTest_class_def fmlookup_dom_iff)
qed

end
