(* ===== verification/ComponentLife.thy ===== *)
theory ComponentLife
  imports Database
begin

text \<open>
  framework/vf-storage, life of \<^verbatim>\<open>StorageComponent\<close> objects. They are held by shared pointers: those
  in the two tables of the database and those of callers. An object is destroyed when its last
  pointer goes, and a static counter counts the objects there are.
\<close>

section \<open>Objects that are pointed to\<close>

definition table_refs :: "(int, entity_map) qmap \<Rightarrow> component_ref list" where
  "table_refs m = concat (map qvalues (qvalues m))"

definition pointed :: "database \<Rightarrow> component_ref list \<Rightarrow> component_ref fset" where
  "pointed db held = fset_of_list (table_refs (dbEntities db) @ table_refs (dbFutures db) @ held)"

lemma findInMap_Some:
  "findInMap m c = Some r \<longleftrightarrow> (\<exists>em. m = Some em \<and> fmlookup em c = Some r)"
  by (simp add: findInMap_def split: option.split)

lemma set_table_refs: "r \<in> set (table_refs m) \<longleftrightarrow> (\<exists>i c. findInMap (fmlookup m i) c = Some r)"
proof -
  have "r \<in> set (table_refs m) \<longleftrightarrow> (\<exists>em. (\<exists>i. fmlookup m i = Some em) \<and> (\<exists>c. fmlookup em c = Some r))"
    by (simp add: table_refs_def set_qvalues fmlookup_ran_iff Bex_def)
  then show ?thesis unfolding findInMap_Some by blast
qed

lemma pointed_iff: "r |\<in>| pointed db held \<longleftrightarrow> r \<in> set held \<or> (\<exists>p. all_ref db p = Some r)"
proof -
  have "(\<exists>p. all_ref db p = Some r) \<longleftrightarrow>
      r \<in> set (table_refs (dbEntities db)) \<or> r \<in> set (table_refs (dbFutures db))"
    by (auto simp: set_table_refs all_ref_def findComponent_def findFutureComponent_def
        intro: exI [of _ "(False, _, _)"] exI [of _ "(True, _, _)"])
  then show ?thesis by (auto simp: pointed_def fset_of_list_elem)
qed

section \<open>Steps\<close>

record component_life =
  clDb :: database
  clHeld :: "component_ref list"                 \<comment> \<open>pointers of callers\<close>
  clInstanceCount :: int

text \<open>
  What happens: an operation of the database, a caller that asks for a component and keeps the
  pointer, and one that gives a pointer up.
\<close>

datatype life_op = LifeExec db_op | LifeHold int string | LifeRelease component_ref

fun life_effect :: "qt_lib \<Rightarrow> life_op \<Rightarrow> component_life \<Rightarrow> database \<times> component_ref list" where
  "life_effect qt (LifeExec x) s = (db_exec qt x (clDb s), clHeld s)"
| "life_effect qt (LifeHold i c) s =
     (let (r, db) = getFutureComponent i c (clDb s) in (db, r # clHeld s))"
| "life_effect qt (LifeRelease r) s = (clDb s, remove1 r (clHeld s))"

text \<open>Constructors count up; the objects nothing points to any more are destroyed and count down.\<close>

definition created :: "database \<Rightarrow> database \<Rightarrow> component_ref fset" where
  "created db db' = fset_of_list [length (dbHeap db)..<length (dbHeap db')]"

definition destroyed :: "component_life \<Rightarrow> database \<times> component_ref list \<Rightarrow> component_ref fset" where
  "destroyed s x =
     (pointed (clDb s) (clHeld s) |\<union>| created (clDb s) (fst x)) |-| pointed (fst x) (snd x)"

definition life_step :: "qt_lib \<Rightarrow> life_op \<Rightarrow> component_life \<Rightarrow> component_life" where
  "life_step qt x s =
     (let t = life_effect qt x s
      in \<lparr> clDb = fst t, clHeld = snd t,
           clInstanceCount = clInstanceCount s + int (fcard (created (clDb s) (fst t)))
             - int (fcard (destroyed s t)) \<rparr>)"

definition life_new :: component_life where
  "life_new = \<lparr> clDb = database_new, clHeld = [], clInstanceCount = 0 \<rparr>"

definition getInstanceCount_components :: "component_life \<Rightarrow> int" where
  "getInstanceCount_components s = clInstanceCount s"

section \<open>The counter is right\<close>

definition life_ok :: "component_life \<Rightarrow> bool" where
  "life_ok s \<longleftrightarrow> db_ok (clDb s) \<and> (\<forall>r \<in> set (clHeld s). r < length (dbHeap (clDb s))) \<and>
     clInstanceCount s = int (fcard (pointed (clDb s) (clHeld s)))"

text \<open>An operation of the database only points to what was pointed to and to what it created.\<close>

definition no_new_refs :: "database \<Rightarrow> database \<Rightarrow> bool" where
  "no_new_refs db db' \<longleftrightarrow> length (dbHeap db) \<le> length (dbHeap db') \<and>
     (\<forall>p r. all_ref db' p = Some r \<longrightarrow> r |\<in>| created db db' \<or> (\<exists>q. all_ref db q = Some r))"

lemma heap_grows [simp]:
  "length (dbHeap (fst (insertComponentValue qt i c v db))) =
     length (dbHeap db) + (if findFutureComponent db i c = None then 1 else 0)"
  "length (dbHeap (snd (getFutureComponent i c db))) =
     length (dbHeap db) +
       (if findComponent db i c = None \<and> findFutureComponent db i c = None then 1 else 0)"
  by (cases rule: insertComponentValue_cases [of db i c qt v])
     (simp_all add: Let_def storageComponent_new_def getFutureComponent_def split: option.splits)

lemma created_iff [simp]:
  "r |\<in>| created db db' \<longleftrightarrow> length (dbHeap db) \<le> r \<and> r < length (dbHeap db')"
  by (auto simp: created_def fset_of_list_elem)

lemma heap_same [simp]:
  "dbHeap (insertEntity i db) = dbHeap db" "dbHeap (removeEntity i db) = dbHeap db"
  "dbHeap (removeComponentValue i c db) = dbHeap db"
  by (simp_all add: insertEntity_def removeEntity_def removeComponentValue_def split: option.split)

lemma placed_iff:
  "(\<exists>p. all_ref db p = Some r) \<longleftrightarrow>
   (\<exists>i c. findComponent db i c = Some r \<or> findFutureComponent db i c = Some r)"
  by (metis all_refE all_ref_simps)

lemma no_new_refsI:
  assumes "length (dbHeap db) \<le> length (dbHeap db')"
    and "\<And>i c r. findComponent db' i c = Some r \<or> findFutureComponent db' i c = Some r \<Longrightarrow>
      r |\<in>| created db db' \<or> (\<exists>j d. findComponent db j d = Some r \<or> findFutureComponent db j d = Some r)"
  shows "no_new_refs db db'"
  unfolding no_new_refs_def placed_iff using assms by (metis all_refE)

lemma insert_ref_created:
  "insert_ref db i c = length (dbHeap db) \<or> findFutureComponent db i c = Some (insert_ref db i c)"
  by (simp add: insert_ref_def split: option.split)

lemma insertComponentValue_refs: "no_new_refs db (fst (insertComponentValue qt i c v db))"
  using insert_ref_created [of db i c]
  by (intro no_new_refsI) (auto simp: insert_ref_def split: if_splits option.splits)

lemma getFutureComponent_refs: "no_new_refs db (snd (getFutureComponent i c db))"
  by (intro no_new_refsI) (auto simp: insert_ref_def split: if_splits option.splits)

lemma db_exec_refs: "no_new_refs db (db_exec qt x db)"
proof (cases x)
  case (AssignValue i c v)
  then show ?thesis by (intro no_new_refsI) (auto split: option.splits)
next
  case (InsertValue i c v)
  then show ?thesis by (simp add: insertComponentValue_refs)
next
  case (GetFuture i c)
  then show ?thesis by (simp add: getFutureComponent_refs)
qed (intro no_new_refsI; auto split: if_splits)+

lemma getFutureComponent_ref:
  "findComponent (snd (getFutureComponent i c db)) i c = Some (fst (getFutureComponent i c db)) \<or>
   findFutureComponent (snd (getFutureComponent i c db)) i c = Some (fst (getFutureComponent i c db))"
  by (auto simp: getFutureComponent_def insert_ref_def Let_def split_beta find_put_any find_fold
      split: option.splits)

lemma life_effect_ok:
  assumes "life_ok s"
  shows "db_ok (fst (life_effect qt x s))" and "no_new_refs (clDb s) (fst (life_effect qt x s))"
    and "r \<in> set (snd (life_effect qt x s)) \<Longrightarrow>
      r \<in> set (clHeld s) \<or> (\<exists>p. all_ref (fst (life_effect qt x s)) p = Some r)"
proof -
  have ok: "db_ok (clDb s)" using assms by (simp add: life_ok_def)
  show "db_ok (fst (life_effect qt x s))"
    using ok by (cases x) (auto intro: inv_intros simp: split_beta Let_def)
  have "no_new_refs (clDb s) (clDb s)" by (auto simp: no_new_refs_def)
  then show "no_new_refs (clDb s) (fst (life_effect qt x s))"
    by (cases x) (simp_all add: db_exec_refs getFutureComponent_refs split_beta Let_def)
  show "r \<in> set (snd (life_effect qt x s)) \<Longrightarrow>
      r \<in> set (clHeld s) \<or> (\<exists>p. all_ref (fst (life_effect qt x s)) p = Some r)"
  proof (cases x)
    case (LifeHold i c)
    assume "r \<in> set (snd (life_effect qt x s))"
    then show ?thesis
      using getFutureComponent_ref [of i c "clDb s"] LifeHold
      unfolding placed_iff by (auto simp: split_beta Let_def simp del: find_getFutureComponent)
  qed (auto dest: set_mp [OF set_remove1_subset])
qed

lemma fcard_balance:
  assumes "P' |\<subseteq>| P |\<union>| C" and "P |\<inter>| C = {||}"
  shows "int (fcard P) + int (fcard C) - int (fcard ((P |\<union>| C) |-| P')) = int (fcard P')"
proof -
  have "card (fset P \<union> fset C) = card (fset P) + card (fset C)"
    using assms(2) by (intro card_Un_disjoint) (auto simp: fset_eq_iff)
  moreover have sub: "fset P' \<subseteq> fset P \<union> fset C" using assms(1) by auto
  moreover from sub have "card (fset P') \<le> card (fset P \<union> fset C)" by (intro card_mono) simp_all
  moreover from sub have "card (fset P \<union> fset C - fset P') = card (fset P \<union> fset C) - card (fset P')"
    by (intro card_Diff_subset) simp_all
  ultimately show ?thesis by (simp add: fcard.rep_eq)
qed

lemma life_step_ok [inv_intros]:
  assumes "life_ok s"
  shows "life_ok (life_step qt x s)"
proof -
  let ?t = "life_effect qt x s"
  note eff = life_effect_ok [OF assms, where qt = qt and x = x]
  have ok: "db_ok (clDb s)" "\<And>r. r \<in> set (clHeld s) \<Longrightarrow> r < length (dbHeap (clDb s))"
    using assms by (auto simp: life_ok_def)
  have len: "length (dbHeap (clDb s)) \<le> length (dbHeap (fst ?t))"
    using eff(2) by (simp add: no_new_refs_def)
  have placed: "r < length (dbHeap db)" if "db_ok db" "all_ref db p = Some r" for db p r
    using that unfolding db_ok_def refs_valid_def by blast
  have "pointed (fst ?t) (snd ?t) |\<subseteq>| pointed (clDb s) (clHeld s) |\<union>| created (clDb s) (fst ?t)"
    using eff(2,3) by (auto simp: pointed_iff no_new_refs_def) blast+
  moreover have "pointed (clDb s) (clHeld s) |\<inter>| created (clDb s) (fst ?t) = {||}"
    using ok placed [OF ok(1)] by (fastforce simp: pointed_iff)
  ultimately have "clInstanceCount (life_step qt x s) = int (fcard (pointed (fst ?t) (snd ?t)))"
    using fcard_balance assms by (simp add: life_step_def destroyed_def life_ok_def Let_def)
  moreover have "\<forall>r \<in> set (snd ?t). r < length (dbHeap (fst ?t))"
    using eff(3) ok(2) len placed [OF eff(1)] by fastforce
  ultimately show ?thesis using eff(1) by (simp add: life_ok_def life_step_def Let_def)
qed

definition life_run :: "qt_lib \<Rightarrow> life_op list \<Rightarrow> component_life" where
  "life_run qt xs = fold (life_step qt) xs life_new"

lemma life_new_ok: "life_ok life_new"
  by (auto simp: life_ok_def life_new_def pointed_def table_refs_def database_new_def qvalues_def
      List.map_filter_def intro: database_new_ok [unfolded database_new_def])

lemma life_run_ok: "life_ok (life_run qt xs)"
proof -
  have "life_ok s \<Longrightarrow> life_ok (fold (life_step qt) xs s)" for s
    by (induction xs arbitrary: s) (simp_all add: life_step_ok)
  then show ?thesis by (simp add: life_run_def life_new_ok)
qed

text \<open>The places of a database: what is present and what is future, by entity and name.\<close>

definition places :: "database \<Rightarrow> (bool \<times> int \<times> string) set" where
  "places db = {p. all_ref db p \<noteq> None}"

text \<open>Objects that only callers hold.\<close>

definition only_held :: "database \<Rightarrow> component_ref list \<Rightarrow> component_ref set" where
  "only_held db held = {r \<in> set held. \<forall>p. all_ref db p \<noteq> Some r}"

lemma pointed_places:
  assumes "db_ok db"
  shows "fcard (pointed db held) = card (places db) + card (only_held db held)"
proof -
  let ?f = "\<lambda>p. the (all_ref db p)"
  have "inj_on ?f (places db)"
  proof (rule inj_onI)
    fix p q
    assume "p \<in> places db" and "q \<in> places db" and "?f p = ?f q"
    then have "all_ref db p = Some (?f p)" and "all_ref db q = Some (?f p)"
      unfolding places_def by auto
    then show "p = q" using assms unfolding db_ok_def refs_unshared_def by blast
  qed
  then have "card (?f ` places db) = card (places db)" by (rule card_image)
  moreover have img: "?f ` places db = {r. \<exists>p. all_ref db p = Some r}"
    by (force simp: places_def)
  moreover have "fset (pointed db held) = {r. \<exists>p. all_ref db p = Some r} \<union> only_held db held"
    by (auto simp: only_held_def pointed_iff)
  moreover from this have "card (fset (pointed db held)) =
      card {r. \<exists>p. all_ref db p = Some r} + card (only_held db held)"
    using finite_fset [of "pointed db held"] by (simp only:) (rule card_Un_disjoint, auto simp: only_held_def)
  ultimately show ?thesis by (simp add: fcard.rep_eq)
qed

text \<open>
  C9. Component objects are neither leaked nor destroyed too early: after any history of insertions,
  removals, requests for components and releases, the counter of instances is the number of
  components present and future, and of the removed ones that a caller still holds.
\<close>

theorem component_instances_exact:
  "getInstanceCount_components (life_run qt xs) =
     int (card (places (clDb (life_run qt xs))) +
          card (only_held (clDb (life_run qt xs)) (clHeld (life_run qt xs))))"
  using life_run_ok [of qt xs] pointed_places
  by (simp add: life_ok_def getInstanceCount_components_def)

end
