(* ===== verification/TaskItems.thy ===== *)
theory TaskItems
  imports CmdHandler Tasks
begin

text \<open>
  convenient-code/lib/tasks, with the command event handler: the items that the tasks register when
  they are constructed and take back when they are destroyed. Items are objects with addresses, held
  by shared pointers. Tasks are destroyed by their containers and owners at times of their choosing,
  also from inside the loop over the items of an event; the lemmas show that the registered items are
  at any time those of the tasks that are alive.
\<close>

section \<open>Contents of a container\<close>

text \<open>
  What a container holds up to the removals it has put off: while it is iterated over, a removed item
  stays in the set until the end of the loop.
\<close>

definition holds :: "'a safe_set \<Rightarrow> 'a set \<Rightarrow> bool" where
  "holds c L \<longleftrightarrow> set (slItems c) - set (slToDelete c) = L \<and> (\<not> slInIteration c \<longrightarrow> slToDelete c = [])"

definition apart :: "'a safe_set \<Rightarrow> 'a \<Rightarrow> bool" where
  "apart c x \<longleftrightarrow> x \<notin> set (slItems c) \<and> x \<notin> set (slToDelete c)"

named_theorems holds_intros "operations of a container in terms of what it holds"

lemma holds_new [holds_intros]: "holds safe_set_new {}"
  by (simp add: holds_def safe_set_new_def)

lemma holds_add [holds_intros]:
  "holds c L \<Longrightarrow> apart c x \<Longrightarrow> holds (sl_addItem pos x c) (insert x L)"
proof -
  have "slToDelete (sl_addItem pos x c) = slToDelete c" "slInIteration (sl_addItem pos x c) = slInIteration c"
    by (simp_all add: sl_addItem_def)
  then show "holds c L \<Longrightarrow> apart c x \<Longrightarrow> holds (sl_addItem pos x c) (insert x L)"
    by (auto simp: holds_def apart_def)
qed

lemma holds_remove [holds_intros]: "holds c L \<Longrightarrow> holds (sl_removeItem x c) (L - {x})"
  by (auto simp: holds_def sl_removeItem_def)

lemma holds_first [holds_intros]: "holds c L \<Longrightarrow> holds (snd (getFirst c)) L"
  by (simp add: holds_def getFirst_def Let_def)

lemma holds_next [holds_intros]:
  assumes "holds c L"
  shows "holds (snd (getNext c)) L"
proof -
  have "holds (doDeletions (d\<lparr>slInIteration := False\<rparr>)) L" if "holds d L" for d
    using that by (auto simp: holds_def doDeletions_items)
  moreover have "holds (c\<lparr>slActual := a\<rparr>) L" for a
    using assms by (simp add: holds_def)
  ultimately show ?thesis
    using assms by (simp add: getNext_def Let_def split: option.split)
qed

lemma holds_idle: "holds c L \<Longrightarrow> \<not> slInIteration c \<Longrightarrow> set (slItems c) = L"
  by (auto simp: holds_def)

section \<open>Contents of a registry\<close>

definition reg_holds :: "('i \<Rightarrow> 'k) \<Rightarrow> ('k, 'i) registry \<Rightarrow> 'i set \<Rightarrow> bool" where
  "reg_holds key r L \<longleftrightarrow> (\<forall>k. holds (reg_container r k) {x \<in> L. key x = k})"

lemma reg_holdsD: "reg_holds key r L \<Longrightarrow> holds (reg_container r k) {x \<in> L. key x = k}"
  by (simp add: reg_holds_def)

lemma reg_holds_empty [holds_intros]: "reg_holds key fmempty {}"
  by (simp add: reg_holds_def reg_container_def holds_new)

lemma reg_holds_add [holds_intros]:
  assumes "reg_holds key r L" and "apart (reg_container r (key x)) x"
  shows "reg_holds key (reg_addItem key pos x r) (insert x L)"
proof -
  have "{y \<in> insert x L. key y = key x} = insert x {y \<in> L. key y = key x}"
    and "k \<noteq> key x \<Longrightarrow> {y \<in> insert x L. key y = k} = {y \<in> L. key y = k}" for k
    by auto
  then show ?thesis
    using reg_holdsD [OF assms(1)] holds_add [OF reg_holdsD [OF assms(1)] assms(2)]
    by (auto simp: reg_holds_def reg_addItem_def)
qed

lemma reg_holds_remove [holds_intros]:
  assumes "reg_holds key r L"
  shows "reg_holds key (reg_removeItem key x r) (L - {x})"
proof -
  have "{y \<in> L - {x}. key y = key x} = {y \<in> L. key y = key x} - {x}"
    and "k \<noteq> key x \<Longrightarrow> {y \<in> L - {x}. key y = k} = {y \<in> L. key y = k}" for k
    by auto
  then show ?thesis
    using reg_holdsD [OF assms] holds_remove [OF reg_holdsD [OF assms]]
    by (auto simp: reg_holds_def reg_removeItem_def)
qed

lemma reg_holds_container:
  assumes "reg_holds key r L" and "holds c {x \<in> L. key x = k}"
  shows "reg_holds key (fmupd k c r) L"
  using assms by (simp add: reg_holds_def)

lemmas reg_holds_iter [holds_intros] =
  reg_holds_container [OF _ holds_first [OF reg_holdsD]]
  reg_holds_container [OF _ holds_next [OF reg_holdsD]]

section \<open>Items and their event system\<close>

text \<open>
  Items of the handler system by their address, with the entity they report: the entity item of a
  task, a subscriber, an invoker. Component items (fetchers and setters) are an address and the
  component's name; they are registered with an entity item.
\<close>

datatype task_item = TiEntity nat int | TiSubscriber nat int | TiInvoker nat int

primrec ti_ptr :: "task_item \<Rightarrow> nat" where
  "ti_ptr (TiEntity p i) = p"
| "ti_ptr (TiSubscriber p i) = p"
| "ti_ptr (TiInvoker p i) = p"

primrec ti_entityId :: "task_item \<Rightarrow> int" where
  "ti_entityId (TiEntity p i) = i"
| "ti_entityId (TiSubscriber p i) = i"
| "ti_entityId (TiInvoker p i) = i"

text \<open>
  The handler system, the items whose \<^verbatim>\<open>m_eventSystem\<close> is set, the entity items (entity and
  component items of each), and the events sent.
\<close>

record item_world =
  iwHandler :: "task_item cmd_handler"
  iwSystems :: "nat fset"
  iwEntityItems :: "(nat, int \<times> (string, nat \<times> string) registry) qmap"
  iwSent :: "vein_event list"

definition item_world_new :: "event_subtype \<Rightarrow> item_world" where
  "item_world_new f =
     \<lparr> iwHandler = cmd_handler_new f, iwSystems = {||}, iwEntityItems = fmempty, iwSent = [] \<rparr>"

text \<open>A new item has no event system.\<close>

definition eventItem_new :: "nat \<Rightarrow> item_world \<Rightarrow> item_world" where
  "eventItem_new p w = w\<lparr>iwSystems := iwSystems w |-| {|p|}\<rparr>"

definition setEventSystem :: "nat \<Rightarrow> item_world \<Rightarrow> item_world" where
  "setEventSystem p w = w\<lparr>iwSystems := finsert p (iwSystems w)\<rparr>"

text \<open>Sending uses the event system; without one that is a null pointer (\<open>None\<close>).\<close>

definition item_sendEvent :: "nat \<Rightarrow> vein_event \<Rightarrow> item_world \<Rightarrow> item_world option" where
  "item_sendEvent p e w =
     (if p |\<in>| iwSystems w then Some (w\<lparr>iwSent := iwSent w @ [e]\<rparr>) else None)"

definition component_sendEvent :: "nat \<Rightarrow> vein_event \<Rightarrow> item_world \<Rightarrow> item_world option" where
  "component_sendEvent ep e w = item_sendEvent ep e w"

definition entityItem_new :: "nat \<Rightarrow> int \<Rightarrow> item_world \<Rightarrow> item_world" where
  "entityItem_new p i w =
     (eventItem_new p w)\<lparr>iwEntityItems := fmupd p (i, fmempty) (iwEntityItems w)\<rparr>"

definition component_entityId :: "nat \<Rightarrow> item_world \<Rightarrow> int" where
  "component_entityId ep w = fst (qvalue (iwEntityItems w) ep (0, fmempty))"

definition component_registry :: "nat \<Rightarrow> item_world \<Rightarrow> (string, nat \<times> string) registry" where
  "component_registry ep w = snd (qvalue (iwEntityItems w) ep (0, fmempty))"

definition put_registry :: "nat \<Rightarrow> (string, nat \<times> string) registry \<Rightarrow> item_world \<Rightarrow> item_world" where
  "put_registry ep r w = w\<lparr>iwEntityItems := fmupd ep (component_entityId ep w, r) (iwEntityItems w)\<rparr>"

text \<open>\<^verbatim>\<open>VfCmdEventHandlerSystem\<close>.\<close>

definition system_addItem :: "nat \<Rightarrow> task_item \<Rightarrow> item_world \<Rightarrow> item_world" where
  "system_addItem pos x w =
     (let w1 = setEventSystem (ti_ptr x) w
      in w1\<lparr>iwHandler := ch_addItem ti_entityId pos x (iwHandler w1)\<rparr>)"

definition system_removeItem :: "task_item \<Rightarrow> item_world \<Rightarrow> item_world" where
  "system_removeItem x w = w\<lparr>iwHandler := ch_removeItem ti_entityId x (iwHandler w)\<rparr>"

section \<open>Construction, start and destruction of tasks\<close>

text \<open>Addresses of new items and their places in the containers are inputs.\<close>

definition fetcherTask_new :: "nat \<Rightarrow> nat \<Rightarrow> nat \<Rightarrow> string \<Rightarrow> item_world \<Rightarrow> item_world" where
  "fetcherTask_new p pos ep n w =
     put_registry ep (eci_addItem snd pos (p, n) (component_registry ep w)) w"

definition fetcherTask_destroy :: "nat \<Rightarrow> nat \<Rightarrow> string \<Rightarrow> item_world \<Rightarrow> item_world" where
  "fetcherTask_destroy p ep n w =
     put_registry ep (eci_removeItem snd (p, n) (component_registry ep w)) w"

definition startGetComponent :: "nat \<Rightarrow> string \<Rightarrow> item_world \<Rightarrow> item_world option" where
  "startGetComponent ep n w =
     component_sendEvent ep (fetcher_generateEvent (component_entityId ep w) n) w"

definition setterTask_new :: "nat \<Rightarrow> nat \<Rightarrow> nat \<Rightarrow> string \<Rightarrow> item_world \<Rightarrow> item_world" where
  "setterTask_new p pos ep n w =
     put_registry ep (eci_addItem snd pos (p, n) (component_registry ep w)) w"

definition setterTask_destroy :: "nat \<Rightarrow> nat \<Rightarrow> string \<Rightarrow> item_world \<Rightarrow> item_world" where
  "setterTask_destroy p ep n w =
     put_registry ep (eci_removeItem snd (p, n) (component_registry ep w)) w"

definition setterTask_start ::
  "qt_lib \<Rightarrow> nat \<Rightarrow> string \<Rightarrow> qvariant \<Rightarrow> qvariant \<Rightarrow> item_world \<Rightarrow> item_world option" where
  "setterTask_start qt ep n oldV newV w =
     (case fst (startSetComponent qt (component_entityId ep w) n oldV newV) of
        [] \<Rightarrow> Some w
      | e # _ \<Rightarrow> component_sendEvent ep e w)"

definition subscribeTask_new :: "nat \<Rightarrow> nat \<Rightarrow> int \<Rightarrow> item_world \<Rightarrow> item_world" where
  "subscribeTask_new p pos i w = system_addItem pos (TiSubscriber p i) (eventItem_new p w)"

definition subscribeTask_destroy :: "nat \<Rightarrow> int \<Rightarrow> item_world \<Rightarrow> item_world" where
  "subscribeTask_destroy p i w = system_removeItem (TiSubscriber p i) w"

definition sendSubscription :: "nat \<Rightarrow> int \<Rightarrow> item_world \<Rightarrow> item_world option" where
  "sendSubscription p i w = item_sendEvent p (subscriber_generateEvent i) w"

definition rpcTask_new :: "nat \<Rightarrow> nat \<Rightarrow> int \<Rightarrow> item_world \<Rightarrow> item_world" where
  "rpcTask_new p pos i w = system_addItem pos (TiInvoker p i) (eventItem_new p w)"

definition rpcTask_destroy :: "nat \<Rightarrow> int \<Rightarrow> item_world \<Rightarrow> item_world" where
  "rpcTask_destroy p i w = system_removeItem (TiInvoker p i) w"

definition rpcTask_start ::
  "qt_lib \<Rightarrow> quuid \<Rightarrow> nat \<Rightarrow> int \<Rightarrow> string \<Rightarrow> qvariant_map \<Rightarrow> item_world \<Rightarrow> item_world option" where
  "rpcTask_start qt ident p i name params w =
     item_sendEvent p (client_rpc_generateEvent i (parseRpcParams qt name params) params ident) w"

text \<open>
  The composed tasks. Three of them own an entity item that is registered for as long as they
  live; the tasks they are made of are destroyed by their containers.
\<close>

definition entityOwner_new :: "nat \<Rightarrow> nat \<Rightarrow> int \<Rightarrow> item_world \<Rightarrow> item_world" where
  "entityOwner_new ep pos i w = system_addItem pos (TiEntity ep i) (entityItem_new ep i w)"

definition simpleGetter_new ::
  "nat \<times> nat \<Rightarrow> nat \<times> nat \<Rightarrow> nat \<times> nat \<Rightarrow> int \<Rightarrow> string \<Rightarrow> item_world \<Rightarrow> item_world" where
  "simpleGetter_new e s f i n w =
     fetcherTask_new (fst f) (snd f) (fst e) n
       (subscribeTask_new (fst s) (snd s) i (entityOwner_new (fst e) (snd e) i w))"

definition simpleGetter_destroy :: "nat \<Rightarrow> int \<Rightarrow> item_world \<Rightarrow> item_world" where
  "simpleGetter_destroy ep i w = system_removeItem (TiEntity ep i) w"

definition simpleSetter_new ::
  "nat \<times> nat \<Rightarrow> nat \<times> nat \<Rightarrow> nat \<times> nat \<Rightarrow> int \<Rightarrow> string \<Rightarrow> item_world \<Rightarrow> item_world" where
  "simpleSetter_new e s f i n w =
     fetcherTask_new (fst f) (snd f) (fst e) n
       (subscribeTask_new (fst s) (snd s) i (entityOwner_new (fst e) (snd e) i w))"

definition simpleSetter_destroy :: "nat \<Rightarrow> int \<Rightarrow> item_world \<Rightarrow> item_world" where
  "simpleSetter_destroy ep i w = system_removeItem (TiEntity ep i) w"

definition entityGetter_new :: "nat \<times> nat \<Rightarrow> nat \<times> nat \<Rightarrow> int \<Rightarrow> item_world \<Rightarrow> item_world" where
  "entityGetter_new e s i w =
     subscribeTask_new (fst s) (snd s) i (entityOwner_new (fst e) (snd e) i w)"

definition entityGetter_destroy :: "nat \<Rightarrow> int \<Rightarrow> item_world \<Rightarrow> item_world" where
  "entityGetter_destroy ep i w = system_removeItem (TiEntity ep i) w"

definition simpleInvoker_new :: "nat \<times> nat \<Rightarrow> nat \<times> nat \<Rightarrow> int \<Rightarrow> item_world \<Rightarrow> item_world" where
  "simpleInvoker_new s r i w = rpcTask_new (fst r) (snd r) i (subscribeTask_new (fst s) (snd s) i w)"

section \<open>Tasks that are alive\<close>

text \<open>
  Tasks by the address of their item. A composed task that owns an entity item stands for its own
  registration; the tasks it is made of stand for themselves, since their container destroys them.
\<close>

datatype task_object =
    FetcherTask nat nat string
  | SetterTask nat nat string qvariant qvariant
  | SubscribeTask nat int
  | RpcTask nat int string qvariant_map
  | EntityOwner nat int

primrec task_ptr :: "task_object \<Rightarrow> nat" where
  "task_ptr (FetcherTask p ep n) = p"
| "task_ptr (SetterTask p ep n a b) = p"
| "task_ptr (SubscribeTask p i) = p"
| "task_ptr (RpcTask p i n m) = p"
| "task_ptr (EntityOwner p i) = p"

text \<open>The item whose event system the events of a task go through.\<close>

primrec task_sender :: "task_object \<Rightarrow> nat" where
  "task_sender (FetcherTask p ep n) = ep"
| "task_sender (SetterTask p ep n a b) = ep"
| "task_sender (SubscribeTask p i) = p"
| "task_sender (RpcTask p i n m) = p"
| "task_sender (EntityOwner p i) = p"

primrec handler_item :: "task_object \<Rightarrow> task_item option" where
  "handler_item (FetcherTask p ep n) = None"
| "handler_item (SetterTask p ep n a b) = None"
| "handler_item (SubscribeTask p i) = Some (TiSubscriber p i)"
| "handler_item (RpcTask p i n m) = Some (TiInvoker p i)"
| "handler_item (EntityOwner p i) = Some (TiEntity p i)"

primrec component_item :: "nat \<Rightarrow> task_object \<Rightarrow> (nat \<times> string) option" where
  "component_item e (FetcherTask p ep n) = (if e = ep then Some (p, n) else None)"
| "component_item e (SetterTask p ep n a b) = (if e = ep then Some (p, n) else None)"
| "component_item e (SubscribeTask p i) = None"
| "component_item e (RpcTask p i n m) = None"
| "component_item e (EntityOwner p i) = None"

definition picked :: "('a \<Rightarrow> 'b option) \<Rightarrow> 'a set \<Rightarrow> 'b set" where
  "picked g L = {x. \<exists>t \<in> L. g t = Some x}"

definition handler_items :: "task_object set \<Rightarrow> task_item set" where
  "handler_items L = picked handler_item L"

definition component_items :: "nat \<Rightarrow> task_object set \<Rightarrow> (nat \<times> string) set" where
  "component_items ep L = picked (component_item ep) L"

fun task_new :: "nat \<Rightarrow> task_object \<Rightarrow> item_world \<Rightarrow> item_world" where
  "task_new pos (FetcherTask p ep n) = fetcherTask_new p pos ep n"
| "task_new pos (SetterTask p ep n a b) = setterTask_new p pos ep n"
| "task_new pos (SubscribeTask p i) = subscribeTask_new p pos i"
| "task_new pos (RpcTask p i n m) = rpcTask_new p pos i"
| "task_new pos (EntityOwner p i) = entityOwner_new p pos i"

fun task_destroy :: "task_object \<Rightarrow> item_world \<Rightarrow> item_world" where
  "task_destroy (FetcherTask p ep n) = fetcherTask_destroy p ep n"
| "task_destroy (SetterTask p ep n a b) = setterTask_destroy p ep n"
| "task_destroy (SubscribeTask p i) = subscribeTask_destroy p i"
| "task_destroy (RpcTask p i n m) = rpcTask_destroy p i"
| "task_destroy (EntityOwner p i) = simpleGetter_destroy p i"

text \<open>Starting the owner of an entity item starts the first of its tasks, nothing of its own.\<close>

fun task_start :: "qt_lib \<Rightarrow> quuid \<Rightarrow> task_object \<Rightarrow> item_world \<Rightarrow> item_world option" where
  "task_start qt ident (FetcherTask p ep n) = startGetComponent ep n"
| "task_start qt ident (SetterTask p ep n a b) = setterTask_start qt ep n a b"
| "task_start qt ident (SubscribeTask p i) = sendSubscription p i"
| "task_start qt ident (RpcTask p i n m) = rpcTask_start qt ident p i n m"
| "task_start qt ident (EntityOwner p i) = Some"

text \<open>
  An address is free when no task that is alive uses it for its item or its entity item, and no
  container still holds an item there.
\<close>

definition free_ptr :: "nat \<Rightarrow> item_world \<Rightarrow> task_object set \<Rightarrow> bool" where
  "free_ptr p w L \<longleftrightarrow>
     (\<forall>t \<in> L. p \<noteq> task_ptr t \<and> p \<noteq> task_sender t) \<and>
     (\<forall>k x. ti_ptr x = p \<longrightarrow> apart (reg_container (chItems (iwHandler w)) k) x) \<and>
     (\<forall>ep k n. apart (reg_container (component_registry ep w) k) (p, n))"

text \<open>
  A task that works on a component is made with an entity item that some task alive uses: with
  the entity item of its owner.
\<close>

primrec task_entity :: "task_object \<Rightarrow> nat option" where
  "task_entity (FetcherTask p ep n) = Some ep"
| "task_entity (SetterTask p ep n a b) = Some ep"
| "task_entity (SubscribeTask p i) = None"
| "task_entity (RpcTask p i n m) = None"
| "task_entity (EntityOwner p i) = Some p"

fun has_entity :: "task_object set \<Rightarrow> task_object \<Rightarrow> bool" where
  "has_entity L (FetcherTask p ep n) = (Some ep \<in> task_entity ` L)"
| "has_entity L (SetterTask p ep n a b) = (Some ep \<in> task_entity ` L)"
| "has_entity L t = True"

text \<open>
  What happens: tasks are constructed, started and destroyed; and the loops over the items of an
  event, in the handler and in entity items, make their steps, so that the other steps may come
  between them.
\<close>

definition put_items :: "(int, task_item) registry \<Rightarrow> item_world \<Rightarrow> item_world" where
  "put_items r w = w\<lparr>iwHandler := (iwHandler w)\<lparr>chItems := r\<rparr>\<rparr>"

definition loop_step :: "('i safe_set \<Rightarrow> 'i option \<times> 'i safe_set) \<Rightarrow> bool" where
  "loop_step f \<longleftrightarrow> f = getFirst \<or> f = getNext"

inductive item_reach :: "event_subtype \<Rightarrow> item_world \<Rightarrow> task_object set \<Rightarrow> bool"
  for f :: event_subtype where
  start: "item_reach f (item_world_new f) {}"
| construct: "item_reach f w L \<Longrightarrow> free_ptr (task_ptr t) w L \<Longrightarrow> has_entity L t \<Longrightarrow>
    item_reach f (task_new pos t w) (insert t L)"
| launch: "item_reach f w L \<Longrightarrow> t \<in> L \<Longrightarrow> task_start qt ident t w = Some w' \<Longrightarrow> item_reach f w' L"
| destroy: "item_reach f w L \<Longrightarrow> t \<in> L \<Longrightarrow> item_reach f (task_destroy t w) (L - {t})"
| loop: "item_reach f w L \<Longrightarrow> loop_step g \<Longrightarrow>
    item_reach f (put_items (fmupd k (snd (g (reg_container (chItems (iwHandler w)) k)))
      (chItems (iwHandler w))) w) L"
| component_loop: "item_reach f w L \<Longrightarrow> qcontains (iwEntityItems w) ep \<Longrightarrow> loop_step g \<Longrightarrow>
    item_reach f (put_registry ep (fmupd n (snd (g (reg_container (component_registry ep w) n)))
      (component_registry ep w)) w) L"

section \<open>The invariant\<close>

definition registered_ok :: "item_world \<Rightarrow> task_object set \<Rightarrow> bool" where
  "registered_ok w L \<longleftrightarrow>
     inj_on task_ptr L \<and>
     reg_holds ti_entityId (chItems (iwHandler w)) (handler_items L) \<and>
     (\<forall>ep. reg_holds snd (component_registry ep w) (component_items ep L)) \<and>
     (\<forall>t \<in> L. task_sender t |\<in>| iwSystems w)"

lemma picked_empty [simp]: "picked g {} = {}"
  by (simp add: picked_def)

lemma picked_insert:
  "picked g (insert t L) = (case g t of None \<Rightarrow> picked g L | Some x \<Rightarrow> insert x (picked g L))"
  by (auto simp: picked_def split: option.split)

lemma picked_remove:
  assumes "\<And>s x. s \<in> L \<Longrightarrow> g s = Some x \<Longrightarrow> g t = Some x \<Longrightarrow> s = t"
  shows "picked g (L - {t}) = (case g t of None \<Rightarrow> picked g L | Some x \<Rightarrow> picked g L - {x})"
proof (cases "g t")
  case None
  then show ?thesis by (auto simp: picked_def)
next
  case (Some x)
  have "g s = Some y \<and> s \<noteq> t \<longleftrightarrow> g s = Some y \<and> y \<noteq> x" if "s \<in> L" for s y
    using assms [OF that] Some by auto
  then show ?thesis using Some by (auto simp: picked_def)
qed

lemma handler_item_ptr: "handler_item t = Some x \<Longrightarrow> ti_ptr x = task_ptr t"
  by (cases t) auto

lemma component_item_ptr: "component_item ep t = Some x \<Longrightarrow> fst x = task_ptr t"
  by (cases t) (auto split: if_splits)

lemmas items_insert =
  picked_insert [of handler_item, folded handler_items_def]
  picked_insert [of "component_item ep" for ep, folded component_items_def]

lemma items_remove:
  assumes "inj_on task_ptr L" and "t \<in> L"
  shows "handler_items (L - {t}) =
      (case handler_item t of None \<Rightarrow> handler_items L | Some x \<Rightarrow> handler_items L - {x})"
    and "component_items ep (L - {t}) =
      (case component_item ep t of None \<Rightarrow> component_items ep L | Some y \<Rightarrow> component_items ep L - {y})"
proof -
  have inj: "s \<in> L \<Longrightarrow> task_ptr s = task_ptr t \<Longrightarrow> s = t" for s
    using assms by (auto dest: inj_onD)
  show "handler_items (L - {t}) =
      (case handler_item t of None \<Rightarrow> handler_items L | Some x \<Rightarrow> handler_items L - {x})"
    unfolding handler_items_def by (rule picked_remove, rule inj) (auto dest!: handler_item_ptr)
  show "component_items ep (L - {t}) =
      (case component_item ep t of None \<Rightarrow> component_items ep L | Some y \<Rightarrow> component_items ep L - {y})"
    unfolding component_items_def by (rule picked_remove, rule inj) (auto dest!: component_item_ptr)
qed

lemma put_registry_simps [simp]:
  "component_registry e (put_registry ep r w) = (if e = ep then r else component_registry e w)"
  "iwHandler (put_registry ep r w) = iwHandler w" "iwSystems (put_registry ep r w) = iwSystems w"
  by (simp_all add: component_registry_def put_registry_def)

lemma eventItem_new_simps [simp]:
  "iwHandler (eventItem_new p w) = iwHandler w"
  "iwSystems (eventItem_new p w) = iwSystems w |-| {|p|}"
  "component_registry e (eventItem_new p w) = component_registry e w"
  by (simp_all add: eventItem_new_def component_registry_def)

lemma entityItem_new_simps [simp]:
  "iwHandler (entityItem_new p i w) = iwHandler w"
  "iwSystems (entityItem_new p i w) = iwSystems w |-| {|p|}"
  "component_registry e (entityItem_new p i w) = (if e = p then fmempty else component_registry e w)"
  by (simp_all add: entityItem_new_def component_registry_def)

lemma system_addItem_simps [simp]:
  "chItems (iwHandler (system_addItem pos x w)) = reg_addItem ti_entityId pos x (chItems (iwHandler w))"
  "iwSystems (system_addItem pos x w) = finsert (ti_ptr x) (iwSystems w)"
  "component_registry e (system_addItem pos x w) = component_registry e w"
  by (simp_all add: system_addItem_def setEventSystem_def ch_addItem_def component_registry_def)

lemma system_removeItem_simps [simp]:
  "chItems (iwHandler (system_removeItem x w)) = reg_removeItem ti_entityId x (chItems (iwHandler w))"
  "iwSystems (system_removeItem x w) = iwSystems w"
  "component_registry e (system_removeItem x w) = component_registry e w"
  by (simp_all add: system_removeItem_def ch_removeItem_def component_registry_def)

lemma put_items_simps [simp]:
  "chItems (iwHandler (put_items r w)) = r" "iwSystems (put_items r w) = iwSystems w"
  "component_registry e (put_items r w) = component_registry e w"
  by (simp_all add: put_items_def component_registry_def)

lemmas task_new_defs = fetcherTask_new_def setterTask_new_def subscribeTask_new_def rpcTask_new_def
  entityOwner_new_def eci_addItem_def
lemmas task_destroy_defs = fetcherTask_destroy_def setterTask_destroy_def subscribeTask_destroy_def
  rpcTask_destroy_def simpleGetter_destroy_def eci_removeItem_def

lemma registered_okD:
  assumes "registered_ok w L"
  shows "inj_on task_ptr L" and "reg_holds ti_entityId (chItems (iwHandler w)) (handler_items L)"
    and "reg_holds snd (component_registry ep w) (component_items ep L)"
    and "t \<in> L \<Longrightarrow> task_sender t |\<in>| iwSystems w"
  using assms by (simp_all add: registered_ok_def)

lemma entity_sender: "task_entity t = Some ep \<Longrightarrow> task_sender t = ep"
  by (cases t) auto

lemma no_component_items: "\<forall>t \<in> L. p \<noteq> task_sender t \<Longrightarrow> component_items p L = {}"
proof -
  have "component_item p t = Some x \<Longrightarrow> p = task_sender t" for t x
    by (cases t) (auto split: if_splits)
  then show "\<forall>t \<in> L. p \<noteq> task_sender t \<Longrightarrow> component_items p L = {}"
    by (auto simp: component_items_def picked_def)
qed

lemma registered_ok_new:
  assumes ok: "registered_ok w L" and free: "free_ptr (task_ptr t) w L" and ent: "has_entity L t"
  shows "registered_ok (task_new pos t w) (insert t L)"
proof -
  have apart: "ti_ptr x = task_ptr t \<Longrightarrow> apart (reg_container (chItems (iwHandler w)) k) x"
    "apart (reg_container (component_registry ep w) n) (task_ptr t, n)" for x k ep n
    using free by (simp_all add: free_ptr_def)
  have "inj_on task_ptr (insert t L)"
    using registered_okD(1) [OF ok] free by (auto simp: free_ptr_def inj_on_def)
  moreover have "Some ep \<in> task_entity ` L \<Longrightarrow> ep |\<in>| iwSystems w" for ep
    using registered_okD(4) [OF ok] entity_sender by (metis imageE)
  then have "task_sender t |\<in>| iwSystems (task_new pos t w)"
    using ent by (cases t) (simp_all add: task_new_defs)
  moreover have "s \<in> L \<Longrightarrow> task_sender s |\<in>| iwSystems (task_new pos t w)" for s
    using registered_okD(4) [OF ok] free by (cases t) (auto simp: task_new_defs free_ptr_def)
  moreover have "reg_holds ti_entityId (chItems (iwHandler (task_new pos t w))) (handler_items (insert t L))"
    using registered_okD(2) [OF ok] by (cases t) (auto simp: task_new_defs items_insert apart intro!: holds_intros)
  moreover have "reg_holds snd (component_registry ep (task_new pos t w)) (component_items ep (insert t L))" for ep
    using registered_okD(3) [OF ok, of ep] no_component_items [of L "task_ptr t"] free apart(2)
    by (cases t) (auto simp: task_new_defs items_insert free_ptr_def intro!: holds_intros)
  ultimately show ?thesis by (auto simp: registered_ok_def)
qed

lemma registered_ok_destroy:
  assumes ok: "registered_ok w L" and t: "t \<in> L"
  shows "registered_ok (task_destroy t w) (L - {t})"
proof -
  have "inj_on task_ptr (L - {t})" using registered_okD(1) [OF ok] by (rule inj_on_diff)
  moreover have "s \<in> L - {t} \<Longrightarrow> task_sender s |\<in>| iwSystems (task_destroy t w)" for s
    using registered_okD(4) [OF ok] by (cases t) (auto simp: task_destroy_defs)
  moreover have "reg_holds ti_entityId (chItems (iwHandler (task_destroy t w))) (handler_items (L - {t}))"
    using registered_okD(2) [OF ok] items_remove(1) [OF registered_okD(1) [OF ok] t]
    by (cases t) (auto simp: task_destroy_defs intro!: holds_intros)
  moreover have "reg_holds snd (component_registry ep (task_destroy t w)) (component_items ep (L - {t}))" for ep
    using registered_okD(3) [OF ok, of ep] items_remove(2) [OF registered_okD(1) [OF ok] t, of ep]
    by (cases t) (auto simp: task_destroy_defs intro!: holds_intros)
  ultimately show ?thesis by (auto simp: registered_ok_def)
qed

lemma item_sendEvent_keeps:
  assumes "item_sendEvent p e w = Some w'"
  shows "iwHandler w' = iwHandler w" and "iwSystems w' = iwSystems w"
    and "component_registry ep w' = component_registry ep w"
  using assms by (auto simp: item_sendEvent_def component_registry_def split: if_splits)

lemmas task_start_defs = startGetComponent_def setterTask_start_def sendSubscription_def
  rpcTask_start_def component_sendEvent_def

lemma task_start_keeps:
  assumes "task_start qt ident t w = Some w'"
  shows "w' = w \<or> (\<exists>e. item_sendEvent (task_sender t) e w = Some w')"
  using assms by (cases t) (auto simp: task_start_defs split: list.splits)

lemma registered_ok_start: "registered_ok w L \<Longrightarrow> task_start qt ident t w = Some w' \<Longrightarrow> registered_ok w' L"
  using task_start_keeps [of qt ident t w w'] by (auto simp: registered_ok_def item_sendEvent_keeps)

lemma registered_ok_loop:
  "registered_ok w L \<Longrightarrow> loop_step g \<Longrightarrow>
   registered_ok (put_items (fmupd k (snd (g (reg_container (chItems (iwHandler w)) k)))
      (chItems (iwHandler w))) w) L"
  by (auto simp: registered_ok_def loop_step_def intro!: reg_holds_iter)

lemma registered_ok_component_loop:
  "registered_ok w L \<Longrightarrow> loop_step g \<Longrightarrow>
   registered_ok (put_registry ep (fmupd n (snd (g (reg_container (component_registry ep w) n)))
      (component_registry ep w)) w) L"
  by (auto simp: registered_ok_def loop_step_def intro!: reg_holds_iter)

lemma item_reach_ok: "item_reach f w L \<Longrightarrow> registered_ok w L"
proof (induction rule: item_reach.induct)
  case start
  then show ?case
    by (simp add: registered_ok_def item_world_new_def cmd_handler_new_def component_registry_def
        handler_items_def component_items_def holds_intros)
qed (rule registered_ok_new registered_ok_start registered_ok_destroy registered_ok_loop registered_ok_component_loop; assumption)+

text \<open>An address stays free when a task with another one is made.\<close>

lemma apart_addItem: "apart (sl_addItem pos y c) x \<longleftrightarrow> apart c x \<and> x \<noteq> y"
  by (simp add: apart_def) (auto simp: sl_addItem_def)

lemma apart_reg_addItem:
  "apart (reg_container (reg_addItem key pos y r) k) x \<longleftrightarrow>
     apart (reg_container r k) x \<and> (key y = k \<longrightarrow> x \<noteq> y)"
  by (auto simp: reg_addItem_def apart_addItem)

lemma apart_empty [simp]: "apart (reg_container fmempty k) x"
  by (simp add: apart_def reg_container_def safe_set_new_def)

lemma free_ptr_start: "free_ptr p (item_world_new f) {}"
  by (simp add: free_ptr_def item_world_new_def cmd_handler_new_def component_registry_def)

lemma free_ptr_new:
  assumes "free_ptr p w L" and "p \<noteq> task_ptr t" and "p \<noteq> task_sender t"
  shows "free_ptr p (task_new pos t w) (insert t L)"
  using assms
  by (cases t) (auto simp: free_ptr_def task_new_defs apart_reg_addItem split: if_splits)

text \<open>The constructors of the composed tasks are made of such steps.\<close>

lemma entityGetter_reach:
  assumes "item_reach f w L" and "free_ptr e w L" and "free_ptr s w L" and "s \<noteq> e"
  shows "item_reach f (entityGetter_new (e, ep) (s, sp) i w) ({SubscribeTask s i, EntityOwner e i} \<union> L)"
proof -
  have "item_reach f (task_new ep (EntityOwner e i) w) (insert (EntityOwner e i) L)"
    using assms by (intro construct) simp_all
  moreover have "free_ptr s (task_new ep (EntityOwner e i) w) (insert (EntityOwner e i) L)"
    using assms by (intro free_ptr_new) simp_all
  ultimately show ?thesis
    using construct [of f "task_new ep (EntityOwner e i) w" _ "SubscribeTask s i" sp]
    by (simp add: entityGetter_new_def)
qed

lemma simpleGetter_reach:
  assumes "item_reach f w L" and "free_ptr e w L" and "free_ptr s w L" and "free_ptr g w L"
    and "s \<noteq> e" and "g \<noteq> e" and "g \<noteq> s"
  shows "item_reach f (simpleGetter_new (e, ep) (s, sp) (g, gp) i n w)
      ({FetcherTask g e n, SubscribeTask s i, EntityOwner e i} \<union> L)"
proof -
  let ?w = "task_new sp (SubscribeTask s i) (task_new ep (EntityOwner e i) w)"
  let ?L = "insert (SubscribeTask s i) (insert (EntityOwner e i) L)"
  have "item_reach f ?w ?L" using entityGetter_reach [OF assms(1-3,5)] by (simp add: entityGetter_new_def)
  moreover have "free_ptr g ?w ?L" using assms by (intro free_ptr_new) simp_all
  ultimately show ?thesis
    using construct [of f ?w ?L "FetcherTask g e n" gp]
    by (simp add: simpleGetter_new_def)
qed

lemma simpleInvoker_reach:
  assumes "item_reach f w L" and "free_ptr s w L" and "free_ptr r w L" and "r \<noteq> s"
  shows "item_reach f (simpleInvoker_new (s, sp) (r, rp) i w) ({RpcTask r i n m, SubscribeTask s i} \<union> L)"
proof -
  have "item_reach f (task_new sp (SubscribeTask s i) w) (insert (SubscribeTask s i) L)"
    using assms by (intro construct) simp_all
  moreover have "free_ptr r (task_new sp (SubscribeTask s i) w) (insert (SubscribeTask s i) L)"
    using assms by (intro free_ptr_new) simp_all
  ultimately show ?thesis
    using construct [of f "task_new sp (SubscribeTask s i) w" _ "RpcTask r i n m" rp]
    by (simp add: simpleInvoker_new_def)
qed

section \<open>Properties\<close>

text \<open>
  C37. Tasks register what they need and leave nothing behind. Whatever tasks are constructed, started and
  destroyed in whatever order, also from inside the loops over the items of an event, the items
  registered for an entity are those of the tasks alive, up to removals that such a loop has put
  off, and exactly those when no loop is under way; the same holds of the items for a component of
  an entity item. And starting a task alive never uses a null event system.
\<close>

theorem task_items_exact:
  fixes w k ep n
  defines "c \<equiv> reg_container (chItems (iwHandler w)) k"
    and "d \<equiv> reg_container (component_registry ep w) n"
  assumes "item_reach f w L"
  shows "set (slItems c) - set (slToDelete c) = {x \<in> handler_items L. ti_entityId x = k} \<and>
    (slInIteration c \<or> set (slItems c) = {x \<in> handler_items L. ti_entityId x = k}) \<and>
    set (slItems d) - set (slToDelete d) = {x \<in> component_items ep L. snd x = n} \<and>
    (slInIteration d \<or> set (slItems d) = {x \<in> component_items ep L. snd x = n}) \<and>
    (\<forall>t \<in> L. task_start qt ident t w \<noteq> None)"
proof -
  note ok = item_reach_ok [OF assms(3)]
  have "holds c {x \<in> handler_items L. ti_entityId x = k}"
    using reg_holdsD [OF registered_okD(2) [OF ok]] by (simp add: c_def)
  moreover have "holds d {x \<in> component_items ep L. snd x = n}"
    using reg_holdsD [OF registered_okD(3) [OF ok]] by (simp add: d_def)
  moreover have "task_start qt ident t w \<noteq> None" if "t \<in> L" for t
    using registered_okD(4) [OF ok that]
    by (cases t) (auto simp: task_start_defs item_sendEvent_def split: list.splits)
  ultimately show ?thesis by (auto simp: holds_def)
qed

text \<open>
  A getter is made; the loop over the items of its entity begins, with the subscriber first, and
  the subscriber's task is destroyed meanwhile.
\<close>

definition example_getter :: item_world where
  "example_getter = simpleGetter_new (1, 0) (2, 0) (3, 0) 7 ''Value'' (item_world_new NOTIFICATION)"

definition example_in_loop :: item_world where
  "example_in_loop = subscribeTask_destroy 2 7
     (put_items (fmupd 7 (snd (getFirst (reg_container (chItems (iwHandler example_getter)) 7)))
        (chItems (iwHandler example_getter))) example_getter)"

lemma example_in_loop_reach:
  "item_reach NOTIFICATION example_in_loop {FetcherTask 3 1 ''Value'', EntityOwner 1 7}"
proof -
  let ?L = "{FetcherTask 3 1 ''Value'', SubscribeTask 2 7, EntityOwner 1 7}"
  let ?w = "put_items (fmupd 7 (snd (getFirst (reg_container (chItems (iwHandler example_getter)) 7)))
    (chItems (iwHandler example_getter))) example_getter"
  have "item_reach NOTIFICATION example_getter (?L \<union> {})"
    unfolding example_getter_def by (rule simpleGetter_reach) (simp_all add: start free_ptr_start)
  then have "item_reach NOTIFICATION ?w ?L"
    by (intro loop) (simp_all add: loop_step_def)
  then have "item_reach NOTIFICATION (task_destroy (SubscribeTask 2 7) ?w) (?L - {SubscribeTask 2 7})"
    by (rule destroy) simp
  moreover have "?L - {SubscribeTask 2 7} = {FetcherTask 3 1 ''Value'', EntityOwner 1 7}" by auto
  ultimately show ?thesis by (simp add: example_in_loop_def)
qed

lemma example_in_loop_items:
  "reg_container (chItems (iwHandler example_in_loop)) 7 =
   \<lparr> slItems = [TiSubscriber 2 7, TiEntity 1 7], slActual = Some (TiSubscriber 2 7),
     slInIteration = True, slToDelete = [TiSubscriber 2 7] \<rparr>"
  by (simp add: example_in_loop_def example_getter_def simpleGetter_new_def subscribeTask_destroy_def
      task_new_defs item_world_new_def cmd_handler_new_def reg_addItem_def reg_removeItem_def
      sl_addItem_def sl_removeItem_def getFirst_def head_of_def reg_container_def safe_set_new_def
      append_new_def)

theorem task_items_exact_witness:
  "slInIteration (reg_container (chItems (iwHandler example_in_loop)) 7) \<and>
   set (slItems (reg_container (chItems (iwHandler example_in_loop)) 7)) -
     set (slToDelete (reg_container (chItems (iwHandler example_in_loop)) 7)) = {TiEntity 1 7} \<and>
   task_start qt_ref null_uuid (FetcherTask 3 1 ''Value'') example_in_loop \<noteq> None"
proof -
  have "{x \<in> handler_items {FetcherTask 3 1 ''Value'', EntityOwner 1 7}. ti_entityId x = 7} = {TiEntity 1 7}"
    by (auto simp: handler_items_def picked_insert)
  then show ?thesis
    using task_items_exact [OF example_in_loop_reach, of 7 1 "''Value''" qt_ref null_uuid]
    by (simp add: example_in_loop_items)
qed

end
