(* ===== verification/SystemLife.thy ===== *)
theory SystemLife
  imports VeinEvent
begin

text \<open>
  framework/vf-event, life of event systems. A handler does not own the systems it lists; their
  constructors and destructors only count the systems there are. The lemmas show what that asks of
  the application: a system is to be removed from its handler before it is destroyed.
\<close>

section \<open>State and operations\<close>

record ('i, 'h) systems_world =
  swWorld :: "('i, 'h) handler_world"
  swLive :: "'i fset"
  swInstanceCount :: int

definition systems_world_new :: "('i, 'h) systems_world" where
  "systems_world_new =
     \<lparr> swWorld = \<lparr> hwSubsystems = [], hwHandlerOf = fmempty \<rparr>, swLive = {||}, swInstanceCount = 0 \<rparr>"

definition eventSystem_new :: "'i \<Rightarrow> ('i, 'h) systems_world \<Rightarrow> ('i, 'h) systems_world" where
  "eventSystem_new i s =
     s\<lparr> swLive := finsert i (swLive s), swInstanceCount := swInstanceCount s + 1 \<rparr>"

text \<open>The pointer to the handler goes with the object, the handler's list keeps its entry.\<close>

definition eventSystem_destroy :: "'i \<Rightarrow> ('i, 'h) systems_world \<Rightarrow> ('i, 'h) systems_world" where
  "eventSystem_destroy i s =
     s\<lparr> swWorld := (swWorld s)\<lparr>hwHandlerOf := fmdrop i (hwHandlerOf (swWorld s))\<rparr>,
        swLive := swLive s |-| {|i|}, swInstanceCount := swInstanceCount s - 1 \<rparr>"

definition system_instanceCount :: "('i, 'h) systems_world \<Rightarrow> int" where
  "system_instanceCount s = swInstanceCount s"

text \<open>
  What happens: systems are made (at addresses not in use), given to the handler, taken from it, and
  destroyed. The parameter tells whether the application destroys listed systems.
\<close>

inductive system_reach :: "bool \<Rightarrow> 'h \<Rightarrow> ('i, 'h) systems_world \<Rightarrow> bool" for careless :: bool and h :: 'h where
  systems_start: "system_reach careless h systems_world_new"
| system_made: "system_reach careless h s \<Longrightarrow> i |\<notin>| swLive s \<Longrightarrow> system_reach careless h (eventSystem_new i s)"
| system_appended: "system_reach careless h s \<Longrightarrow> i |\<in>| swLive s \<Longrightarrow>
    addSubsystem h i (swWorld s) = Some w \<Longrightarrow> system_reach careless h (s\<lparr>swWorld := w\<rparr>)"
| system_prepended: "system_reach careless h s \<Longrightarrow> i |\<in>| swLive s \<Longrightarrow>
    prependSubsystem h i (swWorld s) = Some w \<Longrightarrow> system_reach careless h (s\<lparr>swWorld := w\<rparr>)"
| system_removed: "system_reach careless h s \<Longrightarrow> i |\<in>| swLive s \<Longrightarrow>
    system_reach careless h (s\<lparr>swWorld := removeSubsystem i (swWorld s)\<rparr>)"
| systems_cleared: "system_reach careless h s \<Longrightarrow>
    system_reach careless h (s\<lparr>swWorld := clearSubsystems (swWorld s)\<rparr>)"
| system_destroyed: "system_reach careless h s \<Longrightarrow> i |\<in>| swLive s \<Longrightarrow>
    careless \<or> i \<notin> set (hwSubsystems (swWorld s)) \<Longrightarrow> system_reach careless h (eventSystem_destroy i s)"

section \<open>Lemmas\<close>

definition systems_ok :: "bool \<Rightarrow> ('i, 'h) systems_world \<Rightarrow> bool" where
  "systems_ok careless s \<longleftrightarrow>
     swInstanceCount s = int (fcard (swLive s)) \<and> fmdom (hwHandlerOf (swWorld s)) |\<subseteq>| swLive s \<and>
     distinct (hwSubsystems (swWorld s)) \<and> (careless \<or> handler_ok (swWorld s))"

lemma attach_keeps:
  assumes "attach h i w = Some w'"
  shows "fmdom (hwHandlerOf w') = finsert i (fmdom (hwHandlerOf w))" and "hwSubsystems w' = hwSubsystems w"
  using assms by (auto simp: attach_def split: if_splits)

lemma systems_ok_add:
  assumes "systems_ok careless s" and "i |\<in>| swLive s" and "i \<notin> set (hwSubsystems (swWorld s))"
    and "distinct xs" and "set xs = insert i (set (hwSubsystems (swWorld s)))"
    and "attach h i ((swWorld s)\<lparr>hwSubsystems := xs\<rparr>) = Some w"
  shows "systems_ok careless (s\<lparr>swWorld := w\<rparr>)"
  using assms attach_keeps [OF assms(6)] by (auto simp: systems_ok_def handler_ok_def)

lemma count_made: "i |\<notin>| L \<Longrightarrow> int (fcard (finsert i L)) = int (fcard L) + 1"
  by (simp add: fcard_finsert_disjoint)

lemma count_destroyed:
  assumes "i |\<in>| L"
  shows "int (fcard (L |-| {|i|})) = int (fcard L) - 1"
proof -
  have "finsert i (L |-| {|i|}) = L" using assms by auto
  with count_made [of i "L |-| {|i|}"] show ?thesis by (metis fminusD2 finsertI1 add_diff_cancel_right')
qed

lemma removeSubsystem_keeps:
  "fmdom (hwHandlerOf (removeSubsystem i w)) |\<subseteq>| fmdom (hwHandlerOf w)"
  "distinct (hwSubsystems w) \<Longrightarrow> distinct (hwSubsystems (removeSubsystem i w))"
  by (auto simp: removeSubsystem_def detach_def Let_def distinct_removeAll)

lemma systems_ok_destroy:
  assumes "systems_ok careless s" and "i |\<in>| swLive s" and "careless \<or> i \<notin> set (hwSubsystems (swWorld s))"
  shows "systems_ok careless (eventSystem_destroy i s)"
  using assms count_destroyed [OF assms(2)]
  by (auto simp: systems_ok_def eventSystem_destroy_def handler_ok_def)

lemma system_reach_ok: "system_reach careless h s \<Longrightarrow> systems_ok careless s"
proof (induction rule: system_reach.induct)
  case (system_appended s i w)
  then show ?case
    using systems_ok_add [of careless s i "hwSubsystems (swWorld s) @ [i]" h w]
    by (auto simp: addSubsystem_def systems_ok_def split: if_splits)
next
  case (system_prepended s i w)
  then show ?case
    using systems_ok_add [of careless s i "i # hwSubsystems (swWorld s)" h w]
    by (auto simp: prependSubsystem_def systems_ok_def split: if_splits)
next
  case (system_removed s i)
  then show ?case
    using removeSubsystem_ok [of "swWorld s" i] removeSubsystem_keeps(1) [of i "swWorld s"]
      removeSubsystem_keeps(2) [of "swWorld s" i]
    by (simp add: systems_ok_def) (meson fsubset_trans)
next
  case (systems_cleared s)
  then show ?case by (auto simp: systems_ok_def clearSubsystems_def handler_ok_def)
next
  case (system_made s i)
  then have "fmdom (hwHandlerOf (swWorld s)) |\<subseteq>| finsert i (swLive s)" by (auto simp: systems_ok_def)
  then show ?case
    using system_made by (simp add: systems_ok_def eventSystem_new_def count_made)
next
  case (system_destroyed s i)
  show ?case by (rule systems_ok_destroy [OF system_destroyed.IH system_destroyed.hyps(2,3)])
qed (simp add: systems_ok_def systems_world_new_def handler_ok_def fcard_fempty)

text \<open>
  The counter is the number of event systems there are; and when the application removes systems
  before it destroys them, every system that the handler dispatches to exists and is attached.
\<close>

theorem event_systems_counted:
  assumes "system_reach careless h s"
  shows "system_instanceCount s = int (fcard (swLive s)) \<and> distinct (hwSubsystems (swWorld s)) \<and>
    (if careless then True
     else \<forall>i \<in> set (hwSubsystems (swWorld s)). i |\<in>| swLive s \<and> i |\<in>| fmdom (hwHandlerOf (swWorld s)))"
  using system_reach_ok [OF assms]
  by (auto simp: systems_ok_def system_instanceCount_def handler_ok_def)

text \<open>A system destroyed without that stays listed, and the next event is handed to it.\<close>

lemma destroyed_system_stays_listed:
  assumes "hwSubsystems (swWorld s) = i # is"
  shows "hwSubsystems (swWorld (eventSystem_destroy i s)) = i # is" and "i |\<notin>| swLive (eventSystem_destroy i s)"
  using assms by (simp_all add: eventSystem_destroy_def)

end
