(* ===== verification/Spec2Isabelle.thy ===== *)
theory Spec2Isabelle
  imports ClientServer Recorder VeinQml Tasks SignatureHandler TcpServer FragmentedPeer TestServer
    Facade DemoSessions Fixtures ComponentLife TaskItems
    SystemLife
begin

text \<open>
  VERIFICATION OF THE VEIN FRAMEWORK

  The framework connects server modules and clients that share entities: an entity has named
  components, each with a value, and remote procedures. Everything happens by command events
  that an event handler offers to its event systems in order, until one of them accepts the
  event. A transaction is a request, a notification a statement of fact. A client sends
  transactions over the network; the module that owns the entity executes them and sends
  notifications; store and network follow the notifications, and the network passes them to the
  clients that have subscribed to the entity.

  THEORIES AND SOURCES (paths below src/)

  Prelude, QtModel, Strings, DataStream: the part of Qt the program uses. Containers are finite
  maps with a listing of their keys, a variant is a datatype of the types that occur, and what
  the sources only call (comparison and conversion of variants, their binary form) is the record
  \<open>qt_lib\<close>, an argument of the definitions that use it. DataStream writes out the
  documented binary form of integers, strings and lists; its locale \<open>codec\<close> gives round
  trips of composed formats.

  VeinEvent: framework/vf-event. Payload base, command event, event handler with attachment,
  and the dispatch loop \<open>customEvent\<close>; the event loop with its queue is
  \<open>run_events\<close>, whose fuel is the number of events dispatched. The locale
  \<open>event_chain\<close> lifts invariants of single systems to dispatch and event loop. SystemLife: event
  systems made, listed, removed and destroyed.

  VeinComponent: framework/vf-component. The five payloads with setters, validity, binary form.

  Database, ServerStorage, ClientStorage, Recorder: framework/vf-storage. \<open>DatabaseHash\<close>
  over a heap of shared component objects, the two event systems that maintain it, the recorder
  and its interpolation, with times and their sums at 32 bits (\<open>None\<close> is an overflow).
  \<open>store_spec\<close> is the abstract store (entities, values, future
  values) and \<open>spec_exec\<close> its operations; the locale \<open>component_store\<close> is what
  readers of a database rely on. ComponentLife counts the component objects there are.

  NetworkSystem, Introspection, Tcp, TcpServer: network/vf-net2 and network/vf-tcp. Envelopes and
  subscriptions, the description sent to a new subscriber, framing of messages on a connection,
  peers and servers, the TCP event system, start of a server and life of the peers. The envelope
  format is generated code and is the record \<open>fb_lib\<close>.

  Actors, PendingCalls, SafeLoop, CmdHandler: convenient-code/lib. Event generators, the items
  that fetch, set, subscribe and invoke procedures, the container that may shrink while it is
  iterated, and the handler that hands events to items. The locale \<open>pending_calls\<close> of
  PendingCalls is the contract of whoever waits for results. ClientStack is the event loop of a
  client, which interprets \<open>event_chain\<close> as the server does; its throw-away items and
  what the application adds are the items of CmdHandler. Tasks: convenient-code/lib/tasks, the
  actors run as tasks of an external library, which is the record \<open>task_lib\<close>. TaskItems: the
  items that these tasks register for as long as they live, with an inductive relation for tasks
  that come and go also during the loops over the items.

  QmlEntity, VeinQml: client-libs/vf-qml/lib. Entities as QML sees them, their directory, and the
  client that subscribes entities and follows their notifications, with an inductive step
  relation for what user interface and network do.

  MockNet, FragmentedPeer: network/vf-tcp/mocknetworklib, the double of the TCP workers within one
  process, and network/vf-tcp/testlib, the worker that hands its socket a message in fractions.

  DumpJson, Spies, TestServer: framework/testlib and framework/vf-component/testlib. The dump of
  the database as JSON, event systems that only watch (\<open>watched\<close> relates a chain with them to
  the chain without), and the server for tests: its operations end by running the event loop
  (\<open>ts_loop\<close>, whose fuel bounds the events dispatched at each depth), which a change of the
  session also does from inside the dispatch of an event.

  VfCpp, RpcSignature: server-libs/vf-cpp. Entity, component and procedure objects of a server
  module, and the textual signatures of procedures. Fixtures: the entities, stores, items and license
  system of the libraries for tests; its entity with procedures of the simple kind does what
  steps of \<open>sr_step\<close> do, which bounds its answers.

  ModulesBase, SystemModule, License, ServerStack, Facade: server-libs/modules-base and
  server-libs/modman-base. Validators, the system entity with its session change, licenses, the
  module manager's event handler with the whole chain of a server, and the facade that builds
  that chain. Lxdm: xsession-change/lib. DemoSessions: xsession-change/demolib, a session file
  made for tests and the system entity over it.
  SignatureHandler: framework/vf-crypto-bridge, signing and verifying of license files, with the
  objects that the OpenSSL library hands out and the caller frees; the library is the record
  \<open>ssl_lib\<close>.

  ServerFlows: single events on their way through the server's chain. ClientServer: a client and
  a server at the two ends of a connection, exchanging bytes. This theory: the properties that
  span components.

  HOW THE MODEL CORRESPONDS TO THE CODE

  An object is a record with the members of its class, a method a function from the old record
  to the new one; what it sends (events, signals, log of changed values) is part of the result,
  in the order it is sent. An event system's \<open>processEvent\<close> yields state, event (which may
  have been accepted or rewritten) and events sent; sending puts an event behind those waiting.
  Slots run while a signal is emitted. Where the source connects them they are part of the model;
  what slots of others do to the system entity while it signals a change of session is the
  argument \<open>evChangeSlots\<close>, because that signal comes before the system is done, and the inputs
  of SystemModule nest to any depth for the same reason. Other signals are recorded, and their
  foreign slots neither call back nor run the event loop before the emitting method is done.
  Errors are the branches of the code. Dereferencing a null pointer or another undefined
  behaviour is the result \<open>None\<close>, in the server \<open>svDown\<close>: no system does anything
  afterwards. Assertions do nothing, as in a release build, but those of the event handler's
  attachment, which are \<open>None\<close>. Strings are Latin-1. Maps are listed in key order, as in Qt, and
  so are hashes, whose order Qt leaves open; no property depends on the order of a hash. Identifiers created at random and the current time are inputs. Loops
  over containers that callees change have fuel: SafeLoop and CmdHandler prove that as much fuel
  as there are items is enough for the loop to end.

  WHAT THE LEMMAS SHOW

  Every stateful component has an invariant that each operation preserves (\<open>db_ok\<close>,
  \<open>server_storage_ok\<close>, \<open>subs_ok\<close>, \<open>tcp_ok\<close>, \<open>entity_ok\<close>,
  \<open>server_inv\<close>, \<open>core_ok\<close>, \<open>vq_ok\<close>, \<open>mock_ok\<close>, \<open>registered_ok\<close>), collected in
  \<open>inv_intros\<close>. Database, storages and subscriptions
  refine abstract specifications. Payloads, envelopes, signatures and the session file have
  round trips. Fragmented messages are reassembled. Calls of procedures end at most once, and
  are answered. Across components: a subscriber's store mirrors the server's, a write reaches
  store and subscribers, a client's request does not write the store itself (a notification from
  a client does, \<open>foreign_notification_written\<close>), and a call runs from the invoker to
  the procedure and back. Progress: a client's write is delivered within three turns of the
  server's event loop, a subscription is sent within three turns of the client's and reported
  within three more once it is answered; these counts are the fuel of \<open>run_events\<close> in the
  statements, which also say that no event is left. Over the wire (\<open>subscription_session\<close>)
  the server needs three turns and one for each component of the entity until the answer is
  written. The test server settles within as many events as it posted when it was built, and each
  of its operations within the two events given to \<open>ts_loop\<close> in the statement; its spies do
  not change what it does (\<open>spy_blind\<close> is the congruence that each operation keeps). On the
  client, the slots of the stack always
  find their item as long as the application does not reenter the loop they run in
  (\<open>nested_loop_meets_null\<close>), the QML state is loaded only when all subscribed entities are there, the
  values shown are those notified, and the 32-bit counter of subscriptions counts modulo
  \<open>2 ^ 32\<close>. Whatever bytes a peer sends, the events made of them are well typed and valid,
  though the codes of a subtype or of a call may stand for nothing. The averages of a recorder's
  block are exact unless the sum of its times overflows. A system
  is licensed only by a file that OpenSSL accepts, and the signature handler frees what it
  allocates once, whatever fails.

  Some lemmas state behaviour that departs from comments or intentions in the code, for instance
  \<open>unsubscriber_never_succeeds\<close>, \<open>unsubscription_never_reported\<close>,
  \<open>known_entity_blocks_loading\<close>, \<open>null_frame_stalls\<close>,
  \<open>readded_item_lost\<close>, \<open>commit_failure_unnoticed\<close>, \<open>array_text_lost\<close>,
  \<open>session_left_unready\<close>, \<open>second_change_during_signal\<close>, \<open>unknown_subtype_changes_session\<close>,
  \<open>second_delay_replaces_first\<close>, \<open>foreign_notification_written\<close>, \<open>nested_loop_meets_null\<close>,
  \<open>call_reaches_other_procedure\<close>, \<open>block_sum_overflows\<close>, \<open>both_names_granted\<close>,
  \<open>cleared_module_stays_attached\<close> and \<open>answer_during_invocation_lost\<close>.

  NOT MODELLED

  The protobuf transport classes, the registration of QML types, and logging. Of modelled classes: destruction of objects other than
  components, event systems, tasks, peers and the objects of OpenSSL, timers that only log, slots of
  an application beyond those described above, threads (a procedure that runs in a
  thread is a queued call, executed one at a time).
\<close>

section \<open>Properties across components\<close>

text \<open>
  C1. A subscription makes the client's store a mirror of the server's. A client's
  subscription to an entity with components registers its peer and leaves the store alone; the
  introspection event it is answered with passes the chain into one envelope for that peer
  only; and the client that receives the envelope from the server and does not know the entity
  yet then has exactly the components, values and procedures that the server's store has.
\<close>

theorem subscription_mirrors_entity:
  fixes env :: stack_env
  assumes "server_inv sv" and "\<not> svDown sv"
    and "ceData e = VEntity d" and "ceSubtype e = TRANSACTION" and "\<not> ceAccepted e"
    and "eaCommand d = ECMD_SUBSCRIBE" and "edEntityId d = i" and "0 \<le> i"
    and "getComponentList (ssDb (svStorage sv)) i \<noteq> []"
    and "db_ok (csDb cl)" and "\<not> hasEntity (csDb cl) i" and "areFutureComponentsEmpty (csDb cl)"
  defines "answer \<equiv> introspection_event (ssDb (svStorage sv)) (ssRpcNames (svStorage sv)) i (cePeerId e)"
  defines "envelope \<equiv> prepareEnvelope (xeFb env) (xeQt env) answer"
  assumes "vd_wf (xeQt env) (ceData answer)"
    and "fb_streams (xeFb env) [\<lparr> feCommand = subtype_code (ceSubtype answer),
           feDataType = vd_type (ceData answer),
           feEventData = Some (vd_serialize (xeQt env) (ceData answer)) \<rparr>]"
    and "\<not> peLocalOrigin p" and "peBuffer p = Some envelope"
  shows "\<exists>sv' e' k later arrived cl'.
    customEvent app_accepted (server_procs env n) sv (CmdEv e) = (sv', e', CmdEv answer # later, k) \<and>
    svStorage sv' = svStorage sv \<and>
    subs_abs (svNet sv') = insert (i, cePeerId e) (subs_abs (svNet sv)) \<and>
    customEvent app_accepted (server_procs env n) sv' (CmdEv answer) =
      (sv', CmdEv answer, [ProtoEv (sendNetworkEvent [cePeerId e] envelope)], n + 6) \<and>
    deserializeIncoming (xeFb env) (xeQt env) p = Some [arrived] \<and>
    cl' = fst (cs_processEvent (xeQt env) cl arrived) \<and> hasEntity (csDb cl') i \<and>
    (\<forall>c. spValue (db_abs (csDb cl')) i c =
      map_option (getValue (ssDb (svStorage sv))) (findComponent (ssDb (svStorage sv)) i c)) \<and>
    qvalue (csRpcNames cl') i [] = qvalue (ssRpcNames (svStorage sv)) i []"
proof -
  let ?db = "ssDb (svStorage sv)" and ?rpcs = "ssRpcNames (svStorage sv)"
  let ?sv = "sv\<lparr>svNet := fst (tryAddSubscription d (cePeerId e) (svNet sv))\<rparr>"
  have mode: "nsOperationMode (svNet sv) = VNOM_SUBSCRIPTION"
    using assms(1) by (simp add: server_inv_def)
  have answer: "answer = \<lparr> cePeerId = cePeerId e, ceSubtype = NOTIFICATION,
      ceData = VIntrospection \<lparr> edOrigin = EO_LOCAL, edTarget = ET_ALL, edEntityId = i,
        idComponentValues = component_values ?db i, idRpcNames = qvalue ?rpcs i [] \<rparr>,
      ceAccepted = False \<rparr>"
    unfolding answer_def by (rule introspection_event_data [OF assms(8)])
  obtain later where first: "customEvent app_accepted (server_procs env n) sv (CmdEv e) =
      (?sv, CmdEv (accept (validated e)), CmdEv answer # later, n + 5)"
    using subscribe_path [OF assms(2) mode assms(3-6), of env n] assms(7,9) by (auto simp: answer_def)
  have subs: "subs_abs (svNet ?sv) = insert (i, cePeerId e) (subs_abs (svNet sv))"
    using subscribed_after [OF assms(6)] assms(7) by simp
  have second: "customEvent app_accepted (server_procs env n) ?sv (CmdEv answer) =
      (?sv, CmdEv answer, [ProtoEv (sendNetworkEvent [cePeerId e] envelope)], n + 6)"
    using introspection_path [of ?sv i "cePeerId e" env n "cePeerId e"] assms(2,8) mode subs
    by (simp add: answer_def envelope_def)
  have valid: "vd_isValid (ceData answer)"
    unfolding answer_def by (rule introspection_answer_valid [OF assms(9,8)])
  let ?d = "\<lparr> edOrigin = EO_FOREIGN, edTarget = ET_IRRELEVANT, edEntityId = i,
        idComponentValues = component_values ?db i, idRpcNames = qvalue ?rpcs i [] \<rparr>"
  let ?arrived = "\<lparr> cePeerId = pePeerId p, ceSubtype = NOTIFICATION, ceData = VIntrospection ?d,
        ceAccepted = False \<rparr>"
  have wire: "deserializeIncoming (xeFb env) (xeQt env) p = Some [?arrived]"
    using envelope_read_back [OF assms(15) valid _ assms(16,17)] assms(18)
    by (simp add: envelope_def answer setEventTarget_def setEventOrigin_def)
  let ?cl = "fst (cs_processEvent (xeQt env) cl ?arrived)"
  have "hasEntity (csDb ?cl) i" "spValue (db_abs (csDb ?cl)) i c = fmlookup (component_values ?db i) c"
    "qvalue (csRpcNames ?cl) i [] = qvalue ?rpcs i []" for c
    using introspection_installs [of cl ?d ?arrived "xeQt env" i c] assms(10-12)
    by (simp_all add: Let_def cs_acceptableOrigin_def del: db_abs_sel)
  then show ?thesis
    using first subs second wire by (intro exI conjI allI) (auto simp: component_values_lookup)
qed

definition mirror_db :: database where
  "mirror_db = db_run qt_ref [InsertEntity 7, InsertValue 7 ''a'' (QBool True)] database_new"

definition mirror_server :: server where
  "mirror_server = example_server\<lparr> svStorage := server_storage_new\<lparr>ssDb := mirror_db\<rparr> \<rparr>"

definition mirror_answer :: vein_event where
  "mirror_answer = introspection_event mirror_db fmempty 7 (Uuid 5)"

definition mirror_stack :: stack_env where
  "mirror_stack = example_stack\<lparr> xeFb := fb_one
     \<lparr> feCommand = subtype_code (ceSubtype mirror_answer), feDataType = vd_type (ceData mirror_answer),
       feEventData = Some (vd_serialize qt_ref (ceData mirror_answer)) \<rparr> \<rparr>"

definition mirror_request :: entity_data where
  "mirror_request = \<lparr> edOrigin = EO_FOREIGN, edTarget = ET_IRRELEVANT, edEntityId = 7,
     eaCommand = ECMD_SUBSCRIBE \<rparr>"

lemma mirror_lookups:
  "getComponentList mirror_db 7 = [''a'']" "getStoredValue mirror_db 7 ''a'' = QBool True"
  "map_option (getValue mirror_db) (findComponent mirror_db 7 ''a'') = Some (QBool True)"
  by code_simp+

lemma mirror_values: "component_values mirror_db 7 = fmupd ''a'' (QBool True) fmempty"
  by (simp add: component_values_def mirror_lookups)

lemma mirror_server_ok: "server_inv mirror_server"
proof -
  have "db_ok mirror_db" unfolding mirror_db_def by (rule db_run_ok) (rule database_new_ok)
  then show ?thesis
    using example_server_inv by (simp add: server_inv_def mirror_server_def server_storage_new_ok ss_ok_db)
qed

theorem subscription_mirrors_entity_witness:
  "\<exists>arrived. deserializeIncoming (xeFb mirror_stack) qt_ref
       \<lparr> peLocalOrigin = False,
         peBuffer = Some (prepareEnvelope (xeFb mirror_stack) qt_ref mirror_answer),
         peReceivers = [], pePeerId = Uuid 1 \<rparr> = Some [arrived] \<and>
     spValue (db_abs (csDb (fst (cs_processEvent qt_ref client_storage_new arrived)))) 7 ''a'' =
       Some (QBool True)"
proof -
  have down: "\<not> svDown mirror_server" "ssDb (svStorage mirror_server) = mirror_db"
    "ssRpcNames (svStorage mirror_server) = fmempty"
    by (simp_all add: mirror_server_def example_server_def server_storage_new_def)
  have fresh: "db_ok (csDb client_storage_new)" "\<not> hasEntity (csDb client_storage_new) 7"
    "areFutureComponentsEmpty (csDb client_storage_new)"
    by (simp_all add: client_storage_new_def database_new_ok hasEntity_def areFutureComponentsEmpty_def
        database_new_def [THEN arg_cong, of dbEntities, simplified]
        database_new_def [THEN arg_cong, of dbFutures, simplified])
  have stack: "xeQt mirror_stack = qt_ref" by (simp add: mirror_stack_def example_stack_def)
  have wf: "vd_wf qt_ref (ceData mirror_answer)"
    by (simp add: mirror_answer_def introspection_event_data id_wf_def mirror_values entity_id_wf_def
        qvalue_def qstringlist_wf_def)
  have streams: "fb_streams (xeFb mirror_stack)
      [\<lparr> feCommand = subtype_code (ceSubtype mirror_answer), feDataType = vd_type (ceData mirror_answer),
         feEventData = Some (vd_serialize qt_ref (ceData mirror_answer)) \<rparr>]"
    by (simp add: mirror_stack_def)
  let ?e = "\<lparr> cePeerId = Uuid 5, ceSubtype = TRANSACTION, ceData = VEntity mirror_request, ceAccepted = False \<rparr>"
  let ?p = "\<lparr> peLocalOrigin = False, peBuffer = Some (prepareEnvelope (xeFb mirror_stack) qt_ref
      mirror_answer), peReceivers = [], pePeerId = Uuid 1 \<rparr>"
  from subscription_mirrors_entity [OF mirror_server_ok down(1), of ?e mirror_request 7
      client_storage_new mirror_stack ?p 0]
  show ?thesis
    using fresh wf streams mirror_lookups
    by (fastforce simp: down stack mirror_request_def mirror_answer_def [symmetric] simp del: db_abs_sel)
qed

text \<open>
  A client's write goes through the module to the store and to all subscribers. Setting a
  writable component of a module to another value is accepted by the module and leaves the store
  alone at first; the module then sends one notification, and its dispatch assigns the value to
  the component in the store, changes nothing else there, and sends one envelope with the
  notification to exactly the subscribers of the entity, each named once.
\<close>

theorem client_write_reaches_store:
  assumes "server_inv sv" and "\<not> svDown sv" and "j < length (svModules sv)"
    and "svModules sv ! j = m"
    and "distinct (map veEntityId (svModules sv))"
    and "ceData e = VComponent d" and "ceSubtype e = TRANSACTION" and "\<not> ceAccepted e"
    and "edEntityId d = veEntityId m" and "0 \<le> veEntityId m" and "cdCommand d = CCMD_SET"
    and "fmlookup (veComponents m) (cdComponentName d) = Some c" and "\<not> fcReadOnly c"
    and "fcEntityId c = veEntityId m"
    and "\<not> qtEq (xeQt env) (cdNewValue d) (fcValue c)" and "qv_valid (cdNewValue d)"
    and "findComponent (ssDb (svStorage sv)) (veEntityId m) (cdComponentName d) = Some r"
  shows "\<exists>sv1 sv2 note payload out subs k l.
    customEvent app_accepted (server_procs env (length (svModules sv))) sv (CmdEv e) =
      (sv1, CmdEv (accept e), [CmdEv note], k) \<and>
    svStorage sv1 = svStorage sv \<and>
    customEvent app_accepted (server_procs env (length (svModules sv))) sv1 (CmdEv note) =
      (sv2, CmdEv note, out, l) \<and>
    ceData note = VComponent payload \<and> cdCommand payload = CCMD_SET \<and>
    edEntityId payload = veEntityId m \<and> cdComponentName payload = cdComponentName d \<and>
    cdNewValue payload = cdNewValue d \<and>
    fmlookup (veComponents (svModules sv2 ! j)) (cdComponentName d) =
      Some (c\<lparr>fcValue := cdNewValue d\<rparr>) \<and>
    db_abs (ssDb (svStorage sv2)) =
      spec_exec (xeQt env) (AssignValue (veEntityId m) (cdComponentName d) (cdNewValue d))
        (db_abs (ssDb (svStorage sv))) \<and>
    distinct subs \<and> set subs = {p. (veEntityId m, p) \<in> subs_abs (svNet sv)} \<and>
    out = (if subs = [] then []
           else [ProtoEv (sendNetworkEvent subs (prepareEnvelope (xeFb env) (xeQt env) note))])"
  using client_write_steps [OF assms] by (elim exE conjE) (intro exI conjI; assumption)

definition write_module :: vf_entity where
  "write_module = (ve_new 7)\<lparr> veComponents := fmupd ''a''
     \<lparr> fcEntityId = 7, fcName = ''a'', fcValue = QBool True, fcReadOnly = False \<rparr> fmempty \<rparr>"

definition write_server :: server where
  "write_server = mirror_server\<lparr> svModules := [write_module] \<rparr>"

definition write_request :: component_data where
  "write_request = \<lparr> edOrigin = EO_FOREIGN, edTarget = ET_IRRELEVANT, edEntityId = 7,
     cdCommand = CCMD_SET, cdComponentName = ''a'', cdNewValue = QBool False, cdOldValue = QInvalid \<rparr>"

theorem client_write_reaches_store_witness:
  "\<exists>sv1 sv2 note out k l.
    customEvent app_accepted (server_procs example_stack 1) write_server (CmdEv \<lparr> cePeerId = Uuid 5,
       ceSubtype = TRANSACTION, ceData = VComponent write_request, ceAccepted = False \<rparr>) =
      (sv1, CmdEv \<lparr> cePeerId = Uuid 5, ceSubtype = TRANSACTION, ceData = VComponent write_request,
         ceAccepted = True \<rparr>, [CmdEv note], k) \<and>
    customEvent app_accepted (server_procs example_stack 1) sv1 (CmdEv note) = (sv2, CmdEv note, out, l) \<and>
    spValue (db_abs (ssDb (svStorage sv2))) 7 ''a'' = Some (QBool False)"
proof -
  let ?e = "\<lparr> cePeerId = Uuid 5, ceSubtype = TRANSACTION, ceData = VComponent write_request,
      ceAccepted = False \<rparr>"
  have "map_option (raw_value mirror_db) (findComponent mirror_db 7 ''a'') = Some (QBool True)"
    by code_simp
  then obtain r where
    r: "findComponent mirror_db 7 ''a'' = Some r" "raw_value mirror_db r = QBool True" by auto
  have inv: "server_inv write_server"
    using mirror_server_ok by (auto simp: write_server_def server_inv_def write_module_def entity_ok_def)
  have sel: "svModules write_server = [write_module]" "\<not> svDown write_server"
    "ssDb (svStorage write_server) = mirror_db" "xeQt example_stack = qt_ref"
    by (simp_all add: write_server_def mirror_server_def example_server_def example_stack_def)
  have m: "veEntityId write_module = 7" by (simp add: write_module_def ve_new_def)
  let ?c = "\<lparr> fcEntityId = 7, fcName = ''a'', fcValue = QBool True, fcReadOnly = False \<rparr>"
  have c: "fmlookup (veComponents write_module) (cdComponentName write_request) = Some ?c"
    by (simp add: write_module_def write_request_def)
  have d: "edEntityId write_request = veEntityId write_module" "cdCommand write_request = CCMD_SET"
    "\<not> qtEq (xeQt example_stack) (cdNewValue write_request) (fcValue ?c)"
    "qv_valid (cdNewValue write_request)"
    "findComponent (ssDb (svStorage write_server)) (veEntityId write_module)
       (cdComponentName write_request) = Some r"
    by (simp_all add: m sel r write_request_def qv_valid_def)
  have "0 < length (svModules write_server)" "svModules write_server ! 0 = write_module"
    "distinct (map veEntityId (svModules write_server))"
    "ceData ?e = VComponent write_request" "ceSubtype ?e = TRANSACTION" "\<not> ceAccepted ?e"
    "0 \<le> veEntityId write_module" "\<not> fcReadOnly ?c" "fcEntityId ?c = veEntityId write_module"
    by (simp_all add: sel m)
  note * = client_write_reaches_store [OF inv sel(2) this(1-6) d(1) this(7) d(2) c this(8,9) d(3-5)]
  have "spValue (spec_exec qt_ref (AssignValue 7 ''a'' (QBool False)) (db_abs mirror_db)) 7 ''a'' =
      Some (QBool False)"
    using r by (simp add: assign_def)
  then have "spValue (spec_exec (xeQt example_stack) (AssignValue (veEntityId write_module)
      (cdComponentName write_request) (cdNewValue write_request))
      (db_abs (ssDb (svStorage write_server)))) 7 ''a'' = Some (QBool False)"
    by (simp only: sel m) (simp add: write_request_def)
  moreover obtain sv1 sv2 nt snt k l where
    "customEvent app_accepted (server_procs example_stack (length (svModules write_server)))
       write_server (CmdEv ?e) = (sv1, CmdEv (accept ?e), [CmdEv nt], k)"
    "customEvent app_accepted (server_procs example_stack (length (svModules write_server))) sv1
       (CmdEv nt) = (sv2, CmdEv nt, snt, l)"
    "db_abs (ssDb (svStorage sv2)) = spec_exec (xeQt example_stack) (AssignValue
       (veEntityId write_module) (cdComponentName write_request) (cdNewValue write_request))
       (db_abs (ssDb (svStorage write_server)))"
    using * by (elim exE conjE) (rule that)
  moreover have "length (svModules write_server) = 1" by (simp add: sel)
  moreover have "accept ?e = \<lparr> cePeerId = Uuid 5, ceSubtype = TRANSACTION,
      ceData = VComponent write_request, ceAccepted = True \<rparr>" by (simp add: accept_def)
  ultimately show ?thesis by metis
qed

text \<open>
  C29. Start-up publishes the system entity: a server whose store does not know entity 0 and
  waits for no component has, after the events of the system module's initialisation, exactly
  that entity more, with precisely the components of the module's table at their initial values
  and the module interface description in place of its empty entry.
\<close>

theorem system_entity_published:
  assumes "server_storage_ok st" and "\<not> hasEntity (ssDb st) 0"
    and "areFutureComponentsEmpty (ssDb st)" and "\<not> smInitDone s"
  shows "let st' = store_events qt (snd (sm_initOnce env s)) st;
             s1 = setScpiInfo env s in
    (\<forall>i. hasEntity (ssDb st') i = (i = 0 \<or> hasEntity (ssDb st) i)) \<and>
    (\<forall>i c. spValue (db_abs (ssDb st')) i c =
      (if i \<noteq> 0 then spValue (db_abs (ssDb st)) i c
       else if c = ''INF_ModuleInterface'' then Some (QBytes (setModuleInterface env s1))
       else fmlookup (initial_components env s1) c))"
proof -
  let ?s1 = "setScpiInfo env s" and ?m = "initial_components env (setScpiInfo env s)"
  let ?f = "\<lambda>n. if n = ''INF_ModuleInterface'' then QBytes (setModuleInterface env ?s1)
      else qvalue ?m n QInvalid"
  let ?st = "fst (ss_processEvent qt st (server_entity_add 0))"
  let ?st' = "store_events qt (map (\<lambda>n. server_component_add 0 n (?f n)) (qkeys ?m)) ?st"
  have run: "store_events qt (snd (sm_initOnce env s)) st = ?st'"
    using assms(4) by (simp add: sm_initOnce_def Let_def)
  have new: "0 \<notin> spEntities (db_abs (ssDb st))" using assms(2) by (simp add: hasEntity_def)
  have abs: "db_abs (ssDb ?st) = spec_exec qt (InsertEntity 0) (db_abs (ssDb st))"
    using assms(1) new
    by (simp add: store_event_abs entity_add_request grant_def del: db_abs_sel spec_exec.simps)
  have "\<forall>n. spFuture (db_abs (ssDb st)) 0 n = None"
    using assms(3) by (simp add: find_defs areFutureComponentsEmpty_def)
  then have adds: "spEntities (db_abs (ssDb ?st')) = spEntities (db_abs (ssDb ?st)) \<and>
      (\<forall>i c. spValue (db_abs (ssDb ?st')) i c = (if i = 0 \<and> c \<in> set (qkeys ?m)
         then Some (?f c) else spValue (db_abs (ssDb ?st)) i c))"
    using ss_processEvent_ok [OF assms(1)]
    by (intro store_adds) (simp_all add: abs distinct_qkeys del: db_abs_sel)
  have entities: "hasEntity (ssDb x) i = (i \<in> spEntities (db_abs (ssDb x)))" for x i
    by (simp add: hasEntity_def)
  have "''INF_ModuleInterface'' \<in> set (qkeys ?m)"
    by (simp add: qkeys_lookup initial_components_def)
  moreover have "fmlookup ?m c = (if c \<in> set (qkeys ?m) then Some (qvalue ?m c QInvalid) else None)" for c
    by (auto simp: qkeys_lookup qvalue_def)
  ultimately show ?thesis
    unfolding run Let_def entities using adds by (simp add: abs del: db_abs_sel)
qed

theorem system_entity_published_witness:
  "spValue (db_abs (ssDb (store_events qt_ref (snd (sm_initOnce example_env example_system))
     server_storage_new))) 0 ''EntityName'' = Some (QStr ''_System'')"
proof -
  have "\<not> hasEntity (ssDb server_storage_new) 0" "areFutureComponentsEmpty (ssDb server_storage_new)"
    "\<not> smInitDone example_system"
    by (simp_all add: server_storage_new_def database_new_def hasEntity_def areFutureComponentsEmpty_def
        example_simps)
  from system_entity_published [OF server_storage_new_ok this, of qt_ref example_env]
  show ?thesis by (simp add: Let_def initial_components_def del: db_abs_sel)
qed





text \<open>
  C2. A subscription over the wire succeeds. A client and a server have an open connection with
  nothing under way. The client subscribes to an entity with components that the server's store
  knows and runs its event loop for three turns; what is then on its socket arrives at the
  server, which runs its event loop for four turns and one per component; what is then on the
  server's socket arrives at the client, which runs for three more turns. Then the server has
  entered this client, and no other subscription, for the entity, and the client has emitted
  \<open>sigSubscribed\<close> with success once for this call and once for each earlier one that
  still waited; the item of the call is no longer pending.
\<close>

theorem subscription_over_the_wire:
  assumes "core_reach ap k" and "app_ok ap" and "\<not> ksDown k" and "plain_stack k"
    and "ptr |\<notin>| fmdom (spPending (ksPending k))"
    and "server_inv sv" and "\<not> svDown sv" and "getComponentList (ssDb (svStorage sv)) i \<noteq> []"
    and "0 \<le> i" and "open_connection (ksTcp k) p j" and "open_connection (svTcp sv) q u"
    and "apQt ap = xeQt env" and "apFb ap = xeFb env"
    and "transmissible (xeFb env) (xeQt env) (subscriber_generateEvent i)"
    and "transmissible (xeFb env) (xeQt env)
         (introspection_event (ssDb (svStorage sv)) (ssRpcNames (svStorage sv)) i u)"
    and "subscription_session idsC idsS ap env n ptr pos i p q k sv = (k3, sv1)"
  shows "subs_abs (svNet sv1) = insert (i, u) (subs_abs (svNet sv)) \<and>
    spSignals (ksPending k3) = spSignals (ksPending k) @
      replicate (Suc (length (filter (\<lambda>x. ciKind x = SubscriberItem) (entity_items k i))))
        (StackSubscribed True i) \<and>
    ptr |\<notin>| fmdom (spPending (ksPending k3))"
  by (rule session_steps [OF assms])

definition wire_request :: vein_event where
  "wire_request = subscriber_generateEvent 7"

definition wire_event :: "vein_event \<Rightarrow> flat_event" where
  "wire_event e = \<lparr> feCommand = subtype_code (ceSubtype e), feDataType = vd_type (ceData e),
     feEventData = Some (vd_serialize qt_ref (ceData e)) \<rparr>"

definition wire_fb :: fb_lib where
  "wire_fb = \<lparr> fbVerify = (\<lambda>bs. bs = [1] \<or> bs = [2]),
     fbEvents = (\<lambda>bs. Some [wire_event (if bs = [1] then wire_request else mirror_answer)]),
     fbBuild = (\<lambda>es. if es = [wire_event wire_request] then [1] else [2]) \<rparr>"

lemma wire_fb_streams: "e \<in> {wire_request, mirror_answer} \<Longrightarrow> fb_streams wire_fb [wire_event e]"
proof -
  have "wire_event wire_request \<noteq> wire_event mirror_answer"
    by (simp add: wire_event_def wire_request_def mirror_answer_def introspection_event_data
        subscriber_generateEvent_def commandEvent_new_def)
  then show "e \<in> {wire_request, mirror_answer} \<Longrightarrow> fb_streams wire_fb [wire_event e]"
    by (auto simp: fb_streams_def wire_fb_def)
qed

lemma wire_transmissible:
  "transmissible wire_fb qt_ref wire_request" "transmissible wire_fb qt_ref mirror_answer"
proof -
  have short: "message_ok (prepareEnvelope wire_fb qt_ref e)" for e
    by (simp add: prepareEnvelope_def wire_fb_def message_ok_def)
  have "vd_wf qt_ref (ceData wire_request)" "vd_wf qt_ref (ceData mirror_answer)"
    by (simp_all add: wire_request_def subscriber_generateEvent_def entity_event_data_def vein_defs
        entity_id_wf_def ea_wf_def mirror_answer_def introspection_event_data id_wf_def mirror_values
        qvalue_def qstringlist_wf_def record_glue)
  then show "transmissible wire_fb qt_ref wire_request" "transmissible wire_fb qt_ref mirror_answer"
    using wire_fb_streams [of wire_request] wire_fb_streams [of mirror_answer] short
    by (simp_all add: transmissible_def wire_event_def)
qed

definition wire_app :: "unit client_app" where
  "wire_app = quiet_app\<lparr>apFb := wire_fb\<rparr>"

definition wire_server :: server where
  "wire_server = mirror_server\<lparr>svTcp := example_tcp\<rparr>"

theorem subscription_over_the_wire_witness:
  "\<exists>k3 sv1. subscription_session (\<lambda>n. Uuid n) (\<lambda>n. Uuid n) wire_app (mirror_stack\<lparr>xeFb := wire_fb\<rparr>) 0 1 0 7 2 1
       (example_client\<lparr>ksTcp := example_tcp\<rparr>) wire_server = (k3, sv1) \<and>
     subs_abs (svNet sv1) = {(7, Uuid 5)} \<and> spSignals (ksPending k3) = [StackSubscribed True 7]"
proof -
  let ?k = "example_client\<lparr>ksTcp := example_tcp\<rparr>"
  let ?env = "mirror_stack\<lparr>xeFb := wire_fb\<rparr>"
  have k: "core_reach wire_app ?k"
    by (intro reach_sockets reach_init [OF example_client_init] example_tcp_ok)
  have app: "app_ok wire_app" using quiet_app_ok by (simp add: wire_app_def app_ok_def)
  have fresh: "\<not> ksDown ?k" "plain_stack ?k" "1 |\<notin>| fmdom (spPending (ksPending ?k))"
    "entity_items ?k 7 = []" "spSignals (ksPending ?k) = []"
    by (simp_all add: example_client_def core_client_init_def addSubsystem_def attach_def
        plain_stack_def entity_items_def cmd_handler_new_def reg_container_def safe_set_new_def)
  have server: "server_inv wire_server" "\<not> svDown wire_server" "ssDb (svStorage wire_server) = mirror_db"
    "ssRpcNames (svStorage wire_server) = fmempty" "subs_abs (svNet wire_server) = {}"
    using mirror_server_ok example_tcp_ok
    by (simp_all add: wire_server_def mirror_server_def example_server_def server_inv_def
        server_storage_new_def subs_abs_def network_system_new_def)
  have conn: "open_connection (ksTcp ?k) 2 (Uuid 6)" "open_connection (svTcp wire_server) 1 (Uuid 5)"
    by (simp_all add: wire_server_def open_connection_def example_tcp_def tcpPeerWorker_new_def)
  have libs: "apQt wire_app = xeQt ?env" "apFb wire_app = xeFb ?env"
    "xeFb ?env = wire_fb" "xeQt ?env = qt_ref"
    by (simp_all add: wire_app_def mirror_stack_def example_stack_def quiet_app_def)
  obtain k3 sv1 where run: "subscription_session (\<lambda>n. Uuid n) (\<lambda>n. Uuid n) wire_app ?env 0 1 0 7 2 1 ?k
      wire_server = (k3, sv1)" by fastforce
  have "subs_abs (svNet sv1) = insert (7, Uuid 5) (subs_abs (svNet wire_server)) \<and>
      spSignals (ksPending k3) = spSignals (ksPending ?k) @
        replicate (Suc (length (filter (\<lambda>x. ciKind x = SubscriberItem) (entity_items ?k 7))))
          (StackSubscribed True 7) \<and>
      1 |\<notin>| fmdom (spPending (ksPending k3))"
    using wire_transmissible
    by (intro subscription_over_the_wire [OF k app fresh(1-3) server(1,2) _ _ conn libs(1,2) _ _ run])
       (simp_all only: libs server(3,4) mirror_lookups wire_request_def mirror_answer_def, simp_all)
  then show ?thesis using run fresh(4,5) server(5) by simp
qed

end
